(* ===== verification/Prelude.thy ===== *)
theory Prelude
  imports Complex_Main "HOL-Library.AList" "HOL-Library.Sublist" "HOL-Library.State_Monad"
    "HOL-Library.Char_ord" "HOL-Library.List_Lexorder"
begin

text \<open>
  Shared vocabulary of the development: how Python values are represented, and the
  generic lemmas the components use.

  \<^item> A Python \<open>float\<close> is a \<^typ>\<open>real\<close>: every comparison, sum and quotient of the code is
    written out as it stands and computed exactly, without the rounding of IEEE doubles.
    Values that are not finite appear where the code looks for them (theory Features).
  \<^item> A Python \<open>int\<close> is an \<^typ>\<open>int\<close>, a \<open>str\<close> a \<^typ>\<open>string\<close> (one character per Latin-1 code point).
  \<^item> A \<open>dict\<close> is an association list in insertion order, read by \<^const>\<open>map_of\<close>, written by
    \<^const>\<open>AList.update\<close> (which keeps the place of a key that is present and appends one that
    is not, as Python does) and \<^const>\<open>AList.delete\<close>.
  \<^item> A \<open>deque\<close> is a list with its left end first.
  \<^item> An ISO timestamp string is represented by the instant it renders, an integer number
    of microseconds, the resolution of \<open>datetime\<close>.
\<close>

named_theorems dict_simps "reading a dictionary after a write"
named_theorems keeps_intros "compositional preservation rules for stateful code"

type_synonym ('k, 'v) pydict = "('k \<times> 'v) list"

abbreviation dkeys :: "('k, 'v) pydict \<Rightarrow> 'k list" where
  "dkeys d \<equiv> map fst d"

abbreviation wf_dict :: "('k, 'v) pydict \<Rightarrow> bool" where
  "wf_dict d \<equiv> distinct (map fst d)"

subsection \<open>Dictionaries\<close>

lemma dget_update [dict_simps, simp]: "map_of (AList.update k v d) k' = (if k' = k then Some v else map_of d k')"
  by (simp add: update_conv')

lemma dget_delete [dict_simps, simp]: "map_of (AList.delete k d) k' = (if k' = k then None else map_of d k')"
  by (simp add: delete_conv')

lemma wf_dict_update [simp, intro]: "wf_dict d \<Longrightarrow> wf_dict (AList.update k v d)"
  by (rule distinct_update)

lemma wf_dict_delete [simp, intro]: "wf_dict d \<Longrightarrow> wf_dict (AList.delete k d)"
  by (rule distinct_delete)

lemma dkeys_update [dict_simps]:
  "dkeys (AList.update k v d) = (if k \<in> set (dkeys d) then dkeys d else dkeys d @ [k])"
  by (rule update_keys)

lemma dkeys_delete [dict_simps]: "dkeys (AList.delete k d) = removeAll k (dkeys d)"
  by (rule delete_keys)

lemma set_dkeys_update [simp]: "fst ` set (AList.update k v d) = insert k (fst ` set d)"
  using dkeys_update [of k v d] by (metis (no_types, lifting) insert_absorb list.set_map set_append
      list.simps(15) empty_set Un_insert_right sup_bot.right_neutral)

lemma set_dkeys_delete [simp]: "fst ` set (AList.delete k d) = fst ` set d - {k}"
  using dkeys_delete [of k d] by (metis list.set_map set_removeAll)

lemma dget_None_iff: "map_of d k = None \<longleftrightarrow> k \<notin> fst ` set d"
  by (rule map_of_eq_None_iff)

lemma dget_Some_iff: "wf_dict d \<Longrightarrow> map_of d k = Some v \<longleftrightarrow> (k, v) \<in> set d"
  by simp

lemma set_update_wf: "wf_dict d \<Longrightarrow> set (AList.update k v d) = insert (k, v) {p \<in> set d. fst p \<noteq> k}"
proof -
  assume wf: "wf_dict d"
  have "p \<in> set (AList.update k v d) \<longleftrightarrow> p = (k, v) \<or> (p \<in> set d \<and> fst p \<noteq> k)" for p
  proof -
    have "p \<in> set (AList.update k v d) \<longleftrightarrow> map_of (AList.update k v d) (fst p) = Some (snd p)"
      using dget_Some_iff [OF wf_dict_update [OF wf], of k v "fst p" "snd p"] by simp
    also have "\<dots> \<longleftrightarrow> p = (k, v) \<or> (p \<in> set d \<and> fst p \<noteq> k)"
      using wf by (cases p) auto
    finally show ?thesis .
  qed
  then show ?thesis by blast
qed

lemma set_delete: "set (AList.delete k d) = {p \<in> set d. fst p \<noteq> k}"
  by (auto simp: AList.delete_eq)

lemma length_delete_le: "length (AList.delete k d) \<le> length d"
  by (simp add: AList.delete_eq)

subsection \<open>The last \<open>n\<close> elements: \<open>xs[-n:]\<close> for a positive \<open>n\<close>\<close>

definition last_n :: "nat \<Rightarrow> 'a list \<Rightarrow> 'a list" where
  "last_n n xs = drop (length xs - n) xs"

lemma length_last_n [simp]: "length (last_n n xs) = min n (length xs)"
  by (simp add: last_n_def)

lemma last_n_short [simp]: "length xs \<le> n \<Longrightarrow> last_n n xs = xs"
  by (simp add: last_n_def)

lemma suffix_last_n: "suffix (last_n n xs) xs"
  by (simp add: last_n_def suffix_drop)

lemma set_last_n: "set (last_n n xs) \<subseteq> set xs"
  by (simp add: last_n_def set_drop_subset)

lemma distinct_last_n [simp, intro]: "distinct xs \<Longrightarrow> distinct (last_n n xs)"
  by (simp add: last_n_def distinct_drop)

lemma last_n_snoc: "0 < n \<Longrightarrow> last_n n (xs @ [x]) = last_n (n - 1) xs @ [x]"
  by (simp add: last_n_def Suc_diff_le)

lemma last_n_append_last_n: "last_n n (last_n n xs @ ys) = last_n n (xs @ ys)"
  by (cases "length xs \<le> n") (auto simp: last_n_def add.commute)

lemma last_n_idem [simp]: "last_n n (last_n n xs) = last_n n xs"
  by simp

lemma last_n_last_n: "a \<le> b \<Longrightarrow> last_n a (last_n b xs) = last_n a xs"
  by (cases "length xs \<le> b") (simp_all add: last_n_def)

lemma in_last_n_snoc: "0 < n \<Longrightarrow> x \<in> set (last_n n (xs @ [x]))"
  by (simp add: last_n_snoc)

subsection \<open>Filtering through a partial function\<close>

lemma map_filter_append: "List.map_filter f (xs @ ys) = List.map_filter f xs @ List.map_filter f ys"
  by (induction xs) (auto simp: List.map_filter_simps split: option.splits)

subsection \<open>Stateful code: the state monad and what it keeps\<close>

text \<open>
  A method that updates its object is a \<^typ>\<open>('s, 'a) state\<close>. \<open>keeps I m\<close> says that running \<open>m\<close>
  from any state with \<open>I\<close> ends in one with \<open>I\<close>; its rules follow the syntax of the code, so
  that an invariant is proved once per primitive write and lifted by \<open>intro keeps_intros\<close>.
\<close>

definition gets :: "('s \<Rightarrow> 'a) \<Rightarrow> ('s, 'a) state" where
  "gets f = State (\<lambda>s. (f s, s))"

definition modify :: "('s \<Rightarrow> 's) \<Rightarrow> ('s, unit) state" where
  "modify f = State (\<lambda>s. ((), f s))"

fun for_each :: "'a list \<Rightarrow> ('a \<Rightarrow> ('s, unit) state) \<Rightarrow> ('s, unit) state" where
  "for_each [] f = State_Monad.return ()"
| "for_each (x # xs) f = do { f x; for_each xs f }"

definition whenM :: "bool \<Rightarrow> ('s, unit) state \<Rightarrow> ('s, unit) state" where
  "whenM b m = (if b then m else State_Monad.return ())"

lemma run_gets [simp]: "run_state (gets f) s = (f s, s)"
  by (simp add: gets_def)

lemma run_modify [simp]: "run_state (modify f) s = ((), f s)"
  by (simp add: modify_def)

lemma run_whenM [simp]: "run_state (whenM b m) s = (if b then run_state m s else ((), s))"
  by (simp add: whenM_def)

definition keeps :: "('s \<Rightarrow> bool) \<Rightarrow> ('s, 'a) state \<Rightarrow> bool" where
  "keeps I m \<longleftrightarrow> (\<forall>s. I s \<longrightarrow> I (snd (run_state m s)))"

lemma keepsD: "keeps I m \<Longrightarrow> I s \<Longrightarrow> I (snd (run_state m s))"
  by (simp add: keeps_def)

lemma keeps_run: "keeps I m \<Longrightarrow> I s \<Longrightarrow> run_state m s = (a, t) \<Longrightarrow> I t"
  by (metis keepsD snd_conv)

lemma keeps_return [keeps_intros]: "keeps I (State_Monad.return x)"
  by (simp add: keeps_def)

lemma keeps_gets [keeps_intros]: "keeps I (gets f)"
  by (simp add: keeps_def)

lemma keeps_modify [keeps_intros]: "(\<And>s. I s \<Longrightarrow> I (f s)) \<Longrightarrow> keeps I (modify f)"
  by (simp add: keeps_def)

lemma keeps_bind [keeps_intros]:
  "keeps I m \<Longrightarrow> (\<And>x. keeps I (f x)) \<Longrightarrow> keeps I (State_Monad.bind m f)"
  by (auto simp: keeps_def split: prod.splits)

lemma keeps_if [keeps_intros]:
  "(b \<Longrightarrow> keeps I m) \<Longrightarrow> (\<not> b \<Longrightarrow> keeps I n) \<Longrightarrow> keeps I (if b then m else n)"
  by simp

lemma keeps_whenM [keeps_intros]: "(b \<Longrightarrow> keeps I m) \<Longrightarrow> keeps I (whenM b m)"
  by (simp add: whenM_def keeps_return)

lemma keeps_let [keeps_intros]: "(\<And>x. keeps I (f x)) \<Longrightarrow> keeps I (let x = t in f x)"
  by simp

lemma keeps_case_option [keeps_intros]:
  "(x = None \<Longrightarrow> keeps I m) \<Longrightarrow> (\<And>a. x = Some a \<Longrightarrow> keeps I (f a)) \<Longrightarrow>
   keeps I (case x of None \<Rightarrow> m | Some a \<Rightarrow> f a)"
  by (cases x) auto

lemma keeps_case_prod [keeps_intros]:
  "(\<And>a b. keeps I (f a b)) \<Longrightarrow> keeps I (case x of (a, b) \<Rightarrow> f a b)"
  by (cases x) auto

lemma keeps_for_each [keeps_intros]: "(\<And>x. keeps I (f x)) \<Longrightarrow> keeps I (for_each xs f)"
  by (induction xs) (auto intro!: keeps_intros)

subsection \<open>Computations that may raise\<close>

text \<open>A function that may raise returns a sum, the error on the left; the rest runs on a result only.\<close>

definition bindE :: "'e + 'a \<Rightarrow> ('a \<Rightarrow> 'e + 'b) \<Rightarrow> 'e + 'b" where
  "bindE m f = (case m of Inl e \<Rightarrow> Inl e | Inr x \<Rightarrow> f x)"

primrec foldE :: "('a \<Rightarrow> 's \<Rightarrow> 'e + 's) \<Rightarrow> 'a list \<Rightarrow> 's \<Rightarrow> 'e + 's" where
  "foldE f [] s = Inr s"
| "foldE f (x # xs) s = bindE (f x s) (foldE f xs)"

primrec mapE :: "('a \<Rightarrow> 'e + 'b) \<Rightarrow> 'a list \<Rightarrow> 'e + 'b list" where
  "mapE f [] = Inr []"
| "mapE f (x # xs) = bindE (f x) (\<lambda>y. bindE (mapE f xs) (\<lambda>ys. Inr (y # ys)))"

lemma bindE_simps [simp]: "bindE (Inl e) f = Inl e" "bindE (Inr x) f = f x"
  by (simp_all add: bindE_def)

lemma bindE_Inr_iff: "bindE m f = Inr y \<longleftrightarrow> (\<exists>x. m = Inr x \<and> f x = Inr y)"
  by (cases m) simp_all

lemma bindE_assoc [simp]: "bindE (bindE m f) g = bindE m (\<lambda>x. bindE (f x) g)"
  by (cases m) simp_all

lemma foldE_append [simp]: "foldE f (xs @ ys) s = bindE (foldE f xs s) (foldE f ys)"
  by (induction xs arbitrary: s) (simp_all add: bindE_def split: sum.split)

lemma foldE_invariant:
  assumes "foldE f xs s = Inr t" and "I [] s"
    and "\<And>past x s t. I past s \<Longrightarrow> x \<in> set xs \<Longrightarrow> f x s = Inr t \<Longrightarrow> I (past @ [x]) t"
  shows "I xs t"
  using assms
proof (induction xs arbitrary: t rule: rev_induct)
  case (snoc x xs)
  then obtain u where u: "foldE f xs s = Inr u" "f x u = Inr t" by (auto simp: bindE_Inr_iff)
  have "I xs u" by (rule snoc.IH [OF u(1) snoc.prems(2)]) (auto intro: snoc.prems(3))
  then show ?case using u(2) by (auto intro: snoc.prems(3))
qed simp

lemma mapE_Inr_iff: "mapE f xs = Inr ys \<longleftrightarrow> list_all2 (\<lambda>x y. f x = Inr y) xs ys"
  by (induction xs arbitrary: ys) (auto simp: bindE_Inr_iff list_all2_Cons1)

lemma mapE_total: "(\<And>x. x \<in> set xs \<Longrightarrow> f x = Inr (g x)) \<Longrightarrow> mapE f xs = Inr (map g xs)"
  by (induction xs) simp_all

subsection \<open>Sliding time windows\<close>

text \<open>
  The heuristic detector, the brute-force policy and the telemetry collector all keep a
  \<open>deque\<close> of stamped entries: they append the new entry on the right and pop from the left
  while the left end is too old. \<open>stale now x\<close> is the guard of the popping loop.
\<close>

definition trim :: "(real \<Rightarrow> 'a \<Rightarrow> bool) \<Rightarrow> real \<Rightarrow> 'a list \<Rightarrow> 'a list" where
  "trim stale now q = dropWhile (stale now) q"

definition push_trim :: "(real \<Rightarrow> 'a \<Rightarrow> bool) \<Rightarrow> real \<Rightarrow> 'a \<Rightarrow> 'a list \<Rightarrow> 'a list" where
  "push_trim stale now x q = trim stale now (q @ [x])"

text \<open>Per-key windows: \<open>d.setdefault(k, deque())\<close>, append, pop; a missing key is an empty window.\<close>

definition window :: "('k, 'a list) pydict \<Rightarrow> 'k \<Rightarrow> 'a list" where
  "window d k = (case map_of d k of None \<Rightarrow> [] | Some q \<Rightarrow> q)"

definition append_window ::
    "(real \<Rightarrow> 'a \<Rightarrow> bool) \<Rightarrow> real \<Rightarrow> 'k \<Rightarrow> 'a \<Rightarrow> ('k, 'a list) pydict \<Rightarrow> ('k, 'a list) pydict" where
  "append_window stale now k x d = AList.update k (push_trim stale now x (window d k)) d"

definition trim_window_at ::
    "(real \<Rightarrow> 'a \<Rightarrow> bool) \<Rightarrow> real \<Rightarrow> 'k \<Rightarrow> ('k, 'a list) pydict \<Rightarrow> ('k, 'a list) pydict" where
  "trim_window_at stale now k d =
     (case map_of d k of None \<Rightarrow> d | Some q \<Rightarrow> AList.update k (trim stale now q) d)"

lemma window_Nil [simp]: "window [] k = []"
  by (simp add: window_def)

lemma window_append [simp]:
  "window (append_window stale now k x d) k' =
     (if k' = k then push_trim stale now x (window d k) else window d k')"
  by (simp add: append_window_def window_def)

lemma trim_Nil [simp]: "trim stale now [] = []"
  by (simp add: trim_def)

lemma window_trim_at [simp]:
  "window (trim_window_at stale now k d) k' =
     (if k' = k then trim stale now (window d k) else window d k')"
  by (auto simp: trim_window_at_def window_def split: option.splits)

lemma window_delete [simp]: "window (AList.delete k d) k' = (if k' = k then [] else window d k')"
  by (simp add: window_def)

lemma dkeys_append_window [simp]:
  "fst ` set (append_window stale now k x d) = insert k (fst ` set d)"
  by (simp add: append_window_def)

lemma dkeys_trim_window_at [simp]: "fst ` set (trim_window_at stale now k d) = fst ` set d"
proof (cases "map_of d k")
  case (Some q)
  then have "k \<in> fst ` set d" using dget_None_iff [of d k] by auto
  with Some show ?thesis by (simp add: trim_window_at_def insert_absorb)
qed (simp add: trim_window_at_def)

lemma set_trim: "set (trim stale now q) \<subseteq> set q"
  by (auto simp: trim_def dest: set_dropWhileD)

lemma length_trim_le: "length (trim stale now q) \<le> length q"
  by (simp add: trim_def length_dropWhile_le)

locale time_window =
  fixes stale :: "real \<Rightarrow> 'a \<Rightarrow> bool"
    and stamp :: "'a \<Rightarrow> real"
  assumes stale_older: "stamp y \<le> stamp x \<Longrightarrow> stale now x \<Longrightarrow> stale now y"
    and stale_later: "stale now x \<Longrightarrow> now \<le> now' \<Longrightarrow> stale now' x"
    and fresh_now: "stamp x = now \<Longrightarrow> \<not> stale now x"
begin

text \<open>On entries in order of arrival the popping loop removes exactly the stale ones.\<close>

lemma trim_sorted:
  "sorted (map stamp q) \<Longrightarrow> trim stale now q = filter (\<lambda>x. \<not> stale now x) q"
proof (induction q)
  case Nil
  then show ?case by (simp add: trim_def)
next
  case (Cons x q)
  show ?case
  proof (cases "stale now x")
    case True
    with Cons show ?thesis by (simp add: trim_def)
  next
    case False
    with Cons.prems have "\<forall>y\<in>set (x # q). \<not> stale now y"
      using stale_older by auto
    then show ?thesis by (simp add: trim_def)
  qed
qed

lemma filter_fresh_later:
  "now \<le> now' \<Longrightarrow>
   filter (\<lambda>x. \<not> stale now' x) (filter (\<lambda>x. \<not> stale now x) q) = filter (\<lambda>x. \<not> stale now' x) q"
  using stale_later by (auto simp: intro!: filter_cong)

lemma sorted_filter_stamp:
  "sorted (map stamp q) \<Longrightarrow> sorted (map stamp (filter P q))"
  by (rule sorted_filter)

lemma push_trim_window:
  assumes "sorted (map stamp (h @ [x]))" and "t \<le> stamp x"
  shows "push_trim stale (stamp x) x (filter (\<lambda>y. \<not> stale t y) h)
       = filter (\<lambda>y. \<not> stale (stamp x) y) (h @ [x])"
proof -
  let ?q = "filter (\<lambda>y. \<not> stale t y) h @ [x]"
  have "sorted (map stamp ?q)"
    using assms(1) by (auto simp: sorted_append sorted_filter)
  then have "push_trim stale (stamp x) x (filter (\<lambda>y. \<not> stale t y) h)
      = filter (\<lambda>y. \<not> stale (stamp x) y) ?q"
    unfolding push_trim_def by (rule trim_sorted)
  then show ?thesis
    using filter_fresh_later [OF assms(2), of h] by simp
qed

lemma trim_window:
  "sorted (map stamp h) \<Longrightarrow> t \<le> now \<Longrightarrow>
   trim stale now (filter (\<lambda>y. \<not> stale t y) h) = filter (\<lambda>y. \<not> stale now y) h"
  by (simp add: trim_sorted sorted_filter filter_fresh_later del: filter_filter)

text \<open>A window fed a whole history in order holds the history's fresh entries.\<close>

lemma fold_push_trim_snoc:
  assumes "sorted (map stamp (h @ [x]))"
  shows "fold (\<lambda>y. push_trim stale (stamp y) y) (h @ [x]) []
       = filter (\<lambda>y. \<not> stale (stamp x) y) (h @ [x])"
  using assms
proof (induction h arbitrary: x rule: rev_induct)
  case Nil
  then show ?case by (simp add: push_trim_def trim_def fresh_now)
next
  case (snoc z h)
  from snoc.prems have "sorted (map stamp (h @ [z]))" and "stamp z \<le> stamp x"
    by (auto simp: sorted_append)
  with snoc show ?case
    using push_trim_window [of "h @ [z]" x "stamp z"] by simp
qed

text \<open>
  \<open>windows_ok h lo now d\<close>: the window of each key holds what is fresh, at some time between \<open>lo\<close>
  and \<open>now\<close>, of the entries \<open>h k\<close> that were ever appended for that key.
\<close>

definition windows_ok :: "('k \<Rightarrow> 'a list) \<Rightarrow> real \<Rightarrow> real \<Rightarrow> ('k, 'a list) pydict \<Rightarrow> bool" where
  "windows_ok h lo now d \<longleftrightarrow>
     (\<forall>k. \<exists>t. lo \<le> t \<and> t \<le> now \<and> window d k = filter (\<lambda>x. \<not> stale t x) (h k))"

lemma windows_ok_init: "lo \<le> now \<Longrightarrow> windows_ok (\<lambda>_. []) lo now []"
  by (auto simp: windows_ok_def)

lemma windows_ok_later: "windows_ok h lo now d \<Longrightarrow> now \<le> now' \<Longrightarrow> windows_ok h lo now' d"
  unfolding windows_ok_def by (meson order_trans)

lemma append_window_fresh:
  assumes "windows_ok h lo now d" and "now \<le> stamp x" and "sorted (map stamp (h k @ [x]))"
  shows "window (append_window stale (stamp x) k x d) k = filter (\<lambda>y. \<not> stale (stamp x) y) (h k @ [x])"
proof -
  obtain t where "t \<le> now" "window d k = filter (\<lambda>x. \<not> stale t x) (h k)"
    using assms(1) unfolding windows_ok_def by blast
  then show ?thesis using push_trim_window [OF assms(3), of t] assms(2) by simp
qed

lemma windows_ok_append:
  assumes "windows_ok h lo now d" and "now \<le> stamp x" and "lo \<le> stamp x"
    and "sorted (map stamp (h k @ [x]))"
  shows "windows_ok (h(k := h k @ [x])) lo (stamp x) (append_window stale (stamp x) k x d)"
  unfolding windows_ok_def
proof
  fix k'
  show "\<exists>t. lo \<le> t \<and> t \<le> stamp x \<and> window (append_window stale (stamp x) k x d) k' =
      filter (\<lambda>y. \<not> stale t y) ((h(k := h k @ [x])) k')"
  proof (cases "k' = k")
    case True
    then show ?thesis using append_window_fresh [OF assms(1,2,4)] assms(3) by auto
  next
    case False
    then show ?thesis using assms(1,2) unfolding windows_ok_def
      by (metis fun_upd_apply order_trans window_append)
  qed
qed

lemma windows_ok_trim:
  assumes "windows_ok h lo now d" and "now \<le> t" and "\<And>k. sorted (map stamp (h k))"
    and "\<And>k. window d' k = trim stale t (window d k)"
  shows "windows_ok h t t d'"
  unfolding windows_ok_def
proof
  fix k
  obtain u where "u \<le> now" "window d k = filter (\<lambda>x. \<not> stale u x) (h k)"
    using assms(1) unfolding windows_ok_def by blast
  then have "window d' k = filter (\<lambda>x. \<not> stale t x) (h k)"
    using trim_window [OF assms(3) [of k], of u t] assms(2,4) by simp
  then show "\<exists>u. t \<le> u \<and> u \<le> t \<and> window d' k = filter (\<lambda>x. \<not> stale u x) (h k)" by blast
qed

text \<open>One window: \<open>q\<close> holds what is fresh, at some time up to \<open>now\<close>, of the entries \<open>h\<close>.\<close>

definition window_of :: "'a list \<Rightarrow> real \<Rightarrow> 'a list \<Rightarrow> bool" where
  "window_of h now q \<longleftrightarrow> (\<exists>t\<le>now. q = filter (\<lambda>x. \<not> stale t x) h)"

lemma window_of_Nil: "window_of [] now []"
  by (auto simp: window_of_def)

lemma window_of_later: "window_of h now q \<Longrightarrow> now \<le> now' \<Longrightarrow> window_of h now' q"
  unfolding window_of_def by (elim exE conjE) (rule exI, erule conjI [rotated], erule order_trans)

lemma window_of_push:
  assumes "window_of h now q" and "now \<le> stamp x" and "sorted (map stamp (h @ [x]))"
  shows "window_of (h @ [x]) (stamp x) (push_trim stale (stamp x) x q)"
proof -
  obtain t where "t \<le> now" "q = filter (\<lambda>x. \<not> stale t x) h"
    using assms(1) by (auto simp: window_of_def)
  then show ?thesis
    using push_trim_window [OF assms(3), of t] assms(2) by (auto simp: window_of_def)
qed

lemma window_of_trim:
  assumes "window_of h now q" and "now \<le> t" and "sorted (map stamp h)"
  shows "trim stale t q = filter (\<lambda>x. \<not> stale t x) h"
  using assms trim_window [OF assms(3)] by (auto simp: window_of_def)

lemma push_trim_mem: "stamp x = now \<Longrightarrow> x \<in> set (push_trim stale now x q)"
  unfolding push_trim_def trim_def
  using fresh_now [of x now] by (induction q) auto

end

text \<open>Windows of plain times: an entry is stale once it is older than the width of the window.\<close>

definition stale_time :: "real \<Rightarrow> real \<Rightarrow> real \<Rightarrow> bool" where
  "stale_time width now t = (t < now - width)"

lemma time_window_stale_time: "0 \<le> width \<Longrightarrow> time_window (stale_time width) (\<lambda>t. t)"
  by unfold_locales (auto simp: stale_time_def)

subsection \<open>Stores that keep the newest entries\<close>

text \<open>
  \<open>deque(maxlen=n)\<close>, the action history of an address and the processed command ids all keep
  the newest \<open>n\<close> entries pushed. A store is given by its contents and its push.
\<close>

locale newest_store =
  fixes cap :: "'s \<Rightarrow> nat"
    and contents :: "'s \<Rightarrow> 'a list"
    and push :: "'a \<Rightarrow> 's \<Rightarrow> 's"
  assumes contents_push: "contents (push x s) = last_n (cap s) (contents s @ [x])"
    and cap_push: "cap (push x s) = cap s"
begin

lemma bounded_push: "length (contents (push x s)) \<le> cap s"
  by (simp add: contents_push)

lemma newest_kept: "0 < cap s \<Longrightarrow> x \<in> set (contents (push x s))"
  by (simp add: contents_push in_last_n_snoc)

lemma cap_pushes: "cap (fold push xs s) = cap s"
  by (induction xs arbitrary: s) (simp_all add: cap_push)

lemma contents_pushes:
  "contents s = last_n (cap s) h \<Longrightarrow> contents (fold push xs s) = last_n (cap s) (h @ xs)"
proof (induction xs arbitrary: s h)
  case Nil
  then show ?case by simp
next
  case (Cons x xs)
  have "contents (push x s) = last_n (cap (push x s)) (h @ [x])"
    by (simp add: contents_push cap_push Cons.prems last_n_append_last_n)
  from Cons.IH [OF this] show ?case by (simp add: cap_push)
qed

end

end
