(* ===== verification/PyRuntime.thy ===== *)
theory PyRuntime
  imports Prelude
begin

text \<open>
  The part of Python's standard library the engine computes with: rounding and truncation
  of floats, \<open>str\<close> and \<open>int\<close> conversions, \<open>strip\<close>, \<open>lower\<close> and \<open>split\<close>, JSON values with
  \<open>dict.get\<close>, the address parser of \<open>ipaddress\<close>, and the host the process runs on (its
  clock and \<open>subprocess.run\<close>), which is a parameter of every definition that calls it.
\<close>

subsection \<open>Numbers\<close>

text \<open>\<open>round(x)\<close> and \<open>round(x, n)\<close> round halves to the even neighbour.\<close>

definition round_half_even :: "real \<Rightarrow> int" where
  "round_half_even x =
     (let f = \<lfloor>x\<rfloor>; d = x - of_int f
      in if d < 1 / 2 then f else if 1 / 2 < d then f + 1 else if even f then f else f + 1)"

definition py_round :: "nat \<Rightarrow> real \<Rightarrow> real" where
  "py_round n x = of_int (round_half_even (x * 10 ^ n)) / 10 ^ n"

text \<open>\<open>int(x)\<close> of a float truncates towards zero.\<close>

definition py_trunc :: "real \<Rightarrow> int" where
  "py_trunc x = (if 0 \<le> x then \<lfloor>x\<rfloor> else \<lceil>x\<rceil>)"

text \<open>\<open>datetime.fromtimestamp(t, tz=utc).isoformat()\<close>, as its microsecond count.\<close>

definition iso_us :: "real \<Rightarrow> int" where
  "iso_us t = round_half_even (t * 1000000)"

lemma round_half_even_of_int [simp]: "round_half_even (of_int n) = n"
  by (simp add: round_half_even_def)

lemma round_half_even_near: "\<bar>of_int (round_half_even x) - x\<bar> \<le> 1 / 2"
  unfolding round_half_even_def Let_def
  using of_int_floor_le [of x] floor_correct [of x] by (auto simp: abs_le_iff)

lemma round_half_even_mono: "x \<le> y \<Longrightarrow> round_half_even x \<le> round_half_even y"
proof -
  assume le: "x \<le> y"
  then have fl: "\<lfloor>x\<rfloor> \<le> \<lfloor>y\<rfloor>" by (rule floor_mono)
  show ?thesis
  proof (cases "\<lfloor>x\<rfloor> = \<lfloor>y\<rfloor>")
    case True
    with le show ?thesis by (auto simp: round_half_even_def Let_def)
  next
    case False
    with fl have "\<lfloor>x\<rfloor> + 1 \<le> \<lfloor>y\<rfloor>" by simp
    moreover have "round_half_even x \<le> \<lfloor>x\<rfloor> + 1" and "\<lfloor>y\<rfloor> \<le> round_half_even y"
      by (auto simp: round_half_even_def Let_def)
    ultimately show ?thesis by linarith
  qed
qed

lemma py_round_mono: "x \<le> y \<Longrightarrow> py_round n x \<le> py_round n y"
  by (auto simp: py_round_def intro!: divide_right_mono round_half_even_mono mult_right_mono)

lemma py_round_of_int [simp]: "py_round n (of_int k) = of_int k"
proof -
  have "of_int k * (10::real) ^ n = of_int (k * 10 ^ n)" by simp
  then show ?thesis unfolding py_round_def by (simp only: round_half_even_of_int) simp
qed

lemma py_round_0 [simp]: "py_round n 0 = 0"
  using py_round_of_int [of n 0] by simp

lemma py_round_1 [simp]: "py_round n 1 = 1"
  using py_round_of_int [of n 1] by simp

lemma py_round_unit: "0 \<le> x \<Longrightarrow> x \<le> 1 \<Longrightarrow> 0 \<le> py_round n x \<and> py_round n x \<le> 1"
  using py_round_mono [of 0 x n] py_round_mono [of x 1 n] by simp

lemma py_trunc_near: "\<bar>of_int (py_trunc x) - x\<bar> < 1"
  unfolding py_trunc_def
  by (auto simp: abs_less_iff) linarith+

subsection \<open>Decimal strings\<close>

definition digit_char :: "nat \<Rightarrow> char" where
  "digit_char d = char_of (48 + d)"

definition is_digit :: "char \<Rightarrow> bool" where
  "is_digit c = (48 \<le> (of_char c :: nat) \<and> (of_char c :: nat) \<le> 57)"

definition digit_val :: "char \<Rightarrow> nat" where
  "digit_val c = of_char c - 48"

fun nat_str :: "nat \<Rightarrow> string" where
  "nat_str n = (if n < 10 then [digit_char n] else nat_str (n div 10) @ [digit_char (n mod 10)])"

declare nat_str.simps [simp del]

definition int_str :: "int \<Rightarrow> string" where
  "int_str i = (if i < 0 then CHR ''-'' # nat_str (nat (- i)) else nat_str (nat i))"

definition digits_val :: "string \<Rightarrow> nat" where
  "digits_val s = foldl (\<lambda>a c. 10 * a + digit_val c) 0 s"

lemma of_char_digit_char: "d < 10 \<Longrightarrow> (of_char (digit_char d) :: nat) = 48 + d"
  by (simp add: digit_char_def)

lemma is_digit_digit_char [simp]: "d < 10 \<Longrightarrow> is_digit (digit_char d)"
  by (simp add: is_digit_def of_char_digit_char)

lemma digit_val_digit_char [simp]: "d < 10 \<Longrightarrow> digit_val (digit_char d) = d"
  by (simp add: digit_val_def of_char_digit_char)

lemma nat_str_digits: "c \<in> set (nat_str n) \<Longrightarrow> is_digit c"
proof (induction n rule: nat_str.induct)
  case (1 n)
  then show ?case by (cases "n < 10") (auto simp: nat_str.simps [of n])
qed

lemma digits_val_nat_str [simp]: "digits_val (nat_str n) = n"
proof (induction n rule: nat_str.induct)
  case (1 n)
  then show ?case
    by (cases "n < 10") (auto simp: nat_str.simps [of n] digits_val_def)
qed

lemma nat_str_inject [simp]: "nat_str m = nat_str n \<longleftrightarrow> m = n"
  by (metis digits_val_nat_str)

lemma nat_str_nonempty [simp]: "nat_str n \<noteq> []"
  by (subst nat_str.simps) simp

lemma not_digit_notin_nat_str: "\<not> is_digit c \<Longrightarrow> c \<notin> set (nat_str n)"
  using nat_str_digits by blast

lemma int_str_inject [simp]: "int_str i = int_str j \<longleftrightarrow> i = j"
proof
  assume eq: "int_str i = int_str j"
  have no: "CHR ''-'' \<notin> set (nat_str n)" for n
    by (rule not_digit_notin_nat_str) (simp add: is_digit_def)
  show "i = j"
  proof (cases "i < 0"; cases "j < 0")
    assume "i < 0" "j < 0" with eq show ?thesis by (auto simp: int_str_def nat_eq_iff)
  next
    assume "i < 0" "\<not> j < 0"
    with eq have "CHR ''-'' \<in> set (nat_str (nat j))"
      by (metis int_str_def list.set_intros(1))
    with no show ?thesis by blast
  next
    assume "\<not> i < 0" "j < 0"
    with eq have "CHR ''-'' \<in> set (nat_str (nat i))"
      by (metis int_str_def list.set_intros(1))
    with no show ?thesis by blast
  next
    assume "\<not> i < 0" "\<not> j < 0" with eq show ?thesis by (auto simp: int_str_def nat_eq_iff)
  qed
qed simp

subsection \<open>Strings\<close>

definition py_space :: "char \<Rightarrow> bool" where
  "py_space c = ((of_char c :: nat) \<in> {9, 10, 11, 12, 13, 28, 29, 30, 31, 32, 133, 160})"

definition lstrip :: "string \<Rightarrow> string" where
  "lstrip s = dropWhile py_space s"

definition rstrip :: "string \<Rightarrow> string" where
  "rstrip s = rev (dropWhile py_space (rev s))"

definition strip :: "string \<Rightarrow> string" where
  "strip s = rstrip (lstrip s)"

definition lower_char :: "char \<Rightarrow> char" where
  "lower_char c =
     (let n = (of_char c :: nat)
      in if 65 \<le> n \<and> n \<le> 90 \<or> 192 \<le> n \<and> n \<le> 222 \<and> n \<noteq> 215 then char_of (n + 32) else c)"

definition lower :: "string \<Rightarrow> string" where
  "lower s = map lower_char s"

text \<open>\<open>s.split(c)\<close> for a single character, and \<open>sep.join(parts)\<close>.\<close>

fun split_on :: "char \<Rightarrow> string \<Rightarrow> string list" where
  "split_on c [] = [[]]"
| "split_on c (x # xs) =
     (if x = c then [] # split_on c xs
      else case split_on c xs of p # ps \<Rightarrow> (x # p) # ps | [] \<Rightarrow> [[x]])"

fun join_with :: "string \<Rightarrow> string list \<Rightarrow> string" where
  "join_with sep [] = []"
| "join_with sep [s] = s"
| "join_with sep (s # t # ss) = s @ sep @ join_with sep (t # ss)"

lemma split_on_nonempty [simp]: "split_on c s \<noteq> []"
  by (induction s) (auto split: list.splits)

lemma split_on_append_sep: "c \<notin> set s \<Longrightarrow> split_on c (s @ c # t) = s # split_on c t"
  by (induction s) (auto split: list.splits)

lemma split_on_no_sep: "c \<notin> set s \<Longrightarrow> split_on c s = [s]"
  by (induction s) auto

lemma hd_dropWhile_false: "dropWhile P xs = y # ys \<Longrightarrow> \<not> P y"
  by (metis hd_dropWhile list.distinct(1) list.sel(1))

lemma rstrip_last: "rstrip s \<noteq> [] \<Longrightarrow> \<not> py_space (last (rstrip s))"
  unfolding rstrip_def by (simp add: last_rev hd_dropWhile)

lemma rstrip_prefix: "\<exists>t. s = rstrip s @ t"
proof -
  have "rev s = takeWhile py_space (rev s) @ dropWhile py_space (rev s)" by simp
  then have "s = rev (dropWhile py_space (rev s)) @ rev (takeWhile py_space (rev s))"
    by (metis rev_append rev_rev_ident)
  then show ?thesis unfolding rstrip_def by blast
qed

lemma strip_Nil [simp]: "strip [] = []"
  by (simp add: strip_def lstrip_def rstrip_def)

lemma lstrip_fix: "s = [] \<or> \<not> py_space (hd s) \<Longrightarrow> lstrip s = s"
  by (cases s) (auto simp: lstrip_def)

lemma rstrip_fix: "s = [] \<or> \<not> py_space (last s) \<Longrightarrow> rstrip s = s"
  unfolding rstrip_def by (cases s rule: rev_cases) auto

lemma strip_hd: "strip s \<noteq> [] \<Longrightarrow> \<not> py_space (hd (strip s))"
proof -
  assume ne: "strip s \<noteq> []"
  obtain t where "lstrip s = strip s @ t"
    using rstrip_prefix [of "lstrip s"] by (auto simp: strip_def)
  with ne have "hd (lstrip s) = hd (strip s)" and "lstrip s \<noteq> []" by auto
  then show ?thesis unfolding lstrip_def using hd_dropWhile by metis
qed

lemma strip_strip [simp]: "strip (strip s) = strip s"
proof (cases "strip s = []")
  case True
  then show ?thesis by (simp only: True) (simp add: strip_def lstrip_def rstrip_def)
next
  case False
  then have "lstrip (strip s) = strip s" using strip_hd lstrip_fix by blast
  moreover have "rstrip (strip s) = strip s"
    using False rstrip_last rstrip_fix unfolding strip_def by blast
  ultimately show ?thesis by (simp add: strip_def [of "strip s"])
qed

subsection \<open>Parsing integers: \<open>int(s)\<close>\<close>

datatype py_error =
  ValueError | TypeError | OverflowError | KeyError | IndexError | AttributeError | OSError

fun num_body :: "bool \<Rightarrow> string \<Rightarrow> string option" where
  "num_body after_digit [] = (if after_digit then Some [] else None)"
| "num_body after_digit (c # cs) =
     (if is_digit c then map_option (Cons c) (num_body True cs)
      else if c = CHR ''_'' \<and> after_digit then num_body False cs else None)"

definition py_int_of_str :: "string \<Rightarrow> int option" where
  "py_int_of_str s =
     (case strip s of
        [] \<Rightarrow> None
      | c # cs \<Rightarrow>
          (if c = CHR ''-'' then map_option (\<lambda>d. - int (digits_val d)) (num_body False cs)
           else if c = CHR ''+'' then map_option (\<lambda>d. int (digits_val d)) (num_body False cs)
           else map_option (\<lambda>d. int (digits_val d)) (num_body False (c # cs))))"

lemma num_body_digits: "list_all is_digit s \<Longrightarrow> b \<or> s \<noteq> [] \<Longrightarrow> num_body b s = Some s"
  by (induction s arbitrary: b) auto

lemma digit_not_space: "is_digit c \<Longrightarrow> \<not> py_space c"
  by (auto simp: is_digit_def py_space_def)

lemma strip_fix:
  "s \<noteq> [] \<Longrightarrow> \<not> py_space (hd s) \<Longrightarrow> \<not> py_space (last s) \<Longrightarrow> strip s = s"
  by (simp add: strip_def lstrip_fix rstrip_fix)

lemma list_all_nat_str: "list_all is_digit (nat_str n)"
  by (auto simp: list_all_iff dest: nat_str_digits)

lemma strip_int_str [simp]: "strip (int_str i) = int_str i"
proof (rule strip_fix)
  show "int_str i \<noteq> []" by (simp add: int_str_def)
  have d: "is_digit (hd (nat_str n)) \<and> is_digit (last (nat_str n))" for n
    by (meson hd_in_set last_in_set nat_str_digits nat_str_nonempty)
  show "\<not> py_space (hd (int_str i))" "\<not> py_space (last (int_str i))"
    using d digit_not_space by (auto simp: int_str_def) (simp add: py_space_def)
qed

lemma py_int_of_str_int_str [simp]: "py_int_of_str (int_str i) = Some i"
proof (cases "i < 0")
  case True
  then show ?thesis
    using num_body_digits [OF list_all_nat_str, of False "nat (- i)"]
    by (simp add: py_int_of_str_def) (simp add: int_str_def)
next
  case False
  obtain c cs where c: "nat_str (nat i) = c # cs" by (cases "nat_str (nat i)") auto
  then have "is_digit c" using nat_str_digits [of c "nat i"] by simp
  then have "c \<noteq> CHR ''-''" "c \<noteq> CHR ''+''" by (auto simp: is_digit_def)
  moreover have "num_body False (c # cs) = Some (c # cs)"
    using num_body_digits [OF list_all_nat_str, of False "nat i"] c by simp
  moreover have "digits_val (c # cs) = nat i" using c by (metis digits_val_nat_str)
  ultimately show ?thesis
    using False c by (simp add: py_int_of_str_def del: num_body.simps) (simp add: int_str_def)
qed

subsection \<open>JSON values\<close>

datatype pyfloat = Fin real | PInf | NInf | NaN

datatype json =
  JNull | JBool bool | JInt int | JFloat pyfloat | JStr string
| JList "json list" | JObj "(string \<times> json) list"

definition obj_get :: "(string, json) pydict \<Rightarrow> string \<Rightarrow> json \<Rightarrow> json" where
  "obj_get d k dflt = (case map_of d k of None \<Rightarrow> dflt | Some v \<Rightarrow> v)"

fun truthy :: "json \<Rightarrow> bool" where
  "truthy JNull = False"
| "truthy (JBool b) = b"
| "truthy (JInt i) = (i \<noteq> 0)"
| "truthy (JFloat f) = (f \<noteq> Fin 0)"
| "truthy (JStr s) = (s \<noteq> [])"
| "truthy (JList xs) = (xs \<noteq> [])"
| "truthy (JObj d) = (d \<noteq> [])"

text \<open>
  \<open>str(v)\<close>. The shortest decimal rendering of a float and the \<open>repr\<close> of a container are not
  computed here; they are the argument \<open>rep\<close>.
\<close>

fun py_str :: "(json \<Rightarrow> string) \<Rightarrow> json \<Rightarrow> string" where
  "py_str rep JNull = ''None''"
| "py_str rep (JBool b) = (if b then ''True'' else ''False'')"
| "py_str rep (JInt i) = int_str i"
| "py_str rep (JStr s) = s"
| "py_str rep v = rep v"

fun py_int :: "json \<Rightarrow> py_error + int" where
  "py_int (JInt i) = Inr i"
| "py_int (JBool b) = Inr (if b then 1 else 0)"
| "py_int (JFloat (Fin x)) = Inr (py_trunc x)"
| "py_int (JFloat NaN) = Inl ValueError"
| "py_int (JFloat PInf) = Inl OverflowError"
| "py_int (JFloat NInf) = Inl OverflowError"
| "py_int (JStr s) = (case py_int_of_str s of None \<Rightarrow> Inl ValueError | Some i \<Rightarrow> Inr i)"
| "py_int JNull = Inl TypeError"
| "py_int (JList xs) = Inl TypeError"
| "py_int (JObj d) = Inl TypeError"

text \<open>
  The constructors read their sizes with \<open>_positive_int\<close>: the argument, or the environment
  variable when it is \<open>None\<close>, parsed, and the default when it does not parse; at least 1.
  \<open>env\<close> is \<open>os.environ\<close>.
\<close>

type_synonym environ = "string \<Rightarrow> string option"

definition positive_int :: "environ \<Rightarrow> int option \<Rightarrow> string \<Rightarrow> int \<Rightarrow> int" where
  "positive_int env value env_name dflt =
     (let parsed = (case value of
          Some v \<Rightarrow> v
        | None \<Rightarrow>
            (case env env_name of
               None \<Rightarrow> dflt
             | Some s \<Rightarrow> (case py_int_of_str s of None \<Rightarrow> dflt | Some i \<Rightarrow> i)))
      in max 1 parsed)"

lemma positive_int_pos [simp]: "1 \<le> positive_int env v n d"
  by (simp add: positive_int_def Let_def)

subsection \<open>\<open>ipaddress.ip_address\<close>\<close>

text \<open>An address is kept as its four octets or its eight 16-bit words, most significant first.\<close>

datatype ip_addr = IPv4Address "nat list" | IPv6Address "nat list"

definition ipv4_octet :: "string \<Rightarrow> nat option" where
  "ipv4_octet s =
     (if s = [] \<or> \<not> list_all is_digit s \<or> 3 < length s
         \<or> (s \<noteq> ''0'' \<and> hd s = CHR ''0'') \<or> 255 < digits_val s
      then None else Some (digits_val s))"

definition parse_ipv4 :: "string \<Rightarrow> nat list option" where
  "parse_ipv4 s =
     (case split_on (CHR ''.'') s of
        [a, b, c, d] \<Rightarrow>
          (case (ipv4_octet a, ipv4_octet b, ipv4_octet c, ipv4_octet d) of
             (Some p, Some q, Some r, Some t) \<Rightarrow> Some [p, q, r, t]
           | _ \<Rightarrow> None)
      | _ \<Rightarrow> None)"

definition hex_val :: "char \<Rightarrow> nat option" where
  "hex_val c =
     (let n = (of_char c :: nat)
      in if 48 \<le> n \<and> n \<le> 57 then Some (n - 48)
         else if 97 \<le> n \<and> n \<le> 102 then Some (n - 87)
         else if 65 \<le> n \<and> n \<le> 70 then Some (n - 55) else None)"

fun hex_num :: "nat \<Rightarrow> string \<Rightarrow> nat option" where
  "hex_num a [] = Some a"
| "hex_num a (c # cs) = (case hex_val c of None \<Rightarrow> None | Some d \<Rightarrow> hex_num (16 * a + d) cs)"

definition ipv6_hextet :: "string \<Rightarrow> nat option" where
  "ipv6_hextet s = (if s = [] \<or> 4 < length s then None else hex_num 0 s)"

fun ipv6_words :: "string list \<Rightarrow> nat list option" where
  "ipv6_words [] = Some []"
| "ipv6_words (p # ps) =
     (case ipv6_hextet p of None \<Rightarrow> None | Some w \<Rightarrow> map_option (Cons w) (ipv6_words ps))"

fun hex_str :: "nat \<Rightarrow> string" where
  "hex_str n =
     (let d = n mod 16; c = char_of (if d < 10 then 48 + d else 87 + d)
      in if n < 16 then [c] else hex_str (n div 16) @ [c])"

declare hex_str.simps [simp del]

definition ipv6_parts :: "string \<Rightarrow> string list option" where
  "ipv6_parts s =
     (let parts = split_on (CHR '':'') s
      in if s = [] \<or> length parts < 3 then None
         else if CHR ''.'' \<in> set (last parts) then
           (case parse_ipv4 (last parts) of
              None \<Rightarrow> None
            | Some oct \<Rightarrow> Some (butlast parts @
                [hex_str (oct ! 0 * 256 + oct ! 1), hex_str (oct ! 2 * 256 + oct ! 3)]))
         else Some parts)"

definition ipv6_int :: "string \<Rightarrow> nat list option" where
  "ipv6_int s =
     (case ipv6_parts s of
        None \<Rightarrow> None
      | Some ps \<Rightarrow>
          (if 9 < length ps then None
           else case filter (\<lambda>i. ps ! i = []) [1..<length ps - 1] of
             [] \<Rightarrow>
               (if length ps \<noteq> 8 \<or> hd ps = [] \<or> last ps = [] then None else ipv6_words ps)
           | [k] \<Rightarrow>
               (let lo = length ps - k - 1;
                    hi' = (if hd ps = [] then k - 1 else k);
                    lo' = (if last ps = [] then lo - 1 else lo)
                in if hd ps = [] \<and> hi' \<noteq> 0 \<or> last ps = [] \<and> lo' \<noteq> 0 \<or> 8 < hi' + lo' + 1 then None
                   else ipv6_words
                     (take hi' ps @ replicate (8 - (hi' + lo')) ''0'' @ drop (length ps - lo') ps))
           | _ \<Rightarrow> None))"

definition parse_ipv6 :: "string \<Rightarrow> nat list option" where
  "parse_ipv6 s =
     (if CHR ''/'' \<in> set s then None
      else case split_on (CHR ''%'') s of
        [a] \<Rightarrow> ipv6_int a
      | [a, scope] \<Rightarrow> (if scope = [] then None else ipv6_int a)
      | _ \<Rightarrow> None)"

definition ip_address :: "string \<Rightarrow> ip_addr option" where
  "ip_address s =
     (case parse_ipv4 s of
        Some n \<Rightarrow> Some (IPv4Address n)
      | None \<Rightarrow> map_option IPv6Address (parse_ipv6 s))"

fun is_loopback :: "ip_addr \<Rightarrow> bool" where
  "is_loopback (IPv4Address octets) = (hd octets = 127)"
| "is_loopback (IPv6Address words) = (words = [0, 0, 0, 0, 0, 0, 0, 1])"

lemma ipv4_octet_bound: "ipv4_octet s = Some n \<Longrightarrow> n \<le> 255"
  by (auto simp: ipv4_octet_def split: if_splits)

lemma parse_ipv4_octets:
  "parse_ipv4 s = Some octets \<Longrightarrow> length octets = 4 \<and> (\<forall>n\<in>set octets. n \<le> 255)"
  by (auto simp: parse_ipv4_def split: list.splits option.splits dest!: ipv4_octet_bound)

subsection \<open>The host: clock and subprocesses\<close>

text \<open>
  \<open>time.time()\<close>, \<open>time.perf_counter()\<close> and \<open>subprocess.run\<close> read and change a world the engine does
  not own. They are the fields of a \<open>host\<close>, a parameter of every definition that calls them; \<open>'w\<close> is
  the type of the world. A run completes with a return code and the captured standard
  output, or raises.
\<close>

datatype run_outcome = Completed int "string option" | RunRaised

record 'w host =
  host_time :: "'w \<Rightarrow> real \<times> 'w"
  host_perf :: "'w \<Rightarrow> real \<times> 'w"
  host_run :: "string list \<Rightarrow> 'w \<Rightarrow> run_outcome \<times> 'w"

end
