(* ===== verification/Traffic.thy ===== *)
theory Traffic
  imports PyRuntime
begin

unbundle bit_operations_syntax

text \<open>
  The traffic engine (\<open>traffic_engine/session_builder\<close>) and the packet record it consumes:
  Welford accumulators, sessions, session keys and the session builder with its expiry,
  its prediction triggers and its hand-over of finished sessions.
\<close>

subsection \<open>Packets and keys\<close>

record packet =
  p_src_ip :: string
  p_dst_ip :: string
  p_protocol :: int
  p_size :: int
  p_timestamp :: real
  p_src_port :: "int option"
  p_dst_port :: "int option"
  p_tcp_flags :: "int option"
  p_tcp_window_size :: "int option"
  p_tcp_header_length :: "int option"
  p_transport_header_length :: "int option"
  p_payload_size :: "int option"

record session_key =
  k_src_ip :: string
  k_dst_ip :: string
  k_protocol :: int
  k_src_port :: "int option"
  k_dst_port :: "int option"

definition key_of :: "packet \<Rightarrow> session_key" where
  "key_of p = \<lparr>k_src_ip = p_src_ip p, k_dst_ip = p_dst_ip p, k_protocol = p_protocol p,
     k_src_port = p_src_port p, k_dst_port = p_dst_port p\<rparr>"

subsection \<open>Welford accumulators\<close>

record running_stats =
  rs_count :: nat
  rs_mean :: real
  rs_m2 :: real
  rs_min :: "real option"
  rs_max :: "real option"

definition rs_init :: running_stats where
  "rs_init = \<lparr>rs_count = 0, rs_mean = 0, rs_m2 = 0, rs_min = None, rs_max = None\<rparr>"

definition rs_update :: "real \<Rightarrow> running_stats \<Rightarrow> running_stats" where
  "rs_update v r =
     (let count = rs_count r + 1;
          delta = v - rs_mean r;
          mean = rs_mean r + delta / real count;
          delta2 = v - mean
      in \<lparr>rs_count = count, rs_mean = mean, rs_m2 = rs_m2 r + delta * delta2,
          rs_min = (case rs_min r of None \<Rightarrow> Some v | Some m \<Rightarrow> if v < m then Some v else Some m),
          rs_max = (case rs_max r of None \<Rightarrow> Some v | Some m \<Rightarrow> if m < v then Some v else Some m)\<rparr>)"

definition rs_get_min :: "running_stats \<Rightarrow> real" where
  "rs_get_min r = (case rs_min r of None \<Rightarrow> 0 | Some m \<Rightarrow> m)"

definition rs_get_max :: "running_stats \<Rightarrow> real" where
  "rs_get_max r = (case rs_max r of None \<Rightarrow> 0 | Some m \<Rightarrow> m)"

definition rs_get_mean :: "running_stats \<Rightarrow> real" where
  "rs_get_mean r = (if rs_count r = 0 then 0 else rs_mean r)"

definition rs_variance :: "running_stats \<Rightarrow> real" where
  "rs_variance r = (if rs_count r < 2 then 0 else rs_m2 r / real (rs_count r))"

definition rs_std :: "running_stats \<Rightarrow> real" where
  "rs_std r = sqrt (rs_variance r)"

text \<open>The accumulator after a whole list of values.\<close>

definition rs_of :: "real list \<Rightarrow> running_stats" where
  "rs_of xs = fold rs_update xs rs_init"

lemma rs_of_Nil [simp]: "rs_of [] = rs_init"
  by (simp add: rs_of_def)

lemma rs_of_snoc: "rs_of (xs @ [x]) = rs_update x (rs_of xs)"
  by (simp add: rs_of_def)

lemma rs_count_of [simp]: "rs_count (rs_of xs) = length xs"
  by (induction xs rule: rev_induct) (simp_all add: rs_of_snoc rs_init_def rs_update_def Let_def)

lemma rs_mean_of: "real (length xs) * rs_mean (rs_of xs) = sum_list xs"
proof (induction xs rule: rev_induct)
  case Nil
  then show ?case by simp
next
  case (snoc x xs)
  let ?n = "real (length xs)" and ?m = "rs_mean (rs_of xs)"
  have "(?n + 1) * (?m + (x - ?m) / (?n + 1)) = ?n * ?m + x"
  proof -
    have "(?n + 1) * ((x - ?m) / (?n + 1)) = x - ?m" by simp
    then show ?thesis by (simp add: algebra_simps)
  qed
  with snoc.IH show ?case by (simp add: rs_of_snoc rs_update_def Let_def add.commute)
qed

lemma sum_list_sq_dev:
  "(\<Sum>x\<leftarrow>xs. (x - c)\<^sup>2) = (\<Sum>x\<leftarrow>xs. x\<^sup>2) - 2 * c * sum_list xs + real (length xs) * c\<^sup>2"
  by (induction xs) (auto simp: power2_eq_square algebra_simps)

lemma welford_step:
  fixes m n e A :: real
  assumes "k = n + 1" and "x = m + k * e"
  shows "(A - 2 * m * (n * m) + n * m\<^sup>2) + (x - m) * (x - (m + e))
       = (A + x\<^sup>2) - 2 * (m + e) * (n * m + x) + k * (m + e)\<^sup>2"
  unfolding assms by (simp add: power2_eq_square algebra_simps)

lemma rs_m2_of: "rs_m2 (rs_of xs) = (\<Sum>x\<leftarrow>xs. (x - rs_mean (rs_of xs))\<^sup>2)"
proof (induction xs rule: rev_induct)
  case Nil
  then show ?case by (simp add: rs_init_def)
next
  case (snoc x xs)
  let ?n = "real (length xs)" and ?m = "rs_mean (rs_of xs)" and ?A = "\<Sum>y\<leftarrow>xs. y\<^sup>2"
  let ?k = "?n + 1"
  let ?e = "(x - ?m) / ?k"
  have S: "sum_list xs = ?n * ?m" using rs_mean_of [of xs] by simp
  have "rs_m2 (rs_of (xs @ [x])) = rs_m2 (rs_of xs) + (x - ?m) * (x - (?m + ?e))"
    by (simp add: rs_of_snoc rs_update_def Let_def add.commute)
  also have "\<dots> = (?A - 2 * ?m * (?n * ?m) + ?n * ?m\<^sup>2) + (x - ?m) * (x - (?m + ?e))"
    using snoc.IH unfolding sum_list_sq_dev S by simp
  also have "\<dots> = (?A + x\<^sup>2) - 2 * (?m + ?e) * (?n * ?m + x) + ?k * (?m + ?e)\<^sup>2"
    by (rule welford_step) simp_all
  also have "\<dots> = (\<Sum>y\<leftarrow>xs @ [x]. (y - (?m + ?e))\<^sup>2)"
    unfolding sum_list_sq_dev by (simp add: S add.commute)
  also have "?m + ?e = rs_mean (rs_of (xs @ [x]))"
    by (simp add: rs_of_snoc rs_update_def Let_def add.commute)
  finally show ?case .
qed

lemma rs_min_of: "xs \<noteq> [] \<Longrightarrow> rs_min (rs_of xs) = Some (Min (set xs))"
proof (induction xs rule: rev_induct)
  case Nil
  then show ?case by simp
next
  case (snoc x xs)
  show ?case
  proof (cases "xs = []")
    case True
    then show ?thesis by (simp add: rs_of_def rs_update_def Let_def rs_init_def)
  next
    case False
    then have "Min (set (xs @ [x])) = min x (Min (set xs))" by simp
    moreover have "rs_min (rs_of xs) = Some (Min (set xs))" using snoc.IH False .
    ultimately show ?thesis by (simp only: rs_of_snoc) (simp add: rs_update_def Let_def min_def)
  qed
qed

lemma rs_max_of: "xs \<noteq> [] \<Longrightarrow> rs_max (rs_of xs) = Some (Max (set xs))"
proof (induction xs rule: rev_induct)
  case Nil
  then show ?case by simp
next
  case (snoc x xs)
  show ?case
  proof (cases "xs = []")
    case True
    then show ?thesis by (simp add: rs_of_def rs_update_def Let_def rs_init_def)
  next
    case False
    then have "Max (set (xs @ [x])) = max x (Max (set xs))" by simp
    moreover have "rs_max (rs_of xs) = Some (Max (set xs))" using snoc.IH False .
    ultimately show ?thesis by (simp only: rs_of_snoc) (simp add: rs_update_def Let_def max_def)
  qed
qed

subsection \<open>Sessions\<close>

record flag_counts =
  fc_fin :: nat
  fc_syn :: nat
  fc_rst :: nat
  fc_psh :: nat
  fc_ack :: nat
  fc_urg :: nat

record traffic_session =
  s_src_ip :: string
  s_dst_ip :: string
  s_protocol :: int
  s_start_time :: real
  s_last_seen :: real
  s_src_port :: "int option"
  s_dst_port :: "int option"
  s_packet_count :: nat
  s_total_bytes :: int
  s_packet_lengths :: "int list"
  s_fwd_packet_lengths :: "int list"
  s_packet_timestamps :: "real list"
  s_fwd_packet_timestamps :: "real list"
  s_packet_length_stats :: running_stats
  s_fwd_packet_length_stats :: running_stats
  s_fwd_packet_count :: nat
  s_fwd_total_bytes :: int
  s_flag_counts :: flag_counts
  s_fwd_header_length :: int
  s_init_win_bytes_forward :: "int option"
  s_act_data_pkt_fwd :: nat
  s_min_seg_size_forward :: "int option"
  s_finished :: bool

definition new_session :: "packet \<Rightarrow> traffic_session" where
  "new_session p = \<lparr>s_src_ip = p_src_ip p, s_dst_ip = p_dst_ip p, s_protocol = p_protocol p,
     s_start_time = p_timestamp p, s_last_seen = p_timestamp p,
     s_src_port = p_src_port p, s_dst_port = p_dst_port p,
     s_packet_count = 0, s_total_bytes = 0, s_packet_lengths = [], s_fwd_packet_lengths = [],
     s_packet_timestamps = [], s_fwd_packet_timestamps = [],
     s_packet_length_stats = rs_init, s_fwd_packet_length_stats = rs_init,
     s_fwd_packet_count = 0, s_fwd_total_bytes = 0,
     s_flag_counts = \<lparr>fc_fin = 0, fc_syn = 0, fc_rst = 0, fc_psh = 0, fc_ack = 0, fc_urg = 0\<rparr>,
     s_fwd_header_length = 0, s_init_win_bytes_forward = None, s_act_data_pkt_fwd = 0,
     s_min_seg_size_forward = None, s_finished = False\<rparr>"

definition session_key_of :: "traffic_session \<Rightarrow> session_key" where
  "session_key_of s = \<lparr>k_src_ip = s_src_ip s, k_dst_ip = s_dst_ip s, k_protocol = s_protocol s,
     k_src_port = s_src_port s, k_dst_port = s_dst_port s\<rparr>"

text \<open>The branch of \<open>TrafficSession.update\<close> for a packet in the direction of the first one.\<close>

definition update_forward :: "packet \<Rightarrow> traffic_session \<Rightarrow> traffic_session" where
  "update_forward p s = s\<lparr>
     s_fwd_packet_count := s_fwd_packet_count s + 1,
     s_fwd_total_bytes := s_fwd_total_bytes s + p_size p,
     s_fwd_packet_lengths := s_fwd_packet_lengths s @ [p_size p],
     s_fwd_packet_timestamps := s_fwd_packet_timestamps s @ [p_timestamp p],
     s_fwd_packet_length_stats := rs_update (of_int (p_size p)) (s_fwd_packet_length_stats s),
     s_fwd_header_length := s_fwd_header_length s +
       (case p_transport_header_length p of None \<Rightarrow> 0 | Some h \<Rightarrow> h),
     s_init_win_bytes_forward :=
       (case s_init_win_bytes_forward s of None \<Rightarrow> p_tcp_window_size p | Some w \<Rightarrow> Some w),
     s_act_data_pkt_fwd :=
       (case p_payload_size p of
          Some n \<Rightarrow> if 0 < n then s_act_data_pkt_fwd s + 1 else s_act_data_pkt_fwd s
        | None \<Rightarrow> s_act_data_pkt_fwd s),
     s_min_seg_size_forward :=
       (case p_payload_size p of
          None \<Rightarrow> s_min_seg_size_forward s
        | Some n \<Rightarrow>
            if 0 < n then
              (case s_min_seg_size_forward s of None \<Rightarrow> Some n | Some m \<Rightarrow> Some (min m n))
            else s_min_seg_size_forward s)\<rparr>"

definition update_tcp_flags :: "packet \<Rightarrow> traffic_session \<Rightarrow> traffic_session" where
  "update_tcp_flags p s =
     (case p_tcp_flags p of
        None \<Rightarrow> s
      | Some flags \<Rightarrow>
          let bump = (\<lambda>m c. if flags AND m \<noteq> 0 then c + 1 else c); fc = s_flag_counts s
          in s\<lparr>s_flag_counts :=
                 \<lparr>fc_fin = bump 1 (fc_fin fc), fc_syn = bump 2 (fc_syn fc),
                  fc_rst = bump 4 (fc_rst fc), fc_psh = bump 8 (fc_psh fc),
                  fc_ack = bump 16 (fc_ack fc), fc_urg = bump 32 (fc_urg fc)\<rparr>,
               s_finished := (s_finished s \<or> flags AND 1 \<noteq> 0 \<or> flags AND 4 \<noteq> 0)\<rparr>)"

definition session_update :: "packet \<Rightarrow> traffic_session \<Rightarrow> traffic_session" where
  "session_update p s =
     (let s1 = s\<lparr>s_packet_count := s_packet_count s + 1,
                 s_total_bytes := s_total_bytes s + p_size p,
                 s_last_seen := p_timestamp p,
                 s_packet_lengths := s_packet_lengths s @ [p_size p],
                 s_packet_timestamps := s_packet_timestamps s @ [p_timestamp p],
                 s_packet_length_stats := rs_update (of_int (p_size p)) (s_packet_length_stats s)\<rparr>;
          s2 = (if p_src_ip p = s_src_ip s1 \<and> p_dst_ip p = s_dst_ip s1
                then update_forward p s1 else s1)
      in update_tcp_flags p s2)"

definition s_duration :: "traffic_session \<Rightarrow> real" where
  "s_duration s = max 0 (s_last_seen s - s_start_time s)"

definition s_age :: "traffic_session \<Rightarrow> real" where
  "s_age s = s_duration s"

definition average_packet_size :: "traffic_session \<Rightarrow> real" where
  "average_packet_size s =
     (if s_packet_count s = 0 then 0 else of_int (s_total_bytes s) / real (s_packet_count s))"

subsection \<open>What a session accumulates\<close>

text \<open>
  \<open>session_of ps\<close> is the session of the packets \<open>ps\<close>: created from the first one and
  updated with each. Its fields are functions of the packet list.
\<close>

definition session_of :: "packet list \<Rightarrow> traffic_session" where
  "session_of ps = fold session_update ps (new_session (hd ps))"

definition same_key :: "packet list \<Rightarrow> bool" where
  "same_key ps \<longleftrightarrow> ps \<noteq> [] \<and> (\<forall>p\<in>set ps. key_of p = key_of (hd ps))"

definition has_flag :: "int \<Rightarrow> packet \<Rightarrow> bool" where
  "has_flag m p = (case p_tcp_flags p of None \<Rightarrow> False | Some f \<Rightarrow> f AND m \<noteq> 0)"

definition ends_flow :: "packet \<Rightarrow> bool" where
  "ends_flow p \<longleftrightarrow> has_flag 1 p \<or> has_flag 4 p"

definition payload_of :: "packet \<Rightarrow> int" where
  "payload_of p = (case p_payload_size p of None \<Rightarrow> 0 | Some n \<Rightarrow> n)"

lemmas session_update_defs = session_update_def update_forward_def update_tcp_flags_def Let_def

lemma session_update_ident [simp]:
  "s_src_ip (session_update p s) = s_src_ip s" "s_dst_ip (session_update p s) = s_dst_ip s"
  "s_protocol (session_update p s) = s_protocol s" "s_src_port (session_update p s) = s_src_port s"
  "s_dst_port (session_update p s) = s_dst_port s"
  "s_start_time (session_update p s) = s_start_time s"
  "session_key_of (session_update p s) = session_key_of s"
  by (simp_all add: session_update_defs session_key_of_def split: option.splits)

lemma session_update_plain [simp]:
  "s_packet_count (session_update p s) = s_packet_count s + 1"
  "s_total_bytes (session_update p s) = s_total_bytes s + p_size p"
  "s_last_seen (session_update p s) = p_timestamp p"
  "s_packet_lengths (session_update p s) = s_packet_lengths s @ [p_size p]"
  "s_packet_timestamps (session_update p s) = s_packet_timestamps s @ [p_timestamp p]"
  "s_packet_length_stats (session_update p s) =
     rs_update (of_int (p_size p)) (s_packet_length_stats s)"
  by (simp_all add: session_update_defs split: option.splits)

lemma session_update_finished [simp]:
  "s_finished (session_update p s) \<longleftrightarrow> s_finished s \<or> ends_flow p"
  by (auto simp: session_update_defs ends_flow_def has_flag_def split: option.splits)

lemma session_update_flags [simp]:
  "fc_fin (s_flag_counts (session_update p s)) = fc_fin (s_flag_counts s) + (if has_flag 1 p then 1 else 0)"
  "fc_syn (s_flag_counts (session_update p s)) = fc_syn (s_flag_counts s) + (if has_flag 2 p then 1 else 0)"
  "fc_rst (s_flag_counts (session_update p s)) = fc_rst (s_flag_counts s) + (if has_flag 4 p then 1 else 0)"
  "fc_psh (s_flag_counts (session_update p s)) = fc_psh (s_flag_counts s) + (if has_flag 8 p then 1 else 0)"
  "fc_ack (s_flag_counts (session_update p s)) = fc_ack (s_flag_counts s) + (if has_flag 16 p then 1 else 0)"
  "fc_urg (s_flag_counts (session_update p s)) = fc_urg (s_flag_counts s) + (if has_flag 32 p then 1 else 0)"
  by (simp_all add: session_update_defs has_flag_def split: option.splits)

lemma session_update_forward:
  assumes "key_of p = session_key_of s"
  shows "s_fwd_packet_count (session_update p s) = s_fwd_packet_count s + 1"
    "s_fwd_total_bytes (session_update p s) = s_fwd_total_bytes s + p_size p"
    "s_fwd_packet_lengths (session_update p s) = s_fwd_packet_lengths s @ [p_size p]"
    "s_fwd_packet_timestamps (session_update p s) = s_fwd_packet_timestamps s @ [p_timestamp p]"
    "s_fwd_packet_length_stats (session_update p s) =
       rs_update (of_int (p_size p)) (s_fwd_packet_length_stats s)"
    "s_act_data_pkt_fwd (session_update p s) =
       s_act_data_pkt_fwd s + (if 0 < payload_of p then 1 else 0)"
    "s_min_seg_size_forward (session_update p s) =
       (if 0 < payload_of p then
          Some (case s_min_seg_size_forward s of None \<Rightarrow> payload_of p | Some m \<Rightarrow> min m (payload_of p))
        else s_min_seg_size_forward s)"
    "s_fwd_header_length (session_update p s) = s_fwd_header_length s +
       (case p_transport_header_length p of None \<Rightarrow> 0 | Some h \<Rightarrow> h)"
    "s_init_win_bytes_forward (session_update p s) =
       (case s_init_win_bytes_forward s of None \<Rightarrow> p_tcp_window_size p | Some w \<Rightarrow> Some w)"
  using assms
  by (simp_all add: session_update_defs key_of_def session_key_of_def payload_of_def
      split: option.splits)

lemma session_of_snoc:
  "ps \<noteq> [] \<Longrightarrow> session_of (ps @ [p]) = session_update p (session_of ps)"
  by (simp add: session_of_def)

lemma session_of_single: "session_of [p] = session_update p (new_session p)"
  by (simp add: session_of_def)

lemma new_session_key [simp]: "session_key_of (new_session p) = key_of p"
  by (simp add: new_session_def session_key_of_def key_of_def)

lemma session_of_key [simp]: "ps \<noteq> [] \<Longrightarrow> session_key_of (session_of ps) = key_of (hd ps)"
proof (induction ps rule: rev_induct)
  case (snoc p ps)
  then show ?case by (cases "ps = []") (simp_all add: session_of_snoc session_of_single)
qed simp

lemma same_key_snoc: "same_key (ps @ [p]) \<longleftrightarrow> (ps = [] \<or> same_key ps \<and> key_of p = key_of (hd ps))"
  by (cases ps) (auto simp: same_key_def)

text \<open>Induction over the packets of one session.\<close>

lemma same_key_induct [consumes 1, case_names single snoc]:
  assumes "same_key ps"
    and "\<And>p. P [p]"
    and "\<And>ps p. same_key ps \<Longrightarrow> key_of p = session_key_of (session_of ps) \<Longrightarrow> P ps \<Longrightarrow> P (ps @ [p])"
  shows "P ps"
  using assms(1)
proof (induction ps rule: rev_induct)
  case Nil
  then show ?case by (simp add: same_key_def)
next
  case (snoc p ps)
  show ?case
  proof (cases "ps = []")
    case True
    then show ?thesis using assms(2) by simp
  next
    case False
    with snoc.prems have "same_key ps" "key_of p = key_of (hd ps)" by (auto simp: same_key_snoc)
    then show ?thesis using snoc.IH assms(3) False by simp
  qed
qed

lemma same_key_nonempty [simp]: "same_key ps \<Longrightarrow> ps \<noteq> []"
  by (simp add: same_key_def)

lemmas session_grow = session_of_snoc session_of_single session_update_forward

lemma new_session_zero [simp]:
  "s_packet_count (new_session p) = 0" "s_total_bytes (new_session p) = 0"
  "s_packet_lengths (new_session p) = []" "s_packet_timestamps (new_session p) = []"
  "s_fwd_packet_lengths (new_session p) = []" "s_fwd_packet_timestamps (new_session p) = []"
  "s_packet_length_stats (new_session p) = rs_init"
  "s_fwd_packet_length_stats (new_session p) = rs_init"
  "s_fwd_packet_count (new_session p) = 0" "s_fwd_total_bytes (new_session p) = 0"
  "s_flag_counts (new_session p) = \<lparr>fc_fin = 0, fc_syn = 0, fc_rst = 0, fc_psh = 0, fc_ack = 0, fc_urg = 0\<rparr>"
  "s_fwd_header_length (new_session p) = 0" "s_init_win_bytes_forward (new_session p) = None"
  "s_act_data_pkt_fwd (new_session p) = 0" "s_min_seg_size_forward (new_session p) = None"
  "s_finished (new_session p) = False" "s_start_time (new_session p) = p_timestamp p"
  "s_last_seen (new_session p) = p_timestamp p"
  by (simp_all add: new_session_def)

lemma session_start: "ps \<noteq> [] \<Longrightarrow> s_start_time (session_of ps) = p_timestamp (hd ps)"
proof (induction ps rule: rev_induct)
  case (snoc p ps)
  then show ?case by (cases "ps = []") (simp_all add: session_of_snoc session_of_single)
qed simp

lemma session_totals:
  assumes "same_key ps"
  shows "s_packet_count (session_of ps) = length ps"
    and "s_total_bytes (session_of ps) = sum_list (map p_size ps)"
    and "s_last_seen (session_of ps) = p_timestamp (last ps)"
    and "s_packet_lengths (session_of ps) = map p_size ps"
    and "s_packet_timestamps (session_of ps) = map p_timestamp ps"
    and "s_packet_length_stats (session_of ps) = rs_of (map (\<lambda>p. of_int (p_size p)) ps)"
    and "s_finished (session_of ps) \<longleftrightarrow> (\<exists>p\<in>set ps. ends_flow p)"
  using assms
  by (induction ps rule: same_key_induct)
    (simp_all add: session_of_snoc session_of_single rs_of_snoc, auto simp: rs_of_def)

lemma session_forward_totals:
  assumes "same_key ps"
  shows "s_fwd_packet_count (session_of ps) = length ps"
    and "s_fwd_total_bytes (session_of ps) = sum_list (map p_size ps)"
    and "s_fwd_packet_lengths (session_of ps) = map p_size ps"
    and "s_fwd_packet_timestamps (session_of ps) = map p_timestamp ps"
    and "s_fwd_packet_length_stats (session_of ps) = rs_of (map (\<lambda>p. of_int (p_size p)) ps)"
  using assms
  by (induction ps rule: same_key_induct)
    (simp_all add: session_grow rs_of_snoc, simp_all add: rs_of_def)

lemma session_flag_totals:
  assumes "same_key ps"
  shows "fc_fin (s_flag_counts (session_of ps)) = length (filter (has_flag 1) ps)"
    and "fc_syn (s_flag_counts (session_of ps)) = length (filter (has_flag 2) ps)"
    and "fc_rst (s_flag_counts (session_of ps)) = length (filter (has_flag 4) ps)"
    and "fc_psh (s_flag_counts (session_of ps)) = length (filter (has_flag 8) ps)"
    and "fc_ack (s_flag_counts (session_of ps)) = length (filter (has_flag 16) ps)"
    and "fc_urg (s_flag_counts (session_of ps)) = length (filter (has_flag 32) ps)"
  using assms
  by (induction ps rule: same_key_induct) (simp_all add: session_of_snoc session_of_single)

definition positive_payloads :: "packet list \<Rightarrow> int list" where
  "positive_payloads ps = filter (\<lambda>n. 0 < n) (map payload_of ps)"

lemma positive_payloads_snoc:
  "positive_payloads (ps @ [p]) =
     positive_payloads ps @ (if 0 < payload_of p then [payload_of p] else [])"
  by (simp add: positive_payloads_def)

lemma map_filter_snoc:
  "List.map_filter f (xs @ [x]) = List.map_filter f xs @ (case f x of None \<Rightarrow> [] | Some y \<Rightarrow> [y])"
  by (induction xs) (auto simp: List.map_filter_simps split: option.splits)

lemma session_payloads:
  assumes "same_key ps"
  shows "s_act_data_pkt_fwd (session_of ps) = length (positive_payloads ps)"
    and "s_min_seg_size_forward (session_of ps) =
      (if positive_payloads ps = [] then None else Some (Min (set (positive_payloads ps))))"
  using assms
proof (induction ps rule: same_key_induct)
  case (single p)
  {
    case 1
    show ?case by (simp add: session_grow positive_payloads_def)
  next
    case 2
    show ?case by (simp add: session_grow positive_payloads_def)
  }
next
  case (snoc ps p)
  {
    case 1
    show ?case using snoc by (simp add: session_grow positive_payloads_snoc)
  next
    case 2
    show ?case using snoc
      by (cases "positive_payloads ps = []")
        (simp_all add: session_grow positive_payloads_snoc min.commute)
  }
qed

lemma session_headers:
  assumes "same_key ps"
  shows "s_fwd_header_length (session_of ps) =
      sum_list (map (\<lambda>p. case p_transport_header_length p of None \<Rightarrow> 0 | Some h \<Rightarrow> h) ps)"
    and "s_init_win_bytes_forward (session_of ps) =
      (case List.map_filter p_tcp_window_size ps of [] \<Rightarrow> None | w # ws \<Rightarrow> Some w)"
  using assms
  by (induction ps rule: same_key_induct)
    (simp_all add: session_grow List.map_filter_simps map_filter_snoc split: option.splits list.splits)

lemma s_duration_nonneg [simp]: "0 \<le> s_duration s"
  by (simp add: s_duration_def)

text \<open>A concrete packet, for the witnesses: a SYN from 10.0.0.5 to port 22 of 10.0.0.9.\<close>

definition sample_packet :: packet where
  "sample_packet = \<lparr>p_src_ip = ''10.0.0.5'', p_dst_ip = ''10.0.0.9'', p_protocol = 6, p_size = 60,
     p_timestamp = 1000, p_src_port = Some 40000, p_dst_port = Some 22, p_tcp_flags = Some 2,
     p_tcp_window_size = Some 64240, p_tcp_header_length = Some 40,
     p_transport_header_length = Some 40, p_payload_size = Some 0\<rparr>"

end
