(* ===== verification/Heuristics.thy ===== *)
theory Heuristics
  imports Traffic "HOL-Library.Multiset"
begin

text \<open>
  The packet-level detector (\<open>threat_detection/heuristic.py\<close>): three sliding windows per source
  address (packet times, destination ports, SYN-only times), their periodic pruning with
  eviction of the least recently seen sources, and the additive score.

  The code iterates over Python sets of addresses; the order of such an iteration is not
  specified, so it is the argument \<open>ord\<close> of the definitions that iterate, a rearrangement
  of the list it is given.
\<close>

subsection \<open>State\<close>

record heuristic_decision =
  hd_suspicious :: bool
  hd_reason :: string
  hd_score :: int

record heuristic_detector =
  h_enabled :: bool
  h_src_packet_times :: "(string, real list) pydict"
  h_src_recent_dst_ports :: "(string, (real \<times> int) list) pydict"
  h_src_syn_only_times :: "(string, real list) pydict"
  h_last_seen :: "(string, real) pydict"
  h_max_tracked_ips :: int
  h_prune_interval_seconds :: int
  h_last_pruned_at :: "real option"

definition burst_window_seconds :: real where "burst_window_seconds = 2"
definition burst_packet_threshold :: nat where "burst_packet_threshold = 40"
definition port_sweep_window_seconds :: real where "port_sweep_window_seconds = 5"
definition port_sweep_unique_ports_threshold :: nat where "port_sweep_unique_ports_threshold = 15"
definition syn_window_seconds :: real where "syn_window_seconds = 3"
definition syn_only_threshold :: nat where "syn_only_threshold = 20"
definition sensitive_ports :: "int set" where
  "sensitive_ports = {21, 22, 23, 25, 53, 80, 110, 135, 139, 143, 443, 445, 3389}"

lemmas heuristic_consts = burst_window_seconds_def burst_packet_threshold_def
  port_sweep_window_seconds_def port_sweep_unique_ports_threshold_def syn_window_seconds_def
  syn_only_threshold_def

definition heuristic_init :: "environ \<Rightarrow> int option \<Rightarrow> heuristic_detector" where
  "heuristic_init env max_tracked_ips = \<lparr>h_enabled = True, h_src_packet_times = [],
     h_src_recent_dst_ports = [], h_src_syn_only_times = [], h_last_seen = [],
     h_max_tracked_ips =
       positive_int env max_tracked_ips ''SMARTIDS_HEURISTIC_MAX_TRACKED_IPS'' 10000,
     h_prune_interval_seconds =
       positive_int env None ''SMARTIDS_HEURISTIC_PRUNE_INTERVAL_SECONDS'' 1,
     h_last_pruned_at = None\<rparr>"

subsection \<open>Windows\<close>

text \<open>
  The guard of a popping loop is being older than the cutoff: \<^const>\<open>stale_time\<close> for the windows
  of plain times, \<open>stale_port\<close> for the stamped ports.
\<close>

definition stale_port :: "real \<Rightarrow> real \<times> int \<Rightarrow> bool" where
  "stale_port now e = (fst e < now - port_sweep_window_seconds)"

definition append_time :: "string \<Rightarrow> real \<Rightarrow> heuristic_detector \<Rightarrow> heuristic_detector" where
  "append_time src t d = d\<lparr>
     h_src_packet_times := append_window (stale_time burst_window_seconds) t src t (h_src_packet_times d),
     h_last_seen := AList.update src t (h_last_seen d)\<rparr>"

definition append_dst_port ::
    "string \<Rightarrow> int option \<Rightarrow> real \<Rightarrow> heuristic_detector \<Rightarrow> heuristic_detector" where
  "append_dst_port src port t d =
     (case port of
        None \<Rightarrow> d
      | Some n \<Rightarrow> d\<lparr>
          h_src_recent_dst_ports := append_window stale_port t src (t, n) (h_src_recent_dst_ports d),
          h_last_seen := AList.update src t (h_last_seen d)\<rparr>)"

definition syn_only :: "int option \<Rightarrow> bool" where
  "syn_only tcp_flags =
     (case tcp_flags of None \<Rightarrow> False | Some f \<Rightarrow> f AND 2 \<noteq> 0 \<and> \<not> f AND 16 \<noteq> 0)"

definition append_syn_only ::
    "string \<Rightarrow> int option \<Rightarrow> real \<Rightarrow> heuristic_detector \<Rightarrow> heuristic_detector" where
  "append_syn_only src tcp_flags t d =
     (if \<not> syn_only tcp_flags then d
      else d\<lparr>
        h_src_syn_only_times := append_window (stale_time syn_window_seconds) t src t (h_src_syn_only_times d),
        h_last_seen := AList.update src t (h_last_seen d)\<rparr>)"

subsection \<open>Pruning\<close>

definition tracked_ips :: "heuristic_detector \<Rightarrow> string list" where
  "tracked_ips d = remdups (dkeys (h_src_packet_times d) @ dkeys (h_src_recent_dst_ports d)
     @ dkeys (h_src_syn_only_times d))"

definition forget_ip :: "string \<Rightarrow> heuristic_detector \<Rightarrow> heuristic_detector" where
  "forget_ip ip d = d\<lparr>
     h_src_packet_times := AList.delete ip (h_src_packet_times d),
     h_src_recent_dst_ports := AList.delete ip (h_src_recent_dst_ports d),
     h_src_syn_only_times := AList.delete ip (h_src_syn_only_times d),
     h_last_seen := AList.delete ip (h_last_seen d)\<rparr>"

definition prune_ip :: "real \<Rightarrow> string \<Rightarrow> heuristic_detector \<Rightarrow> heuristic_detector" where
  "prune_ip now ip d =
     (let d1 = d\<lparr>
        h_src_packet_times :=
          trim_window_at (stale_time burst_window_seconds) now ip (h_src_packet_times d),
        h_src_recent_dst_ports := trim_window_at stale_port now ip (h_src_recent_dst_ports d),
        h_src_syn_only_times :=
          trim_window_at (stale_time syn_window_seconds) now ip (h_src_syn_only_times d)\<rparr>;
          is_empty = (window (h_src_packet_times d1) ip = [] \<and>
            window (h_src_recent_dst_ports d1) ip = [] \<and> window (h_src_syn_only_times d1) ip = [])
      in if is_empty then forget_ip ip d1 else d1)"

definition last_seen_of :: "heuristic_detector \<Rightarrow> string \<Rightarrow> real" where
  "last_seen_of d ip = (case map_of (h_last_seen d) ip of None \<Rightarrow> 0 | Some t \<Rightarrow> t)"

definition evict_overflow ::
    "(string list \<Rightarrow> string list) \<Rightarrow> heuristic_detector \<Rightarrow> heuristic_detector" where
  "evict_overflow ord d =
     (let tracked = tracked_ips d; overflow = int (length tracked) - h_max_tracked_ips d
      in if overflow \<le> 0 then d
         else fold forget_ip (take (nat overflow) (sort_key (last_seen_of d) (ord tracked))) d)"

definition prune_tracked_ips ::
    "(string list \<Rightarrow> string list) \<Rightarrow> real \<Rightarrow> heuristic_detector \<Rightarrow> heuristic_detector" where
  "prune_tracked_ips ord now d =
     evict_overflow ord (fold (prune_ip now) (ord (tracked_ips d)) d)"

definition prune_is_due :: "real \<Rightarrow> heuristic_detector \<Rightarrow> bool" where
  "prune_is_due now d =
     (case h_last_pruned_at d of
        None \<Rightarrow> True
      | Some t0 \<Rightarrow> of_int (h_prune_interval_seconds d) \<le> now - t0)"

subsection \<open>Scoring\<close>

definition score_rules ::
    "packet \<Rightarrow> real list \<Rightarrow> (real \<times> int) list \<Rightarrow> real list \<Rightarrow> (int \<times> string) list" where
  "score_rules p packet_times recent_ports syn_times =
     (if p_src_port p = None \<and> p_dst_port p = None then [(2, ''no_transport_ports'')] else []) @
     (if p_size p \<le> 0 then [(3, ''invalid_packet_size'')] else []) @
     (if p_size p < 40 then [(1, ''tiny_packet'')] else []) @
     (case p_dst_port p of None \<Rightarrow> []
      | Some n \<Rightarrow> if n \<in> sensitive_ports then [(1, ''sensitive_service_probe'')] else []) @
     (if burst_packet_threshold \<le> length packet_times then [(3, ''scan_burst'')] else []) @
     (if port_sweep_unique_ports_threshold \<le> card (snd ` set recent_ports)
      then [(3, ''port_sweep'')] else []) @
     (if syn_only_threshold \<le> length syn_times then [(4, ''syn_only_surge'')] else [])"

definition decide :: "(int \<times> string) list \<Rightarrow> heuristic_decision" where
  "decide rules =
     (let score = sum_list (map fst rules)
      in \<lparr>hd_suspicious = (2 \<le> score),
          hd_reason = (if rules = [] then ''clean'' else join_with '','' (map snd rules)),
          hd_score = score\<rparr>)"

definition evaluate_packet ::
    "(string list \<Rightarrow> string list) \<Rightarrow> packet \<Rightarrow> heuristic_detector \<Rightarrow>
     heuristic_decision \<times> heuristic_detector" where
  "evaluate_packet ord p d =
     (if \<not> h_enabled d then
        (\<lparr>hd_suspicious = False, hd_reason = ''disabled'', hd_score = 0\<rparr>, d)
      else
        let t = p_timestamp p; src = p_src_ip p;
            d1 = append_syn_only src (p_tcp_flags p) t
                   (append_dst_port src (p_dst_port p) t (append_time src t d));
            d2 = (if prune_is_due t d1
                  then (prune_tracked_ips ord t d1)\<lparr>h_last_pruned_at := Some t\<rparr> else d1)
        in (decide (score_rules p (window (h_src_packet_times d2) src)
              (window (h_src_recent_dst_ports d2) src) (window (h_src_syn_only_times d2) src)), d2))"

text \<open>The three windows provide the contract of \<^const>\<open>time_window\<close>.\<close>

interpretation burst: time_window "stale_time burst_window_seconds" "\<lambda>t. t"
  by (rule time_window_stale_time) (simp add: heuristic_consts)

interpretation sweep: time_window stale_port fst
  by unfold_locales (auto simp: stale_port_def heuristic_consts)

interpretation syn: time_window "stale_time syn_window_seconds" "\<lambda>t. t"
  by (rule time_window_stale_time) (simp add: heuristic_consts)

subsection \<open>What pruning does to the windows\<close>

lemma trim_idem [simp]: "trim stale now (trim stale now q) = trim stale now q"
  by (simp add: trim_def)

lemma forget_ip_sel [simp]:
  "window (h_src_packet_times (forget_ip ip d)) k = (if k = ip then [] else window (h_src_packet_times d) k)"
  "window (h_src_recent_dst_ports (forget_ip ip d)) k =
     (if k = ip then [] else window (h_src_recent_dst_ports d) k)"
  "window (h_src_syn_only_times (forget_ip ip d)) k =
     (if k = ip then [] else window (h_src_syn_only_times d) k)"
  "h_last_seen (forget_ip ip d) = AList.delete ip (h_last_seen d)"
  "h_enabled (forget_ip ip d) = h_enabled d"
  "h_max_tracked_ips (forget_ip ip d) = h_max_tracked_ips d"
  "h_prune_interval_seconds (forget_ip ip d) = h_prune_interval_seconds d"
  "h_last_pruned_at (forget_ip ip d) = h_last_pruned_at d"
  by (simp_all add: forget_ip_def)

lemma set_tracked_ips: "set (tracked_ips d) = fst ` set (h_src_packet_times d) \<union>
    fst ` set (h_src_recent_dst_ports d) \<union> fst ` set (h_src_syn_only_times d)"
  by (simp add: tracked_ips_def Un_assoc)

lemma distinct_tracked_ips [simp]: "distinct (tracked_ips d)"
  by (simp add: tracked_ips_def)

lemma tracked_forget [simp]: "set (tracked_ips (forget_ip ip d)) = set (tracked_ips d) - {ip}"
  by (auto simp: set_tracked_ips forget_ip_def)

lemma prune_ip_windows [simp]:
  "window (h_src_packet_times (prune_ip now ip d)) k =
     (if k = ip then trim (stale_time burst_window_seconds) now (window (h_src_packet_times d) k)
      else window (h_src_packet_times d) k)"
  "window (h_src_recent_dst_ports (prune_ip now ip d)) k =
     (if k = ip then trim stale_port now (window (h_src_recent_dst_ports d) k)
      else window (h_src_recent_dst_ports d) k)"
  "window (h_src_syn_only_times (prune_ip now ip d)) k =
     (if k = ip then trim (stale_time syn_window_seconds) now (window (h_src_syn_only_times d) k)
      else window (h_src_syn_only_times d) k)"
  by (auto simp: prune_ip_def Let_def)

lemma prune_ip_sel [simp]:
  "h_enabled (prune_ip now ip d) = h_enabled d"
  "h_max_tracked_ips (prune_ip now ip d) = h_max_tracked_ips d"
  "h_prune_interval_seconds (prune_ip now ip d) = h_prune_interval_seconds d"
  by (simp_all add: prune_ip_def Let_def)

lemma tracked_prune_ip: "set (tracked_ips (prune_ip now ip d)) \<subseteq> set (tracked_ips d)"
  by (auto simp: prune_ip_def Let_def set_tracked_ips forget_ip_def)

lemma fold_prune_windows:
  "window (h_src_packet_times (fold (prune_ip now) xs d)) k =
     (if k \<in> set xs then trim (stale_time burst_window_seconds) now (window (h_src_packet_times d) k)
      else window (h_src_packet_times d) k)"
  "window (h_src_recent_dst_ports (fold (prune_ip now) xs d)) k =
     (if k \<in> set xs then trim stale_port now (window (h_src_recent_dst_ports d) k)
      else window (h_src_recent_dst_ports d) k)"
  "window (h_src_syn_only_times (fold (prune_ip now) xs d)) k =
     (if k \<in> set xs then trim (stale_time syn_window_seconds) now (window (h_src_syn_only_times d) k)
      else window (h_src_syn_only_times d) k)"
  by (induction xs arbitrary: d) simp_all

lemma fold_prune_sel:
  "h_enabled (fold (prune_ip now) xs d) = h_enabled d"
  "h_max_tracked_ips (fold (prune_ip now) xs d) = h_max_tracked_ips d"
  "h_prune_interval_seconds (fold (prune_ip now) xs d) = h_prune_interval_seconds d"
  "set (tracked_ips (fold (prune_ip now) xs d)) \<subseteq> set (tracked_ips d)"
proof -
  show "set (tracked_ips (fold (prune_ip now) xs d)) \<subseteq> set (tracked_ips d)"
  proof (induction xs arbitrary: d)
    case (Cons x xs)
    then show ?case using tracked_prune_ip [of now x d] by fastforce
  qed simp
qed (induction xs arbitrary: d; simp)+

lemma untracked_windows:
  assumes "k \<notin> set (tracked_ips d)"
  shows "window (h_src_packet_times d) k = []" "window (h_src_recent_dst_ports d) k = []"
    "window (h_src_syn_only_times d) k = []"
  using assms dget_None_iff [of "h_src_packet_times d" k] dget_None_iff [of "h_src_recent_dst_ports d" k]
    dget_None_iff [of "h_src_syn_only_times d" k]
  by (simp_all add: set_tracked_ips window_def)

definition rearranges :: "(string list \<Rightarrow> string list) \<Rightarrow> bool" where
  "rearranges ord \<longleftrightarrow> (\<forall>xs. mset (ord xs) = mset xs)"

lemma rearranges_set: "rearranges ord \<Longrightarrow> set (ord xs) = set xs"
  by (metis rearranges_def mset_eq_setD)

lemma rearranges_distinct: "rearranges ord \<Longrightarrow> distinct (ord xs) = distinct xs"
  by (metis rearranges_def mset_eq_imp_distinct_iff)

lemma prune_windows:
  assumes "rearranges ord" and d': "d' = fold (prune_ip now) (ord (tracked_ips d)) d"
  shows "window (h_src_packet_times d') k =
      trim (stale_time burst_window_seconds) now (window (h_src_packet_times d) k)"
    "window (h_src_recent_dst_ports d') k = trim stale_port now (window (h_src_recent_dst_ports d) k)"
    "window (h_src_syn_only_times d') k =
      trim (stale_time syn_window_seconds) now (window (h_src_syn_only_times d) k)"
  unfolding d' fold_prune_windows rearranges_set [OF assms(1)]
  by (simp_all add: untracked_windows)

lemma fold_forget_max: "h_max_tracked_ips (fold forget_ip xs d) = h_max_tracked_ips d"
  by (induction xs arbitrary: d) simp_all

lemma fold_forget_interval:
  "h_prune_interval_seconds (fold forget_ip xs d) = h_prune_interval_seconds d"
  by (induction xs arbitrary: d) simp_all

lemma evict_none:
  "int (length (tracked_ips d)) \<le> h_max_tracked_ips d \<Longrightarrow> evict_overflow ord d = d"
  by (simp add: evict_overflow_def Let_def)

subsection \<open>Reachable detectors and their history\<close>

inductive detector_run :: "environ \<Rightarrow> int option \<Rightarrow> packet list \<Rightarrow> heuristic_detector \<Rightarrow> bool"
  for env n where
  start: "detector_run env n [] (heuristic_init env n)"
| evaluate: "detector_run env n h d \<Longrightarrow> rearranges ord \<Longrightarrow>
    detector_run env n (h @ [p]) (snd (evaluate_packet ord p d))"

definition packets_from :: "string \<Rightarrow> packet list \<Rightarrow> packet list" where
  "packets_from src h = filter (\<lambda>q. p_src_ip q = src) h"

definition times_from :: "packet list \<Rightarrow> string \<Rightarrow> real list" where
  "times_from h src = map p_timestamp (packets_from src h)"

definition ports_from :: "packet list \<Rightarrow> string \<Rightarrow> (real \<times> int) list" where
  "ports_from h src =
     List.map_filter (\<lambda>q. map_option (Pair (p_timestamp q)) (p_dst_port q)) (packets_from src h)"

definition syns_from :: "packet list \<Rightarrow> string \<Rightarrow> real list" where
  "syns_from h src = map p_timestamp (filter (\<lambda>q. syn_only (p_tcp_flags q)) (packets_from src h))"

lemmas histories = times_from_def ports_from_def syns_from_def packets_from_def

lemma histories_snoc:
  "times_from (h @ [p]) = (times_from h)(p_src_ip p := times_from h (p_src_ip p) @ [p_timestamp p])"
  "ports_from (h @ [p]) = (case p_dst_port p of None \<Rightarrow> ports_from h
     | Some n \<Rightarrow> (ports_from h)(p_src_ip p := ports_from h (p_src_ip p) @ [(p_timestamp p, n)]))"
  "syns_from (h @ [p]) = (if syn_only (p_tcp_flags p)
     then (syns_from h)(p_src_ip p := syns_from h (p_src_ip p) @ [p_timestamp p]) else syns_from h)"
  by (auto simp: histories fun_eq_iff map_filter_append List.map_filter_simps split: option.splits)

lemma sorted_histories:
  assumes "sorted (map p_timestamp h)"
  shows "sorted (times_from h src)" "sorted (map fst (ports_from h src))" "sorted (syns_from h src)"
proof -
  have s: "sorted (map p_timestamp (packets_from src h))"
    unfolding packets_from_def using assms by (rule sorted_filter)
  then show "sorted (times_from h src)" by (simp add: times_from_def)
  from s show "sorted (syns_from h src)" unfolding syns_from_def by (rule sorted_filter)
  have e: "map fst (List.map_filter (\<lambda>q. map_option (Pair (p_timestamp q)) (p_dst_port q)) qs)
      = map p_timestamp (filter (\<lambda>q. p_dst_port q \<noteq> None) qs)" for qs
    by (induction qs) (auto simp: List.map_filter_simps)
  show "sorted (map fst (ports_from h src))"
    unfolding ports_from_def e by (intro sorted_filter [OF s])
qed

lemma times_in_history: "x \<in> set (times_from h src) \<Longrightarrow> \<exists>q\<in>set h. x = p_timestamp q"
  by (auto simp: histories)

text \<open>
  \<open>windows_hold h lo now d\<close>: each window of the detector holds what is fresh of the history \<open>h\<close>,
  at a time of its own between \<open>lo\<close> (the last prune) and \<open>now\<close>.
\<close>

definition windows_hold :: "packet list \<Rightarrow> real \<Rightarrow> real \<Rightarrow> heuristic_detector \<Rightarrow> bool" where
  "windows_hold h lo now d \<longleftrightarrow>
     burst.windows_ok (times_from h) lo now (h_src_packet_times d) \<and>
     sweep.windows_ok (ports_from h) lo now (h_src_recent_dst_ports d) \<and>
     syn.windows_ok (syns_from h) lo now (h_src_syn_only_times d)"

definition absorb_packet :: "packet \<Rightarrow> heuristic_detector \<Rightarrow> heuristic_detector" where
  "absorb_packet p d = append_syn_only (p_src_ip p) (p_tcp_flags p) (p_timestamp p)
     (append_dst_port (p_src_ip p) (p_dst_port p) (p_timestamp p)
       (append_time (p_src_ip p) (p_timestamp p) d))"

lemmas appends = append_time_def append_dst_port_def append_syn_only_def

lemma absorb_sel:
  "h_src_packet_times (absorb_packet p d) = append_window (stale_time burst_window_seconds)
     (p_timestamp p) (p_src_ip p) (p_timestamp p) (h_src_packet_times d)"
  "h_src_recent_dst_ports (absorb_packet p d) = (case p_dst_port p of None \<Rightarrow> h_src_recent_dst_ports d
     | Some n \<Rightarrow> append_window stale_port (p_timestamp p) (p_src_ip p) (p_timestamp p, n)
         (h_src_recent_dst_ports d))"
  "h_src_syn_only_times (absorb_packet p d) = (if syn_only (p_tcp_flags p)
     then append_window (stale_time syn_window_seconds) (p_timestamp p) (p_src_ip p) (p_timestamp p)
         (h_src_syn_only_times d)
     else h_src_syn_only_times d)"
  "h_enabled (absorb_packet p d) = h_enabled d"
  "h_max_tracked_ips (absorb_packet p d) = h_max_tracked_ips d"
  "h_prune_interval_seconds (absorb_packet p d) = h_prune_interval_seconds d"
  "h_last_pruned_at (absorb_packet p d) = h_last_pruned_at d"
  by (simp_all add: absorb_packet_def appends split: option.splits)

lemma tracked_absorb: "set (tracked_ips (absorb_packet p d)) = insert (p_src_ip p) (set (tracked_ips d))"
  by (auto simp: set_tracked_ips absorb_sel split: option.splits if_splits)

lemma windows_hold_absorb:
  assumes hold: "windows_hold h lo now d" and le: "now \<le> p_timestamp p" "lo \<le> p_timestamp p"
    and sorted: "sorted (map p_timestamp (h @ [p]))"
  shows "windows_hold (h @ [p]) lo (p_timestamp p) (absorb_packet p d)"
proof -
  let ?t = "p_timestamp p" and ?s = "p_src_ip p"
  have o: "sorted (times_from (h @ [p]) ?s)" "sorted (map fst (ports_from (h @ [p]) ?s))"
    "sorted (syns_from (h @ [p]) ?s)"
    using sorted_histories [OF sorted] by blast+
  have b: "burst.windows_ok (times_from (h @ [p])) lo ?t (h_src_packet_times (absorb_packet p d))"
    using burst.windows_ok_append [of "times_from h" lo now "h_src_packet_times d" ?t ?s] o(1) hold le
    by (simp add: windows_hold_def histories_snoc absorb_sel)
  have s: "sweep.windows_ok (ports_from (h @ [p])) lo ?t (h_src_recent_dst_ports (absorb_packet p d))"
  proof (cases "p_dst_port p")
    case None
    then show ?thesis using sweep.windows_ok_later hold le(1)
      by (auto simp: windows_hold_def histories_snoc absorb_sel)
  next
    case (Some n)
    then show ?thesis
      using sweep.windows_ok_append [of "ports_from h" lo now "h_src_recent_dst_ports d" "(?t, n)" ?s]
        o(2) hold le
      by (simp add: windows_hold_def histories_snoc absorb_sel)
  qed
  have y: "syn.windows_ok (syns_from (h @ [p])) lo ?t (h_src_syn_only_times (absorb_packet p d))"
    using syn.windows_ok_append [of "syns_from h" lo now "h_src_syn_only_times d" ?t ?s] o(3) hold le
      syn.windows_ok_later
    by (auto simp: windows_hold_def histories_snoc absorb_sel)
  from b s y show ?thesis by (simp add: windows_hold_def)
qed

lemma windows_hold_prune:
  assumes hold: "windows_hold h lo now d" and le: "now \<le> t"
    and sorted: "sorted (map p_timestamp h)" and ord: "rearranges ord"
  shows "windows_hold h t t (fold (prune_ip t) (ord (tracked_ips d)) d)"
proof -
  let ?d = "fold (prune_ip t) (ord (tracked_ips d)) d"
  note w = prune_windows [OF ord, of ?d t d, OF refl]
  note o = sorted_histories [OF sorted]
  from hold have b: "burst.windows_ok (times_from h) lo now (h_src_packet_times d)"
    and s: "sweep.windows_ok (ports_from h) lo now (h_src_recent_dst_ports d)"
    and y: "syn.windows_ok (syns_from h) lo now (h_src_syn_only_times d)"
    by (simp_all add: windows_hold_def)
  have "burst.windows_ok (times_from h) t t (h_src_packet_times ?d)"
    by (rule burst.windows_ok_trim [OF b le _ w(1)]) (simp add: o)
  moreover have "sweep.windows_ok (ports_from h) t t (h_src_recent_dst_ports ?d)"
    by (rule sweep.windows_ok_trim [OF s le _ w(2)]) (simp add: o)
  moreover have "syn.windows_ok (syns_from h) t t (h_src_syn_only_times ?d)"
    by (rule syn.windows_ok_trim [OF y le _ w(3)]) (simp add: o)
  ultimately show ?thesis by (simp add: windows_hold_def)
qed

lemma windows_hold_init:
  "h_src_packet_times d = [] \<Longrightarrow> h_src_recent_dst_ports d = [] \<Longrightarrow> h_src_syn_only_times d = [] \<Longrightarrow>
   lo \<le> now \<Longrightarrow> windows_hold [] lo now d"
  by (auto simp: windows_hold_def burst.windows_ok_def sweep.windows_ok_def syn.windows_ok_def
      histories List.map_filter_simps)

text \<open>The state after a packet, split into absorbing it and pruning when that is due.\<close>

definition prune_if_due ::
    "(string list \<Rightarrow> string list) \<Rightarrow> real \<Rightarrow> heuristic_detector \<Rightarrow> heuristic_detector" where
  "prune_if_due ord t d =
     (if prune_is_due t d then (prune_tracked_ips ord t d)\<lparr>h_last_pruned_at := Some t\<rparr> else d)"

lemma evaluate_packet_eq:
  "h_enabled d \<Longrightarrow> evaluate_packet ord p d =
     (let d2 = prune_if_due ord (p_timestamp p) (absorb_packet p d); src = p_src_ip p
      in (decide (score_rules p (window (h_src_packet_times d2) src)
            (window (h_src_recent_dst_ports d2) src) (window (h_src_syn_only_times d2) src)), d2))"
  by (simp add: evaluate_packet_def prune_if_due_def absorb_packet_def Let_def)

definition det_ok :: "packet list \<Rightarrow> heuristic_detector \<Rightarrow> bool" where
  "det_ok h d \<longleftrightarrow> h_enabled d \<and> 1 \<le> h_prune_interval_seconds d \<and>
     set (tracked_ips d) \<subseteq> p_src_ip ` set h \<and>
     (case h_last_pruned_at d of
        None \<Rightarrow> h = [] \<and> h_src_packet_times d = [] \<and> h_src_recent_dst_ports d = [] \<and>
          h_src_syn_only_times d = []
      | Some lo \<Rightarrow> h \<noteq> [] \<and> lo \<le> p_timestamp (last h) \<and>
          p_timestamp (last h) - lo < of_int (h_prune_interval_seconds d) \<and>
          windows_hold h lo (p_timestamp (last h)) d)"

lemma det_ok_init: "det_ok [] (heuristic_init env n)"
  by (simp add: det_ok_def heuristic_init_def tracked_ips_def)

text \<open>A detector that tracks no more sources than it may evicts none.\<close>

lemma few_tracked:
  assumes "set (tracked_ips d) \<subseteq> p_src_ip ` set h" and "int (card (p_src_ip ` set h)) \<le> h_max_tracked_ips d"
  shows "evict_overflow ord d = d"
proof (rule evict_none)
  have "length (tracked_ips d) = card (set (tracked_ips d))" by (simp add: distinct_card)
  also have "\<dots> \<le> card (p_src_ip ` set h)" using assms(1) by (intro card_mono) auto
  finally show "int (length (tracked_ips d)) \<le> h_max_tracked_ips d" using assms(2) by linarith
qed

lemma absorb_held:
  assumes "det_ok h d" and sorted: "sorted (map p_timestamp (h @ [p]))"
  obtains lo now where "now \<le> p_timestamp p" "lo \<le> now" "windows_hold h lo now d"
    "h_last_pruned_at d = None \<or> h_last_pruned_at d = Some lo"
proof (cases "h_last_pruned_at d")
  case None
  with assms(1) show ?thesis
    by (intro that [of "p_timestamp p" "p_timestamp p"])
      (auto simp: det_ok_def intro!: windows_hold_init)
next
  case (Some lo)
  with assms have "p_timestamp (last h) \<le> p_timestamp p"
    by (auto simp: det_ok_def sorted_append)
  with Some assms(1) show ?thesis
    by (intro that [of "p_timestamp (last h)" lo]) (auto simp: det_ok_def)
qed

lemma prune_if_due_held:
  assumes hold: "windows_hold h lo t d" and sorted: "sorted (map p_timestamp h)"
    and ord: "rearranges ord" and few: "int (card (p_src_ip ` set h)) \<le> h_max_tracked_ips d"
    and tracked: "set (tracked_ips d) \<subseteq> p_src_ip ` set h" and "lo \<le> t"
    and lo: "h_last_pruned_at d = None \<or> h_last_pruned_at d = Some lo"
    and pos: "1 \<le> h_prune_interval_seconds d"
  defines "d' \<equiv> prune_if_due ord t d"
  shows "\<exists>lo'. h_last_pruned_at d' = Some lo' \<and> lo' \<le> t \<and>
       t - lo' < of_int (h_prune_interval_seconds d) \<and> windows_hold h lo' t d'"
    and "set (tracked_ips d') \<subseteq> p_src_ip ` set h" and "h_enabled d' = h_enabled d"
    and "h_prune_interval_seconds d' = h_prune_interval_seconds d"
    and "h_max_tracked_ips d' = h_max_tracked_ips d"
proof -
  let ?f = "fold (prune_ip t) (ord (tracked_ips d)) d"
  have sub: "set (tracked_ips ?f) \<subseteq> p_src_ip ` set h" using fold_prune_sel(4) tracked by blast
  then have pt: "prune_tracked_ips ord t d = ?f"
    unfolding prune_tracked_ips_def using few by (intro few_tracked) (simp_all add: fold_prune_sel)
  have d': "d' = (if prune_is_due t d then ?f\<lparr>h_last_pruned_at := Some t\<rparr> else d)"
    by (simp add: d'_def prune_if_due_def pt)
  have upd: "windows_hold h a b (x\<lparr>h_last_pruned_at := y\<rparr>) = windows_hold h a b x"
    "tracked_ips (x\<lparr>h_last_pruned_at := y\<rparr>) = tracked_ips x" for a b x y
    by (simp_all add: windows_hold_def tracked_ips_def)
  show "set (tracked_ips d') \<subseteq> p_src_ip ` set h" using sub tracked by (simp add: d' upd)
  show "h_enabled d' = h_enabled d" "h_prune_interval_seconds d' = h_prune_interval_seconds d"
    "h_max_tracked_ips d' = h_max_tracked_ips d"
    by (simp_all add: d' fold_prune_sel)
  show "\<exists>lo'. h_last_pruned_at d' = Some lo' \<and> lo' \<le> t \<and>
       t - lo' < of_int (h_prune_interval_seconds d) \<and> windows_hold h lo' t d'"
  proof (cases "prune_is_due t d")
    case True
    then show ?thesis using windows_hold_prune [OF hold order_refl sorted ord] pos
      by (simp add: d' upd)
  next
    case False
    then show ?thesis using lo hold \<open>lo \<le> t\<close> by (auto simp: d' prune_is_due_def)
  qed
qed

lemma sources_snoc: "p_src_ip ` set (h @ [p]) = insert (p_src_ip p) (p_src_ip ` set h)"
  by auto

lemma det_ok_step:
  assumes ok: "det_ok h d" and sorted: "sorted (map p_timestamp (h @ [p]))" and ord: "rearranges ord"
    and few: "int (card (p_src_ip ` set (h @ [p]))) \<le> h_max_tracked_ips d"
  defines "d' \<equiv> prune_if_due ord (p_timestamp p) (absorb_packet p d)"
  shows "det_ok (h @ [p]) d' \<and> h_max_tracked_ips d' = h_max_tracked_ips d \<and>
    snd (evaluate_packet ord p d) = d'"
proof -
  obtain lo now where le: "now \<le> p_timestamp p" "lo \<le> now" and hold: "windows_hold h lo now d"
    and lo: "h_last_pruned_at d = None \<or> h_last_pruned_at d = Some lo"
    using absorb_held [OF ok sorted] .
  let ?a = "absorb_packet p d"
  have hold': "windows_hold (h @ [p]) lo (p_timestamp p) ?a"
    using windows_hold_absorb [OF hold le(1) _ sorted] le by simp
  have tr: "set (tracked_ips ?a) \<subseteq> p_src_ip ` set (h @ [p])"
    using ok by (auto simp: tracked_absorb det_ok_def)
  have few': "int (card (p_src_ip ` set (h @ [p]))) \<le> h_max_tracked_ips ?a"
    and lo': "h_last_pruned_at ?a = None \<or> h_last_pruned_at ?a = Some lo"
    and pos': "1 \<le> h_prune_interval_seconds ?a" and "lo \<le> p_timestamp p"
    using few lo ok le by (simp_all add: absorb_sel det_ok_def)
  note held = prune_if_due_held [OF hold' sorted ord few' tr this(4) lo' pos', folded d'_def]
  show ?thesis using ok held
    by (auto simp: det_ok_def absorb_sel evaluate_packet_eq Let_def d'_def)
qed

lemma detector_run_ok:
  "detector_run env n h d \<Longrightarrow> sorted (map p_timestamp h) \<Longrightarrow>
   int (card (p_src_ip ` set h)) \<le> h_max_tracked_ips d \<Longrightarrow> det_ok h d"
proof (induction rule: detector_run.induct)
  case start
  then show ?case by (simp add: det_ok_init)
next
  case (evaluate h d ord p)
  have max: "h_max_tracked_ips (snd (evaluate_packet ord p d)) = h_max_tracked_ips d"
  proof (cases "h_enabled d")
    case True
    then show ?thesis
      by (simp add: evaluate_packet_eq Let_def prune_if_due_def prune_tracked_ips_def
          evict_overflow_def fold_prune_sel absorb_sel fold_forget_max)
  qed (simp add: evaluate_packet_def)
  have "card (p_src_ip ` set h) \<le> card (p_src_ip ` set (h @ [p]))"
    by (intro card_mono) auto
  with evaluate max have "det_ok h d" by (auto simp: sorted_append)
  with det_ok_step [of h d p ord] evaluate max show ?case by simp
qed

text \<open>The windows of the packet's own source, when the score is computed.\<close>

lemma own_windows:
  assumes ok: "det_ok h d" and sorted: "sorted (map p_timestamp (h @ [p]))" and ord: "rearranges ord"
  defines "t \<equiv> p_timestamp p" and "src \<equiv> p_src_ip p"
  defines "d' \<equiv> prune_if_due ord t (absorb_packet p d)"
  assumes same: "prune_tracked_ips ord t (absorb_packet p d) =
      fold (prune_ip t) (ord (tracked_ips (absorb_packet p d))) (absorb_packet p d)"
  shows "window (h_src_packet_times d') src =
       filter (\<lambda>x. \<not> stale_time burst_window_seconds t x) (times_from (h @ [p]) src)"
    and "p_dst_port p \<noteq> None \<Longrightarrow> window (h_src_recent_dst_ports d') src =
       filter (\<lambda>x. \<not> stale_port t x) (ports_from (h @ [p]) src)"
    and "syn_only (p_tcp_flags p) \<Longrightarrow> window (h_src_syn_only_times d') src =
       filter (\<lambda>x. \<not> stale_time syn_window_seconds t x) (syns_from (h @ [p]) src)"
proof -
  obtain lo now where le: "now \<le> t" and hold: "windows_hold h lo now d"
    using absorb_held [OF ok sorted] unfolding t_def by metis
  from hold have b: "burst.windows_ok (times_from h) lo now (h_src_packet_times d)"
    and s: "sweep.windows_ok (ports_from h) lo now (h_src_recent_dst_ports d)"
    and y: "syn.windows_ok (syns_from h) lo now (h_src_syn_only_times d)"
    by (simp_all add: windows_hold_def)
  note o = sorted_histories [OF sorted, of src]
  let ?a = "absorb_packet p d"
  have pruned: "window (h_src_packet_times d') src = window (h_src_packet_times ?a) src \<or>
      window (h_src_packet_times d') src =
        trim (stale_time burst_window_seconds) t (window (h_src_packet_times ?a) src)"
    "window (h_src_recent_dst_ports d') src = window (h_src_recent_dst_ports ?a) src \<or>
      window (h_src_recent_dst_ports d') src = trim stale_port t (window (h_src_recent_dst_ports ?a) src)"
    "window (h_src_syn_only_times d') src = window (h_src_syn_only_times ?a) src \<or>
      window (h_src_syn_only_times d') src =
        trim (stale_time syn_window_seconds) t (window (h_src_syn_only_times ?a) src)"
    using prune_windows [OF ord refl, of t ?a src] by (auto simp: d'_def prune_if_due_def same)
  show "window (h_src_packet_times d') src =
       filter (\<lambda>x. \<not> stale_time burst_window_seconds t x) (times_from (h @ [p]) src)"
    using pruned(1) burst.append_window_fresh [OF b, of t src] le o(1)
      burst.trim_window [of "times_from (h @ [p]) src" t t]
    by (auto simp: absorb_sel histories_snoc t_def src_def)
  show "window (h_src_recent_dst_ports d') src =
       filter (\<lambda>x. \<not> stale_port t x) (ports_from (h @ [p]) src)" if some: "p_dst_port p \<noteq> None"
  proof -
    obtain k where k: "p_dst_port p = Some k" using some by (cases "p_dst_port p") auto
    show ?thesis
      using pruned(2) sweep.append_window_fresh [OF s, of "(t, k)" src] le o(2)
        sweep.trim_window [of "ports_from (h @ [p]) src" t t]
      by (auto simp: absorb_sel histories_snoc t_def src_def k)
  qed
  show "window (h_src_syn_only_times d') src =
       filter (\<lambda>x. \<not> stale_time syn_window_seconds t x) (syns_from (h @ [p]) src)"
    if "syn_only (p_tcp_flags p)"
    using that pruned(3) syn.append_window_fresh [OF y, of t src] le o(3)
      syn.trim_window [of "syns_from (h @ [p]) src" t t]
    by (auto simp: absorb_sel histories_snoc t_def src_def)
qed

lemma ports_window:
  assumes hold: "windows_hold hs lo t d" and lo: "lo \<le> t" "t - lo < I"
    and own: "port \<noteq> None \<Longrightarrow> window (h_src_recent_dst_ports d) src =
      filter (\<lambda>e. \<not> stale_port t e) (ports_from hs src)"
  shows "\<exists>t1. window (h_src_recent_dst_ports d) src = [e \<leftarrow> ports_from hs src. t1 - 5 \<le> fst e]
      \<and> t - I < t1 \<and> t1 \<le> t \<and> (if port \<noteq> None then t1 = t else True)"
proof (cases "port = None")
  case True
  obtain t1 where "lo \<le> t1" "t1 \<le> t"
    "window (h_src_recent_dst_ports d) src = filter (\<lambda>e. \<not> stale_port t1 e) (ports_from hs src)"
    using hold unfolding windows_hold_def sweep.windows_ok_def by blast
  with lo True show ?thesis by (intro exI [of _ t1]) (simp add: stale_port_def heuristic_consts not_less)
next
  case False
  with own lo show ?thesis by (intro exI [of _ t]) (simp add: stale_port_def heuristic_consts not_less)
qed

lemma syns_window:
  assumes hold: "windows_hold hs lo t d" and lo: "lo \<le> t" "t - lo < I"
    and own: "syn \<Longrightarrow> window (h_src_syn_only_times d) src =
      filter (\<lambda>x. \<not> stale_time syn_window_seconds t x) (syns_from hs src)"
  shows "\<exists>t2. window (h_src_syn_only_times d) src = [x \<leftarrow> syns_from hs src. t2 - 3 \<le> x]
      \<and> t - I < t2 \<and> t2 \<le> t \<and> (if syn then t2 = t else True)"
proof (cases syn)
  case False
  obtain t2 where "lo \<le> t2" "t2 \<le> t" "window (h_src_syn_only_times d) src =
      filter (\<lambda>x. \<not> stale_time syn_window_seconds t2 x) (syns_from hs src)"
    using hold unfolding windows_hold_def syn.windows_ok_def by blast
  with lo False show ?thesis by (intro exI [of _ t2]) (simp add: stale_time_def heuristic_consts not_less)
next
  case True
  with own lo show ?thesis by (intro exI [of _ t]) (simp add: stale_time_def heuristic_consts not_less)
qed

subsection \<open>Properties\<close>

text \<open>The decision as a function of the packets received: the windows are read off the history.\<close>

definition spec_decision :: "packet list \<Rightarrow> real \<Rightarrow> real \<Rightarrow> packet \<Rightarrow> heuristic_decision" where
  "spec_decision h t1 t2 p =
     (let src = p_src_ip p
      in decide (score_rules p [x \<leftarrow> times_from h src. p_timestamp p - 2 \<le> x]
           [e \<leftarrow> ports_from h src. t1 - 5 \<le> fst e] [x \<leftarrow> syns_from h src. t2 - 3 \<le> x]))"

text \<open>
  C10: The detector's incremental windows implement the windows of its rules. On packets in
  order of time, with no more sources than it may track, the decision is the one computed from
  all the packets received: bursts over exactly the last 2 s of the source, ports over the last
  5 s and SYN-only packets over the last 3 s, exactly so when the packet feeds that window, and
  otherwise as of a moment less than one prune interval ago.
\<close>
theorem heuristic_decision_exact:
  assumes run: "detector_run env n h d" and sorted: "sorted (map p_timestamp (h @ [p]))"
    and few: "int (card (p_src_ip ` set (h @ [p]))) \<le> h_max_tracked_ips d" and ord: "rearranges ord"
  shows "\<exists>t1 t2. fst (evaluate_packet ord p d) = spec_decision (h @ [p]) t1 t2 p \<and>
    p_timestamp p - of_int (h_prune_interval_seconds d) < t1 \<and> t1 \<le> p_timestamp p \<and>
    p_timestamp p - of_int (h_prune_interval_seconds d) < t2 \<and> t2 \<le> p_timestamp p \<and>
    (if p_dst_port p \<noteq> None then t1 = p_timestamp p else True) \<and>
    (if syn_only (p_tcp_flags p) then t2 = p_timestamp p else True)"
proof -
  have "card (p_src_ip ` set h) \<le> card (p_src_ip ` set (h @ [p]))" by (intro card_mono) auto
  with few sorted have ok: "det_ok h d"
    by (intro detector_run_ok [OF run]) (auto simp: sorted_append)
  let ?t = "p_timestamp p" and ?src = "p_src_ip p" and ?a = "absorb_packet p d"
  let ?d = "prune_if_due ord ?t ?a" and ?I = "of_int (h_prune_interval_seconds d)"
  from det_ok_step [OF ok sorted ord few] have ok': "det_ok (h @ [p]) ?d" by blast
  have I: "h_prune_interval_seconds ?d = h_prune_interval_seconds d"
    by (simp add: prune_if_due_def prune_tracked_ips_def evict_overflow_def Let_def fold_prune_sel
        absorb_sel fold_forget_interval)
  from ok' I obtain lo where lo: "lo \<le> ?t" "?t - lo < ?I" and hold: "windows_hold (h @ [p]) lo ?t ?d"
    by (auto simp: det_ok_def split: option.splits)
  have same: "prune_tracked_ips ord ?t ?a = fold (prune_ip ?t) (ord (tracked_ips ?a)) ?a"
    unfolding prune_tracked_ips_def
  proof (rule few_tracked)
    show "set (tracked_ips (fold (prune_ip ?t) (ord (tracked_ips ?a)) ?a)) \<subseteq> p_src_ip ` set (h @ [p])"
      using fold_prune_sel(4) [of ?t "ord (tracked_ips ?a)" ?a] ok by (auto simp: tracked_absorb det_ok_def)
    show "int (card (p_src_ip ` set (h @ [p])))
        \<le> h_max_tracked_ips (fold (prune_ip ?t) (ord (tracked_ips ?a)) ?a)"
      using few by (simp add: fold_prune_sel absorb_sel)
  qed
  note own = own_windows [OF ok sorted ord same]
  note t1 = ports_window [OF hold lo own(2)]
  note t2 = syns_window [OF hold lo own(3)]
  have b: "window (h_src_packet_times ?d) ?src = [x \<leftarrow> times_from (h @ [p]) ?src. ?t - 2 \<le> x]"
    using own(1) by (simp add: stale_time_def heuristic_consts not_less)
  from t1 t2 obtain t1 t2 where
    w: "window (h_src_recent_dst_ports ?d) ?src = [e \<leftarrow> ports_from (h @ [p]) ?src. t1 - 5 \<le> fst e]"
      "window (h_src_syn_only_times ?d) ?src = [x \<leftarrow> syns_from (h @ [p]) ?src. t2 - 3 \<le> x]"
    and within: "?t - ?I < t1" "t1 \<le> ?t" "if p_dst_port p \<noteq> None then t1 = ?t else True"
      "?t - ?I < t2" "t2 \<le> ?t" "if syn_only (p_tcp_flags p) then t2 = ?t else True"
    by blast
  have "h_enabled d" using ok by (simp add: det_ok_def)
  then have "fst (evaluate_packet ord p d) = spec_decision (h @ [p]) t1 t2 p"
    by (simp only: evaluate_packet_eq Let_def spec_decision_def w b fst_conv)
  with within show ?thesis by blast
qed

lemma rearranges_id: "rearranges (\<lambda>xs. xs)"
  by (simp add: rearranges_def)

theorem heuristic_decision_exact_witness:
  "fst (evaluate_packet (\<lambda>xs. xs) sample_packet (heuristic_init (\<lambda>_. None) None)) =
     \<lparr>hd_suspicious = False, hd_reason = ''sensitive_service_probe'', hd_score = 1\<rparr>"
proof -
  have "int (card (p_src_ip ` set ([] @ [sample_packet]))) \<le>
      h_max_tracked_ips (heuristic_init (\<lambda>_. None) None)"
    by (simp add: heuristic_init_def positive_int_def)
  from heuristic_decision_exact [OF detector_run.start _ this rearranges_id]
  have "fst (evaluate_packet (\<lambda>xs. xs) sample_packet (heuristic_init (\<lambda>_. None) None)) =
       spec_decision [sample_packet] 1000 1000 sample_packet"
    by (auto simp: sample_packet_def syn_only_def)
  moreover have "times_from [sample_packet] ''10.0.0.5'' = [1000]"
    "ports_from [sample_packet] ''10.0.0.5'' = [(1000, 22)]"
    "syns_from [sample_packet] ''10.0.0.5'' = [1000]"
    by (simp_all add: histories List.map_filter_simps sample_packet_def syn_only_def)
  ultimately show ?thesis
    by (simp add: spec_decision_def score_rules_def decide_def heuristic_consts sensitive_ports_def
        Let_def sample_packet_def del: set_filter)
qed

lemma fold_forget_tracked: "set (tracked_ips (fold forget_ip xs d)) = set (tracked_ips d) - set xs"
  by (induction xs arbitrary: d) auto

lemma fold_forget_last_seen:
  "ip \<notin> set xs \<Longrightarrow> last_seen_of (fold forget_ip xs d) ip = last_seen_of d ip"
  by (induction xs arbitrary: d) (auto simp: last_seen_of_def)

lemma sorted_take_drop:
  "sorted (map f xs) \<Longrightarrow> x \<in> set (take n xs) \<Longrightarrow> y \<in> set (drop n xs) \<Longrightarrow> f x \<le> (f y :: real)"
  using sorted_append [of "map f (take n xs)" "map f (drop n xs)"]
  by (auto simp flip: map_append)

lemma evict_facts:
  assumes ord: "rearranges ord" and max: "0 \<le> h_max_tracked_ips d"
  defines "d' \<equiv> evict_overflow ord d"
  shows "int (length (tracked_ips d')) = min (int (length (tracked_ips d))) (h_max_tracked_ips d)"
    and "set (tracked_ips d') \<subseteq> set (tracked_ips d)"
    and "\<And>out kept. out \<in> set (tracked_ips d) - set (tracked_ips d') \<Longrightarrow> kept \<in> set (tracked_ips d') \<Longrightarrow>
      last_seen_of d out \<le> last_seen_of d' kept"
proof -
  let ?n = "int (length (tracked_ips d)) - h_max_tracked_ips d"
  let ?xs = "sort_key (last_seen_of d) (ord (tracked_ips d))"
  have xs: "set ?xs = set (tracked_ips d)" "distinct ?xs" "length ?xs = length (tracked_ips d)"
    using ord by (simp_all add: rearranges_set rearranges_distinct) (metis rearranges_def size_mset)
  have none: "d' = d" if "?n \<le> 0" using that by (simp add: d'_def evict_overflow_def Let_def)
  have some: "d' = fold forget_ip (take (nat ?n) ?xs) d" if "0 < ?n"
    using that by (simp add: d'_def evict_overflow_def Let_def)
  show "set (tracked_ips d') \<subseteq> set (tracked_ips d)"
    using none some by (cases "?n \<le> 0") (auto simp: fold_forget_tracked)
  show "int (length (tracked_ips d')) = min (int (length (tracked_ips d))) (h_max_tracked_ips d)"
  proof (cases "?n \<le> 0")
    case False
    have sub: "set (take (nat ?n) ?xs) \<subseteq> set (tracked_ips d)" using set_take_subset xs(1) by metis
    have "length (tracked_ips d') = card (set (tracked_ips d) - set (take (nat ?n) ?xs))"
      using some False by (metis distinct_card distinct_tracked_ips fold_forget_tracked not_less)
    also have "\<dots> = length (tracked_ips d) - nat ?n"
      using False max xs sub
      by (simp add: card_Diff_subset distinct_card distinct_take)
    finally show ?thesis using False max by simp
  qed (simp add: none)
  show "last_seen_of d out \<le> last_seen_of d' kept"
    if out: "out \<in> set (tracked_ips d) - set (tracked_ips d')" and kept: "kept \<in> set (tracked_ips d')"
    for out kept
  proof (cases "?n \<le> 0")
    case False
    have o: "out \<in> set (take (nat ?n) ?xs)" and k: "kept \<in> set ?xs" "kept \<notin> set (take (nat ?n) ?xs)"
      using some False out kept xs(1) by (auto simp: fold_forget_tracked)
    then have "kept \<in> set (drop (nat ?n) ?xs)" by (metis Un_iff append_take_drop_id set_append)
    from sorted_take_drop [OF sorted_sort_key o this]
    show ?thesis using some False k(2) by (simp add: fold_forget_last_seen)
  qed (use out none in auto)
qed

text \<open>
  C26: Pruning bounds the detector. After a prune at most \<open>max_tracked_ips\<close> sources are tracked,
  none of them new; if the bound forces sources out beyond those whose windows are empty, each
  source evicted was last seen no later than every source that stays.
\<close>
theorem prune_bounded_lru:
  assumes ord: "rearranges ord" and max: "0 \<le> h_max_tracked_ips d"
    and d1: "d1 = fold (prune_ip now) (ord (tracked_ips d)) d"
    and d2: "d' = prune_tracked_ips ord now d"
  shows "int (length (tracked_ips d')) \<le> h_max_tracked_ips d \<and>
    set (tracked_ips d') \<subseteq> set (tracked_ips d1) \<and> set (tracked_ips d1) \<subseteq> set (tracked_ips d) \<and>
    (\<forall>out\<in>set (tracked_ips d1) - set (tracked_ips d').
       \<forall>kept\<in>set (tracked_ips d'). last_seen_of d1 out \<le> last_seen_of d' kept)"
proof -
  have d': "d' = evict_overflow ord d1" by (simp add: d2 d1 prune_tracked_ips_def)
  have m: "h_max_tracked_ips d1 = h_max_tracked_ips d" by (simp add: d1 fold_prune_sel)
  with max have "0 \<le> h_max_tracked_ips d1" by simp
  note e = evict_facts [OF ord this, folded d']
  have "set (tracked_ips d1) \<subseteq> set (tracked_ips d)" using fold_prune_sel(4) by (simp add: d1)
  then show ?thesis using e(1) e(2) e(3) m by auto
qed

theorem prune_bounded_lru_witness:
  "int (length (tracked_ips (prune_tracked_ips (\<lambda>xs. xs) 1000
      (snd (evaluate_packet (\<lambda>xs. xs) sample_packet (heuristic_init (\<lambda>_. None) (Some 1))))))) \<le> 1"
proof -
  let ?d = "snd (evaluate_packet (\<lambda>xs. xs) sample_packet (heuristic_init (\<lambda>_. None) (Some 1)))"
  have "h_max_tracked_ips ?d = 1"
    by (simp add: evaluate_packet_eq heuristic_init_def Let_def prune_if_due_def prune_tracked_ips_def
        evict_overflow_def fold_prune_sel absorb_sel fold_forget_max positive_int_def)
  then show ?thesis using prune_bounded_lru [OF rearranges_id _ refl refl, of ?d 1000] by simp
qed

end
