(* ===== verification/Firewall.thy ===== *)
theory Firewall
  imports PyRuntime
begin

text \<open>
  The firewall adapters (\<open>response_engine/firewall\<close>). An adapter runs \<open>iptables\<close> or \<open>netsh\<close> on
  the host; both programs are not part of the repository, so the host is an argument, and
  what is documented about the two programs is stated as the hypotheses \<open>iptables_host\<close> and
  \<open>netsh_host\<close>. The locale \<open>firewall\<close> is the contract the blocker relies on.
\<close>

subsection \<open>Linux\<close>

definition returncode_ok :: "run_outcome \<Rightarrow> bool" where
  "returncode_ok r = (case r of Completed code out \<Rightarrow> code = 0 | RunRaised \<Rightarrow> False)"

definition fw_run :: "'w host \<Rightarrow> string list \<Rightarrow> 'w \<Rightarrow> bool \<times> 'w" where
  "fw_run hst cmd w = (case host_run hst cmd w of (r, w') \<Rightarrow> (returncode_ok r, w'))"

definition iptables_cmd :: "string \<Rightarrow> string \<Rightarrow> string list" where
  "iptables_cmd action ip = [''iptables'', action, ''INPUT'', ''-s'', ip, ''-j'', ''DROP'']"

definition linux_block_ip :: "'w host \<Rightarrow> string \<Rightarrow> 'w \<Rightarrow> (bool \<times> string) \<times> 'w" where
  "linux_block_ip hst ip w =
     (case fw_run hst (iptables_cmd ''-C'' ip) w of (found, w1) \<Rightarrow>
        if found then ((True, ''already_blocked''), w1)
        else (case fw_run hst (iptables_cmd ''-A'' ip) w1 of (added, w2) \<Rightarrow>
          if added then ((True, ''blocked''), w2) else ((False, ''block_failed''), w2)))"

definition linux_unblock_ip :: "'w host \<Rightarrow> string \<Rightarrow> 'w \<Rightarrow> (bool \<times> string) \<times> 'w" where
  "linux_unblock_ip hst ip w =
     (case fw_run hst (iptables_cmd ''-D'' ip) w of (removed, w1) \<Rightarrow>
        if removed then ((True, ''unblocked''), w1) else ((False, ''unblock_failed''), w1))"

definition linux_is_blocked :: "'w host \<Rightarrow> string \<Rightarrow> 'w \<Rightarrow> bool \<times> 'w" where
  "linux_is_blocked hst ip w = fw_run hst (iptables_cmd ''-C'' ip) w"

subsection \<open>Windows\<close>

definition RULE_PREFIX :: string where "RULE_PREFIX = ''SmartIDS_Block_''"

definition rule_name :: "string \<Rightarrow> string" where
  "rule_name ip = RULE_PREFIX @ ip"

definition netsh_cmd :: "string \<Rightarrow> string \<Rightarrow> string list \<Rightarrow> string list" where
  "netsh_cmd verb ip extra =
     [''netsh'', ''advfirewall'', ''firewall'', verb, ''rule'', ''name='' @ rule_name ip] @ extra"

definition add_args :: "string \<Rightarrow> string list" where
  "add_args ip = [''dir=in'', ''action=block'', ''remoteip='' @ ip, ''enable=yes'']"

definition windows_is_blocked :: "'w host \<Rightarrow> string \<Rightarrow> 'w \<Rightarrow> bool \<times> 'w" where
  "windows_is_blocked hst ip w =
     (case host_run hst (netsh_cmd ''show'' ip []) w of (r, w') \<Rightarrow>
        (case r of
           RunRaised \<Rightarrow> False
         | Completed code out \<Rightarrow>
             code = 0 \<and> sublist (rule_name ip) (case out of None \<Rightarrow> [] | Some s \<Rightarrow> s), w'))"

definition windows_block_ip :: "'w host \<Rightarrow> string \<Rightarrow> 'w \<Rightarrow> (bool \<times> string) \<times> 'w" where
  "windows_block_ip hst ip w =
     (case windows_is_blocked hst ip w of (found, w1) \<Rightarrow>
        if found then ((True, ''already_blocked''), w1)
        else (case fw_run hst (netsh_cmd ''add'' ip (add_args ip)) w1 of (added, w2) \<Rightarrow>
          if added then ((True, ''blocked''), w2) else ((False, ''block_failed''), w2)))"

definition windows_unblock_ip :: "'w host \<Rightarrow> string \<Rightarrow> 'w \<Rightarrow> (bool \<times> string) \<times> 'w" where
  "windows_unblock_ip hst ip w =
     (case fw_run hst (netsh_cmd ''delete'' ip []) w of (removed, w1) \<Rightarrow>
        if removed then ((True, ''unblocked''), w1) else ((False, ''unblock_failed''), w1))"

subsection \<open>The factory\<close>

datatype adapter = LinuxFirewallAdapter | WindowsFirewallAdapter

text \<open>\<open>system\<close> is what \<open>platform.system()\<close> answers.\<close>

definition create_firewall_adapter :: "string \<Rightarrow> adapter option" where
  "create_firewall_adapter system =
     (if lower system = ''windows'' then Some WindowsFirewallAdapter
      else if lower system = ''linux'' then Some LinuxFirewallAdapter
      else None)"

fun block_ip :: "adapter \<Rightarrow> 'w host \<Rightarrow> string \<Rightarrow> 'w \<Rightarrow> (bool \<times> string) \<times> 'w" where
  "block_ip LinuxFirewallAdapter hst = linux_block_ip hst"
| "block_ip WindowsFirewallAdapter hst = windows_block_ip hst"

fun unblock_ip :: "adapter \<Rightarrow> 'w host \<Rightarrow> string \<Rightarrow> 'w \<Rightarrow> (bool \<times> string) \<times> 'w" where
  "unblock_ip LinuxFirewallAdapter hst = linux_unblock_ip hst"
| "unblock_ip WindowsFirewallAdapter hst = windows_unblock_ip hst"

fun is_blocked :: "adapter \<Rightarrow> 'w host \<Rightarrow> string \<Rightarrow> 'w \<Rightarrow> bool \<times> 'w" where
  "is_blocked LinuxFirewallAdapter hst = linux_is_blocked hst"
| "is_blocked WindowsFirewallAdapter hst = windows_is_blocked hst"

subsection \<open>What the blocker relies on\<close>

locale firewall =
  fixes block unblock :: "string \<Rightarrow> 'w \<Rightarrow> (bool \<times> string) \<times> 'w"
    and check :: "string \<Rightarrow> 'w \<Rightarrow> bool \<times> 'w"
    and tick :: "'w \<Rightarrow> real \<times> 'w"
    and inv :: "'w \<Rightarrow> bool"
    and blocked :: "'w \<Rightarrow> string set"
  assumes block_effect: "inv w \<Longrightarrow> block ip w = ((ok, status), w') \<Longrightarrow>
      inv w' \<and> blocked w' = (if ok then insert ip (blocked w) else blocked w)"
    and unblock_effect: "inv w \<Longrightarrow> unblock ip w = ((ok, status), w') \<Longrightarrow>
      inv w' \<and> blocked w' = (if ok then blocked w - {ip} else blocked w)"
    and check_effect: "inv w \<Longrightarrow> check ip w = (found, w') \<Longrightarrow>
      inv w' \<and> blocked w' = blocked w \<and> (found \<longleftrightarrow> ip \<in> blocked w)"
    and tick_effect: "inv w \<Longrightarrow> tick w = (t, w') \<Longrightarrow> inv w' \<and> blocked w' = blocked w"
begin

lemma block_unblock:
  assumes "inv w" and "block ip w = ((True, s), w1)" and "unblock ip w1 = ((True, s'), w2)"
  shows "inv w2 \<and> blocked w2 = blocked w - {ip}"
  using block_effect [OF assms(1,2)] unblock_effect [OF _ assms(3)] by auto

lemma block_checked:
  assumes "inv w" and "block ip w = ((True, s), w1)" and "check ip' w1 = (found, w2)"
  shows "found \<longleftrightarrow> ip' = ip \<or> ip' \<in> blocked w"
  using block_effect [OF assms(1,2)] check_effect [OF _ assms(3)] by auto

end

subsection \<open>What is documented about the host\<close>

text \<open>
  \<open>rules w\<close> are the sources of the DROP rules in the INPUT chain of \<open>w\<close>. \<open>-C\<close> succeeds
  if and only if the rule exists, \<open>-A\<close> appends it or fails, \<open>-D\<close> deletes the first match or fails
  when there is none; reading the clocks changes no rule.
\<close>

definition iptables_host :: "'w host \<Rightarrow> ('w \<Rightarrow> string list) \<Rightarrow> bool" where
  "iptables_host hst rules \<longleftrightarrow>
     (\<forall>w ip. rules (snd (host_run hst (iptables_cmd ''-C'' ip) w)) = rules w \<and>
        returncode_ok (fst (host_run hst (iptables_cmd ''-C'' ip) w)) = (ip \<in> set (rules w))) \<and>
     (\<forall>w ip. rules (snd (host_run hst (iptables_cmd ''-A'' ip) w)) =
        (if returncode_ok (fst (host_run hst (iptables_cmd ''-A'' ip) w)) then rules w @ [ip] else rules w)) \<and>
     (\<forall>w ip. returncode_ok (fst (host_run hst (iptables_cmd ''-D'' ip) w)) = (ip \<in> set (rules w)) \<and>
        rules (snd (host_run hst (iptables_cmd ''-D'' ip) w)) = remove1 ip (rules w)) \<and>
     (\<forall>w. rules (snd (host_time hst w)) = rules w \<and> rules (snd (host_perf hst w)) = rules w)"

text \<open>
  \<open>names w\<close> are the names of the rules of Windows Firewall. \<open>show\<close> succeeds and prints the name
  if and only if a rule has it, \<open>add\<close> adds a rule of that name or fails, \<open>delete\<close> deletes
  every rule of that name or fails when there is none.
\<close>

definition shown :: "run_outcome \<Rightarrow> string \<Rightarrow> bool" where
  "shown r name = (case r of RunRaised \<Rightarrow> False
     | Completed code out \<Rightarrow> code = 0 \<and> sublist name (case out of None \<Rightarrow> [] | Some s \<Rightarrow> s))"

definition netsh_host :: "'w host \<Rightarrow> ('w \<Rightarrow> string list) \<Rightarrow> bool" where
  "netsh_host hst names \<longleftrightarrow>
     (\<forall>w ip. names (snd (host_run hst (netsh_cmd ''show'' ip []) w)) = names w \<and>
        shown (fst (host_run hst (netsh_cmd ''show'' ip []) w)) (rule_name ip) =
          (rule_name ip \<in> set (names w))) \<and>
     (\<forall>w ip. names (snd (host_run hst (netsh_cmd ''add'' ip (add_args ip)) w)) =
        (if returncode_ok (fst (host_run hst (netsh_cmd ''add'' ip (add_args ip)) w))
         then names w @ [rule_name ip] else names w)) \<and>
     (\<forall>w ip. returncode_ok (fst (host_run hst (netsh_cmd ''delete'' ip []) w)) =
          (rule_name ip \<in> set (names w)) \<and>
        names (snd (host_run hst (netsh_cmd ''delete'' ip []) w)) = removeAll (rule_name ip) (names w)) \<and>
     (\<forall>w. names (snd (host_time hst w)) = names w \<and> names (snd (host_perf hst w)) = names w)"

lemma rule_name_inject [simp]: "rule_name a = rule_name b \<longleftrightarrow> a = b"
  by (simp add: rule_name_def)

definition windows_blocked :: "('w \<Rightarrow> string list) \<Rightarrow> 'w \<Rightarrow> string set" where
  "windows_blocked names w = {ip. rule_name ip \<in> set (names w)}"

lemma fw_run_eq:
  "fw_run hst cmd w = (returncode_ok (fst (host_run hst cmd w)), snd (host_run hst cmd w))"
  by (simp add: fw_run_def case_prod_beta)

lemma windows_is_blocked_eq:
  "windows_is_blocked hst ip w = (shown (fst (host_run hst (netsh_cmd ''show'' ip []) w)) (rule_name ip),
     snd (host_run hst (netsh_cmd ''show'' ip []) w))"
  by (simp add: windows_is_blocked_def shown_def case_prod_beta)

text \<open>Both adapters provide the contract on a host that behaves as documented.\<close>

lemma linux_firewall:
  assumes h: "iptables_host hst rules"
  shows "firewall (block_ip LinuxFirewallAdapter hst) (unblock_ip LinuxFirewallAdapter hst)
    (is_blocked LinuxFirewallAdapter hst) (host_time hst) (\<lambda>w. distinct (rules w)) (\<lambda>w. set (rules w))"
proof
  have c: "fw_run hst (iptables_cmd ''-C'' ip) w = (ip \<in> set (rules w), w1) \<and> rules w1 = rules w"
    if "w1 = snd (host_run hst (iptables_cmd ''-C'' ip) w)" for ip w w1
    using h that by (simp add: iptables_host_def fw_run_eq)
  have a: "rules w1 = (if fst (fw_run hst (iptables_cmd ''-A'' ip) w) then rules w @ [ip] else rules w)"
    if "w1 = snd (fw_run hst (iptables_cmd ''-A'' ip) w)" for ip w w1
    using h that by (simp add: iptables_host_def fw_run_eq)
  have d: "fw_run hst (iptables_cmd ''-D'' ip) w = (ip \<in> set (rules w), w1) \<and> rules w1 = remove1 ip (rules w)"
    if "w1 = snd (host_run hst (iptables_cmd ''-D'' ip) w)" for ip w w1
    using h that by (simp add: iptables_host_def fw_run_eq)
  show "distinct (rules w') \<and> set (rules w') = (if ok then insert ip (set (rules w)) else set (rules w))"
    if "distinct (rules w)" "block_ip LinuxFirewallAdapter hst ip w = ((ok, status), w')" for w w' ip ok status
  proof (cases "ip \<in> set (rules w)")
    case True
    then show ?thesis using that c [OF refl, of ip w] by (auto simp: linux_block_ip_def)
  next
    case False
    let ?w1 = "snd (host_run hst (iptables_cmd ''-C'' ip) w)"
    show ?thesis using False that c [OF refl, of ip w] a [OF refl, of ip ?w1]
      by (auto simp: linux_block_ip_def split: prod.splits if_splits)
  qed
  show "distinct (rules w') \<and> set (rules w') = (if ok then set (rules w) - {ip} else set (rules w))"
    if "distinct (rules w)" "unblock_ip LinuxFirewallAdapter hst ip w = ((ok, status), w')" for w w' ip ok status
    using that d [OF refl, of ip w]
    by (auto simp: linux_unblock_ip_def set_remove1_eq remove1_idem split: if_splits)
  show "distinct (rules w') \<and> set (rules w') = set (rules w) \<and> (found \<longleftrightarrow> ip \<in> set (rules w))"
    if "distinct (rules w)" "is_blocked LinuxFirewallAdapter hst ip w = (found, w')" for w w' ip found
    using that c [OF refl, of ip w] by (auto simp: linux_is_blocked_def)
  show "distinct (rules w') \<and> set (rules w') = set (rules w)"
    if "distinct (rules w)" "host_time hst w = (t, w')" for w w' t
    using h that by (auto simp: iptables_host_def) (metis snd_conv)+
qed

lemma windows_firewall:
  assumes h: "netsh_host hst names"
  shows "firewall (block_ip WindowsFirewallAdapter hst) (unblock_ip WindowsFirewallAdapter hst)
    (is_blocked WindowsFirewallAdapter hst) (host_time hst) (\<lambda>w. True) (windows_blocked names)"
proof
  have c: "windows_is_blocked hst ip w = (ip \<in> windows_blocked names w, w1) \<and> names w1 = names w"
    if "w1 = snd (host_run hst (netsh_cmd ''show'' ip []) w)" for ip w w1
    using h that by (simp add: netsh_host_def windows_is_blocked_eq windows_blocked_def)
  have a: "names w1 = (if fst (fw_run hst (netsh_cmd ''add'' ip (add_args ip)) w)
      then names w @ [rule_name ip] else names w)"
    if "w1 = snd (fw_run hst (netsh_cmd ''add'' ip (add_args ip)) w)" for ip w w1
    using h that by (simp add: netsh_host_def fw_run_eq)
  have d: "fw_run hst (netsh_cmd ''delete'' ip []) w = (ip \<in> windows_blocked names w, w1) \<and>
      names w1 = removeAll (rule_name ip) (names w)"
    if "w1 = snd (host_run hst (netsh_cmd ''delete'' ip []) w)" for ip w w1
    using h that by (simp add: netsh_host_def fw_run_eq windows_blocked_def)
  show "True \<and> windows_blocked names w' =
      (if ok then insert ip (windows_blocked names w) else windows_blocked names w)"
    if "block_ip WindowsFirewallAdapter hst ip w = ((ok, status), w')" for w w' ip ok status
  proof (cases "ip \<in> windows_blocked names w")
    case True
    then show ?thesis using that c [OF refl, of ip w]
      by (auto simp: windows_block_ip_def windows_blocked_def)
  next
    case False
    let ?w1 = "snd (host_run hst (netsh_cmd ''show'' ip []) w)"
    show ?thesis using False that c [OF refl, of ip w] a [OF refl, of ip ?w1]
      by (auto simp: windows_block_ip_def windows_blocked_def split: prod.splits if_splits)
  qed
  show "True \<and> windows_blocked names w' =
      (if ok then windows_blocked names w - {ip} else windows_blocked names w)"
    if "unblock_ip WindowsFirewallAdapter hst ip w = ((ok, status), w')" for w w' ip ok status
    using that d [OF refl, of ip w]
    by (auto simp: windows_unblock_ip_def windows_blocked_def split: if_splits)
  show "True \<and> windows_blocked names w' = windows_blocked names w \<and> (found \<longleftrightarrow> ip \<in> windows_blocked names w)"
    if "is_blocked WindowsFirewallAdapter hst ip w = (found, w')" for w w' ip found
    using that c [OF refl, of ip w] by (auto simp: windows_blocked_def)
  show "True \<and> windows_blocked names w' = windows_blocked names w" if "host_time hst w = (t, w')" for w w' t
    using h that by (auto simp: netsh_host_def windows_blocked_def) (metis snd_conv)+
qed

text \<open>
  The two hosts together: \<open>documented_host a hst rules\<close> says that the program the adapter \<open>a\<close> runs
  behaves as documented, with \<open>rules\<close> the rule list of a world.
\<close>

fun documented_host :: "adapter \<Rightarrow> 'w host \<Rightarrow> ('w \<Rightarrow> string list) \<Rightarrow> bool" where
  "documented_host LinuxFirewallAdapter hst rules = iptables_host hst rules"
| "documented_host WindowsFirewallAdapter hst rules = netsh_host hst rules"

fun rules_ok :: "adapter \<Rightarrow> ('w \<Rightarrow> string list) \<Rightarrow> 'w \<Rightarrow> bool" where
  "rules_ok LinuxFirewallAdapter rules w = distinct (rules w)"
| "rules_ok WindowsFirewallAdapter rules w = True"

fun blocked_ips :: "adapter \<Rightarrow> ('w \<Rightarrow> string list) \<Rightarrow> 'w \<Rightarrow> string set" where
  "blocked_ips LinuxFirewallAdapter rules w = set (rules w)"
| "blocked_ips WindowsFirewallAdapter rules w = windows_blocked rules w"

lemma rules_ok_fun: "rules_ok LinuxFirewallAdapter rules = (\<lambda>w. distinct (rules w))"
  "rules_ok WindowsFirewallAdapter rules = (\<lambda>w. True)"
  "blocked_ips LinuxFirewallAdapter rules = (\<lambda>w. set (rules w))"
  "blocked_ips WindowsFirewallAdapter rules = windows_blocked rules"
  by (simp_all add: fun_eq_iff)

lemma adapter_firewall:
  assumes "documented_host a hst rules"
  shows "firewall (block_ip a hst) (unblock_ip a hst) (is_blocked a hst) (host_time hst)
    (rules_ok a rules) (blocked_ips a rules)"
  using assms linux_firewall windows_firewall by (cases a) (auto simp: rules_ok_fun)

lemma adapter_unblock:
  assumes "documented_host a hst rules"
  shows "fst (fst (unblock_ip a hst ip w)) \<longleftrightarrow> ip \<in> blocked_ips a rules w"
  using assms
  by (cases a) (auto simp: linux_unblock_ip_def windows_unblock_ip_def fw_run_eq
      iptables_host_def netsh_host_def windows_blocked_def)

lemma adapter_unblock_effect:
  assumes "documented_host a hst rules" and "rules_ok a rules w"
  shows "rules_ok a rules (snd (unblock_ip a hst ip w)) \<and>
    blocked_ips a rules (snd (unblock_ip a hst ip w)) = blocked_ips a rules w - {ip}"
  using firewall.unblock_effect [OF adapter_firewall [OF assms(1)] assms(2), of ip]
    adapter_unblock [OF assms(1), of ip w]
  by (cases "unblock_ip a hst ip w") (auto split: if_splits)

lemma adapter_tick_effect:
  assumes "documented_host a hst rules" and "rules_ok a rules w"
  shows "rules_ok a rules (snd (host_time hst w)) \<and>
    blocked_ips a rules (snd (host_time hst w)) = blocked_ips a rules w"
  using firewall.tick_effect [OF adapter_firewall [OF assms(1)] assms(2)]
  by (cases "host_time hst w") auto

lemma adapter_perf_effect:
  assumes "documented_host a hst rules" and "rules_ok a rules w"
  shows "rules_ok a rules (snd (host_perf hst w)) \<and>
    blocked_ips a rules (snd (host_perf hst w)) = blocked_ips a rules w"
  using assms by (cases a) (auto simp: iptables_host_def netsh_host_def windows_blocked_def)

lemma adapter_check_effect:
  assumes "documented_host a hst rules" and "rules_ok a rules w"
  shows "rules_ok a rules (snd (is_blocked a hst ip w)) \<and>
    blocked_ips a rules (snd (is_blocked a hst ip w)) = blocked_ips a rules w \<and>
    (fst (is_blocked a hst ip w) \<longleftrightarrow> ip \<in> blocked_ips a rules w)"
  using firewall.check_effect [OF adapter_firewall [OF assms(1)] assms(2), of ip]
  by (cases "is_blocked a hst ip w") auto

lemma adapter_block_effect:
  assumes "documented_host a hst rules" and "rules_ok a rules w"
  shows "rules_ok a rules (snd (block_ip a hst ip w)) \<and>
    blocked_ips a rules (snd (block_ip a hst ip w)) =
      (if fst (fst (block_ip a hst ip w)) then insert ip (blocked_ips a rules w) else blocked_ips a rules w)"
  using firewall.block_effect [OF adapter_firewall [OF assms(1)] assms(2), of ip]
  by (cases "block_ip a hst ip w") auto

subsection \<open>Two concrete hosts\<close>

record sim_world =
  sw_rules :: "string list"
  sw_clock :: real

definition sim_iptables :: "sim_world host" where
  "sim_iptables = \<lparr>host_time = (\<lambda>w. (sw_clock w, w)), host_perf = (\<lambda>w. (sw_clock w, w)),
     host_run = (\<lambda>cmd w. case cmd of
         [prog, action, chain, opt, ip, jump, target] \<Rightarrow>
           (if action = ''-C'' then (Completed (if ip \<in> set (sw_rules w) then 0 else 1) None, w)
            else if action = ''-A'' then (Completed 0 None, w\<lparr>sw_rules := sw_rules w @ [ip]\<rparr>)
            else if action = ''-D'' then
              (Completed (if ip \<in> set (sw_rules w) then 0 else 1) None,
               w\<lparr>sw_rules := remove1 ip (sw_rules w)\<rparr>)
            else (Completed 2 None, w))
       | _ \<Rightarrow> (RunRaised, w))\<rparr>"

definition sim_netsh :: "sim_world host" where
  "sim_netsh = \<lparr>host_time = (\<lambda>w. (sw_clock w, w)), host_perf = (\<lambda>w. (sw_clock w, w)),
     host_run = (\<lambda>cmd w. case cmd of
         prog # adv # fw # verb # obj # nm # rest \<Rightarrow>
           (let name = drop 5 nm
            in if verb = ''show'' then
                 (if name \<in> set (sw_rules w) then (Completed 0 (Some (''Rule Name: '' @ name)), w)
                  else (Completed 1 (Some ''No rules match.''), w))
               else if verb = ''add'' then (Completed 0 None, w\<lparr>sw_rules := sw_rules w @ [name]\<rparr>)
               else (Completed (if name \<in> set (sw_rules w) then 0 else 1) None,
                 w\<lparr>sw_rules := removeAll name (sw_rules w)\<rparr>))
       | _ \<Rightarrow> (RunRaised, w))\<rparr>"

lemma sim_iptables_ok: "iptables_host sim_iptables sw_rules"
  by (simp add: iptables_host_def sim_iptables_def iptables_cmd_def returncode_ok_def remove1_idem)

lemma sim_netsh_ok: "netsh_host sim_netsh sw_rules"
  by (auto simp: netsh_host_def sim_netsh_def netsh_cmd_def returncode_ok_def shown_def Let_def
      add_args_def sublist_def rule_name_def intro: exI [of _ "''Rule Name: ''"])

interpretation linux_fw: firewall "block_ip LinuxFirewallAdapter sim_iptables"
  "unblock_ip LinuxFirewallAdapter sim_iptables" "is_blocked LinuxFirewallAdapter sim_iptables"
  "host_time sim_iptables" "\<lambda>w. distinct (sw_rules w)" "\<lambda>w. set (sw_rules w)"
  by (rule linux_firewall [OF sim_iptables_ok])

interpretation windows_fw: firewall "block_ip WindowsFirewallAdapter sim_netsh"
  "unblock_ip WindowsFirewallAdapter sim_netsh" "is_blocked WindowsFirewallAdapter sim_netsh"
  "host_time sim_netsh" "\<lambda>w. True" "windows_blocked sw_rules"
  by (rule windows_firewall [OF sim_netsh_ok])

subsection \<open>Property\<close>

text \<open>
  Either adapter, on a host whose firewall program behaves as documented, blocks exactly the
  address asked for: a successful block adds it to the blocked set (and only it), a failed one
  changes nothing, a check afterwards answers yes exactly for the blocked addresses, and an
  unblock after a successful block succeeds and takes the address out again.
\<close>
theorem adapter_block_unblock:
  assumes "documented_host a hst rules" and "rules_ok a rules w"
    and "block_ip a hst ip w = ((ok, status), w1)"
    and "is_blocked a hst ip2 w1 = (found, w2)"
    and "unblock_ip a hst ip w2 = ((ok2, status2), w3)"
  shows "blocked_ips a rules w1 = (if ok then insert ip (blocked_ips a rules w) else blocked_ips a rules w) \<and>
    status = (if ok then (if ip \<in> blocked_ips a rules w then ''already_blocked'' else ''blocked'')
              else ''block_failed'') \<and>
    (found \<longleftrightarrow> ip2 \<in> blocked_ips a rules w1) \<and>
    (ok2 \<longleftrightarrow> ip \<in> blocked_ips a rules w1) \<and>
    blocked_ips a rules w3 = blocked_ips a rules w1 - {ip}"
proof -
  note fw = adapter_firewall [OF assms(1)]
  note b = firewall.block_effect [OF fw assms(2,3)]
  have st: "status = (if ok then (if ip \<in> blocked_ips a rules w then ''already_blocked'' else ''blocked'')
      else ''block_failed'')"
    using assms(1,3)
    by (cases a) (auto simp: linux_block_ip_def windows_block_ip_def fw_run_eq windows_is_blocked_eq
        iptables_host_def netsh_host_def windows_blocked_def split: if_splits)
  from b have inv1: "rules_ok a rules w1" by blast
  note c = firewall.check_effect [OF fw inv1 assms(4)]
  then have inv2: "rules_ok a rules w2" by blast
  note u = firewall.unblock_effect [OF fw inv2 assms(5)]
  have "ok2 \<longleftrightarrow> ip \<in> blocked_ips a rules w2"
    using assms(1,5)
    by (cases a) (auto simp: linux_unblock_ip_def windows_unblock_ip_def fw_run_eq
        iptables_host_def netsh_host_def windows_blocked_def split: if_splits)
  with b c u st show ?thesis by auto
qed

theorem adapter_block_unblock_witness:
  "\<exists>w1 w2 w3. block_ip LinuxFirewallAdapter sim_iptables ''10.0.0.5'' \<lparr>sw_rules = [], sw_clock = 0\<rparr>
       = ((True, ''blocked''), w1) \<and>
     is_blocked LinuxFirewallAdapter sim_iptables ''10.0.0.5'' w1 = (True, w2) \<and>
     unblock_ip LinuxFirewallAdapter sim_iptables ''10.0.0.5'' w2 = ((True, ''unblocked''), w3) \<and>
     sw_rules w1 = [''10.0.0.5''] \<and> blocked_ips LinuxFirewallAdapter sw_rules w3 = {}"
proof -
  let ?w = "\<lparr>sw_rules = [], sw_clock = 0\<rparr>" and ?w1 = "\<lparr>sw_rules = [''10.0.0.5''], sw_clock = 0\<rparr>"
  have r: "block_ip LinuxFirewallAdapter sim_iptables ''10.0.0.5'' ?w = ((True, ''blocked''), ?w1)"
    "is_blocked LinuxFirewallAdapter sim_iptables ''10.0.0.5'' ?w1 = (True, ?w1)"
    "unblock_ip LinuxFirewallAdapter sim_iptables ''10.0.0.5'' ?w1 = ((True, ''unblocked''), ?w)"
    by (simp_all add: linux_block_ip_def linux_is_blocked_def linux_unblock_ip_def fw_run_eq
        sim_iptables_def iptables_cmd_def returncode_ok_def)
  have d: "documented_host LinuxFirewallAdapter sim_iptables sw_rules" by (simp add: sim_iptables_ok)
  have "rules_ok LinuxFirewallAdapter sw_rules ?w" by simp
  from adapter_block_unblock [OF d this r] have "blocked_ips LinuxFirewallAdapter sw_rules ?w = {}" by simp
  with r show ?thesis by (intro exI [of _ ?w1] exI [of _ ?w]) auto
qed

end
