(* ===== verification/ActivityStores.thy ===== *)
theory ActivityStores
  imports PyRuntime
begin

text \<open>
  The three records the response engine keeps: the per-address activity tracker
  (\<open>ip_activity_tracker.py\<close>), the append-only log of block events (\<open>block_records.py\<close>) and the
  ids of the backend commands already processed (\<open>processed_command_store.py\<close>). A file of JSON
  lines is the list of the values written, one per line (\<open>json.dumps\<close> with \<open>ensure_ascii\<close> emits
  no line break inside a line); reading and writing files succeeds, except where the code
  handles the failure. ISO timestamps are compared as the instants they render, which agrees
  with the order of the strings.
\<close>

subsection \<open>IP activity tracker: state\<close>

record activity_entry =
  ae_timestamp :: int
  ae_action :: string
  ae_attack_type :: string

record ip_state =
  is_first_detected_time :: int
  is_last_detected_time :: int
  is_total_attack_attempts :: nat
  is_attack_types_used :: "string set"
  is_action_history :: "activity_entry list"

record activity_payload =
  ap_ip :: string
  ap_first_detected_time :: int
  ap_last_detected_time :: int
  ap_total_attack_attempts :: nat
  ap_attack_types_used :: "string list"
  ap_attempt_pattern :: string
  ap_action_history :: "activity_entry list"

record activity_tracker =
  at_state :: "(string, ip_state) pydict"
  at_max_tracked_ips :: nat
  at_max_action_history :: nat
  at_max_file_entries :: nat
  at_file_compaction_interval_records :: nat
  at_records_since_compaction :: nat
  at_file :: "(activity_payload \<times> int) list"

definition tracker_init ::
    "environ \<Rightarrow> int option \<Rightarrow> int option \<Rightarrow> int option \<Rightarrow> int option \<Rightarrow> (activity_payload \<times> int) list \<Rightarrow>
     activity_tracker" where
  "tracker_init env max_tracked_ips max_action_history max_file_entries interval file =
     \<lparr>at_state = [],
      at_max_tracked_ips =
        nat (positive_int env max_tracked_ips ''SMARTIDS_IP_ACTIVITY_MAX_TRACKED_IPS'' 10000),
      at_max_action_history =
        nat (positive_int env max_action_history ''SMARTIDS_IP_ACTIVITY_MAX_ACTION_HISTORY'' 25),
      at_max_file_entries =
        nat (positive_int env max_file_entries ''SMARTIDS_IP_ACTIVITY_MAX_FILE_ENTRIES'' 50000),
      at_file_compaction_interval_records =
        nat (positive_int env interval
          ''SMARTIDS_IP_ACTIVITY_FILE_COMPACTION_INTERVAL_RECORDS'' 100),
      at_records_since_compaction = 0,
      at_file = file\<rparr>"

subsection \<open>IP activity tracker: operations\<close>

definition attempt_pattern :: "ip_state \<Rightarrow> string" where
  "attempt_pattern st =
     (if 1 < is_total_attack_attempts st then ''repeated_attempts'' else ''single_attempt'')"

definition activity_payload_of :: "nat \<Rightarrow> string \<Rightarrow> ip_state \<Rightarrow> activity_payload" where
  "activity_payload_of n ip st = \<lparr>ap_ip = ip,
     ap_first_detected_time = is_first_detected_time st,
     ap_last_detected_time = is_last_detected_time st,
     ap_total_attack_attempts = is_total_attack_attempts st,
     ap_attack_types_used = sorted_list_of_set (is_attack_types_used st),
     ap_attempt_pattern = attempt_pattern st,
     ap_action_history = last_n n (is_action_history st)\<rparr>"

definition new_ip_state :: "int \<Rightarrow> ip_state" where
  "new_ip_state t = \<lparr>is_first_detected_time = t, is_last_detected_time = t,
     is_total_attack_attempts = 0, is_attack_types_used = {}, is_action_history = []\<rparr>"

definition note_activity :: "nat \<Rightarrow> activity_entry \<Rightarrow> ip_state \<Rightarrow> ip_state" where
  "note_activity n e st = st\<lparr>is_last_detected_time := ae_timestamp e,
     is_total_attack_attempts := is_total_attack_attempts st + 1,
     is_attack_types_used := insert (ae_attack_type e) (is_attack_types_used st),
     is_action_history := last_n n (is_action_history st @ [e])\<rparr>"

definition prune_state :: "activity_tracker \<Rightarrow> activity_tracker" where
  "prune_state tr =
     (let st = at_state tr; overflow = length st - at_max_tracked_ips tr
      in if length st \<le> at_max_tracked_ips tr then tr
         else tr\<lparr>at_state := fold AList.delete
           (take overflow (sort_key (\<lambda>ip. is_last_detected_time (the (map_of st ip))) (dkeys st))) st\<rparr>)"

definition compact_file_if_needed :: "activity_tracker \<Rightarrow> activity_tracker" where
  "compact_file_if_needed tr =
     (if at_records_since_compaction tr < at_file_compaction_interval_records tr then tr
      else let tr1 = tr\<lparr>at_records_since_compaction := 0\<rparr>
        in if length (at_file tr1) \<le> at_max_file_entries tr1 then tr1
           else tr1\<lparr>at_file := last_n (at_max_file_entries tr1) (at_file tr1)\<rparr>)"

text \<open>\<open>now\<close> is the clock read for \<open>recorded_at_utc\<close>.\<close>

definition record_activity ::
    "string \<Rightarrow> string \<Rightarrow> string \<Rightarrow> real \<Rightarrow> real \<Rightarrow> activity_tracker \<Rightarrow> activity_tracker" where
  "record_activity ip attack_type action timestamp now tr =
     (let now_iso = iso_us timestamp; n = at_max_action_history tr;
          st0 = (case map_of (at_state tr) ip of None \<Rightarrow> new_ip_state now_iso | Some st \<Rightarrow> st);
          st = note_activity n
            \<lparr>ae_timestamp = now_iso, ae_action = action, ae_attack_type = attack_type\<rparr> st0;
          tr1 = prune_state (tr\<lparr>at_state := AList.update ip st (at_state tr)\<rparr>);
          tr2 = tr1\<lparr>at_file := at_file tr1 @ [(activity_payload_of n ip st, iso_us now)],
                    at_records_since_compaction := at_records_since_compaction tr1 + 1\<rparr>
      in compact_file_if_needed tr2)"

definition tracker_snapshot :: "activity_tracker \<Rightarrow> activity_payload list" where
  "tracker_snapshot tr =
     map (\<lambda>(ip, st). activity_payload_of (at_max_action_history tr) ip st) (at_state tr)"

subsection \<open>Block records\<close>

record block_event =
  be_ip :: string
  be_status :: string
  be_duration_seconds :: int
  be_blocked_until :: "int option"
  be_times_blocked :: int
  be_current_status :: string

type_synonym block_record_store = "(block_event \<times> int) list"

definition append_event :: "block_event \<Rightarrow> real \<Rightarrow> block_record_store \<Rightarrow> block_record_store" where
  "append_event e now file = file @ [(e, iso_us now)]"

subsection \<open>Processed commands\<close>

text \<open>The file is its parsed JSON, or \<open>None\<close> when it cannot be read or parsed.\<close>

record command_store =
  cs_max_command_ids :: nat
  cs_command_ids :: "string list"
  cs_file :: "json option"

definition normalize_id :: "(json \<Rightarrow> string) \<Rightarrow> json \<Rightarrow> string" where
  "normalize_id rep v = strip (if truthy v then py_str rep v else [])"

definition iterated :: "json \<Rightarrow> py_error + json list" where
  "iterated v = (case v of
       JList xs \<Rightarrow> Inr xs
     | JObj d \<Rightarrow> Inr (map (JStr \<circ> fst) d)
     | JStr s \<Rightarrow> Inr (map (\<lambda>c. JStr [c]) s)
     | _ \<Rightarrow> Inl TypeError)"

definition collect_ids :: "string list \<Rightarrow> string list" where
  "collect_ids ids =
     fold (\<lambda>i acc. if i \<noteq> [] \<and> i \<notin> set acc then acc @ [i] else acc) ids []"

definition load_ids :: "(json \<Rightarrow> string) \<Rightarrow> nat \<Rightarrow> json option \<Rightarrow> py_error + string list" where
  "load_ids rep n file =
     (case file of
        None \<Rightarrow> Inr []
      | Some payload \<Rightarrow>
          (case (case payload of JList xs \<Rightarrow> Inr xs
              | JObj d \<Rightarrow> iterated (obj_get d ''command_ids'' (JList []))
              | _ \<Rightarrow> Inr []) of
             Inl e \<Rightarrow> Inl e
           | Inr values \<Rightarrow> Inr (last_n n (collect_ids (map (normalize_id rep) values)))))"

definition command_store_init ::
    "(json \<Rightarrow> string) \<Rightarrow> environ \<Rightarrow> int option \<Rightarrow> json option \<Rightarrow> py_error + command_store" where
  "command_store_init rep env max_command_ids file =
     (let n = nat (positive_int env max_command_ids ''SMARTIDS_PROCESSED_COMMAND_MAX_IDS'' 10000)
      in case load_ids rep n file of
           Inl e \<Rightarrow> Inl e
         | Inr ids \<Rightarrow> Inr \<lparr>cs_max_command_ids = n, cs_command_ids = ids, cs_file = file\<rparr>)"

definition save_ids :: "command_store \<Rightarrow> command_store" where
  "save_ids cs = cs\<lparr>cs_file := Some (JObj [(''command_ids'', JList (map JStr (cs_command_ids cs)))])\<rparr>"

definition cs_contains :: "string \<Rightarrow> command_store \<Rightarrow> bool" where
  "cs_contains command_id cs =
     (let i = strip command_id in if i = [] then False else i \<in> set (cs_command_ids cs))"

definition push_id :: "string \<Rightarrow> command_store \<Rightarrow> command_store" where
  "push_id i cs = save_ids
     (cs\<lparr>cs_command_ids := last_n (cs_max_command_ids cs) (cs_command_ids cs @ [i])\<rparr>)"

definition cs_add :: "string \<Rightarrow> command_store \<Rightarrow> command_store" where
  "cs_add command_id cs =
     (let i = strip command_id
      in if i = [] then cs else if i \<in> set (cs_command_ids cs) then cs else push_id i cs)"

text \<open>The store of ids and the history of an address keep their newest entries.\<close>

interpretation ids: newest_store cs_max_command_ids cs_command_ids push_id
  by unfold_locales (simp_all add: push_id_def save_ids_def)

interpretation history: newest_store "\<lambda>_. n" is_action_history "note_activity n" for n
  by unfold_locales (simp_all add: note_activity_def)

subsection \<open>Facts about the command store\<close>

definition clean_ids :: "string list \<Rightarrow> bool" where
  "clean_ids ids \<longleftrightarrow> distinct ids \<and> (\<forall>i\<in>set ids. i \<noteq> [] \<and> strip i = i)"

definition store_ok :: "command_store \<Rightarrow> bool" where
  "store_ok cs \<longleftrightarrow> clean_ids (cs_command_ids cs) \<and> length (cs_command_ids cs) \<le> cs_max_command_ids cs \<and>
     1 \<le> cs_max_command_ids cs"

lemma clean_last_n: "clean_ids ids \<Longrightarrow> clean_ids (last_n n ids)"
  using set_last_n [of n ids] by (auto simp: clean_ids_def)

lemma collect_step: "set (fold (\<lambda>i acc. if i \<noteq> [] \<and> i \<notin> set acc then acc @ [i] else acc) ids acc)
    = set acc \<union> (set ids - {[]})"
  by (induction ids arbitrary: acc) auto

lemma distinct_collect_step:
  "distinct acc \<Longrightarrow> distinct (fold (\<lambda>i acc. if i \<noteq> [] \<and> i \<notin> set acc then acc @ [i] else acc) ids acc)"
  by (induction ids arbitrary: acc) auto

lemma collect_clean: "\<forall>i\<in>set ids. strip i = i \<Longrightarrow> clean_ids (collect_ids ids)"
  by (auto simp: clean_ids_def collect_ids_def collect_step distinct_collect_step)

lemma collect_ids_id: "clean_ids (acc @ ids) \<Longrightarrow>
   fold (\<lambda>i acc. if i \<noteq> [] \<and> i \<notin> set acc then acc @ [i] else acc) ids acc = acc @ ids"
  by (induction ids arbitrary: acc) (auto simp: clean_ids_def)

lemma normalize_JStr: "strip i = i \<Longrightarrow> normalize_id rep (JStr i) = i"
  by (simp add: normalize_id_def)

text \<open>What is saved loads back as the same ids.\<close>

lemma load_save:
  assumes "store_ok cs"
  shows "load_ids rep (cs_max_command_ids cs) (cs_file (save_ids cs)) = Inr (cs_command_ids cs)"
proof -
  have "map (normalize_id rep) (map JStr (cs_command_ids cs)) = cs_command_ids cs"
    using assms by (auto simp: store_ok_def clean_ids_def normalize_JStr intro!: map_idI)
  moreover have "collect_ids (cs_command_ids cs) = cs_command_ids cs"
    using assms collect_ids_id [of "[]"] by (simp add: store_ok_def collect_ids_def)
  ultimately show ?thesis
    using assms by (simp add: load_ids_def save_ids_def iterated_def obj_get_def store_ok_def del: map_map)
qed

lemma load_ids_clean: "load_ids rep n file = Inr ids \<Longrightarrow> clean_ids ids \<and> length ids \<le> n"
proof -
  have c: "clean_ids (last_n n (collect_ids (map (normalize_id rep) vs)))" for vs
    by (intro clean_last_n collect_clean) (auto simp: normalize_id_def)
  have e: "clean_ids []" by (simp add: clean_ids_def)
  assume "load_ids rep n file = Inr ids"
  then show ?thesis
    by (auto simp: load_ids_def c e simp del: set_map map_map split: option.splits sum.splits)
qed

lemma store_ok_add: "store_ok cs \<Longrightarrow> store_ok (cs_add x cs)"
  using set_last_n [of "cs_max_command_ids cs" "cs_command_ids cs @ [strip x]"]
  by (auto simp: cs_add_def Let_def push_id_def save_ids_def store_ok_def clean_ids_def)

lemma cs_add_max [simp]: "cs_max_command_ids (cs_add x cs) = cs_max_command_ids cs"
  by (simp add: cs_add_def Let_def push_id_def save_ids_def)

text \<open>\<open>synced rep cs\<close>: a restart reads back the ids in memory.\<close>

definition synced :: "(json \<Rightarrow> string) \<Rightarrow> command_store \<Rightarrow> bool" where
  "synced rep cs \<longleftrightarrow> load_ids rep (cs_max_command_ids cs) (cs_file cs) = Inr (cs_command_ids cs)"

lemma synced_add:
  assumes "store_ok cs" and "synced rep cs"
  shows "synced rep (cs_add x cs)"
proof (cases "strip x = [] \<or> strip x \<in> set (cs_command_ids cs)")
  case True
  then show ?thesis using assms(2) by (auto simp: cs_add_def Let_def)
next
  case False
  define cs1 where "cs1 = cs\<lparr>cs_command_ids := last_n (cs_max_command_ids cs) (cs_command_ids cs @ [strip x])\<rparr>"
  have add: "cs_add x cs = save_ids cs1"
    using False by (simp add: cs_add_def Let_def push_id_def cs1_def)
  with store_ok_add [OF assms(1), of x] have "store_ok cs1" by (simp add: store_ok_def save_ids_def)
  from load_save [OF this] show ?thesis unfolding synced_def add by (simp add: save_ids_def)
qed

lemma adds_ok:
  "store_ok cs \<Longrightarrow> synced rep cs \<Longrightarrow> store_ok (fold cs_add xs cs) \<and> synced rep (fold cs_add xs cs) \<and>
   cs_max_command_ids (fold cs_add xs cs) = cs_max_command_ids cs"
  by (induction xs arbitrary: cs) (simp_all add: store_ok_add synced_add)

lemma init_ok:
  "command_store_init rep env m file = Inr cs \<Longrightarrow> store_ok cs \<and> synced rep cs \<and>
   cs_max_command_ids cs = nat (positive_int env m ''SMARTIDS_PROCESSED_COMMAND_MAX_IDS'' 10000)"
  using positive_int_pos [of env m "''SMARTIDS_PROCESSED_COMMAND_MAX_IDS''" 10000]
  by (auto simp: command_store_init_def Let_def store_ok_def synced_def dest: load_ids_clean
      split: sum.splits simp del: positive_int_pos)

lemma add_kept:
  assumes "x \<in> set (last_n (Suc j) (cs_command_ids cs))" and "Suc j < cs_max_command_ids cs"
  shows "x \<in> set (last_n (Suc (Suc j)) (cs_command_ids (cs_add y cs)))"
proof -
  have m: "set (last_n (Suc j) ids) \<subseteq> set (last_n (Suc (Suc j)) ids)" for ids :: "string list"
    unfolding last_n_def by (intro set_drop_subset_set_drop) simp
  show ?thesis
    using assms m by (auto simp: cs_add_def Let_def push_id_def save_ids_def last_n_last_n last_n_snoc)
qed

lemma adds_kept:
  "x \<in> set (last_n (Suc j) (cs_command_ids cs)) \<Longrightarrow> j + length ys < cs_max_command_ids cs \<Longrightarrow>
   x \<in> set (last_n (Suc (j + length ys)) (cs_command_ids (fold cs_add ys cs)))"
proof (induction ys arbitrary: j cs)
  case (Cons y ys)
  then have "x \<in> set (last_n (Suc (Suc j)) (cs_command_ids (cs_add y cs)))"
    by (intro add_kept) simp_all
  from Cons.IH [OF this] Cons.prems(2) show ?case by simp
qed simp

subsection \<open>Facts about the tracker\<close>

text \<open>An invariant of the stores' sizes, kept by every recorded activity.\<close>

definition tracker_ok :: "activity_tracker \<Rightarrow> bool" where
  "tracker_ok tr \<longleftrightarrow> wf_dict (at_state tr) \<and> length (at_state tr) \<le> at_max_tracked_ips tr \<and>
     (\<forall>st\<in>snd ` set (at_state tr). length (is_action_history st) \<le> at_max_action_history tr) \<and>
     at_records_since_compaction tr < at_file_compaction_interval_records tr \<and>
     length (at_file tr) \<le> at_max_file_entries tr + at_records_since_compaction tr"

lemma fold_delete_keys: "dkeys (fold AList.delete ks d) = filter (\<lambda>k. k \<notin> set ks) (dkeys d)"
proof (induction ks arbitrary: d)
  case (Cons k ks)
  have "filter (\<lambda>x. x \<notin> set ks) (removeAll k (dkeys d)) = filter (\<lambda>x. x \<noteq> k \<and> x \<notin> set ks) (dkeys d)"
    unfolding removeAll_filter_not_eq filter_filter by (rule filter_cong) auto
  then show ?case by (simp add: Cons.IH dkeys_delete)
qed simp

lemma fold_delete_subset: "set (fold AList.delete ks d) \<subseteq> set d"
proof (induction ks arbitrary: d)
  case (Cons k ks)
  have "set (AList.delete k d) \<subseteq> set d" by (auto simp: set_delete)
  with Cons [of "AList.delete k d"] show ?case by simp
qed simp

lemma length_filter_notin:
  assumes "distinct xs" and "distinct ks" and "set ks \<subseteq> set xs"
  shows "length (filter (\<lambda>x. x \<notin> set ks) xs) = length xs - length ks"
proof -
  have "length (filter (\<lambda>x. x \<notin> set ks) xs) = card (set xs - set ks)"
    using assms(1) by (subst distinct_card [symmetric]) (auto intro!: arg_cong [where f = card])
  also have "\<dots> = length xs - length ks"
    using assms by (simp add: card_Diff_subset distinct_card)
  finally show ?thesis .
qed

lemma prune_state_sel [simp]:
  "at_max_tracked_ips (prune_state tr) = at_max_tracked_ips tr"
  "at_max_action_history (prune_state tr) = at_max_action_history tr"
  "at_max_file_entries (prune_state tr) = at_max_file_entries tr"
  "at_file_compaction_interval_records (prune_state tr) = at_file_compaction_interval_records tr"
  "at_records_since_compaction (prune_state tr) = at_records_since_compaction tr"
  "at_file (prune_state tr) = at_file tr"
  by (simp_all add: prune_state_def Let_def)

lemma prune_state_facts:
  assumes wf: "wf_dict (at_state tr)"
  shows "wf_dict (at_state (prune_state tr))" and "set (at_state (prune_state tr)) \<subseteq> set (at_state tr)"
    and "length (at_state (prune_state tr)) = min (length (at_state tr)) (at_max_tracked_ips tr)"
proof -
  let ?st = "at_state tr" and ?m = "at_max_tracked_ips tr"
  let ?ks = "take (length ?st - ?m)
    (sort_key (\<lambda>ip. is_last_detected_time (the (map_of ?st ip))) (dkeys ?st))"
  have st: "at_state (prune_state tr) = (if length ?st \<le> ?m then ?st else fold AList.delete ?ks ?st)"
    by (simp add: prune_state_def Let_def)
  show "set (at_state (prune_state tr)) \<subseteq> set ?st" using fold_delete_subset by (auto simp: st)
  have "wf_dict (fold AList.delete ?ks ?st)" using wf by (simp add: fold_delete_keys)
  with wf show "wf_dict (at_state (prune_state tr))" by (simp add: st)
  have "set ?ks \<subseteq> set (dkeys ?st)" by (metis set_sort set_take_subset)
  then have "length (dkeys (fold AList.delete ?ks ?st)) = length (dkeys ?st) - length ?ks"
    unfolding fold_delete_keys using wf by (intro length_filter_notin) (simp_all add: distinct_take)
  then show "length (at_state (prune_state tr)) = min (length ?st) ?m" by (simp add: st)
qed

lemma compact_sel [simp]:
  "at_state (compact_file_if_needed tr) = at_state tr"
  "at_max_tracked_ips (compact_file_if_needed tr) = at_max_tracked_ips tr"
  "at_max_action_history (compact_file_if_needed tr) = at_max_action_history tr"
  "at_max_file_entries (compact_file_if_needed tr) = at_max_file_entries tr"
  "at_file_compaction_interval_records (compact_file_if_needed tr) = at_file_compaction_interval_records tr"
  by (simp_all add: compact_file_if_needed_def Let_def)

definition updated_ip ::
    "string \<Rightarrow> string \<Rightarrow> string \<Rightarrow> real \<Rightarrow> activity_tracker \<Rightarrow> ip_state" where
  "updated_ip ip attack_type action t tr = note_activity (at_max_action_history tr)
     \<lparr>ae_timestamp = iso_us t, ae_action = action, ae_attack_type = attack_type\<rparr>
     (case map_of (at_state tr) ip of None \<Rightarrow> new_ip_state (iso_us t) | Some st \<Rightarrow> st)"

lemma record_activity_state:
  "at_state (record_activity ip attack_type action t now tr) = at_state (prune_state
     (tr\<lparr>at_state := AList.update ip (updated_ip ip attack_type action t tr) (at_state tr)\<rparr>))"
  by (simp add: record_activity_def Let_def updated_ip_def)

lemma record_activity_max [simp]:
  "at_max_tracked_ips (record_activity ip attack_type action t now tr) = at_max_tracked_ips tr"
  "at_max_action_history (record_activity ip attack_type action t now tr) = at_max_action_history tr"
  "at_max_file_entries (record_activity ip attack_type action t now tr) = at_max_file_entries tr"
  "at_file_compaction_interval_records (record_activity ip attack_type action t now tr) =
     at_file_compaction_interval_records tr"
  by (simp_all add: record_activity_def Let_def)

lemma tracker_ok_record:
  assumes ok: "tracker_ok tr"
  shows "tracker_ok (record_activity ip attack_type action t now tr)"
proof -
  let ?u = "updated_ip ip attack_type action t tr"
  let ?tr = "tr\<lparr>at_state := AList.update ip ?u (at_state tr)\<rparr>"
  have wf: "wf_dict (at_state ?tr)" using ok by (simp add: tracker_ok_def)
  note p = prune_state_facts [OF wf]
  have "length (is_action_history ?u) \<le> at_max_action_history tr"
    unfolding updated_ip_def by (rule history.bounded_push)
  then have "\<forall>st\<in>snd ` set (at_state ?tr). length (is_action_history st) \<le> at_max_action_history tr"
    using ok by (auto simp: tracker_ok_def set_update_wf)
  then have "\<forall>st\<in>snd ` set (at_state (prune_state ?tr)).
      length (is_action_history st) \<le> at_max_action_history tr"
    using p(2) by blast
  moreover have "at_records_since_compaction (record_activity ip attack_type action t now tr)
      < at_file_compaction_interval_records tr \<and>
      length (at_file (record_activity ip attack_type action t now tr)) \<le> at_max_file_entries tr +
        at_records_since_compaction (record_activity ip attack_type action t now tr)"
    using ok by (auto simp: tracker_ok_def record_activity_def Let_def compact_file_if_needed_def)
  ultimately show ?thesis
    using p(1,3) by (simp add: tracker_ok_def record_activity_state)
qed

text \<open>A sequence of recorded activities, and what it says about one address.\<close>

record activity =
  av_ip :: string
  av_attack_type :: string
  av_action :: string
  av_time :: real
  av_now :: real

definition record_one :: "activity \<Rightarrow> activity_tracker \<Rightarrow> activity_tracker" where
  "record_one a = record_activity (av_ip a) (av_attack_type a) (av_action a) (av_time a) (av_now a)"

definition entry_of :: "activity \<Rightarrow> activity_entry" where
  "entry_of a = \<lparr>ae_timestamp = iso_us (av_time a), ae_action = av_action a,
     ae_attack_type = av_attack_type a\<rparr>"

definition activity_summary :: "nat \<Rightarrow> activity list \<Rightarrow> ip_state option" where
  "activity_summary n acts =
     (if acts = [] then None
      else Some \<lparr>is_first_detected_time = iso_us (av_time (hd acts)),
        is_last_detected_time = iso_us (av_time (last acts)),
        is_total_attack_attempts = length acts,
        is_attack_types_used = set (map av_attack_type acts),
        is_action_history = last_n n (map entry_of acts)\<rparr>)"

definition acts_of :: "string \<Rightarrow> activity list \<Rightarrow> activity list" where
  "acts_of ip acts = filter (\<lambda>a. av_ip a = ip) acts"

lemma activity_summary_snoc:
  "activity_summary n (acts @ [a]) = Some (note_activity n (entry_of a)
     (case activity_summary n acts of None \<Rightarrow> new_ip_state (iso_us (av_time a)) | Some st \<Rightarrow> st))"
  by (cases acts) (simp_all add: activity_summary_def note_activity_def new_ip_state_def entry_of_def
      last_n_append_last_n insert_commute)

lemma activity_summary_None: "activity_summary n acts = None \<longleftrightarrow> acts = []"
  by (simp add: activity_summary_def)

lemma prune_none: "length (at_state tr) \<le> at_max_tracked_ips tr \<Longrightarrow> prune_state tr = tr"
  by (simp add: prune_state_def)

lemma record_one_summary:
  assumes sum: "\<And>ip. map_of (at_state tr) ip = activity_summary (at_max_action_history tr) (acts_of ip acts)"
    and wf: "wf_dict (at_state tr)"
    and few: "card (av_ip ` set (acts @ [a])) \<le> at_max_tracked_ips tr"
  shows "map_of (at_state (record_one a tr)) ip =
    activity_summary (at_max_action_history tr) (acts_of ip (acts @ [a]))"
    and "wf_dict (at_state (record_one a tr))"
proof -
  let ?u = "updated_ip (av_ip a) (av_attack_type a) (av_action a) (av_time a) tr"
  let ?tr = "tr\<lparr>at_state := AList.update (av_ip a) ?u (at_state tr)\<rparr>"
  have wf': "wf_dict (at_state ?tr)" using wf by simp
  have known: "ip \<in> av_ip ` set acts" if "ip \<in> fst ` set (at_state tr)" for ip
  proof (rule ccontr)
    assume "ip \<notin> av_ip ` set acts"
    then have "acts_of ip acts = []" by (auto simp: acts_of_def filter_empty_conv)
    then show False using sum [of ip] that dget_None_iff [of "at_state tr" ip]
      by (simp add: activity_summary_def)
  qed
  have "length (at_state ?tr) = card (fst ` set (at_state ?tr))"
    using wf' by (metis distinct_card length_map list.set_map)
  also have "\<dots> \<le> card (av_ip ` set (acts @ [a]))"
    using known by (intro card_mono) auto
  finally have st: "at_state (record_one a tr) = at_state ?tr"
    using few by (simp add: record_one_def record_activity_state prune_none)
  show "wf_dict (at_state (record_one a tr))" using wf' by (simp add: st)
  show "map_of (at_state (record_one a tr)) ip =
      activity_summary (at_max_action_history tr) (acts_of ip (acts @ [a]))"
    using sum [of ip] sum [of "av_ip a"]
    by (auto simp: st acts_of_def activity_summary_snoc updated_ip_def entry_of_def)
qed

lemma record_one_max [simp]:
  "at_max_tracked_ips (record_one a tr) = at_max_tracked_ips tr"
  "at_max_action_history (record_one a tr) = at_max_action_history tr"
  "at_max_file_entries (record_one a tr) = at_max_file_entries tr"
  "at_file_compaction_interval_records (record_one a tr) = at_file_compaction_interval_records tr"
  by (simp_all add: record_one_def)

lemma fold_record_max [simp]:
  "at_max_tracked_ips (fold record_one acts tr) = at_max_tracked_ips tr"
  "at_max_action_history (fold record_one acts tr) = at_max_action_history tr"
  "at_max_file_entries (fold record_one acts tr) = at_max_file_entries tr"
  "at_file_compaction_interval_records (fold record_one acts tr) = at_file_compaction_interval_records tr"
  by (induction acts arbitrary: tr) simp_all

lemma fold_record_summary:
  assumes "at_state tr = []" and "card (av_ip ` set acts) \<le> at_max_tracked_ips tr"
  shows "(\<forall>ip. map_of (at_state (fold record_one acts tr)) ip =
      activity_summary (at_max_action_history tr) (acts_of ip acts)) \<and>
    wf_dict (at_state (fold record_one acts tr))"
  using assms(2)
proof (induction acts rule: rev_induct)
  case Nil
  then show ?case using assms(1) by (simp add: acts_of_def activity_summary_def)
next
  case (snoc a acts)
  have "card (av_ip ` set acts) \<le> card (av_ip ` set (acts @ [a]))" by (intro card_mono) auto
  with snoc have ih: "\<And>ip. map_of (at_state (fold record_one acts tr)) ip =
      activity_summary (at_max_action_history (fold record_one acts tr)) (acts_of ip acts)"
    "wf_dict (at_state (fold record_one acts tr))" by auto
  from record_one_summary [OF ih, of a] snoc.prems show ?case by simp
qed

lemma tracker_ok_fold: "tracker_ok tr \<Longrightarrow> tracker_ok (fold record_one acts tr)"
  by (induction acts arbitrary: tr) (simp_all add: tracker_ok_record record_one_def)

subsection \<open>Properties\<close>

text \<open>
  The tracker summarises the activities recorded. From an empty tracker, and with no more
  addresses than it may track, the state of each address is the summary of its activities: the
  instants of the first and the last, their number, the set of their attack types, and the last
  \<open>max_action_history\<close> of them.
\<close>
theorem tracker_summarises:
  assumes "at_state tr = []" and "card (av_ip ` set acts) \<le> at_max_tracked_ips tr"
  shows "map_of (at_state (fold record_one acts tr)) ip =
    activity_summary (at_max_action_history tr) (acts_of ip acts)"
  using fold_record_summary [OF assms] by blast

theorem tracker_summarises_witness:
  "map_of (at_state (fold record_one
       [\<lparr>av_ip = ''a'', av_attack_type = ''scan'', av_action = ''blocked'', av_time = 1, av_now = 1\<rparr>,
        \<lparr>av_ip = ''a'', av_attack_type = ''scan'', av_action = ''alert'', av_time = 3, av_now = 3\<rparr>]
       (tracker_init (\<lambda>_. None) (Some 2) (Some 1) None None []))) ''a'' =
     Some \<lparr>is_first_detected_time = 1000000, is_last_detected_time = 3000000,
       is_total_attack_attempts = 2, is_attack_types_used = {''scan''},
       is_action_history = [\<lparr>ae_timestamp = 3000000, ae_action = ''alert'', ae_attack_type = ''scan''\<rparr>]\<rparr>"
proof -
  have iso: "iso_us 1 = 1000000" "iso_us 3 = 3000000"
    using round_half_even_of_int [of 1000000] round_half_even_of_int [of 3000000]
    by (simp_all add: iso_us_def)
  show ?thesis
    by (subst tracker_summarises)
      (simp_all add: tracker_init_def positive_int_def acts_of_def activity_summary_def entry_of_def
        last_n_def iso)
qed

text \<open>
  The tracker is bounded in memory and on disk: from an empty tracker whose log is within its
  limit, after any activities at most \<open>max_tracked_ips\<close> addresses are held, each with at most
  \<open>max_action_history\<close> actions, and the log never exceeds \<open>max_file_entries\<close> by a full
  compaction interval.
\<close>
theorem tracker_bounded:
  assumes "at_state tr = []" and "at_records_since_compaction tr = 0"
    and "0 < at_file_compaction_interval_records tr" and "length (at_file tr) \<le> at_max_file_entries tr"
    and "tr' = fold record_one acts tr"
  shows "length (at_state tr') \<le> at_max_tracked_ips tr \<and>
    (\<forall>st\<in>snd ` set (at_state tr'). length (is_action_history st) \<le> at_max_action_history tr) \<and>
    length (at_file tr') < at_max_file_entries tr + at_file_compaction_interval_records tr"
proof -
  have "tracker_ok tr" using assms by (simp add: tracker_ok_def)
  from tracker_ok_fold [OF this, of acts] show ?thesis
    by (auto simp: tracker_ok_def assms(5))
qed

theorem tracker_bounded_witness:
  "\<exists>tr'. tr' = fold record_one
       [\<lparr>av_ip = ''a'', av_attack_type = ''scan'', av_action = ''blocked'', av_time = 1, av_now = 1\<rparr>]
       (tracker_init (\<lambda>_. None) (Some 1) (Some 1) (Some 1) (Some 1) []) \<and>
     length (at_state tr') \<le> 1 \<and> length (at_file tr') < 2"
  using tracker_bounded [OF _ _ _ _ refl, of "tracker_init (\<lambda>_. None) (Some 1) (Some 1) (Some 1) (Some 1) []"
      "[\<lparr>av_ip = ''a'', av_attack_type = ''scan'', av_action = ''blocked'', av_time = 1, av_now = 1\<rparr>]"]
  by (simp add: tracker_init_def positive_int_def)

text \<open>
  C29: Processed command ids survive a restart. Whatever file the store was opened on and whatever
  ids were added since, opening the file again gives the same store; its ids are distinct,
  non-empty and free of surrounding blanks, and never more than \<open>max_command_ids\<close>. This is what the
  code and \<open>README.md\<close> say; \<open>docs/decisions.md\<close> still calls the ids process-local and not durable.
\<close>
theorem command_ids_survive_restart:
  assumes "command_store_init rep env m file = Inr cs0" and "cs = fold cs_add xs cs0"
  shows "command_store_init rep env m (cs_file cs) = Inr cs \<and> distinct (cs_command_ids cs) \<and>
    (\<forall>i\<in>set (cs_command_ids cs). i \<noteq> [] \<and> strip i = i) \<and>
    length (cs_command_ids cs) \<le> cs_max_command_ids cs"
proof -
  from init_ok [OF assms(1)] adds_ok [of cs0 rep xs] assms(2)
  have "store_ok cs" "synced rep cs" and m: "cs_max_command_ids cs =
      nat (positive_int env m ''SMARTIDS_PROCESSED_COMMAND_MAX_IDS'' 10000)" by auto
  then show ?thesis
    by (simp add: command_store_init_def synced_def store_ok_def clean_ids_def)
qed

theorem command_ids_survive_restart_witness:
  "\<exists>cs. cs = fold cs_add ['' cmd-1 '', ''cmd-2'', ''cmd-1'']
       \<lparr>cs_max_command_ids = 2, cs_command_ids = [], cs_file = None\<rparr> \<and>
     command_store_init (\<lambda>_. []) (\<lambda>_. None) (Some 2) (cs_file cs) = Inr cs"
proof -
  have "command_store_init (\<lambda>_. []) (\<lambda>_. None) (Some 2) None =
      Inr \<lparr>cs_max_command_ids = 2, cs_command_ids = [], cs_file = None\<rparr>"
    by (simp add: command_store_init_def load_ids_def positive_int_def)
  from command_ids_survive_restart [OF this refl] show ?thesis by blast
qed

text \<open>A command id added for the first time stays while fewer than \<open>max_command_ids\<close> others come.\<close>

lemma command_id_remembered:
  assumes "store_ok cs" and "strip x \<noteq> []" and "\<not> cs_contains x cs" and "length ys < cs_max_command_ids cs"
  shows "cs_contains x (fold cs_add ys (cs_add x cs))"
proof -
  have "strip x \<in> set (last_n (Suc 0) (cs_command_ids (cs_add x cs)))"
    using assms(1,2,3)
    by (auto simp: cs_add_def cs_contains_def Let_def push_id_def save_ids_def store_ok_def
        last_n_last_n in_last_n_snoc)
  from adds_kept [OF this, of ys] assms(4)
  have "strip x \<in> set (last_n (Suc (length ys)) (cs_command_ids (fold cs_add ys (cs_add x cs))))"
    by simp
  then have "strip x \<in> set (cs_command_ids (fold cs_add ys (cs_add x cs)))"
    by (rule subsetD [OF set_last_n])
  with assms(2) show ?thesis by (simp add: cs_contains_def Let_def)
qed

end
