(* ===== verification/AutoBlocker.thy ===== *)
theory AutoBlocker
  imports Firewall ActivityStores
begin

text \<open>
  The blocker (\<open>response_engine/auto_blocker.py\<close>): temporary blocks with a cooldown, their
  expiry, manual unblocks and the watchlist, over a firewall adapter, the block log and the
  activity tracker. The methods run in the state monad on a record that also holds the host's
  world, which the clock and the firewall commands change. Log lines are not modelled, and the expiry
  of a block is taken to be a time that a float and a \<open>datetime\<close> can hold. The class has no lock: a call is
  modelled as a whole, and the last theorem shows what two overlapping calls can do.
\<close>

subsection \<open>State\<close>

record 'w blocker =
  ab_firewall :: "adapter option"
  ab_last_block_time :: "(string, real) pydict"
  ab_blocked_until :: "(string, real) pydict"
  ab_block_counts :: "(string, int) pydict"
  ab_watchlisted_ips :: "string set"
  ab_record_store :: block_record_store
  ab_activity_tracker :: activity_tracker
  ab_world :: 'w

definition block_cooldown_seconds :: real where "block_cooldown_seconds = 60"

definition blocker_init :: "string \<Rightarrow> activity_tracker \<Rightarrow> block_record_store \<Rightarrow> 'w \<Rightarrow> 'w blocker" where
  "blocker_init system tracker records w = \<lparr>ab_firewall = create_firewall_adapter system,
     ab_last_block_time = [], ab_blocked_until = [], ab_block_counts = [],
     ab_watchlisted_ips = {}, ab_record_store = records, ab_activity_tracker = tracker,
     ab_world = w\<rparr>"

subsection \<open>Operations\<close>

definition on_world :: "('w \<Rightarrow> 'a \<times> 'w) \<Rightarrow> (('w, 'z) blocker_scheme, 'a) state" where
  "on_world f = State (\<lambda>s. case f (ab_world s) of (x, w) \<Rightarrow> (x, s\<lparr>ab_world := w\<rparr>))"

definition clock :: "'w host \<Rightarrow> (('w, 'z) blocker_scheme, real) state" where
  "clock hst = on_world (host_time hst)"

definition is_valid_routable_ip :: "string \<Rightarrow> bool" where
  "is_valid_routable_ip ip = (case ip_address ip of None \<Rightarrow> False | Some a \<Rightarrow> \<not> is_loopback a)"

definition record_detection_activity ::
    "'w host \<Rightarrow> string \<Rightarrow> string \<Rightarrow> string \<Rightarrow> real \<Rightarrow> (('w, 'z) blocker_scheme, unit) state" where
  "record_detection_activity hst ip attack_type action timestamp = do {
     now \<leftarrow> clock hst;
     modify (\<lambda>s. s\<lparr>ab_activity_tracker :=
       record_activity ip attack_type action timestamp now (ab_activity_tracker s)\<rparr>)
   }"

definition record_block ::
    "'w host \<Rightarrow> string \<Rightarrow> string \<Rightarrow> int \<Rightarrow> (('w, 'z) blocker_scheme, unit) state" where
  "record_block hst status ip duration_seconds = do {
     until \<leftarrow> (if 0 < duration_seconds then do {
                 now \<leftarrow> clock hst;
                 State_Monad.return (Some (iso_us (now + of_int duration_seconds)))
               } else State_Monad.return None);
     now \<leftarrow> clock hst;
     modify (\<lambda>s. s\<lparr>ab_record_store := append_event
       \<lparr>be_ip = ip, be_status = status, be_duration_seconds = duration_seconds,
        be_blocked_until = until,
        be_times_blocked = (case map_of (ab_block_counts s) ip of None \<Rightarrow> 0 | Some n \<Rightarrow> n),
        be_current_status = (if 0 < duration_seconds then ''blocked'' else ''unblocked'')\<rparr>
       now (ab_record_store s)\<rparr>)
   }"

definition forget_block :: "string \<Rightarrow> (('w, 'z) blocker_scheme, unit) state" where
  "forget_block ip = modify (\<lambda>s. s\<lparr>ab_blocked_until := AList.delete ip (ab_blocked_until s),
     ab_last_block_time := AList.delete ip (ab_last_block_time s)\<rparr>)"

definition set_block :: "string \<Rightarrow> real \<Rightarrow> int \<Rightarrow> (('w, 'z) blocker_scheme, unit) state" where
  "set_block ip now duration_seconds = modify (\<lambda>s. s\<lparr>
     ab_last_block_time := AList.update ip now (ab_last_block_time s),
     ab_blocked_until := AList.update ip (now + of_int (max 1 duration_seconds)) (ab_blocked_until s)\<rparr>)"

text \<open>
  The first part of the body of the loop in \<open>expire_blocks\<close>, up to the lines that take the address
  out of the tables: no lock holds the two parts together.
\<close>

definition unblock_expired ::
    "'w host \<Rightarrow> adapter \<Rightarrow> real \<Rightarrow> string \<Rightarrow> (('w, 'z) blocker_scheme, unit) state" where
  "unblock_expired hst a now ip = do {
     (ok, status) \<leftarrow> on_world (unblock_ip a hst ip);
     record_block hst (if ok then ''unblocked'' else status) ip 0;
     record_detection_activity hst ip ''unblock_action''
       (if ok then ''unblocked'' else ''unblock_failed'') now
   }"

definition expire_block ::
    "'w host \<Rightarrow> adapter \<Rightarrow> real \<Rightarrow> string \<Rightarrow> (('w, 'z) blocker_scheme, unit) state" where
  "expire_block hst a now ip = do {
     (ok, status) \<leftarrow> on_world (unblock_ip a hst ip);
     record_block hst (if ok then ''unblocked'' else status) ip 0;
     record_detection_activity hst ip ''unblock_action''
       (if ok then ''unblocked'' else ''unblock_failed'') now;
     forget_block ip
   }"

definition expire_blocks :: "'w host \<Rightarrow> (('w, 'z) blocker_scheme, unit) state" where
  "expire_blocks hst = do {
     fw \<leftarrow> gets ab_firewall;
     case fw of
       None \<Rightarrow> State_Monad.return ()
     | Some a \<Rightarrow> do {
         now \<leftarrow> clock hst;
         blocks \<leftarrow> gets ab_blocked_until;
         for_each (map fst (filter (\<lambda>(ip, until). until \<le> now) blocks)) (expire_block hst a now)
       }
   }"

definition count_block :: "string \<Rightarrow> (('w, 'z) blocker_scheme, unit) state" where
  "count_block ip = modify (\<lambda>s. s\<lparr>ab_block_counts := AList.update ip
     ((case map_of (ab_block_counts s) ip of None \<Rightarrow> 0 | Some n \<Rightarrow> n) + 1) (ab_block_counts s)\<rparr>)"

definition cooling_down :: "real \<Rightarrow> string \<Rightarrow> ('w, 'z) blocker_scheme \<Rightarrow> bool" where
  "cooling_down now ip s = (case map_of (ab_last_block_time s) ip of None \<Rightarrow> False
     | Some t \<Rightarrow> now - t < block_cooldown_seconds)"

definition temp_block ::
    "'w host \<Rightarrow> string \<Rightarrow> int \<Rightarrow> (('w, 'z) blocker_scheme, bool \<times> string) state" where
  "temp_block hst ip duration_seconds = do {
     fw \<leftarrow> gets ab_firewall;
     case fw of
       None \<Rightarrow> State_Monad.return (False, ''unsupported_platform'')
     | Some a \<Rightarrow>
         if \<not> is_valid_routable_ip ip then State_Monad.return (False, ''invalid_or_loopback_ip'')
         else do {
           expire_blocks hst;
           now \<leftarrow> clock hst;
           cooling \<leftarrow> gets (cooling_down now ip);
           if cooling then State_Monad.return (False, ''cooldown_active'')
           else do {
             found \<leftarrow> on_world (is_blocked a hst ip);
             if found then do {
               set_block ip now duration_seconds;
               record_block hst ''already_blocked'' ip duration_seconds;
               record_detection_activity hst ip ''already_blocked_activity'' ''blocked'' now;
               State_Monad.return (True, ''already_blocked'')
             } else do {
               (ok, status) \<leftarrow> on_world (block_ip a hst ip);
               whenM ok (do {
                 set_block ip now duration_seconds;
                 count_block ip;
                 record_block hst status ip duration_seconds;
                 record_detection_activity hst ip ''block_action'' ''blocked'' now
               });
               State_Monad.return (ok, status)
             }
           }
         }
   }"

definition block_if_needed :: "'w host \<Rightarrow> string \<Rightarrow> (('w, 'z) blocker_scheme, bool \<times> string) state" where
  "block_if_needed hst ip = temp_block hst ip 300"

definition manual_block ::
    "'w host \<Rightarrow> string \<Rightarrow> int \<Rightarrow> (('w, 'z) blocker_scheme, bool \<times> string) state" where
  "manual_block hst ip duration_seconds = temp_block hst ip duration_seconds"

definition manual_unblock :: "'w host \<Rightarrow> string \<Rightarrow> (('w, 'z) blocker_scheme, bool \<times> string) state" where
  "manual_unblock hst ip = do {
     fw \<leftarrow> gets ab_firewall;
     case fw of
       None \<Rightarrow> State_Monad.return (False, ''unsupported_platform'')
     | Some a \<Rightarrow>
         if \<not> is_valid_routable_ip ip then State_Monad.return (False, ''invalid_or_loopback_ip'')
         else do {
           (ok, status) \<leftarrow> on_world (unblock_ip a hst ip);
           whenM ok (do {
             forget_block ip;
             record_block hst ''unblocked'' ip 0;
             now \<leftarrow> clock hst;
             record_detection_activity hst ip ''manual_unblock'' ''unblocked'' now
           });
           State_Monad.return (ok, status)
         }
   }"

definition watchlist_ip :: "'w host \<Rightarrow> string \<Rightarrow> (('w, 'z) blocker_scheme, bool \<times> string) state" where
  "watchlist_ip hst ip =
     (if \<not> is_valid_routable_ip ip then State_Monad.return (False, ''invalid_or_loopback_ip'')
      else do {
        modify (\<lambda>s. s\<lparr>ab_watchlisted_ips := insert ip (ab_watchlisted_ips s)\<rparr>);
        now \<leftarrow> clock hst;
        record_detection_activity hst ip ''watchlist_action'' ''watchlisted'' now;
        State_Monad.return (True, ''watchlisted'')
      })"

definition unwatchlist_ip :: "'w host \<Rightarrow> string \<Rightarrow> (('w, 'z) blocker_scheme, bool \<times> string) state" where
  "unwatchlist_ip hst ip = do {
     listed \<leftarrow> gets (\<lambda>s. ip \<in> ab_watchlisted_ips s);
     if \<not> listed then State_Monad.return (False, ''not_watchlisted'')
     else do {
       modify (\<lambda>s. s\<lparr>ab_watchlisted_ips := ab_watchlisted_ips s - {ip}\<rparr>);
       now \<leftarrow> clock hst;
       record_detection_activity hst ip ''watchlist_action'' ''unwatchlisted'' now;
       State_Monad.return (True, ''unwatchlisted'')
     }
   }"

definition is_watchlisted :: "string \<Rightarrow> ('w, 'z) blocker_scheme \<Rightarrow> bool" where
  "is_watchlisted ip s = (ip \<in> ab_watchlisted_ips s)"

definition is_currently_blocked :: "'w host \<Rightarrow> string \<Rightarrow> (('w, 'z) blocker_scheme, bool) state" where
  "is_currently_blocked hst ip = do {
     now \<leftarrow> clock hst;
     until \<leftarrow> gets (\<lambda>s. map_of (ab_blocked_until s) ip);
     if (case until of None \<Rightarrow> False | Some t \<Rightarrow> now < t) then State_Monad.return True
     else do {
       fw \<leftarrow> gets ab_firewall;
       case fw of None \<Rightarrow> State_Monad.return False | Some a \<Rightarrow> on_world (is_blocked a hst ip)
     }
   }"

subsection \<open>Steps that change no block\<close>

lemma run_on_world [simp]: "run_state (on_world f) s = (fst (f (ab_world s)), s\<lparr>ab_world := snd (f (ab_world s))\<rparr>)"
  by (simp add: on_world_def case_prod_beta)

lemma run_clock [simp]: "run_state (clock hst) s =
    (fst (host_time hst (ab_world s)), s\<lparr>ab_world := snd (host_time hst (ab_world s))\<rparr>)"
  by (simp add: clock_def)

definition quiet :: "adapter \<Rightarrow> ('w \<Rightarrow> string list) \<Rightarrow> ('w, 'z) blocker_scheme \<Rightarrow> ('w, 'z) blocker_scheme \<Rightarrow> bool" where
  "quiet a rules s0 s \<longleftrightarrow> ab_firewall s = ab_firewall s0 \<and>
     ab_last_block_time s = ab_last_block_time s0 \<and> ab_blocked_until s = ab_blocked_until s0 \<and>
     ab_block_counts s = ab_block_counts s0 \<and> ab_watchlisted_ips s = ab_watchlisted_ips s0 \<and>
     rules_ok a rules (ab_world s) \<and> blocked_ips a rules (ab_world s) = blocked_ips a rules (ab_world s0)"

lemma quiet_refl: "rules_ok a rules (ab_world s) \<Longrightarrow> quiet a rules s s"
  by (simp add: quiet_def)

lemma keeps_quiet_clock [keeps_intros]:
  "documented_host a hst rules \<Longrightarrow> keeps (quiet a rules s0) (clock hst)"
  by (auto simp: keeps_def quiet_def adapter_tick_effect)

lemma keeps_quiet_activity [keeps_intros]:
  "documented_host a hst rules \<Longrightarrow>
   keeps (quiet a rules s0) (record_detection_activity hst ip attack_type action t)"
  unfolding record_detection_activity_def by (intro keeps_intros) (simp_all add: quiet_def)

lemma keeps_quiet_record [keeps_intros]:
  "documented_host a hst rules \<Longrightarrow> keeps (quiet a rules s0) (record_block hst status ip d)"
  unfolding record_block_def by (intro keeps_intros) (simp_all add: quiet_def)

text \<open>Expiring the addresses \<open>out\<close>: exactly they leave the tables and the firewall.\<close>

definition expired_to ::
    "adapter \<Rightarrow> ('w \<Rightarrow> string list) \<Rightarrow> string set \<Rightarrow> ('w, 'z) blocker_scheme \<Rightarrow> ('w, 'z) blocker_scheme \<Rightarrow> bool" where
  "expired_to a rules out s s' \<longleftrightarrow> ab_firewall s' = ab_firewall s \<and>
     ab_last_block_time s' = filter (\<lambda>p. fst p \<notin> out) (ab_last_block_time s) \<and>
     ab_blocked_until s' = filter (\<lambda>p. fst p \<notin> out) (ab_blocked_until s) \<and>
     ab_block_counts s' = ab_block_counts s \<and> ab_watchlisted_ips s' = ab_watchlisted_ips s \<and>
     rules_ok a rules (ab_world s') \<and>
     blocked_ips a rules (ab_world s') = blocked_ips a rules (ab_world s) - out"

lemma delete_filter: "AList.delete k d = filter (\<lambda>p. fst p \<notin> {k}) d"
  by (auto simp: AList.delete_eq intro!: filter_cong)

lemma expire_block_effect:
  assumes h: "documented_host a hst rules" and ok: "rules_ok a rules (ab_world s)"
  shows "expired_to a rules {ip} s (snd (run_state (expire_block hst a now ip) s))"
proof -
  obtain r w where u: "unblock_ip a hst ip (ab_world s) = (r, w)" by (cases "unblock_ip a hst ip (ab_world s)")
  let ?s1 = "s\<lparr>ab_world := w\<rparr>"
  let ?log = "do {
      record_block hst (if fst r then ''unblocked'' else snd r) ip 0;
      record_detection_activity hst ip ''unblock_action''
        (if fst r then ''unblocked'' else ''unblock_failed'') now }"
  have w: "rules_ok a rules w" "blocked_ips a rules w = blocked_ips a rules (ab_world s) - {ip}"
    using adapter_unblock_effect [OF h ok, of ip] u by auto
  have "keeps (quiet a rules ?s1) ?log" by (intro keeps_intros h)
  from keepsD [OF this quiet_refl] w(1) have q: "quiet a rules ?s1 (snd (run_state ?log ?s1))" by simp
  have "snd (run_state (expire_block hst a now ip) s)
      = snd (run_state (forget_block ip) (snd (run_state ?log ?s1)))"
    by (simp add: expire_block_def u case_prod_beta)
  then show ?thesis
    using q w by (simp add: forget_block_def quiet_def expired_to_def delete_filter)
qed

lemma expired_to_trans:
  "expired_to a rules A s s1 \<Longrightarrow> expired_to a rules B s1 s2 \<Longrightarrow> expired_to a rules (A \<union> B) s s2"
  by (auto simp: expired_to_def intro!: filter_cong)

lemma expire_each_effect:
  assumes h: "documented_host a hst rules" and "rules_ok a rules (ab_world s)"
  shows "expired_to a rules (set ips) s (snd (run_state (for_each ips (expire_block hst a now)) s))"
  using assms(2)
proof (induction ips arbitrary: s)
  case Nil
  then show ?case by (simp add: expired_to_def)
next
  case (Cons ip ips)
  let ?s1 = "snd (run_state (expire_block hst a now ip) s)"
  have e: "expired_to a rules {ip} s ?s1" by (rule expire_block_effect [OF h Cons.prems])
  then have "rules_ok a rules (ab_world ?s1)" by (simp add: expired_to_def)
  from expired_to_trans [OF e Cons.IH [OF this]] show ?case by (simp add: case_prod_beta)
qed

definition clock_now :: "'w host \<Rightarrow> ('w, 'z) blocker_scheme \<Rightarrow> real" where
  "clock_now hst s = fst (host_time hst (ab_world s))"

definition expired_ips :: "real \<Rightarrow> ('w, 'z) blocker_scheme \<Rightarrow> string set" where
  "expired_ips now s = fst ` set (filter (\<lambda>(ip, until). until \<le> now) (ab_blocked_until s))"

lemma expire_blocks_effect:
  assumes h: "documented_host a hst rules" and ok: "rules_ok a rules (ab_world s)"
    and fw: "ab_firewall s = Some a"
  shows "expired_to a rules (expired_ips (clock_now hst s) s) s (snd (run_state (expire_blocks hst) s))"
proof -
  let ?s1 = "s\<lparr>ab_world := snd (host_time hst (ab_world s))\<rparr>"
  let ?ips = "map fst (filter (\<lambda>(ip, until). until \<le> clock_now hst s) (ab_blocked_until s))"
  have t: "rules_ok a rules (ab_world ?s1)"
    "blocked_ips a rules (ab_world ?s1) = blocked_ips a rules (ab_world s)"
    using adapter_tick_effect [OF h ok] by simp_all
  have "run_state (expire_blocks hst) s
      = run_state (for_each ?ips (expire_block hst a (clock_now hst s))) ?s1"
    by (simp add: expire_blocks_def fw clock_now_def case_prod_beta)
  with expire_each_effect [OF h t(1), of ?ips "clock_now hst s"] t(2)
  show ?thesis by (simp add: expired_to_def expired_ips_def)
qed

subsection \<open>The effect of a temporary block\<close>

lemma cooling_down_world [simp]: "cooling_down now ip (s\<lparr>ab_world := w\<rparr>) = cooling_down now ip s"
  by (simp add: cooling_down_def)

text \<open>The block set for \<open>ip\<close> at \<open>now\<close>, up to the number of blocks counted.\<close>

definition blocked_to ::
    "adapter \<Rightarrow> ('w \<Rightarrow> string list) \<Rightarrow> string \<Rightarrow> real \<Rightarrow> int \<Rightarrow> ('w, 'z) blocker_scheme \<Rightarrow>
     ('w, 'z) blocker_scheme \<Rightarrow> bool" where
  "blocked_to a rules ip now d s s' \<longleftrightarrow> ab_firewall s' = ab_firewall s \<and>
     ab_last_block_time s' = AList.update ip now (ab_last_block_time s) \<and>
     ab_blocked_until s' = AList.update ip (now + of_int (max 1 d)) (ab_blocked_until s) \<and>
     ab_watchlisted_ips s' = ab_watchlisted_ips s \<and> rules_ok a rules (ab_world s') \<and>
     blocked_ips a rules (ab_world s') = insert ip (blocked_ips a rules (ab_world s))"

lemma quiet_logs:
  assumes h: "documented_host a hst rules" and ok: "rules_ok a rules (ab_world s)"
  shows "quiet a rules s (snd (run_state (do {
     record_block hst status ip d; record_detection_activity hst ip attack_type action t }) s))"
proof -
  have "keeps (quiet a rules s) (do {
     record_block hst status ip d; record_detection_activity hst ip attack_type action t })"
    by (intro keeps_intros h)
  from keepsD [OF this quiet_refl [OF ok]] show ?thesis .
qed

lemma run_logs: "run_state (do {
     record_block hst status ip d; record_detection_activity hst ip attack_type action t }) s =
   run_state (record_detection_activity hst ip attack_type action t)
     (snd (run_state (record_block hst status ip d) s))"
  by (simp add: case_prod_beta)

lemma already_blocked_effect:
  assumes h: "documented_host a hst rules" and w: "rules_ok a rules w"
    and same: "blocked_ips a rules w = blocked_ips a rules (ab_world s)" and "ip \<in> blocked_ips a rules w"
  shows "blocked_to a rules ip now d s (snd (run_state (do { record_block hst ''already_blocked'' ip d;
    record_detection_activity hst ip ''already_blocked_activity'' ''blocked'' now })
    (snd (run_state (set_block ip now d) (s\<lparr>ab_world := w\<rparr>)))))"
proof -
  have "rules_ok a rules (ab_world (snd (run_state (set_block ip now d) (s\<lparr>ab_world := w\<rparr>))))"
    using w by (simp add: set_block_def)
  from quiet_logs [OF h this, of "''already_blocked''" ip d "''already_blocked_activity''" "''blocked''" now] assms
  show ?thesis by (auto simp: quiet_def blocked_to_def set_block_def)
qed

lemma newly_blocked_effect:
  assumes h: "documented_host a hst rules" and w: "rules_ok a rules w"
    and added: "blocked_ips a rules w = insert ip (blocked_ips a rules (ab_world s))"
  shows "blocked_to a rules ip now d s (snd (run_state (do { record_block hst status ip d;
    record_detection_activity hst ip ''block_action'' ''blocked'' now })
    (snd (run_state (count_block ip) (snd (run_state (set_block ip now d) (s\<lparr>ab_world := w\<rparr>)))))))"
proof -
  let ?s = "snd (run_state (count_block ip) (snd (run_state (set_block ip now d) (s\<lparr>ab_world := w\<rparr>))))"
  have "rules_ok a rules (ab_world ?s)" using w by (simp add: set_block_def count_block_def)
  from quiet_logs [OF h this, of status ip d "''block_action''" "''blocked''" now] assms
  show ?thesis by (auto simp: quiet_def blocked_to_def set_block_def count_block_def)
qed

lemma temp_block_effect:
  assumes h: "documented_host a hst rules" and ok: "rules_ok a rules (ab_world s)"
    and fw: "ab_firewall s = Some a" and valid: "is_valid_routable_ip ip"
    and s1: "s1 = snd (run_state (expire_blocks hst) s)"
    and run: "run_state (temp_block hst ip d) s = (r, s')"
  shows "(if cooling_down (clock_now hst s1) ip s1 then r = (False, ''cooldown_active'') \<and> quiet a rules s1 s'
     else if fst r then blocked_to a rules ip (clock_now hst s1) d s1 s' else quiet a rules s1 s')"
proof -
  let ?now = "clock_now hst s1"
  let ?s2 = "s1\<lparr>ab_world := snd (host_time hst (ab_world s1))\<rparr>"
  have ok1: "rules_ok a rules (ab_world s1)"
    using expire_blocks_effect [OF h ok fw] by (simp add: s1 expired_to_def)
  have w2: "rules_ok a rules (ab_world ?s2)"
    "blocked_ips a rules (ab_world ?s2) = blocked_ips a rules (ab_world s1)"
    using adapter_tick_effect [OF h ok1] by simp_all
  then have q2: "quiet a rules s1 ?s2" by (simp add: quiet_def)
  let ?found = "is_blocked a hst ip (ab_world ?s2)"
  let ?b = "block_ip a hst ip (snd ?found)"
  have w3: "rules_ok a rules (snd ?found)" "blocked_ips a rules (snd ?found) = blocked_ips a rules (ab_world s1)"
    "fst ?found \<longleftrightarrow> ip \<in> blocked_ips a rules (ab_world s1)"
    using adapter_check_effect [OF h w2(1), of ip] w2(2) by simp_all
  have w4: "rules_ok a rules (snd ?b)" "blocked_ips a rules (snd ?b) =
      (if fst (fst ?b) then insert ip (blocked_ips a rules (ab_world s1)) else blocked_ips a rules (ab_world s1))"
    using adapter_block_effect [OF h w3(1), of ip] w3(2) by simp_all
  consider (cooling) "cooling_down ?now ip s1" | (found) "\<not> cooling_down ?now ip s1" "fst ?found"
    | (fresh) "\<not> cooling_down ?now ip s1" "\<not> fst ?found" by blast
  then show ?thesis
  proof cases
    case cooling
    then have "run_state (temp_block hst ip d) s = ((False, ''cooldown_active''), ?s2)"
      by (simp add: temp_block_def fw valid case_prod_beta clock_now_def flip: s1)
    with run cooling q2 show ?thesis by simp
  next
    case found
    then have "run_state (temp_block hst ip d) s = ((True, ''already_blocked''),
        snd (run_state (do { record_block hst ''already_blocked'' ip d;
          record_detection_activity hst ip ''already_blocked_activity'' ''blocked'' ?now })
          (snd (run_state (set_block ip ?now d) (s1\<lparr>ab_world := snd ?found\<rparr>)))))"
      by (simp add: temp_block_def fw valid case_prod_beta clock_now_def flip: s1)
    with run found already_blocked_effect [OF h w3(1,2), of ip] w3 show ?thesis by auto
  next
    case fresh
    then have "run_state (temp_block hst ip d) s = (fst ?b, if fst (fst ?b) then
        snd (run_state (do { record_block hst (snd (fst ?b)) ip d;
          record_detection_activity hst ip ''block_action'' ''blocked'' ?now })
          (snd (run_state (count_block ip) (snd (run_state (set_block ip ?now d) (s1\<lparr>ab_world := snd ?b\<rparr>))))))
        else s1\<lparr>ab_world := snd ?b\<rparr>)"
      by (simp add: temp_block_def fw valid case_prod_beta clock_now_def flip: s1)
    moreover have "quiet a rules s1 (s1\<lparr>ab_world := snd ?b\<rparr>)" if "\<not> fst (fst ?b)"
      using that w4 by (simp add: quiet_def)
    ultimately show ?thesis using run fresh newly_blocked_effect [OF h w4(1), of ip s1] w4(2)
      by (auto split: if_splits)
  qed
qed

subsection \<open>Sequences of operations\<close>

datatype blocker_op =
  TempBlock string int | ManualUnblock string | ExpireBlocks | WatchlistIp string
| UnwatchlistIp string | IsCurrentlyBlocked string | DetectionActivity string string string real

fun run_op :: "'w host \<Rightarrow> blocker_op \<Rightarrow> ('w, 'z) blocker_scheme \<Rightarrow> ('w, 'z) blocker_scheme" where
  "run_op hst (TempBlock ip d) s = snd (run_state (temp_block hst ip d) s)"
| "run_op hst (ManualUnblock ip) s = snd (run_state (manual_unblock hst ip) s)"
| "run_op hst ExpireBlocks s = snd (run_state (expire_blocks hst) s)"
| "run_op hst (WatchlistIp ip) s = snd (run_state (watchlist_ip hst ip) s)"
| "run_op hst (UnwatchlistIp ip) s = snd (run_state (unwatchlist_ip hst ip) s)"
| "run_op hst (IsCurrentlyBlocked ip) s = snd (run_state (is_currently_blocked hst ip) s)"
| "run_op hst (DetectionActivity ip attack_type action t) s =
     snd (run_state (record_detection_activity hst ip attack_type action t) s)"

text \<open>
  \<open>enforced a rules other s\<close>: the addresses with a pending block are valid, the firewall blocks
  them, and beyond them it blocks only addresses of \<open>other\<close>.
\<close>

definition enforced ::
    "adapter \<Rightarrow> ('w \<Rightarrow> string list) \<Rightarrow> string set \<Rightarrow> ('w, 'z) blocker_scheme \<Rightarrow> bool" where
  "enforced a rules other s \<longleftrightarrow> ab_firewall s = Some a \<and> rules_ok a rules (ab_world s) \<and>
     fst ` set (ab_blocked_until s) \<subseteq> blocked_ips a rules (ab_world s) \<inter> {ip. is_valid_routable_ip ip} \<and>
     blocked_ips a rules (ab_world s) \<subseteq> fst ` set (ab_blocked_until s) \<union> other"

lemma enforced_quiet: "quiet a rules s s' \<Longrightarrow> enforced a rules X s \<Longrightarrow> enforced a rules X s'"
  by (auto simp: quiet_def enforced_def)

lemma keys_filter: "fst ` set (filter (\<lambda>p. fst p \<notin> out) d) = fst ` set d - out"
  by force

lemma enforced_expired: "expired_to a rules out s s' \<Longrightarrow> enforced a rules X s \<Longrightarrow> enforced a rules X s'"
  unfolding expired_to_def enforced_def
  by (elim conjE, simp only: keys_filter) blast

lemma enforced_blocked:
  "blocked_to a rules ip now d s s' \<Longrightarrow> is_valid_routable_ip ip \<Longrightarrow> enforced a rules X s \<Longrightarrow>
   enforced a rules X s'"
  by (auto simp: blocked_to_def enforced_def)

lemma enforced_expire_blocks:
  assumes "documented_host a hst rules" and "enforced a rules X s"
  shows "enforced a rules X (snd (run_state (expire_blocks hst) s))"
  using expire_blocks_effect [OF assms(1)] assms(2) enforced_expired by (metis enforced_def)

lemma enforced_temp_block:
  assumes h: "documented_host a hst rules" and e: "enforced a rules X s"
  shows "enforced a rules X (snd (run_state (temp_block hst ip d) s))"
proof (cases "is_valid_routable_ip ip")
  case False
  have "ab_firewall s = Some a" using e by (simp add: enforced_def)
  with False e show ?thesis by (simp add: temp_block_def)
next
  case True
  obtain r s' where r: "run_state (temp_block hst ip d) s = (r, s')" by fastforce
  have "rules_ok a rules (ab_world s)" "ab_firewall s = Some a" using e by (simp_all add: enforced_def)
  from temp_block_effect [OF h this True refl r] enforced_expire_blocks [OF h e] True show ?thesis
    by (auto simp: r split: if_splits intro: enforced_quiet enforced_blocked)
qed

lemma enforced_manual_unblock:
  assumes h: "documented_host a hst rules" and e: "enforced a rules X s"
  shows "enforced a rules X (snd (run_state (manual_unblock hst ip) s))"
proof (cases "is_valid_routable_ip ip")
  case False
  have "ab_firewall s = Some a" using e by (simp add: enforced_def)
  with False e show ?thesis by (simp add: manual_unblock_def)
next
  case True
  have fw: "ab_firewall s = Some a" and ok: "rules_ok a rules (ab_world s)"
    using e by (simp_all add: enforced_def)
  let ?u = "unblock_ip a hst ip (ab_world s)"
  let ?s1 = "s\<lparr>ab_world := snd ?u\<rparr>"
  let ?s2 = "snd (run_state (forget_block ip) ?s1)"
  note u = adapter_unblock_effect [OF h ok, of ip]
  have run: "snd (run_state (manual_unblock hst ip) s) = (if fst (fst ?u) then
      snd (run_state (do { record_block hst ''unblocked'' ip 0; now \<leftarrow> clock hst;
        record_detection_activity hst ip ''manual_unblock'' ''unblocked'' now }) ?s2) else ?s1)"
    using True by (simp add: manual_unblock_def fw case_prod_beta)
  show ?thesis
  proof (cases "fst (fst ?u)")
    case False
    then have "ip \<notin> blocked_ips a rules (ab_world s)" using adapter_unblock [OF h] by blast
    with e u have "enforced a rules X ?s1" by (auto simp: enforced_def)
    with False run show ?thesis by simp
  next
    case ok: True
    have e2: "enforced a rules X ?s2" using e u by (auto simp: enforced_def forget_block_def set_delete)
    then have q: "quiet a rules ?s2 ?s2" by (intro quiet_refl) (simp add: enforced_def)
    have k: "keeps (quiet a rules ?s2) (do { record_block hst ''unblocked'' ip 0; now \<leftarrow> clock hst;
        record_detection_activity hst ip ''manual_unblock'' ''unblocked'' now })"
      by (intro keeps_intros h)
    show ?thesis unfolding run using enforced_quiet [OF keepsD [OF k q] e2] ok by simp
  qed
qed

lemma keeps_quiet_check:
  assumes h: "documented_host a hst rules"
  shows "keeps (quiet a rules s0) (on_world (is_blocked a hst ip))"
  by (auto simp: keeps_def quiet_def adapter_check_effect [OF h])

lemma enforced_quiet_op:
  assumes "keeps (quiet a rules s) m" and "enforced a rules X s"
  shows "enforced a rules X (snd (run_state m s))"
proof -
  have "quiet a rules s s" using assms(2) by (intro quiet_refl) (simp add: enforced_def)
  from enforced_quiet [OF keepsD [OF assms(1) this] assms(2)] show ?thesis .
qed

lemma enforced_set_watchlist:
  "enforced a rules X (s\<lparr>ab_watchlisted_ips := w\<rparr>) = enforced a rules X s"
  by (simp add: enforced_def)

lemma enforced_watchlist:
  assumes h: "documented_host a hst rules" and e: "enforced a rules X s"
  shows "enforced a rules X (snd (run_state (watchlist_ip hst ip) s))"
    and "enforced a rules X (snd (run_state (unwatchlist_ip hst ip) s))"
proof -
  have k: "keeps (quiet a rules s0) (do { now \<leftarrow> clock hst;
      record_detection_activity hst ip ''watchlist_action'' act now })" for s0 :: "('a, 'b) blocker_scheme" and act
    by (intro keeps_intros h)
  have "enforced a rules X (snd (run_state (do { now \<leftarrow> clock hst;
      record_detection_activity hst ip ''watchlist_action'' act now }) (s\<lparr>ab_watchlisted_ips := w\<rparr>)))" for act w
    by (rule enforced_quiet_op [OF k]) (simp add: enforced_set_watchlist e)
  then show "enforced a rules X (snd (run_state (watchlist_ip hst ip) s))"
    "enforced a rules X (snd (run_state (unwatchlist_ip hst ip) s))"
    using e by (simp_all add: watchlist_ip_def unwatchlist_ip_def case_prod_beta)
qed

lemma enforced_currently_blocked:
  assumes h: "documented_host a hst rules" and e: "enforced a rules X s"
  shows "enforced a rules X (snd (run_state (is_currently_blocked hst ip) s))"
proof (rule enforced_quiet_op [OF _ e])
  have "keeps (quiet a rules s) (case fw of None \<Rightarrow> State_Monad.return False
      | Some b \<Rightarrow> on_world (is_blocked a hst ip))" for fw :: "adapter option"
    by (intro keeps_intros keeps_quiet_check h)
  moreover have "ab_firewall s = Some a" using e by (simp add: enforced_def)
  ultimately show "keeps (quiet a rules s) (is_currently_blocked hst ip)"
    unfolding keeps_def
    by (auto simp: is_currently_blocked_def quiet_def adapter_tick_effect [OF h] adapter_check_effect [OF h]
        split: option.splits)
qed

lemma enforced_run_op:
  assumes h: "documented_host a hst rules" and e: "enforced a rules X s"
  shows "enforced a rules X (run_op hst opn s)"
proof (cases opn)
  case (DetectionActivity ip ty act t)
  have "keeps (quiet a rules s) (record_detection_activity hst ip ty act t)" by (intro keeps_intros h)
  then show ?thesis using e by (simp add: DetectionActivity enforced_quiet_op)
qed (simp_all add: enforced_temp_block [OF h e] enforced_manual_unblock [OF h e]
    enforced_expire_blocks [OF h e] enforced_watchlist [OF h e] enforced_currently_blocked [OF h e])

lemma enforced_run_ops:
  "documented_host a hst rules \<Longrightarrow> enforced a rules X s \<Longrightarrow> enforced a rules X (fold (run_op hst) ops s)"
  by (induction ops arbitrary: s) (simp_all add: enforced_run_op)

subsection \<open>A block without an expiry\<close>

lemma expire_block_parts: "run_state (expire_block hst a now ip) s =
    run_state (forget_block ip) (snd (run_state (unblock_expired hst a now ip) s))"
  by (simp add: expire_block_def unblock_expired_def case_prod_beta)

lemma unblock_expired_effect:
  assumes h: "documented_host a hst rules" and ok: "rules_ok a rules (ab_world s)"
  shows "rules_ok a rules (ab_world (snd (run_state (unblock_expired hst a now ip) s))) \<and>
    ab_firewall (snd (run_state (unblock_expired hst a now ip) s)) = ab_firewall s"
proof -
  have "expired_to a rules {ip} s (snd (run_state (forget_block ip) (snd (run_state (unblock_expired hst a now ip) s))))"
    using expire_block_effect [OF h ok, of ip now] by (simp add: expire_block_parts)
  then show ?thesis by (simp add: expired_to_def forget_block_def)
qed

definition stranded ::
    "adapter \<Rightarrow> ('w \<Rightarrow> string list) \<Rightarrow> string \<Rightarrow> ('w, 'z) blocker_scheme \<Rightarrow> bool" where
  "stranded a rules ip s \<longleftrightarrow> ab_firewall s = Some a \<and> rules_ok a rules (ab_world s) \<and>
     ip \<in> blocked_ips a rules (ab_world s) \<and> ip \<notin> fst ` set (ab_blocked_until s)"

lemma stranded_quiet: "quiet a rules s s' \<Longrightarrow> stranded a rules ip s \<Longrightarrow> stranded a rules ip s'"
  by (auto simp: quiet_def stranded_def)

lemma stranded_expire_blocks:
  assumes h: "documented_host a hst rules" and e: "stranded a rules ip s"
  shows "stranded a rules ip (snd (run_state (expire_blocks hst) s))"
proof -
  have "expired_to a rules (expired_ips (clock_now hst s) s) s (snd (run_state (expire_blocks hst) s))"
    using e by (intro expire_blocks_effect [OF h]) (simp_all add: stranded_def)
  moreover have "ip \<notin> expired_ips (clock_now hst s) s" using e by (force simp: stranded_def expired_ips_def)
  ultimately show ?thesis using e unfolding stranded_def expired_to_def
    by (elim conjE, simp only: keys_filter) blast
qed

lemma stranded_blocked:
  "blocked_to a rules other now d s s' \<Longrightarrow> other \<noteq> ip \<Longrightarrow> stranded a rules ip s \<Longrightarrow> stranded a rules ip s'"
  by (auto simp: blocked_to_def stranded_def)

lemma stranded_temp_block:
  assumes h: "documented_host a hst rules" and e: "stranded a rules ip s" and "other \<noteq> ip"
  shows "stranded a rules ip (snd (run_state (temp_block hst other d) s))"
proof (cases "is_valid_routable_ip other")
  case False
  with e show ?thesis by (simp add: temp_block_def stranded_def)
next
  case True
  obtain r s' where r: "run_state (temp_block hst other d) s = (r, s')" by fastforce
  have "rules_ok a rules (ab_world s)" "ab_firewall s = Some a" using e by (simp_all add: stranded_def)
  from temp_block_effect [OF h this True refl r] stranded_expire_blocks [OF h e] assms(3) show ?thesis
    by (auto simp: r split: if_splits intro: stranded_quiet stranded_blocked)
qed

lemma keeps_stranded [keeps_intros]:
  assumes h: "documented_host a hst rules"
  shows "keeps (stranded a rules ip) (clock hst)" and "keeps (stranded a rules ip) (on_world (is_blocked a hst other))"
    and "keeps (stranded a rules ip) (record_detection_activity hst other ty act t)"
    and "keeps (stranded a rules ip) (record_block hst status other d)"
proof -
  show c: "keeps (stranded a rules ip) (clock hst)" "keeps (stranded a rules ip) (on_world (is_blocked a hst other))"
    by (auto simp: keeps_def stranded_def adapter_tick_effect [OF h] adapter_check_effect [OF h])
  show "keeps (stranded a rules ip) (record_detection_activity hst other ty act t)"
    "keeps (stranded a rules ip) (record_block hst status other d)"
    unfolding record_detection_activity_def record_block_def
    by (intro keeps_intros c; simp add: stranded_def)+
qed

lemma stranded_manual_unblock:
  assumes h: "documented_host a hst rules" and e: "stranded a rules ip s" and "other \<noteq> ip"
  shows "stranded a rules ip (snd (run_state (manual_unblock hst other) s))"
proof (cases "is_valid_routable_ip other")
  case False
  with e show ?thesis by (simp add: manual_unblock_def stranded_def)
next
  case True
  let ?u = "unblock_ip a hst other (ab_world s)"
  let ?rest = "\<lambda>ok. whenM ok (do { forget_block other; record_block hst ''unblocked'' other 0; now \<leftarrow> clock hst;
    record_detection_activity hst other ''manual_unblock'' ''unblocked'' now })"
  have k: "keeps (stranded a rules ip) (?rest ok)" for ok
    unfolding forget_block_def
    by (intro keeps_intros h) (use delete_filter in \<open>auto simp: stranded_def\<close>)
  have u: "stranded a rules ip (s\<lparr>ab_world := snd ?u\<rparr>)"
    using adapter_unblock_effect [OF h, of "ab_world s" other] e assms(3) by (auto simp: stranded_def)
  have "snd (run_state (manual_unblock hst other) s) =
      snd (run_state (?rest (fst (fst ?u))) (s\<lparr>ab_world := snd ?u\<rparr>))"
    using True e by (simp add: manual_unblock_def stranded_def case_prod_beta)
  then show ?thesis using keepsD [OF k u] by (simp only:)
qed

fun acts_on :: "string \<Rightarrow> blocker_op \<Rightarrow> bool" where
  "acts_on ip (TempBlock other d) = (other = ip)"
| "acts_on ip (ManualUnblock other) = (other = ip)"
| "acts_on ip _ = False"

lemma stranded_run_op:
  assumes h: "documented_host a hst rules" and e: "stranded a rules ip s" and "\<not> acts_on ip opn"
  shows "stranded a rules ip (run_op hst opn s)"
proof -
  have quiet: "stranded a rules ip (snd (run_state m s))" if "keeps (stranded a rules ip) m" for m :: "(('a, 'b) blocker_scheme, 'c) state"
    using that e by (simp add: keeps_def)
  have w: "keeps (stranded a rules ip) (watchlist_ip hst other)" "keeps (stranded a rules ip) (unwatchlist_ip hst other)" for other
    unfolding watchlist_ip_def unwatchlist_ip_def by (intro keeps_intros h; simp add: stranded_def)+
  have "stranded a rules ip (snd (run_state (is_currently_blocked hst other) s))" for other
    using e by (simp add: is_currently_blocked_def case_prod_beta stranded_def adapter_tick_effect [OF h] adapter_check_effect [OF h])
  then show ?thesis using assms(3)
    by (cases opn) (simp_all add: stranded_temp_block [OF h e] stranded_manual_unblock [OF h e]
      stranded_expire_blocks [OF h e] quiet [OF w(1)] quiet [OF w(2)] quiet [OF keeps_stranded(3) [OF h]])
qed

lemma stranded_run_ops:
  "documented_host a hst rules \<Longrightarrow> stranded a rules ip s \<Longrightarrow> \<forall>opn\<in>set ops. \<not> acts_on ip opn \<Longrightarrow>
   stranded a rules ip (fold (run_op hst) ops s)"
  by (induction ops arbitrary: s) (simp_all add: stranded_run_op)

subsection \<open>Properties\<close>

text \<open>
  What the blocker believes is what the firewall does. On a host whose firewall program behaves
  as documented, after any sequence of blocks, unblocks, expiries, watchlist changes and checks:
  every address with a pending block is blocked by the firewall and is a valid address other than
  a loopback address, and every address the firewall blocks, except those it blocked before the
  engine started, has a pending block, so that none stays blocked without an expiry.
\<close>
theorem blocks_enforced:
  assumes "documented_host a hst rules" and "create_firewall_adapter system = Some a"
    and "rules_ok a rules w" and s: "s = fold (run_op hst) ops (blocker_init system tracker records w)"
  shows "(\<forall>ip\<in>fst ` set (ab_blocked_until s).
      ip \<in> blocked_ips a rules (ab_world s) \<and> is_valid_routable_ip ip) \<and>
    (\<forall>ip\<in>blocked_ips a rules (ab_world s).
      ip \<in> blocked_ips a rules w \<or> map_of (ab_blocked_until s) ip \<noteq> None)"
proof -
  have "enforced a rules (blocked_ips a rules w) (blocker_init system tracker records w)"
    using assms(2,3) by (simp add: enforced_def blocker_init_def)
  from enforced_run_ops [OF assms(1) this, of ops] have "enforced a rules (blocked_ips a rules w) s"
    by (simp add: s)
  then show ?thesis unfolding enforced_def dget_None_iff by blast
qed

lemma sample_ip_valid: "is_valid_routable_ip ''10.0.0.5''"
  by (simp add: is_valid_routable_ip_def ip_address_def parse_ipv4_def ipv4_octet_def is_digit_def
      digits_val_def digit_val_def)

definition sample_tracker :: activity_tracker where
  "sample_tracker = tracker_init (\<lambda>_. None) None None None None []"

definition sample_blocker :: "sim_world blocker" where
  "sample_blocker = blocker_init ''Linux'' sample_tracker [] \<lparr>sw_rules = [], sw_clock = 1000\<rparr>"

lemma sample_adapter: "create_firewall_adapter ''Linux'' = Some LinuxFirewallAdapter"
  by (simp add: create_firewall_adapter_def lower_def lower_char_def char_of_eq_iff)

theorem blocks_enforced_witness:
  "\<exists>s. s = fold (run_op sim_iptables) [TempBlock ''10.0.0.5'' 300, ManualUnblock ''10.0.0.7''] sample_blocker \<and>
     \<not> (\<exists>ip\<in>fst ` set (ab_blocked_until s). \<not> is_valid_routable_ip ip)"
proof -
  have h: "documented_host LinuxFirewallAdapter sim_iptables sw_rules" by (simp add: sim_iptables_ok)
  have "rules_ok LinuxFirewallAdapter sw_rules \<lparr>sw_rules = [], sw_clock = 1000\<rparr>" by simp
  from blocks_enforced [OF h sample_adapter this refl] show ?thesis
    unfolding sample_blocker_def by blast
qed

text \<open>
  Loopback addresses and strings that are not addresses are never acted on: a block or an
  unblock of one answers \<open>invalid_or_loopback_ip\<close> and has no effect at all, neither on the
  firewall nor on the blocker's records; without a supported firewall nothing is acted on.
\<close>
theorem invalid_never_blocked:
  assumes "ab_firewall s = None \<or> \<not> is_valid_routable_ip ip"
    and "status = (if ab_firewall s = None then ''unsupported_platform'' else ''invalid_or_loopback_ip'')"
  shows "run_state (temp_block hst ip d) s = ((False, status), s) \<and>
    run_state (manual_unblock hst ip) s = ((False, status), s)"
  using assms by (cases "ab_firewall s") (auto simp: temp_block_def manual_unblock_def)

theorem invalid_never_blocked_witness:
  "run_state (temp_block sim_iptables ''127.0.0.1'' 300) sample_blocker =
     ((False, ''invalid_or_loopback_ip''), sample_blocker)"
proof -
  have "\<not> is_valid_routable_ip ''127.0.0.1''"
    by (simp add: is_valid_routable_ip_def ip_address_def parse_ipv4_def ipv4_octet_def is_digit_def
        digits_val_def digit_val_def)
  moreover have "ab_firewall sample_blocker = Some LinuxFirewallAdapter"
    by (simp add: sample_blocker_def blocker_init_def sample_adapter)
  ultimately show ?thesis
    using invalid_never_blocked [of sample_blocker "''127.0.0.1''" "''invalid_or_loopback_ip''" sim_iptables 300]
    by simp
qed

text \<open>
  Expiry is exact. On a documented host, \<open>expire_blocks\<close> at the time \<open>now\<close> it reads unblocks
  exactly the addresses whose block has run out at \<open>now\<close>: they leave the firewall and both tables,
  and every other block and its expiry stay as they were.
\<close>
theorem expire_blocks_exact:
  assumes "documented_host a hst rules" and "rules_ok a rules (ab_world s)" and "ab_firewall s = Some a"
    and "wf_dict (ab_blocked_until s)" and s': "s' = snd (run_state (expire_blocks hst) s)"
  shows "blocked_ips a rules (ab_world s') =
      {ip \<in> blocked_ips a rules (ab_world s).
        \<not> (\<exists>until. map_of (ab_blocked_until s) ip = Some until \<and> until \<le> clock_now hst s)} \<and>
    map_of (ab_blocked_until s') ip = (case map_of (ab_blocked_until s) ip of None \<Rightarrow> None
      | Some until \<Rightarrow> if until \<le> clock_now hst s then None else Some until)"
proof -
  let ?out = "expired_ips (clock_now hst s) s"
  have out: "ip \<in> ?out \<longleftrightarrow> (\<exists>until. map_of (ab_blocked_until s) ip = Some until \<and> until \<le> clock_now hst s)" for ip
    using assms(4) by (force simp: expired_ips_def)
  have e: "expired_to a rules ?out s s'"
    using expire_blocks_effect [OF assms(1,2,3)] by (simp add: s')
  have f: "map_of (filter (\<lambda>p. fst p \<notin> X) d) k = (if k \<in> X then None else map_of d k)"
    for X d and k :: string
    by (induction d) auto
  from e have b: "blocked_ips a rules (ab_world s') = blocked_ips a rules (ab_world s) - ?out"
    and u: "map_of (ab_blocked_until s') ip = (if ip \<in> ?out then None else map_of (ab_blocked_until s) ip)"
    unfolding expired_to_def by (simp_all only: f)
  show ?thesis unfolding b u by (auto simp: out split: option.splits)
qed

lemma sample_host: "documented_host LinuxFirewallAdapter sim_iptables sw_rules"
  by (simp add: sim_iptables_ok)

definition expired_blocker :: "sim_world blocker" where
  "expired_blocker = sample_blocker\<lparr>
     ab_blocked_until := [(''10.0.0.5'', 900), (''10.0.0.6'', 1100)],
     ab_world := \<lparr>sw_rules = [''10.0.0.5'', ''10.0.0.6''], sw_clock = 1000\<rparr>\<rparr>"

theorem expire_blocks_exact_witness:
  "blocked_ips LinuxFirewallAdapter sw_rules
     (ab_world (snd (run_state (expire_blocks sim_iptables) expired_blocker))) = {''10.0.0.6''}"
proof -
  have "rules_ok LinuxFirewallAdapter sw_rules (ab_world expired_blocker)"
    "ab_firewall expired_blocker = Some LinuxFirewallAdapter" "wf_dict (ab_blocked_until expired_blocker)"
    by (simp_all add: expired_blocker_def sample_blocker_def blocker_init_def sample_adapter)
  from expire_blocks_exact [OF sample_host this refl] show ?thesis
    by (auto simp: expired_blocker_def clock_now_def sim_iptables_def)
qed

text \<open>
  C27: What a temporary block of a valid address does, after the blocks that have run out are expired.
  Within 60 s of the last block recorded for the address nothing changes and the answer is
  \<open>cooldown_active\<close>. Otherwise a success blocks the address in the firewall until \<open>duration\<close>
  seconds from the time read (at least 1 s), replacing any expiry pending for it, and starts its
  cooldown; a failure changes nothing.
\<close>
theorem temp_block_outcome:
  assumes h: "documented_host a hst rules" and ok: "rules_ok a rules (ab_world s)"
    and fw: "ab_firewall s = Some a" and valid: "is_valid_routable_ip ip"
    and s1: "s1 = snd (run_state (expire_blocks hst) s)" and now: "now = clock_now hst s1"
    and run: "run_state (temp_block hst ip d) s = ((success, status), s')"
  shows "(if \<exists>t. map_of (ab_last_block_time s1) ip = Some t \<and> now - t < 60
      then \<not> success \<and> status = ''cooldown_active'' else True) \<and>
    (if success then
       blocked_ips a rules (ab_world s') = insert ip (blocked_ips a rules (ab_world s1)) \<and>
       ab_blocked_until s' = AList.update ip (now + of_int (max 1 d)) (ab_blocked_until s1) \<and>
       ab_last_block_time s' = AList.update ip now (ab_last_block_time s1)
     else blocked_ips a rules (ab_world s') = blocked_ips a rules (ab_world s1) \<and>
       ab_blocked_until s' = ab_blocked_until s1 \<and> ab_last_block_time s' = ab_last_block_time s1)"
proof -
  have c: "cooling_down now ip s1 \<longleftrightarrow> (\<exists>t. map_of (ab_last_block_time s1) ip = Some t \<and> now - t < 60)"
    by (auto simp: cooling_down_def block_cooldown_seconds_def split: option.splits)
  note e = temp_block_effect [OF h ok fw valid s1 run, folded now]
  show ?thesis
  proof (cases "cooling_down now ip s1")
    case True
    with e show ?thesis unfolding c [symmetric] by (simp add: quiet_def)
  next
    case False
    with e show ?thesis unfolding c [symmetric]
      by (cases success) (simp_all add: quiet_def blocked_to_def)
  qed
qed

theorem temp_block_outcome_witness:
  "ab_blocked_until (snd (run_state (temp_block sim_iptables ''10.0.0.5'' 300) sample_blocker)) =
     [(''10.0.0.5'', 1300)]"
proof -
  obtain success status s' where run:
    "run_state (temp_block sim_iptables ''10.0.0.5'' 300) sample_blocker = ((success, status), s')"
    by (metis prod.collapse)
  have pre: "rules_ok LinuxFirewallAdapter sw_rules (ab_world sample_blocker)"
    "ab_firewall sample_blocker = Some LinuxFirewallAdapter"
    by (simp_all add: sample_blocker_def blocker_init_def sample_adapter)
  have s1: "snd (run_state (expire_blocks sim_iptables) sample_blocker) = sample_blocker"
    by (simp add: expire_blocks_def pre) (simp add: sample_blocker_def blocker_init_def sim_iptables_def)
  have "fst (fst (run_state (temp_block sim_iptables ''10.0.0.5'' 300) sample_blocker))"
    by (simp add: temp_block_def pre sample_ip_valid s1 case_prod_beta)
      (simp add: sample_blocker_def blocker_init_def sim_iptables_def linux_is_blocked_def fw_run_eq
        linux_block_ip_def iptables_cmd_def returncode_ok_def cooling_down_def)
  with run have "success" by simp
  moreover have "clock_now sim_iptables sample_blocker = 1000" "ab_blocked_until sample_blocker = []"
    by (simp_all add: sample_blocker_def blocker_init_def clock_now_def sim_iptables_def)
  ultimately show ?thesis
    using temp_block_outcome [OF sample_host pre sample_ip_valid s1 [symmetric] refl run] run by simp
qed

text \<open>
  A block whose removal fails is forgotten: if the firewall command fails when the block of an
  address runs out (a transient failure, say), the address leaves the table of pending blocks
  all the same, while the world, and with it the firewall rule, is only changed by that failed
  command and by reading the clock: no later expiry will try again.
\<close>
theorem expire_forgets_failed_unblock:
  assumes "unblock_ip a hst ip (ab_world s) = ((False, status), w)"
    and rules: "\<And>w'. rules (snd (host_time hst w')) = rules w'" and "rules w = rules (ab_world s)"
    and s': "s' = snd (run_state (expire_block hst a now ip) s)"
  shows "map_of (ab_blocked_until s') ip = None \<and> rules (ab_world s') = rules (ab_world s)"
  using assms(1,3)
  by (simp add: s' expire_block_def forget_block_def record_block_def record_detection_activity_def
      case_prod_beta rules)

text \<open>An \<open>iptables\<close> that cannot take its lock: every command fails and changes nothing.\<close>

definition locked_iptables :: "sim_world host" where
  "locked_iptables = \<lparr>host_time = (\<lambda>w. (sw_clock w, w)), host_perf = (\<lambda>w. (sw_clock w, w)),
     host_run = (\<lambda>cmd w. (Completed 4 None, w))\<rparr>"

theorem expire_forgets_failed_unblock_witness:
  "\<exists>s'. s' = snd (run_state (expire_block locked_iptables LinuxFirewallAdapter 1000 ''10.0.0.5'') expired_blocker) \<and>
     map_of (ab_blocked_until s') ''10.0.0.5'' = None \<and>
     sw_rules (ab_world s') = [''10.0.0.5'', ''10.0.0.6'']"
proof -
  have "unblock_ip LinuxFirewallAdapter locked_iptables ''10.0.0.5'' (ab_world expired_blocker) =
      ((False, ''unblock_failed''), ab_world expired_blocker)"
    by (simp add: linux_unblock_ip_def fw_run_eq locked_iptables_def returncode_ok_def)
  from expire_forgets_failed_unblock [OF this _ refl refl, where rules = sw_rules and now = 1000] show ?thesis
    by (simp add: locked_iptables_def expired_blocker_def)
qed

text \<open>
  C3: No lock holds a call of the blocker together, and a block can be lost between two of them. When
  the packet thread, expiring the block of an address, has unblocked it and the thread of the
  commands then blocks the address again, before the first takes the address out of the tables,
  the new entry goes with the old one: on a documented host the address stays blocked in the firewall
  with no expiry, whatever calls of the blocker follow, expiries among them, until one blocks or unblocks
  this address again. Without the call in between, the two parts are what \<open>expire_blocks\<close> does for the address.
\<close>
theorem lost_block_race:
  assumes h: "documented_host a hst rules" and ok: "rules_ok a rules (ab_world s)"
    and fw: "ab_firewall s = Some a"
    and s1: "s1 = snd (run_state (unblock_expired hst a t ip) s)"
    and block: "run_state (temp_block hst ip d) s1 = ((True, status), s2)"
    and s3: "s3 = snd (run_state (forget_block ip) s2)"
    and ops: "\<forall>opn\<in>set ops. \<not> acts_on ip opn"
  shows "map_of (ab_blocked_until s2) ip \<noteq> None \<and>
    ip \<in> blocked_ips a rules (ab_world (fold (run_op hst) ops s3)) \<and>
    map_of (ab_blocked_until (fold (run_op hst) ops s3)) ip = None \<and>
    snd (run_state (expire_block hst a t ip) s) = snd (run_state (forget_block ip) s1)"
proof -
  have s1': "rules_ok a rules (ab_world s1)" "ab_firewall s1 = Some a"
    using unblock_expired_effect [OF h ok, of t ip] fw by (simp_all add: s1)
  have valid: "is_valid_routable_ip ip" using block s1'(2) by (auto simp: temp_block_def split: if_splits)
  let ?e = "snd (run_state (expire_blocks hst) s1)"
  from temp_block_effect [OF h s1' valid refl block] have b: "blocked_to a rules ip (clock_now hst ?e) d ?e s2"
    by (simp split: if_splits)
  have "ab_firewall ?e = Some a" using expire_blocks_effect [OF h s1'] s1'(2) by (simp add: expired_to_def)
  with b have "stranded a rules ip s3"
    by (auto simp: s3 stranded_def blocked_to_def forget_block_def delete_filter)
  from stranded_run_ops [OF h this ops] have e: "stranded a rules ip (fold (run_op hst) ops s3)" .
  then have "map_of (ab_blocked_until (fold (run_op hst) ops s3)) ip = None"
    by (simp add: stranded_def map_of_eq_None_iff)
  moreover have "map_of (ab_blocked_until s2) ip \<noteq> None" using b by (simp add: blocked_to_def update_conv')
  ultimately show ?thesis using e by (simp add: stranded_def s1 expire_block_parts)
qed

theorem lost_block_race_witness:
  "\<exists>s2. snd (run_state (temp_block sim_iptables ''10.0.0.5'' 300)
       (snd (run_state (unblock_expired sim_iptables LinuxFirewallAdapter 1000 ''10.0.0.5'') expired_blocker))) = s2 \<and>
     ''10.0.0.5'' \<in> blocked_ips LinuxFirewallAdapter sw_rules (ab_world
       (fold (run_op sim_iptables) [ExpireBlocks, UnwatchlistIp ''10.0.0.5''] (snd (run_state (forget_block ''10.0.0.5'') s2))))"
proof -
  let ?ip = "''10.0.0.5''"
  let ?s1 = "snd (run_state (unblock_expired sim_iptables LinuxFirewallAdapter 1000 ?ip) expired_blocker)"
  let ?e = "snd (run_state (expire_blocks sim_iptables) ?s1)"
  have pre: "rules_ok LinuxFirewallAdapter sw_rules (ab_world expired_blocker)"
    "ab_firewall expired_blocker = Some LinuxFirewallAdapter"
    by (simp_all add: expired_blocker_def sample_blocker_def blocker_init_def sample_adapter)
  have log: "ab_last_block_time ?s1 = []"
    by (simp add: unblock_expired_def case_prod_beta record_block_def record_detection_activity_def
        expired_blocker_def sample_blocker_def blocker_init_def)
  have s1: "rules_ok LinuxFirewallAdapter sw_rules (ab_world ?s1)" "ab_firewall ?s1 = Some LinuxFirewallAdapter"
    using unblock_expired_effect [OF sample_host pre(1), of 1000 ?ip] pre(2) by simp_all
  have "ab_last_block_time ?e = []" using expire_blocks_effect [OF sample_host s1] log by (simp add: expired_to_def)
  then have "fst (fst (run_state (temp_block sim_iptables ?ip 300) ?s1))"
    by (simp add: temp_block_def s1(2) sample_ip_valid case_prod_beta)
      (simp add: sim_iptables_def linux_is_blocked_def fw_run_eq linux_block_ip_def iptables_cmd_def
        returncode_ok_def cooling_down_def)
  then obtain status s2 where run: "run_state (temp_block sim_iptables ?ip 300) ?s1 = ((True, status), s2)"
    by (cases "run_state (temp_block sim_iptables ?ip 300) ?s1") auto
  have ops: "\<forall>opn\<in>set [ExpireBlocks, UnwatchlistIp ?ip]. \<not> acts_on ?ip opn" by simp
  from lost_block_race [OF sample_host pre refl run refl ops] run show ?thesis by simp
qed

end
