(* ===== verification/Policy.thy ===== *)
theory Policy
  imports PyRuntime
begin

text \<open>
  The response policy (\<open>response_engine/policy.py\<close>): which response a heuristic score calls for,
  and the sliding window of connection attempts per (source, destination, service port) that
  recognises brute forcing.
\<close>

subsection \<open>State and operations\<close>

type_synonym attempt_key = "string \<times> string \<times> int"

record response_policy =
  rp_bruteforce_window_seconds :: real
  rp_bruteforce_attempt_threshold :: int
  rp_attempts :: "(attempt_key, real list) pydict"

definition low_heuristic_score_max :: int where "low_heuristic_score_max = 2"
definition high_heuristic_score_min :: int where "high_heuristic_score_min = 3"
definition high_heuristic_block_seconds :: int where "high_heuristic_block_seconds = 300"
definition ml_confirmed_block_seconds :: int where "ml_confirmed_block_seconds = 900"
definition bruteforce_block_seconds :: int where "bruteforce_block_seconds = 600"
definition bruteforce_service_ports :: "int set" where
  "bruteforce_service_ports = {21, 22, 23, 25, 110, 143, 3389}"

text \<open>
  The constructor raises \<open>ValueError\<close> on settings that do not parse. \<open>parse\<close> reads a float; only
  finite windows are modelled.
\<close>

definition policy_init :: "(string \<Rightarrow> real option) \<Rightarrow> environ \<Rightarrow> py_error + response_policy" where
  "policy_init parse env =
     (case parse (case env ''SMARTIDS_BRUTEFORCE_WINDOW_SECONDS'' of None \<Rightarrow> ''90'' | Some s \<Rightarrow> s) of
        None \<Rightarrow> Inl ValueError
      | Some window_seconds \<Rightarrow>
          (case py_int_of_str
             (case env ''SMARTIDS_BRUTEFORCE_ATTEMPT_THRESHOLD'' of None \<Rightarrow> ''25'' | Some s \<Rightarrow> s) of
             None \<Rightarrow> Inl ValueError
           | Some threshold \<Rightarrow> Inr \<lparr>rp_bruteforce_window_seconds = window_seconds,
               rp_bruteforce_attempt_threshold = threshold, rp_attempts = []\<rparr>))"

definition classify_heuristic_action :: "int \<Rightarrow> string" where
  "classify_heuristic_action score =
     (if high_heuristic_score_min \<le> score then ''high_temp_block''
      else if score \<le> low_heuristic_score_max then ''alert_only''
      else ''alert_only'')"

definition record_bruteforce_attempt ::
    "string \<Rightarrow> string \<Rightarrow> int option \<Rightarrow> real \<Rightarrow> response_policy \<Rightarrow> bool \<times> response_policy" where
  "record_bruteforce_attempt src dst dst_port t rp =
     (case dst_port of
        None \<Rightarrow> (False, rp)
      | Some port \<Rightarrow>
          if port \<notin> bruteforce_service_ports then (False, rp)
          else
            let key = (src, dst, port);
                attempts = append_window (stale_time (rp_bruteforce_window_seconds rp)) t key t (rp_attempts rp)
            in (rp_bruteforce_attempt_threshold rp \<le> int (length (window attempts key)),
                rp\<lparr>rp_attempts := attempts\<rparr>))"

subsection \<open>The attempts that count\<close>

text \<open>A call: source, destination, port and time. \<open>attempts_of h k\<close> are the times it recorded at \<open>k\<close>.\<close>

type_synonym attempt = "string \<times> string \<times> int option \<times> real"

fun counted_key :: "attempt \<Rightarrow> attempt_key option" where
  "counted_key (src, dst, Some port, t) =
     (if port \<in> bruteforce_service_ports then Some (src, dst, port) else None)"
| "counted_key (src, dst, None, t) = None"

fun attempt_time :: "attempt \<Rightarrow> real" where
  "attempt_time (src, dst, port, t) = t"

definition attempts_of :: "attempt list \<Rightarrow> attempt_key \<Rightarrow> real list" where
  "attempts_of h k = map attempt_time (filter (\<lambda>a. counted_key a = Some k) h)"

definition record_attempt :: "attempt \<Rightarrow> response_policy \<Rightarrow> bool \<times> response_policy" where
  "record_attempt a rp =
     (case a of (src, dst, port, t) \<Rightarrow> record_bruteforce_attempt src dst port t rp)"

lemma attempts_of_snoc:
  "attempts_of (h @ [a]) = (case counted_key a of None \<Rightarrow> attempts_of h
     | Some k \<Rightarrow> (attempts_of h)(k := attempts_of h k @ [attempt_time a]))"
  by (auto simp: attempts_of_def fun_eq_iff split: option.splits)

lemma sorted_attempts: "sorted (map attempt_time h) \<Longrightarrow> sorted (attempts_of h k)"
  unfolding attempts_of_def by (rule sorted_filter)

lemma record_attempt_eq:
  "record_attempt a rp = (case counted_key a of None \<Rightarrow> (False, rp)
     | Some k \<Rightarrow> let attempts = append_window (stale_time (rp_bruteforce_window_seconds rp))
           (attempt_time a) k (attempt_time a) (rp_attempts rp)
         in (rp_bruteforce_attempt_threshold rp \<le> int (length (window attempts k)),
             rp\<lparr>rp_attempts := attempts\<rparr>))"
  by (cases a rule: counted_key.cases)
    (simp_all add: record_attempt_def record_bruteforce_attempt_def Let_def)

lemma record_attempt_const [simp]:
  "rp_bruteforce_window_seconds (snd (record_attempt a rp)) = rp_bruteforce_window_seconds rp"
  "rp_bruteforce_attempt_threshold (snd (record_attempt a rp)) = rp_bruteforce_attempt_threshold rp"
  by (simp_all add: record_attempt_eq Let_def split: option.splits)

definition record_all :: "attempt list \<Rightarrow> response_policy \<Rightarrow> response_policy" where
  "record_all h rp = fold (\<lambda>a. snd \<circ> record_attempt a) h rp"

lemma record_all_snoc: "record_all (h @ [a]) rp = snd (record_attempt a (record_all h rp))"
  by (simp add: record_all_def)

lemma record_all_const [simp]:
  "rp_bruteforce_window_seconds (record_all h rp) = rp_bruteforce_window_seconds rp"
  "rp_bruteforce_attempt_threshold (record_all h rp) = rp_bruteforce_attempt_threshold rp"
  by (induction h rule: rev_induct) (simp_all add: record_all_snoc, simp_all add: record_all_def)

text \<open>With in-order calls, the buckets hold what is fresh of the attempts made.\<close>

lemma record_all_windows:
  assumes pos: "0 \<le> rp_bruteforce_window_seconds rp" and init: "rp_attempts rp = []"
    and "sorted (map attempt_time h)" and "\<forall>a\<in>set h. attempt_time a \<le> t"
  shows "\<exists>lo\<le>t. time_window.windows_ok (stale_time (rp_bruteforce_window_seconds rp)) (attempts_of h)
     lo t (rp_attempts (record_all h rp))"
  using assms(3,4)
proof (induction h arbitrary: t rule: rev_induct)
  case Nil
  show ?case
    using init by (intro exI [of _ t])
      (auto simp: record_all_def attempts_of_def time_window.windows_ok_def [OF time_window_stale_time [OF pos]])
next
  case (snoc a h)
  note tw = time_window_stale_time [OF pos]
  let ?w = "stale_time (rp_bruteforce_window_seconds rp)" and ?t = "attempt_time a"
  have "sorted (map attempt_time h)" "\<forall>b\<in>set h. attempt_time b \<le> ?t" and le: "?t \<le> t"
    using snoc.prems by (auto simp: sorted_append)
  with snoc.IH [of ?t] obtain lo where lo: "lo \<le> ?t"
    and ok: "time_window.windows_ok ?w (attempts_of h) lo ?t (rp_attempts (record_all h rp))"
    by blast
  have "time_window.windows_ok ?w (attempts_of (h @ [a])) lo ?t (rp_attempts (record_all (h @ [a]) rp))"
  proof (cases "counted_key a")
    case None
    then show ?thesis using ok by (simp add: attempts_of_snoc record_all_snoc record_attempt_eq)
  next
    case (Some k)
    have "sorted (attempts_of h k @ [?t])"
      using sorted_attempts [OF snoc.prems(1), of k] Some by (simp add: attempts_of_snoc)
    then show ?thesis
      using time_window.windows_ok_append [OF tw ok, of ?t k] lo Some
      by (simp add: attempts_of_snoc record_all_snoc record_attempt_eq Let_def)
  qed
  from time_window.windows_ok_later [OF tw this le] lo le show ?case by (intro exI [of _ lo]) simp
qed

subsection \<open>Properties\<close>

text \<open>
  C28: Brute forcing is recognised exactly. After any sequence of calls in order of time, a call
  answers yes if and only if its port is one of the brute-forced services and at least the
  threshold of attempts at the same source, destination and port, this one included, fall
  within the configured window that ends with it.
\<close>
theorem bruteforce_exact:
  assumes "0 \<le> rp_bruteforce_window_seconds rp" and "rp_attempts rp = []"
    and sorted: "sorted (map attempt_time (h @ [(src, dst, port, t)]))"
  shows "fst (record_bruteforce_attempt src dst port t (record_all h rp)) \<longleftrightarrow>
    (\<exists>n. port = Some n \<and> n \<in> bruteforce_service_ports \<and> rp_bruteforce_attempt_threshold rp \<le>
       int (length [x \<leftarrow> attempts_of (h @ [(src, dst, port, t)]) (src, dst, n).
         t - rp_bruteforce_window_seconds rp \<le> x]))"
proof (cases "counted_key (src, dst, port, t)")
  case None
  then have "port = None \<or> (\<exists>n. port = Some n \<and> n \<notin> bruteforce_service_ports)"
    by (cases port) (auto split: if_splits)
  then show ?thesis by (auto simp: record_bruteforce_attempt_def)
next
  case (Some k)
  note tw = time_window_stale_time [OF assms(1)]
  let ?a = "(src, dst, port, t)" and ?w = "stale_time (rp_bruteforce_window_seconds rp)"
  from Some obtain n where n: "port = Some n" "n \<in> bruteforce_service_ports" "k = (src, dst, n)"
    by (cases port) (auto split: if_splits)
  have "sorted (map attempt_time h)" "\<forall>b\<in>set h. attempt_time b \<le> t"
    using sorted by (auto simp: sorted_append)
  from record_all_windows [OF assms(1,2) this] obtain lo where
    ok: "time_window.windows_ok ?w (attempts_of h) lo t (rp_attempts (record_all h rp))" by blast
  have snoc: "attempts_of (h @ [?a]) k = attempts_of h k @ [t]" using Some by (simp add: attempts_of_snoc)
  then have "window (append_window ?w t k t (rp_attempts (record_all h rp))) k =
      filter (\<lambda>x. \<not> ?w t x) (attempts_of (h @ [?a]) k)"
    using time_window.append_window_fresh [OF tw ok, of t k] sorted_attempts [OF sorted, of k] by simp
  then show ?thesis
    using n by (simp add: record_bruteforce_attempt_def Let_def stale_time_def not_less)
qed

theorem bruteforce_exact_witness:
  "fst (record_bruteforce_attempt ''a'' ''b'' (Some 22) 9
     (record_all [(''a'', ''b'', Some 22, 1), (''a'', ''b'', Some 80, 2), (''a'', ''b'', Some 22, 8)]
       \<lparr>rp_bruteforce_window_seconds = 5, rp_bruteforce_attempt_threshold = 2, rp_attempts = []\<rparr>))"
  by (subst bruteforce_exact)
    (simp_all add: attempts_of_def bruteforce_service_ports_def)

end
