(* ===== verification/SessionBuilder.thy ===== *)
theory SessionBuilder
  imports Traffic "HOL-Library.Multiset"
begin

text \<open>
  \<open>SessionBuilder\<close> (\<open>traffic_engine/session_builder/session_builder.py\<close>): the table of live
  sessions, the per-session prediction state and the queue of sessions closed by expiry.
  Each method is one function on the builder's state; the locks of the code make each
  method's critical sections atomic, and one thread runs the methods.
\<close>

subsection \<open>State and operations\<close>

definition IDLE_TIMEOUT_SECONDS :: real where "IDLE_TIMEOUT_SECONDS = 30"
definition MAX_SESSION_DURATION_SECONDS :: real where "MAX_SESSION_DURATION_SECONDS = 120"
definition MIN_PREDICTION_AGE_SECONDS :: real where "MIN_PREDICTION_AGE_SECONDS = 1"
definition MIN_PREDICTION_PACKET_COUNT :: nat where "MIN_PREDICTION_PACKET_COUNT = 5"
definition PREDICT_EVERY_N_PACKETS :: int where "PREDICT_EVERY_N_PACKETS = 5"
definition PREDICT_EVERY_M_SECONDS :: real where "PREDICT_EVERY_M_SECONDS = 1"

lemmas builder_consts = IDLE_TIMEOUT_SECONDS_def MAX_SESSION_DURATION_SECONDS_def
  MIN_PREDICTION_AGE_SECONDS_def MIN_PREDICTION_PACKET_COUNT_def
  PREDICT_EVERY_N_PACKETS_def PREDICT_EVERY_M_SECONDS_def

record prediction_state =
  last_prediction_packet_count :: nat
  last_prediction_time :: real

record finalization =
  f_session :: traffic_session
  f_key :: session_key
  f_reason :: string

record session_builder =
  sb_sessions :: "(session_key, traffic_session) pydict"
  sb_prediction_state :: "(session_key, prediction_state) pydict"
  sb_pending_finalizations :: "finalization list"

definition builder_init :: session_builder where
  "builder_init = \<lparr>sb_sessions = [], sb_prediction_state = [], sb_pending_finalizations = []\<rparr>"

text \<open>Both tables drop the key: the two \<open>pop\<close> calls.\<close>

definition drop_session :: "session_key \<Rightarrow> session_builder \<Rightarrow> session_builder" where
  "drop_session k b = b\<lparr>sb_sessions := AList.delete k (sb_sessions b),
     sb_prediction_state := AList.delete k (sb_prediction_state b)\<rparr>"

definition stale_reason :: "real \<Rightarrow> traffic_session \<Rightarrow> string option" where
  "stale_reason now s =
     (if IDLE_TIMEOUT_SECONDS \<le> now - s_last_seen s then Some ''idle_timeout''
      else if MAX_SESSION_DURATION_SECONDS \<le> now - s_start_time s then Some ''max_duration''
      else None)"

definition stale_items :: "real \<Rightarrow> session_builder \<Rightarrow> (session_key \<times> string) list" where
  "stale_items now b =
     List.map_filter (\<lambda>(k, s). map_option (Pair k) (stale_reason now s)) (sb_sessions b)"

definition expire_item :: "session_key \<times> string \<Rightarrow> session_builder \<Rightarrow> session_builder" where
  "expire_item kr b =
     (case map_of (sb_sessions b) (fst kr) of
        None \<Rightarrow> drop_session (fst kr) b
      | Some s \<Rightarrow> (drop_session (fst kr) b)
          \<lparr>sb_pending_finalizations := sb_pending_finalizations b @
             [\<lparr>f_session = s, f_key = fst kr, f_reason = snd kr\<rparr>]\<rparr>)"

definition expire_stale_sessions :: "real \<Rightarrow> session_builder \<Rightarrow> session_builder" where
  "expire_stale_sessions now b = fold expire_item (stale_items now b) b"

definition mark_session_for_final_prediction :: "session_key \<Rightarrow> session_builder \<Rightarrow> session_builder" where
  "mark_session_for_final_prediction k b =
     (case map_of (sb_prediction_state b) k of
        None \<Rightarrow> b
      | Some st \<Rightarrow> b\<lparr>sb_prediction_state :=
          AList.update k (st\<lparr>last_prediction_packet_count := 0\<rparr>) (sb_prediction_state b)\<rparr>)"

definition ensure_session :: "packet \<Rightarrow> session_builder \<Rightarrow> session_builder" where
  "ensure_session p b =
     (if map_of (sb_sessions b) (key_of p) = None then
        b\<lparr>sb_sessions := AList.update (key_of p) (new_session p) (sb_sessions b),
          sb_prediction_state := AList.update (key_of p)
            \<lparr>last_prediction_packet_count = 0, last_prediction_time = p_timestamp p\<rparr>
            (sb_prediction_state b)\<rparr>
      else b)"

definition process_packet :: "packet \<Rightarrow> session_builder \<Rightarrow> traffic_session \<times> session_builder" where
  "process_packet p b =
     (let b1 = expire_stale_sessions (p_timestamp p) b;
          k = key_of p;
          b2 = ensure_session p b1;
          s = session_update p (the (map_of (sb_sessions b2) k));
          b3 = b2\<lparr>sb_sessions := AList.update k s (sb_sessions b2)\<rparr>;
          b4 = (if s_finished s then mark_session_for_final_prediction k b3 else b3)
      in (s, b4))"

definition snapshot_sessions :: "session_builder \<Rightarrow> traffic_session list" where
  "snapshot_sessions b = map snd (sb_sessions b)"

definition prediction_due :: "traffic_session \<Rightarrow> prediction_state \<Rightarrow> bool" where
  "prediction_due s st =
     (let age_trigger = MIN_PREDICTION_AGE_SECONDS \<le> s_age s;
          packet_trigger = MIN_PREDICTION_PACKET_COUNT \<le> s_packet_count s;
          packets_since_last = int (s_packet_count s) - int (last_prediction_packet_count st);
          periodic_packet_trigger = PREDICT_EVERY_N_PACKETS \<le> packets_since_last;
          time_since_last = s_last_seen s - last_prediction_time st;
          periodic_time_trigger = PREDICT_EVERY_M_SECONDS \<le> time_since_last;
          end_trigger = s_finished s;
          minimum_ready = (age_trigger \<and> packet_trigger);
          first_ready_prediction = (minimum_ready \<and> last_prediction_packet_count st = 0);
          periodic_prediction = (minimum_ready \<and> (periodic_packet_trigger \<or> periodic_time_trigger))
      in first_ready_prediction \<or> periodic_prediction \<or> end_trigger)"

definition should_predict :: "packet \<Rightarrow> session_builder \<Rightarrow> bool \<times> session_builder" where
  "should_predict p b =
     (case map_of (sb_sessions b) (key_of p) of
        None \<Rightarrow> (False, b)
      | Some s \<Rightarrow>
          (case map_of (sb_prediction_state b) (key_of p) of
             None \<Rightarrow> (False, b)
           | Some st \<Rightarrow>
               if prediction_due s st then
                 (True, b\<lparr>sb_prediction_state := AList.update (key_of p)
                    \<lparr>last_prediction_packet_count = s_packet_count s,
                     last_prediction_time = s_last_seen s\<rparr> (sb_prediction_state b)\<rparr>)
               else (False, b)))"

definition finalize_session_if_needed ::
    "packet \<Rightarrow> session_builder \<Rightarrow> finalization option \<times> session_builder" where
  "finalize_session_if_needed p b =
     (case map_of (sb_sessions b) (key_of p) of
        None \<Rightarrow> (None, b)
      | Some s \<Rightarrow>
          if s_finished s then
            (Some \<lparr>f_session = s, f_key = key_of p, f_reason = ''flow_end''\<rparr>,
             drop_session (key_of p) b)
          else (None, b))"

definition drain_finalized_sessions :: "session_builder \<Rightarrow> finalization list \<times> session_builder" where
  "drain_finalized_sessions b =
     (sb_pending_finalizations b, b\<lparr>sb_pending_finalizations := []\<rparr>)"

subsection \<open>What the table tracks\<close>

text \<open>
  \<open>tracks ps gs L b\<close>: after the packets \<open>ps\<close>, the closed sessions \<open>gs\<close> (each with the packets it
  was built from, in the order of closing) and the live packets \<open>L k\<close> of each key account
  for the stream, and the builder's tables hold exactly the live sessions.
\<close>

definition live_ok :: "(session_key \<Rightarrow> packet list) \<Rightarrow> session_builder \<Rightarrow> bool" where
  "live_ok L b \<longleftrightarrow> (\<forall>k. case map_of (sb_sessions b) k of
      None \<Rightarrow> L k = []
    | Some s \<Rightarrow> same_key (L k) \<and> key_of (hd (L k)) = k \<and> s = session_of (L k))"

definition closed_ok :: "(finalization \<times> packet list) list \<Rightarrow> bool" where
  "closed_ok gs \<longleftrightarrow> (\<forall>g\<in>set gs. same_key (snd g) \<and> f_key (fst g) = key_of (hd (snd g))
     \<and> f_session (fst g) = session_of (snd g))"

definition partitioned ::
    "packet list \<Rightarrow> (finalization \<times> packet list) list \<Rightarrow> (session_key \<Rightarrow> packet list) \<Rightarrow> bool" where
  "partitioned ps gs L \<longleftrightarrow> (\<forall>k. filter (\<lambda>p. key_of p = k) ps =
     concat (map snd (filter (\<lambda>g. f_key (fst g) = k) gs)) @ L k)"

definition tables_ok :: "session_builder \<Rightarrow> bool" where
  "tables_ok b \<longleftrightarrow> wf_dict (sb_sessions b) \<and> wf_dict (sb_prediction_state b) \<and>
     fst ` set (sb_prediction_state b) = fst ` set (sb_sessions b)"

definition tracks ::
    "packet list \<Rightarrow> (finalization \<times> packet list) list \<Rightarrow> (session_key \<Rightarrow> packet list) \<Rightarrow>
     session_builder \<Rightarrow> bool" where
  "tracks ps gs L b \<longleftrightarrow> tables_ok b \<and> live_ok L b \<and> closed_ok gs \<and> partitioned ps gs L"

lemma tracks_init: "tracks [] [] (\<lambda>_. []) builder_init"
  by (simp add: tracks_def builder_init_def tables_ok_def live_ok_def closed_ok_def partitioned_def)

lemma drop_session_sel [simp]:
  "sb_sessions (drop_session k b) = AList.delete k (sb_sessions b)"
  "sb_prediction_state (drop_session k b) = AList.delete k (sb_prediction_state b)"
  "sb_pending_finalizations (drop_session k b) = sb_pending_finalizations b"
  by (simp_all add: drop_session_def)

lemma live_okD:
  "live_ok L b \<Longrightarrow> map_of (sb_sessions b) k = Some s \<Longrightarrow>
   same_key (L k) \<and> key_of (hd (L k)) = k \<and> s = session_of (L k)"
  unfolding live_ok_def by (drule spec [of _ k]) simp

lemma live_ok_None: "live_ok L b \<Longrightarrow> map_of (sb_sessions b) k = None \<Longrightarrow> L k = []"
  unfolding live_ok_def by (drule spec [of _ k]) simp

text \<open>The live packets change at one key only, with the session stored there.\<close>

lemma live_ok_change:
  assumes "live_ok L b" and "\<And>k'. k' \<noteq> k \<Longrightarrow> map_of (sb_sessions b') k' = map_of (sb_sessions b) k'"
    and "case map_of (sb_sessions b') k of None \<Rightarrow> qs = []
       | Some s \<Rightarrow> same_key qs \<and> key_of (hd qs) = k \<and> s = session_of qs"
  shows "live_ok (L(k := qs)) b'"
  unfolding live_ok_def
proof
  fix k'
  show "case map_of (sb_sessions b') k' of None \<Rightarrow> (L(k := qs)) k' = []
     | Some s \<Rightarrow> same_key ((L(k := qs)) k') \<and> key_of (hd ((L(k := qs)) k')) = k' \<and>
         s = session_of ((L(k := qs)) k')"
    using assms(1) [unfolded live_ok_def, rule_format, of k'] assms(2) [of k'] assms(3)
    by (cases "k' = k") (simp_all split: option.splits)
qed

lemma tables_ok_drop: "tables_ok b \<Longrightarrow> tables_ok (drop_session k b)"
  by (simp add: tables_ok_def)

lemma tables_ok_cong:
  "sb_sessions b' = sb_sessions b \<Longrightarrow> sb_prediction_state b' = sb_prediction_state b \<Longrightarrow>
   tables_ok b' = tables_ok b"
  by (simp add: tables_ok_def)

lemma live_ok_cong: "sb_sessions b' = sb_sessions b \<Longrightarrow> live_ok L b' = live_ok L b"
  by (simp add: live_ok_def)

lemma closed_ok_snoc:
  "closed_ok (gs @ [g]) \<longleftrightarrow> closed_ok gs \<and> same_key (snd g) \<and> f_key (fst g) = key_of (hd (snd g))
     \<and> f_session (fst g) = session_of (snd g)"
  by (auto simp: closed_ok_def)

lemma partitioned_close:
  "partitioned ps gs L \<Longrightarrow> f_key f = k \<Longrightarrow> partitioned ps (gs @ [(f, L k)]) (L(k := []))"
  by (auto simp: partitioned_def)

lemma partitioned_packet:
  "partitioned ps gs L \<Longrightarrow> partitioned (ps @ [p]) gs (L(key_of p := L (key_of p) @ [p]))"
  by (auto simp: partitioned_def)

lemma tracks_close:
  assumes t: "tracks ps gs L b" and s: "map_of (sb_sessions b) k = Some s"
  shows "tracks ps (gs @ [(\<lparr>f_session = s, f_key = k, f_reason = r\<rparr>, L k)]) (L(k := []))
     (drop_session k b)"
proof -
  have live: "same_key (L k)" "key_of (hd (L k)) = k" "s = session_of (L k)"
    using live_okD [OF _ s] t by (auto simp: tracks_def)
  have "live_ok (L(k := [])) (drop_session k b)"
    using t by (intro live_ok_change) (auto simp: tracks_def)
  then show ?thesis
    using t live by (simp add: tracks_def tables_ok_drop closed_ok_snoc partitioned_close)
qed

lemma tracks_cong:
  "sb_sessions b' = sb_sessions b \<Longrightarrow> sb_prediction_state b' = sb_prediction_state b \<Longrightarrow>
   tracks ps gs L b' = tracks ps gs L b"
  by (simp add: tracks_def tables_ok_cong [of b' b] live_ok_cong [of b' b])

text \<open>A write to the prediction state of a live key is invisible to the tracking.\<close>

lemma tracks_prediction_write:
  assumes "tracks ps gs L b" and "map_of (sb_sessions b) k \<noteq> None"
  shows "tracks ps gs L (b\<lparr>sb_prediction_state := AList.update k st (sb_prediction_state b)\<rparr>)"
proof -
  have "k \<in> fst ` set (sb_sessions b)" using assms(2) dget_None_iff by metis
  then have "tables_ok (b\<lparr>sb_prediction_state := AList.update k st (sb_prediction_state b)\<rparr>)"
    using assms(1) by (auto simp: tracks_def tables_ok_def insert_absorb)
  with assms(1) show ?thesis
    by (simp add: tracks_def live_ok_def)
qed

lemma same_key_single: "same_key [p]"
  by (simp add: same_key_def)

lemma tracks_expire_item:
  assumes "tracks ps gs L b"
  shows "\<exists>gs' L'. tracks ps (gs @ gs') L' (expire_item kr b) \<and>
     sb_pending_finalizations (expire_item kr b) = sb_pending_finalizations b @ map fst gs'"
proof (cases "map_of (sb_sessions b) (fst kr)")
  case None
  then have n: "fst kr \<notin> fst ` set (sb_sessions b)" using dget_None_iff by metis
  then have "fst kr \<notin> fst ` set (sb_prediction_state b)"
    using assms by (simp add: tracks_def tables_ok_def)
  with n have "drop_session (fst kr) b = b" by (simp add: drop_session_def)
  with None assms show ?thesis by (auto simp: expire_item_def intro!: exI [of _ "[]"])
next
  case (Some s)
  let ?f = "\<lparr>f_session = s, f_key = fst kr, f_reason = snd kr\<rparr>"
  have "tracks ps (gs @ [(?f, L (fst kr))]) (L(fst kr := [])) (expire_item kr b)"
    using tracks_close [OF assms Some] Some
    by (subst tracks_cong [where b = "drop_session (fst kr) b"]) (simp_all add: expire_item_def)
  moreover have "sb_pending_finalizations (expire_item kr b) = sb_pending_finalizations b @ [?f]"
    using Some by (simp add: expire_item_def)
  ultimately show ?thesis by (intro exI [of _ "[(?f, L (fst kr))]"] exI conjI) auto
qed

lemma tracks_expire_items:
  assumes "tracks ps gs L b"
  shows "\<exists>gs' L'. tracks ps (gs @ gs') L' (fold expire_item krs b) \<and>
     sb_pending_finalizations (fold expire_item krs b) = sb_pending_finalizations b @ map fst gs'"
  using assms
proof (induction krs arbitrary: gs L b)
  case Nil
  then show ?case by (auto intro!: exI [of _ "[]"])
next
  case (Cons kr krs)
  obtain gs1 L1 where 1: "tracks ps (gs @ gs1) L1 (expire_item kr b)"
    "sb_pending_finalizations (expire_item kr b) = sb_pending_finalizations b @ map fst gs1"
    using tracks_expire_item [OF Cons.prems] by blast
  obtain gs2 L2 where 2: "tracks ps ((gs @ gs1) @ gs2) L2 (fold expire_item krs (expire_item kr b))"
    "sb_pending_finalizations (fold expire_item krs (expire_item kr b))
       = sb_pending_finalizations (expire_item kr b) @ map fst gs2"
    using Cons.IH [OF 1(1)] by blast
  show ?case using 1(2) 2 by (intro exI [of _ "gs1 @ gs2"] exI [of _ L2]) simp
qed

lemmas tracks_expire = tracks_expire_items [of _ _ _ b "stale_items now b" for b now,
    folded expire_stale_sessions_def]

text \<open>The second half of \<open>process_packet\<close>: find or create the session, update it.\<close>

definition absorb :: "packet \<Rightarrow> session_builder \<Rightarrow> traffic_session \<times> session_builder" where
  "absorb p b =
     (let b2 = ensure_session p b;
          s = session_update p (the (map_of (sb_sessions b2) (key_of p)));
          b3 = b2\<lparr>sb_sessions := AList.update (key_of p) s (sb_sessions b2)\<rparr>
      in (s, if s_finished s then mark_session_for_final_prediction (key_of p) b3 else b3))"

lemma process_packet_absorb:
  "process_packet p b = absorb p (expire_stale_sessions (p_timestamp p) b)"
  by (simp add: process_packet_def absorb_def Let_def)

lemma mark_pending [simp]:
  "sb_pending_finalizations (mark_session_for_final_prediction k b) = sb_pending_finalizations b"
  "sb_sessions (mark_session_for_final_prediction k b) = sb_sessions b"
  by (simp_all add: mark_session_for_final_prediction_def split: option.splits)

lemma tracks_mark:
  "tracks ps gs L b \<Longrightarrow> map_of (sb_sessions b) k \<noteq> None \<Longrightarrow>
   tracks ps gs L (mark_session_for_final_prediction k b)"
  by (auto simp: mark_session_for_final_prediction_def tracks_prediction_write split: option.splits)

lemma absorb_session:
  assumes "live_ok L b"
  shows "fst (absorb p b) = session_of (L (key_of p) @ [p])"
proof (cases "map_of (sb_sessions b) (key_of p)")
  case None
  then have "L (key_of p) = []" using live_ok_None [OF assms] by blast
  with None show ?thesis
    by (simp add: absorb_def ensure_session_def Let_def session_of_single)
next
  case (Some s)
  then have "same_key (L (key_of p))" "s = session_of (L (key_of p))"
    using live_okD [OF assms Some] by auto
  with Some show ?thesis
    by (simp add: absorb_def ensure_session_def Let_def session_of_snoc)
qed

lemma ensure_session_other [simp]:
  "k \<noteq> key_of p \<Longrightarrow> map_of (sb_sessions (ensure_session p b)) k = map_of (sb_sessions b) k"
  by (simp add: ensure_session_def)

lemma absorb_lookup:
  "map_of (sb_sessions (snd (absorb p b))) k =
     (if k = key_of p then Some (fst (absorb p b)) else map_of (sb_sessions b) k)"
  by (simp add: absorb_def Let_def)

lemma absorb_pending [simp]:
  "sb_pending_finalizations (snd (absorb p b)) = sb_pending_finalizations b"
  by (simp add: absorb_def ensure_session_def Let_def)

lemma tables_ok_absorb: "tables_ok b \<Longrightarrow> tables_ok (snd (absorb p b))"
proof -
  assume ok: "tables_ok b"
  have 1: "tables_ok (ensure_session p b)"
    using ok by (simp add: tables_ok_def ensure_session_def)
  have k: "key_of p \<in> fst ` set (sb_sessions (ensure_session p b))"
    using dget_None_iff [of "sb_sessions b" "key_of p"] by (auto simp: ensure_session_def)
  have 2: "tables_ok (ensure_session p b\<lparr>sb_sessions :=
      AList.update (key_of p) s (sb_sessions (ensure_session p b))\<rparr>)" for s
    using 1 k by (auto simp: tables_ok_def insert_absorb)
  have 3: "tables_ok (mark_session_for_final_prediction k b')"
    if "tables_ok b'" "k \<in> fst ` set (sb_prediction_state b')" for k b'
    using that by (auto simp: tables_ok_def mark_session_for_final_prediction_def insert_absorb
        split: option.splits)
  have 4: "key_of p \<in> fst ` set (sb_prediction_state (ensure_session p b))"
    using 1 k by (simp add: tables_ok_def)
  show ?thesis using 2 3 4 by (simp add: absorb_def Let_def)
qed

lemma tracks_absorb:
  assumes "tracks ps gs L b"
  shows "tracks (ps @ [p]) gs (L(key_of p := L (key_of p) @ [p])) (snd (absorb p b))"
proof -
  have live: "live_ok L b" and tab: "tables_ok b" and cl: "closed_ok gs" and pt: "partitioned ps gs L"
    using assms by (auto simp: tracks_def)
  have "same_key (L (key_of p) @ [p]) \<and> key_of (hd (L (key_of p) @ [p])) = key_of p"
    using live_okD [OF live, of "key_of p"] live_ok_None [OF live, of "key_of p"]
    by (cases "map_of (sb_sessions b) (key_of p)") (auto simp: same_key_snoc same_key_single)
  then have "live_ok (L(key_of p := L (key_of p) @ [p])) (snd (absorb p b))"
    using live by (intro live_ok_change) (auto simp: absorb_lookup absorb_session)
  with tab cl pt show ?thesis
    by (simp add: tracks_def tables_ok_absorb partitioned_packet)
qed

subsection \<open>Runs of the builder\<close>

text \<open>
  \<open>builder_run ps fs b\<close>: some sequence of method calls from the empty builder, in any order,
  has processed the packets \<open>ps\<close>, handed out the finalizations \<open>fs\<close> and left the state \<open>b\<close>.
\<close>

inductive builder_run :: "packet list \<Rightarrow> finalization list \<Rightarrow> session_builder \<Rightarrow> bool" where
  run_init: "builder_run [] [] builder_init"
| run_packet: "builder_run ps fs b \<Longrightarrow> process_packet p b = (s, b') \<Longrightarrow> builder_run (ps @ [p]) fs b'"
| run_predict: "builder_run ps fs b \<Longrightarrow> should_predict p b = (d, b') \<Longrightarrow> builder_run ps fs b'"
| run_finalize: "builder_run ps fs b \<Longrightarrow> finalize_session_if_needed p b = (Some f, b') \<Longrightarrow>
     builder_run ps (fs @ [f]) b'"
| run_finalize_none: "builder_run ps fs b \<Longrightarrow> finalize_session_if_needed p b = (None, b') \<Longrightarrow>
     builder_run ps fs b'"
| run_drain: "builder_run ps fs b \<Longrightarrow> drain_finalized_sessions b = (out, b') \<Longrightarrow>
     builder_run ps (fs @ out) b'"

inductive_cases finalize_cases: "builder_run ps (fs @ [f]) b"

lemma finalize_Some:
  "finalize_session_if_needed p b = (Some f, b') \<longleftrightarrow>
   (\<exists>s. map_of (sb_sessions b) (key_of p) = Some s \<and> s_finished s \<and>
     f = \<lparr>f_session = s, f_key = key_of p, f_reason = ''flow_end''\<rparr> \<and>
     b' = drop_session (key_of p) b)"
  by (auto simp: finalize_session_if_needed_def split: option.splits if_splits)

lemma finalize_None: "finalize_session_if_needed p b = (None, b') \<Longrightarrow> b' = b"
  by (auto simp: finalize_session_if_needed_def split: option.splits if_splits)

lemma should_predict_effect:
  "should_predict p b = (d, b') \<Longrightarrow> b' = b \<or>
   (map_of (sb_sessions b) (key_of p) \<noteq> None \<and>
    (\<exists>st. b' = b\<lparr>sb_prediction_state := AList.update (key_of p) st (sb_prediction_state b)\<rparr>))"
  by (auto simp: should_predict_def split: option.splits if_splits)

lemma builder_run_tracks:
  "builder_run ps fs b \<Longrightarrow>
   \<exists>gs L. tracks ps gs L b \<and> mset (map fst gs) = mset (fs @ sb_pending_finalizations b)"
proof (induction rule: builder_run.induct)
  case run_init
  show ?case using tracks_init by (intro exI [of _ "[]"] exI [of _ "\<lambda>_. []"]) (simp add: builder_init_def)
next
  case (run_packet ps fs b p s b')
  then obtain gs L where t: "tracks ps gs L b"
    and m: "mset (map fst gs) = mset (fs @ sb_pending_finalizations b)" by blast
  let ?e = "expire_stale_sessions (p_timestamp p) b"
  obtain gs' L' where e: "tracks ps (gs @ gs') L' ?e"
    "sb_pending_finalizations ?e = sb_pending_finalizations b @ map fst gs'"
    using tracks_expire [OF t] by blast
  have b': "b' = snd (absorb p ?e)" using run_packet.hyps(2) by (simp add: process_packet_absorb)
  show ?case
    using tracks_absorb [OF e(1), of p] e(2) m
    by (intro exI [of _ "gs @ gs'"] exI) (auto simp: b')
next
  case (run_predict ps fs b p d b')
  then obtain gs L where t: "tracks ps gs L b"
    and m: "mset (map fst gs) = mset (fs @ sb_pending_finalizations b)" by blast
  from should_predict_effect [OF run_predict.hyps(2)]
  have "tracks ps gs L b' \<and> sb_pending_finalizations b' = sb_pending_finalizations b"
    using t tracks_prediction_write [OF t] by auto
  with m show ?case by auto
next
  case (run_finalize ps fs b p f b')
  then obtain gs L where t: "tracks ps gs L b"
    and m: "mset (map fst gs) = mset (fs @ sb_pending_finalizations b)" by blast
  from run_finalize.hyps(2) obtain s where s: "map_of (sb_sessions b) (key_of p) = Some s"
    "f = \<lparr>f_session = s, f_key = key_of p, f_reason = ''flow_end''\<rparr>"
    "b' = drop_session (key_of p) b" by (auto simp: finalize_Some)
  have "tracks ps (gs @ [(f, L (key_of p))]) (L(key_of p := [])) b'"
    using tracks_close [OF t s(1)] s(2,3) by simp
  moreover have "mset (map fst (gs @ [(f, L (key_of p))])) = mset ((fs @ [f]) @ sb_pending_finalizations b')"
    using m s(3) by simp
  ultimately show ?case by blast
next
  case (run_finalize_none ps fs b p b')
  then show ?case using finalize_None by blast
next
  case (run_drain ps fs b out b')
  then obtain gs L where t: "tracks ps gs L b"
    and m: "mset (map fst gs) = mset (fs @ sb_pending_finalizations b)" by blast
  from run_drain.hyps(2) have b': "out = sb_pending_finalizations b"
    "b' = b\<lparr>sb_pending_finalizations := []\<rparr>" by (auto simp: drain_finalized_sessions_def)
  have "tracks ps gs L b'" using t b' by (subst tracks_cong [of b' b]) simp_all
  moreover have "mset (map fst gs) = mset ((fs @ out) @ sb_pending_finalizations b')"
    using m b' by simp
  ultimately show ?case by blast
qed

subsection \<open>Expiry, exactly\<close>

lemma expire_item_sessions [simp]:
  "sb_sessions (expire_item kr b) = AList.delete (fst kr) (sb_sessions b)"
  by (simp add: expire_item_def split: option.splits)

lemma fold_expire_sessions:
  "sb_sessions (fold expire_item krs b) = filter (\<lambda>ks. fst ks \<notin> fst ` set krs) (sb_sessions b)"
  by (induction krs arbitrary: b) (auto simp: AList.delete_eq intro!: filter_cong)

lemma fold_expire_pending:
  "distinct (map fst krs) \<Longrightarrow> (\<forall>kr\<in>set krs. map_of (sb_sessions b) (fst kr) \<noteq> None) \<Longrightarrow>
   sb_pending_finalizations (fold expire_item krs b) = sb_pending_finalizations b @
     map (\<lambda>kr. \<lparr>f_session = the (map_of (sb_sessions b) (fst kr)), f_key = fst kr, f_reason = snd kr\<rparr>) krs"
proof (induction krs arbitrary: b)
  case Nil
  then show ?case by simp
next
  case (Cons kr krs)
  obtain s where s: "map_of (sb_sessions b) (fst kr) = Some s" using Cons.prems(2) by auto
  have other: "map_of (sb_sessions (expire_item kr b)) (fst kr') = map_of (sb_sessions b) (fst kr')"
    if "kr' \<in> set krs" for kr'
    using that Cons.prems(1) by (auto simp: rev_image_eqI)
  have "sb_pending_finalizations (fold expire_item krs (expire_item kr b)) =
      sb_pending_finalizations (expire_item kr b) @
      map (\<lambda>kr'. \<lparr>f_session = the (map_of (sb_sessions (expire_item kr b)) (fst kr')),
        f_key = fst kr', f_reason = snd kr'\<rparr>) krs"
    using Cons.prems other by (intro Cons.IH) auto
  also have "map (\<lambda>kr'. \<lparr>f_session = the (map_of (sb_sessions (expire_item kr b)) (fst kr')),
        f_key = fst kr', f_reason = snd kr'\<rparr>) krs =
      map (\<lambda>kr'. \<lparr>f_session = the (map_of (sb_sessions b) (fst kr')),
        f_key = fst kr', f_reason = snd kr'\<rparr>) krs"
    using other by (intro map_cong) auto
  finally show ?case using s by (simp add: expire_item_def)
qed

lemma stale_items_keys:
  "map fst (stale_items now b) = map fst (filter (\<lambda>ks. stale_reason now (snd ks) \<noteq> None) (sb_sessions b))"
  by (induction "sb_sessions b" arbitrary: b)
    (auto simp: stale_items_def List.map_filter_def comp_def split_def)

lemma in_stale_items:
  "kr \<in> set (stale_items now b) \<longleftrightarrow>
   (\<exists>s. (fst kr, s) \<in> set (sb_sessions b) \<and> stale_reason now s = Some (snd kr))"
  by (cases kr) (force simp: stale_items_def List.map_filter_def)

lemma expire_sessions_exact:
  assumes "wf_dict (sb_sessions b)"
  shows "sb_sessions (expire_stale_sessions now b) =
    filter (\<lambda>ks. stale_reason now (snd ks) = None) (sb_sessions b)"
proof -
  have "fst ks \<in> fst ` set (stale_items now b) \<longleftrightarrow> stale_reason now (snd ks) \<noteq> None"
    if "ks \<in> set (sb_sessions b)" for ks
  proof -
    have "fst ` set (stale_items now b) =
        fst ` set (filter (\<lambda>ks. stale_reason now (snd ks) \<noteq> None) (sb_sessions b))"
      using stale_items_keys [of now b] by (metis list.set_map)
    then show ?thesis using that eq_key_imp_eq_value [OF assms]
      by (cases ks) (auto simp: image_iff, metis option.distinct(1))
  qed
  then show ?thesis
    unfolding expire_stale_sessions_def fold_expire_sessions by (intro filter_cong refl) blast
qed

lemma expire_pending_exact:
  assumes "wf_dict (sb_sessions b)"
  shows "sb_pending_finalizations (expire_stale_sessions now b) = sb_pending_finalizations b @
    map (\<lambda>kr. \<lparr>f_session = the (map_of (sb_sessions b) (fst kr)), f_key = fst kr, f_reason = snd kr\<rparr>)
      (stale_items now b)"
  unfolding expire_stale_sessions_def
proof (rule fold_expire_pending)
  show "distinct (map fst (stale_items now b))"
    unfolding stale_items_keys using assms by (simp add: distinct_map_filter)
  show "\<forall>kr\<in>set (stale_items now b). map_of (sb_sessions b) (fst kr) \<noteq> None"
    using assms by (auto simp: in_stale_items)
qed

subsection \<open>Properties\<close>

lemma builder_run_tables: "builder_run ps fs b \<Longrightarrow> tables_ok b"
  using builder_run_tracks by (fastforce simp: tracks_def)

text \<open>
  C6: Sessionisation loses and duplicates nothing. After any sequence of calls of the builder's
  methods, the packets processed for a key are, in order, the concatenation of the packet
  lists of the sessions closed for that key (by a flow end, an idle timeout or the maximum
  duration) followed by the packets of its live session; every closed session was handed
  out or is still queued, exactly once; and each session, live or closed, is exactly the
  one its packets make.
\<close>
theorem builder_partitions_stream:
  assumes "builder_run ps fs b"
  shows "\<exists>gs L. mset (map fst gs) = mset (fs @ sb_pending_finalizations b) \<and>
    (\<forall>k. filter (\<lambda>p. key_of p = k) ps = concat (map snd (filter (\<lambda>g. f_key (fst g) = k) gs)) @ L k) \<and>
    (\<forall>g\<in>set gs. same_key (snd g) \<and> f_key (fst g) = key_of (hd (snd g)) \<and>
        f_session (fst g) = session_of (snd g)) \<and>
    (\<forall>k. map_of (sb_sessions b) k = (if L k = [] then None else Some (session_of (L k))))"
proof -
  obtain gs L where t: "tracks ps gs L b"
    and m: "mset (map fst gs) = mset (fs @ sb_pending_finalizations b)"
    using builder_run_tracks [OF assms] by blast
  then have live: "live_ok L b" by (simp add: tracks_def)
  have "map_of (sb_sessions b) k = (if L k = [] then None else Some (session_of (L k)))" for k
    using live_okD [OF live, of k] live_ok_None [OF live, of k]
    by (cases "map_of (sb_sessions b) k") auto
  with t m show ?thesis
    by (intro exI [of _ gs] exI [of _ L]) (simp add: tracks_def partitioned_def closed_ok_def)
qed

lemma run_one: "builder_run [p] [] (snd (process_packet p builder_init))"
  using run_packet [OF run_init, of p] by (metis append_Nil prod.collapse)

theorem builder_partitions_stream_witness:
  "\<exists>gs L. mset (map fst gs) =
      mset ([] @ sb_pending_finalizations (snd (process_packet sample_packet builder_init))) \<and>
    (\<forall>k. filter (\<lambda>p. key_of p = k) [sample_packet] =
       concat (map snd (filter (\<lambda>g. f_key (fst g) = k) gs)) @ L k) \<and>
    (\<forall>g\<in>set gs. same_key (snd g) \<and> f_key (fst g) = key_of (hd (snd g)) \<and>
        f_session (fst g) = session_of (snd g)) \<and>
    (\<forall>k. map_of (sb_sessions (snd (process_packet sample_packet builder_init))) k =
       (if L k = [] then None else Some (session_of (L k))))"
  by (rule builder_partitions_stream [OF run_one])

lemma reachable_session:
  assumes "builder_run ps fs b"
    and "s \<in> snd ` set (sb_sessions b) \<union> f_session ` set (fs @ sb_pending_finalizations b)"
  obtains qs where "same_key qs" "s = session_of qs"
proof -
  obtain gs L where t: "tracks ps gs L b"
    and m: "mset (map fst gs) = mset (fs @ sb_pending_finalizations b)"
    using builder_run_tracks [OF assms(1)] by blast
  have "\<exists>qs. same_key qs \<and> s = session_of qs"
  proof (cases "s \<in> snd ` set (sb_sessions b)")
    case True
    then obtain k where "map_of (sb_sessions b) k = Some s"
      using t by (force simp: tracks_def tables_ok_def)
    then show ?thesis using live_okD [of L b k s] t by (auto simp: tracks_def)
  next
    case False
    then have "s \<in> f_session ` set (map fst gs)"
      using assms(2) m by (metis UnE mset_eq_setD)
    then show ?thesis using t by (auto simp: tracks_def closed_ok_def)
  qed
  then show thesis using that by blast
qed

text \<open>
  Sessions are one-directional. The key of a session holds source and destination in the
  order of its packets, so a reply opens a session of its own, and in every session the
  builder ever holds or hands out the forward counters equal the totals: the features named
  "fwd" carry no information beyond the plain ones.
\<close>
theorem sessions_forward_only:
  assumes "builder_run ps fs b"
    and "s \<in> snd ` set (sb_sessions b) \<union> f_session ` set (fs @ sb_pending_finalizations b)"
  shows "s_fwd_packet_count s = s_packet_count s \<and> s_fwd_total_bytes s = s_total_bytes s \<and>
    s_fwd_packet_lengths s = s_packet_lengths s \<and>
    s_fwd_packet_timestamps s = s_packet_timestamps s \<and>
    s_fwd_packet_length_stats s = s_packet_length_stats s"
proof -
  obtain qs where "same_key qs" "s = session_of qs" using reachable_session [OF assms] .
  then show ?thesis by (simp add: session_totals session_forward_totals)
qed

lemma process_first_session:
  "sb_sessions (snd (process_packet p builder_init)) = [(key_of p, session_of [p])]"
  by (simp add: process_packet_absorb absorb_def Let_def expire_stale_sessions_def stale_items_def
      builder_init_def ensure_session_def session_of_single List.map_filter_simps)

theorem sessions_forward_only_witness:
  "s_fwd_packet_count (session_of [sample_packet]) = s_packet_count (session_of [sample_packet])"
  using sessions_forward_only [OF run_one [of sample_packet], of "session_of [sample_packet]"]
  by (simp add: process_first_session)

text \<open>
  Expiry is exact. On a packet at time \<open>t\<close>, in a reachable state, the sessions removed are
  exactly those idle for 30 s or older than 120 s at \<open>t\<close>, each queued once with its reason
  (idleness is reported first); every other session stays, and the packet's own session is
  left holding the packet.
\<close>
theorem process_packet_expiry:
  assumes "builder_run ps fs b" and "process_packet p b = (s, b')"
  shows "(\<forall>k s'. k \<noteq> key_of p \<longrightarrow> (map_of (sb_sessions b') k = Some s' \<longleftrightarrow>
       map_of (sb_sessions b) k = Some s' \<and>
       p_timestamp p - s_last_seen s' < 30 \<and> p_timestamp p - s_start_time s' < 120)) \<and>
    map_of (sb_sessions b') (key_of p) = Some s \<and> s_last_seen s = p_timestamp p \<and>
    sb_pending_finalizations b' = sb_pending_finalizations b @
       [\<lparr>f_session = s', f_key = k,
         f_reason = if 30 \<le> p_timestamp p - s_last_seen s' then ''idle_timeout'' else ''max_duration''\<rparr>.
        (k, s') \<leftarrow> sb_sessions b,
        30 \<le> p_timestamp p - s_last_seen s' \<or> 120 \<le> p_timestamp p - s_start_time s']"
proof -
  let ?t = "p_timestamp p" and ?e = "expire_stale_sessions (p_timestamp p) b"
  have wf: "wf_dict (sb_sessions b)" using builder_run_tables [OF assms(1)] by (simp add: tables_ok_def)
  have abs: "s = fst (absorb p ?e)" "b' = snd (absorb p ?e)"
    using assms(2) by (simp_all add: process_packet_absorb)
  have fresh: "map_of (sb_sessions ?e) k = Some s' \<longleftrightarrow>
      map_of (sb_sessions b) k = Some s' \<and> stale_reason ?t s' = None" for k s'
    unfolding expire_sessions_exact [OF wf]
    using wf by (subst dget_Some_iff) (auto simp: distinct_map_filter)
  have reason: "stale_reason ?t s' = None \<longleftrightarrow>
      ?t - s_last_seen s' < 30 \<and> ?t - s_start_time s' < 120" for s'
    by (auto simp: stale_reason_def builder_consts)
  have others: "map_of (sb_sessions b') k = Some s' \<longleftrightarrow>
       map_of (sb_sessions b) k = Some s' \<and> ?t - s_last_seen s' < 30 \<and> ?t - s_start_time s' < 120"
    if "k \<noteq> key_of p" for k s'
    using that fresh reason by (simp add: abs absorb_lookup)
  have own: "map_of (sb_sessions b') (key_of p) = Some s" "s_last_seen s = ?t"
    by (simp_all add: abs absorb_lookup) (simp add: absorb_def Let_def)
  have "map (\<lambda>kr. \<lparr>f_session = the (map_of (sb_sessions b) (fst kr)), f_key = fst kr, f_reason = snd kr\<rparr>)
      (stale_items ?t b) = [\<lparr>f_session = s', f_key = k,
         f_reason = if 30 \<le> ?t - s_last_seen s' then ''idle_timeout'' else ''max_duration''\<rparr>.
        (k, s') \<leftarrow> sb_sessions b, 30 \<le> ?t - s_last_seen s' \<or> 120 \<le> ?t - s_start_time s']"
  proof -
    have "map (\<lambda>kr. \<lparr>f_session = the (map_of (sb_sessions b) (fst kr)), f_key = fst kr, f_reason = snd kr\<rparr>)
        (List.map_filter (\<lambda>(k, s). map_option (Pair k) (stale_reason ?t s)) xs) = [\<lparr>f_session = s', f_key = k,
         f_reason = if 30 \<le> ?t - s_last_seen s' then ''idle_timeout'' else ''max_duration''\<rparr>.
        (k, s') \<leftarrow> xs, 30 \<le> ?t - s_last_seen s' \<or> 120 \<le> ?t - s_start_time s']"
      if "set xs \<subseteq> set (sb_sessions b)" for xs
      using that wf
      by (induction xs) (auto simp: List.map_filter_simps stale_reason_def builder_consts)
    then show ?thesis by (simp add: stale_items_def)
  qed
  then have "sb_pending_finalizations b' = sb_pending_finalizations b @
       [\<lparr>f_session = s', f_key = k,
         f_reason = if 30 \<le> ?t - s_last_seen s' then ''idle_timeout'' else ''max_duration''\<rparr>.
        (k, s') \<leftarrow> sb_sessions b,
        30 \<le> ?t - s_last_seen s' \<or> 120 \<le> ?t - s_start_time s']"
    by (simp add: abs expire_pending_exact [OF wf])
  with others own show ?thesis by blast
qed

theorem process_packet_expiry_witness:
  "\<exists>s b'. process_packet (sample_packet\<lparr>p_timestamp := 1030, p_src_port := Some 40001\<rparr>)
       (snd (process_packet sample_packet builder_init)) = (s, b') \<and>
     sb_pending_finalizations b' =
       [\<lparr>f_session = session_of [sample_packet], f_key = key_of sample_packet,
         f_reason = ''idle_timeout''\<rparr>]"
proof -
  let ?p = "sample_packet\<lparr>p_timestamp := 1030, p_src_port := Some 40001\<rparr>"
  let ?b = "snd (process_packet sample_packet builder_init)"
  obtain s b' where pp: "process_packet ?p ?b = (s, b')" by (cases "process_packet ?p ?b")
  have "s_last_seen (session_of [sample_packet]) = 1000"
    by (simp add: session_of_single sample_packet_def)
  moreover have "sb_pending_finalizations ?b = []"
    by (simp add: process_packet_absorb expire_stale_sessions_def stale_items_def builder_init_def
        List.map_filter_simps)
  ultimately have "sb_pending_finalizations b' =
       [\<lparr>f_session = session_of [sample_packet], f_key = key_of sample_packet,
         f_reason = ''idle_timeout''\<rparr>]"
    using process_packet_expiry [OF run_one [of sample_packet] pp]
    by (simp add: process_first_session)
  with pp show ?thesis by blast
qed

text \<open>
  Predictions on a live session are throttled. When \<open>should_predict\<close> says yes for a session
  that has not ended, the session has at least 5 packets and is at least 1 s old, and since
  the prediction last recorded for it at least 5 packets have arrived or 1 s has passed; the
  answer is recorded. For an ended session it always says yes.
\<close>
theorem prediction_throttled:
  assumes "builder_run ps fs b" and "map_of (sb_sessions b) (key_of p) = Some s"
    and "should_predict p b = (d, b')"
  shows "(s_finished s \<longrightarrow> d) \<and>
    (d \<longrightarrow> map_of (sb_prediction_state b') (key_of p) =
        Some \<lparr>last_prediction_packet_count = s_packet_count s, last_prediction_time = s_last_seen s\<rparr>) \<and>
    (d \<and> \<not> s_finished s \<longrightarrow>
       5 \<le> s_packet_count s \<and> 1 \<le> s_age s \<and>
       (\<exists>st. map_of (sb_prediction_state b) (key_of p) = Some st \<and>
          (last_prediction_packet_count st + 5 \<le> s_packet_count s \<or>
           last_prediction_time st + 1 \<le> s_last_seen s)))"
proof -
  have "tables_ok b" using builder_run_tables [OF assms(1)] .
  then have "map_of (sb_prediction_state b) (key_of p) \<noteq> None"
    using assms(2) unfolding tables_ok_def by (metis dget_None_iff option.distinct(1))
  then obtain st where st: "map_of (sb_prediction_state b) (key_of p) = Some st" by blast
  have due: "d = prediction_due s st"
    using assms(2,3) st by (auto simp: should_predict_def split: if_splits)
  have "b' = (if d then b\<lparr>sb_prediction_state := AList.update (key_of p)
      \<lparr>last_prediction_packet_count = s_packet_count s, last_prediction_time = s_last_seen s\<rparr>
      (sb_prediction_state b)\<rparr> else b)"
    using assms(2,3) st by (auto simp: should_predict_def split: if_splits)
  with due st show ?thesis
    by (auto simp: prediction_due_def builder_consts Let_def)
qed

lemma run_two:
  "builder_run [p, q] [] (snd (process_packet q (snd (process_packet p builder_init))))"
  using run_packet [OF run_one [of p], of q] by (metis append_Cons append_Nil prod.collapse)

theorem prediction_throttled_witness:
  "fst (should_predict (sample_packet\<lparr>p_tcp_flags := Some 1\<rparr>)
     (snd (process_packet (sample_packet\<lparr>p_tcp_flags := Some 1\<rparr>) builder_init)))"
proof -
  let ?p = "sample_packet\<lparr>p_tcp_flags := Some 1\<rparr>"
  let ?b = "snd (process_packet ?p builder_init)"
  obtain d b' where sp: "should_predict ?p ?b = (d, b')" by (cases "should_predict ?p ?b")
  have "map_of (sb_sessions ?b) (key_of ?p) = Some (session_of [?p])"
    by (simp add: process_first_session)
  from prediction_throttled [OF run_one this sp]
  have "s_finished (session_of [?p]) \<longrightarrow> d" by blast
  moreover have "s_finished (session_of [?p])"
    by (simp add: session_of_single ends_flow_def has_flag_def)
  ultimately show ?thesis using sp by simp
qed

text \<open>
  C11: The incremental session counters are the statistics of the session's packets: counts,
  byte totals, first and last time, the end-of-flow flag (some packet had FIN or RST), the six
  TCP flag counters, and the forward payload count and least positive segment size.
\<close>
theorem session_of_packets:
  assumes "same_key ps"
  shows "s_packet_count (session_of ps) = length ps \<and>
    s_total_bytes (session_of ps) = sum_list (map p_size ps) \<and>
    s_start_time (session_of ps) = p_timestamp (hd ps) \<and>
    s_last_seen (session_of ps) = p_timestamp (last ps) \<and>
    (s_finished (session_of ps) \<longleftrightarrow> (\<exists>p\<in>set ps. has_flag 1 p \<or> has_flag 4 p)) \<and>
    s_flag_counts (session_of ps) =
      \<lparr>fc_fin = length (filter (has_flag 1) ps), fc_syn = length (filter (has_flag 2) ps),
       fc_rst = length (filter (has_flag 4) ps), fc_psh = length (filter (has_flag 8) ps),
       fc_ack = length (filter (has_flag 16) ps), fc_urg = length (filter (has_flag 32) ps)\<rparr> \<and>
    s_act_data_pkt_fwd (session_of ps) = length (positive_payloads ps) \<and>
    s_min_seg_size_forward (session_of ps) =
      (if positive_payloads ps = [] then None else Some (Min (set (positive_payloads ps)))) \<and>
    s_init_win_bytes_forward (session_of ps) =
      (case List.map_filter p_tcp_window_size ps of [] \<Rightarrow> None | w # ws \<Rightarrow> Some w)"
  using session_totals [OF assms] session_flag_totals [OF assms] session_payloads [OF assms]
    session_headers(2) [OF assms] session_start [of ps] same_key_nonempty [OF assms]
  by (auto simp: ends_flow_def)

theorem session_of_packets_witness:
  "s_packet_count (session_of [sample_packet, sample_packet]) = 2"
  using session_of_packets [of "[sample_packet, sample_packet]"] by (simp add: same_key_def)

end
