(* ===== verification/Telemetry.thy ===== *)
theory Telemetry
  imports SessionBuilder
begin

text \<open>
  The engine's telemetry (\<open>packet_capture/telemetry/engine_telemetry.py\<close>): running totals and
  sliding windows of the packets received and dropped and of the model predictions, and the
  snapshot that is published. The clock is read by the caller's argument \<open>now\<close>; the lock makes
  each method atomic.
\<close>

subsection \<open>State and operations\<close>

record telemetry =
  tl_packet_window_seconds :: real
  tl_max_exchange_count :: nat
  tl_packets_received_total :: nat
  tl_packets_processed_total :: nat
  tl_packets_dropped_total :: nat
  tl_ml_predictions_total :: nat
  tl_last_ml_prediction_latency_ms :: real
  tl_secondary_model_predictions_total :: nat
  tl_packet_received_times :: "real list"
  tl_packet_dropped_times :: "real list"
  tl_ml_prediction_times :: "real list"
  tl_secondary_model_prediction_times :: "real list"

definition telemetry_init :: "real \<Rightarrow> nat \<Rightarrow> telemetry" where
  "telemetry_init packet_window_seconds max_exchange_count = \<lparr>
     tl_packet_window_seconds = packet_window_seconds, tl_max_exchange_count = max_exchange_count,
     tl_packets_received_total = 0, tl_packets_processed_total = 0, tl_packets_dropped_total = 0,
     tl_ml_predictions_total = 0, tl_last_ml_prediction_latency_ms = 0,
     tl_secondary_model_predictions_total = 0, tl_packet_received_times = [],
     tl_packet_dropped_times = [], tl_ml_prediction_times = [],
     tl_secondary_model_prediction_times = []\<rparr>"

lemma telemetry_init_sel [simp]:
  "tl_packet_window_seconds (telemetry_init w m) = w" "tl_max_exchange_count (telemetry_init w m) = m"
  by (simp_all add: telemetry_init_def)

text \<open>The guard of \<open>_trim\<close>: at or before the cutoff.\<close>

definition outdated :: "real \<Rightarrow> real \<Rightarrow> real \<Rightarrow> bool" where
  "outdated width now t = (t \<le> now - width)"

abbreviation (input) tl_outdated :: "telemetry \<Rightarrow> real \<Rightarrow> real \<Rightarrow> bool" where
  "tl_outdated tel \<equiv> outdated (tl_packet_window_seconds tel)"

definition record_packet_received :: "real \<Rightarrow> telemetry \<Rightarrow> telemetry" where
  "record_packet_received now tel = tel\<lparr>
     tl_packets_received_total := tl_packets_received_total tel + 1,
     tl_packet_received_times := push_trim (tl_outdated tel) now now (tl_packet_received_times tel)\<rparr>"

definition record_packet_processed :: "telemetry \<Rightarrow> telemetry" where
  "record_packet_processed tel = tel\<lparr>tl_packets_processed_total := tl_packets_processed_total tel + 1\<rparr>"

definition record_packet_dropped :: "real \<Rightarrow> telemetry \<Rightarrow> telemetry" where
  "record_packet_dropped now tel = tel\<lparr>
     tl_packets_dropped_total := tl_packets_dropped_total tel + 1,
     tl_packet_dropped_times := push_trim (tl_outdated tel) now now (tl_packet_dropped_times tel)\<rparr>"

definition record_ml_prediction :: "real \<Rightarrow> real \<Rightarrow> telemetry \<Rightarrow> telemetry" where
  "record_ml_prediction now duration_seconds tel = tel\<lparr>
     tl_ml_predictions_total := tl_ml_predictions_total tel + 1,
     tl_last_ml_prediction_latency_ms := py_round 4 (max 0 duration_seconds * 1000),
     tl_ml_prediction_times := push_trim (tl_outdated tel) now now (tl_ml_prediction_times tel)\<rparr>"

definition record_secondary_model_prediction :: "real \<Rightarrow> telemetry \<Rightarrow> telemetry" where
  "record_secondary_model_prediction now tel = tel\<lparr>
     tl_secondary_model_predictions_total := tl_secondary_model_predictions_total tel + 1,
     tl_secondary_model_prediction_times :=
       push_trim (tl_outdated tel) now now (tl_secondary_model_prediction_times tel)\<rparr>"

record session_exchange =
  ex_source_ip :: string
  ex_destination_ip :: string
  ex_source_port :: "int option"
  ex_destination_port :: "int option"
  ex_protocol :: int
  ex_packet_count :: nat
  ex_byte_count :: int
  ex_duration :: real

definition session_exchange_of :: "traffic_session \<Rightarrow> session_exchange" where
  "session_exchange_of s = \<lparr>ex_source_ip = s_src_ip s, ex_destination_ip = s_dst_ip s,
     ex_source_port = s_src_port s, ex_destination_port = s_dst_port s,
     ex_protocol = s_protocol s, ex_packet_count = s_packet_count s,
     ex_byte_count = s_total_bytes s, ex_duration = py_round 4 (s_duration s)\<rparr>"

text \<open>
  The snapshot, without the two constant fields on application attribution. The packet queue is
  given by its size, \<open>None\<close> where the platform cannot tell, and its \<open>maxsize\<close>.
\<close>

record telemetry_snapshot =
  sn_ts :: int
  sn_packets_received_total :: nat
  sn_packets_received_per_30s :: nat
  sn_packets_processed_total :: nat
  sn_packets_dropped_total :: nat
  sn_packets_lost_total :: nat
  sn_packet_loss_detected :: bool
  sn_packet_queue_size :: int
  sn_packet_queue_maxsize :: int
  sn_packet_queue_usage_percent :: real
  sn_active_sessions :: nat
  sn_ml_predictions_total :: nat
  sn_ml_predictions_per_30s :: nat
  sn_ml_processing_rate_per_30s :: nat
  sn_last_ml_prediction_latency_ms :: real
  sn_secondary_model_predictions_total :: nat
  sn_secondary_model_predictions_per_30s :: nat
  sn_active_network_exchanges :: "session_exchange list"

definition safe_qsize :: "int option \<Rightarrow> int" where
  "safe_qsize qsize = (case qsize of None \<Rightarrow> 0 | Some n \<Rightarrow> n)"

definition usage_percent :: "int \<Rightarrow> int \<Rightarrow> real" where
  "usage_percent queue_size queue_maxsize =
     (if 0 < queue_maxsize then py_round 4 (of_int queue_size / of_int queue_maxsize * 100) else 0)"

definition trim_windows :: "real \<Rightarrow> telemetry \<Rightarrow> telemetry" where
  "trim_windows now tel = tel\<lparr>
     tl_packet_received_times := trim (tl_outdated tel) now (tl_packet_received_times tel),
     tl_packet_dropped_times := trim (tl_outdated tel) now (tl_packet_dropped_times tel),
     tl_ml_prediction_times := trim (tl_outdated tel) now (tl_ml_prediction_times tel),
     tl_secondary_model_prediction_times :=
       trim (tl_outdated tel) now (tl_secondary_model_prediction_times tel)\<rparr>"

definition telemetry_snapshot ::
    "real \<Rightarrow> int option \<Rightarrow> int \<Rightarrow> session_builder \<Rightarrow> telemetry \<Rightarrow> telemetry_snapshot \<times> telemetry" where
  "telemetry_snapshot now qsize maxsize builder tel0 =
     (let tel = trim_windows now tel0;
          queue_size = safe_qsize qsize; queue_maxsize = max 0 maxsize;
          active_sessions = snapshot_sessions builder
      in (\<lparr>sn_ts = iso_us now,
           sn_packets_received_total = tl_packets_received_total tel,
           sn_packets_received_per_30s = length (tl_packet_received_times tel),
           sn_packets_processed_total = tl_packets_processed_total tel,
           sn_packets_dropped_total = tl_packets_dropped_total tel,
           sn_packets_lost_total = tl_packets_dropped_total tel,
           sn_packet_loss_detected = (0 < length (tl_packet_dropped_times tel)),
           sn_packet_queue_size = queue_size,
           sn_packet_queue_maxsize = queue_maxsize,
           sn_packet_queue_usage_percent = usage_percent queue_size queue_maxsize,
           sn_active_sessions = length active_sessions,
           sn_ml_predictions_total = tl_ml_predictions_total tel,
           sn_ml_predictions_per_30s = length (tl_ml_prediction_times tel),
           sn_ml_processing_rate_per_30s = length (tl_ml_prediction_times tel),
           sn_last_ml_prediction_latency_ms = tl_last_ml_prediction_latency_ms tel,
           sn_secondary_model_predictions_total = tl_secondary_model_predictions_total tel,
           sn_secondary_model_predictions_per_30s = length (tl_secondary_model_prediction_times tel),
           sn_active_network_exchanges =
             map session_exchange_of (take (tl_max_exchange_count tel) active_sessions)\<rparr>, tel))"

lemma time_window_outdated: "0 < width \<Longrightarrow> time_window (outdated width) (\<lambda>t. t)"
  by unfold_locales (auto simp: outdated_def)

text \<open>The collector of the service runs with the default window of 30 s.\<close>

interpretation telemetry_window: time_window "outdated 30" "\<lambda>t. t"
  by (rule time_window_outdated) simp

subsection \<open>Runs of the collector\<close>

datatype telemetry_event =
  Received real | Processed | Dropped real | MlPrediction real real | SecondaryPrediction real

fun collect :: "telemetry_event \<Rightarrow> telemetry \<Rightarrow> telemetry" where
  "collect (Received t) tel = record_packet_received t tel"
| "collect Processed tel = record_packet_processed tel"
| "collect (Dropped t) tel = record_packet_dropped t tel"
| "collect (MlPrediction t d) tel = record_ml_prediction t d tel"
| "collect (SecondaryPrediction t) tel = record_secondary_model_prediction t tel"

fun event_time :: "telemetry_event \<Rightarrow> real option" where
  "event_time (Received t) = Some t"
| "event_time Processed = None"
| "event_time (Dropped t) = Some t"
| "event_time (MlPrediction t d) = Some t"
| "event_time (SecondaryPrediction t) = Some t"

fun received_at :: "telemetry_event \<Rightarrow> real option" where
  "received_at (Received t) = Some t" | "received_at _ = None"

fun dropped_at :: "telemetry_event \<Rightarrow> real option" where
  "dropped_at (Dropped t) = Some t" | "dropped_at _ = None"

fun predicted_at :: "telemetry_event \<Rightarrow> real option" where
  "predicted_at (MlPrediction t d) = Some t" | "predicted_at _ = None"

fun secondary_at :: "telemetry_event \<Rightarrow> real option" where
  "secondary_at (SecondaryPrediction t) = Some t" | "secondary_at _ = None"

definition collected :: "telemetry_event list \<Rightarrow> telemetry \<Rightarrow> telemetry" where
  "collected es tel = fold collect es tel"

lemma collected_snoc: "collected (es @ [e]) tel = collect e (collected es tel)"
  by (simp add: collected_def)

lemma collect_const [simp]:
  "tl_packet_window_seconds (collect e tel) = tl_packet_window_seconds tel"
  "tl_max_exchange_count (collect e tel) = tl_max_exchange_count tel"
  by (cases e; simp add: record_packet_received_def record_packet_processed_def
      record_packet_dropped_def record_ml_prediction_def record_secondary_model_prediction_def)+

lemma collected_const [simp]:
  "tl_packet_window_seconds (collected es tel) = tl_packet_window_seconds tel"
  "tl_max_exchange_count (collected es tel) = tl_max_exchange_count tel"
  by (induction es rule: rev_induct) (simp_all add: collected_snoc, simp_all add: collected_def)

lemma sorted_at:
  assumes sorted: "sorted (List.map_filter event_time es)"
    and sub: "\<And>e t. f e = Some t \<Longrightarrow> event_time e = Some t"
  shows "sorted (List.map_filter f es)" and "t \<in> set (List.map_filter f es) \<Longrightarrow> t \<in> set (List.map_filter event_time es)"
proof -
  show mem: "t \<in> set (List.map_filter event_time es)" if "t \<in> set (List.map_filter f es)" for t es
    using that sub by (induction es) (auto simp: List.map_filter_simps split: option.splits if_splits)
  show "sorted (List.map_filter f es)"
    using sorted
  proof (induction es)
    case (Cons e es)
    have IH: "sorted (List.map_filter f es)"
      using Cons by (auto simp: List.map_filter_simps split: option.splits)
    show ?case
    proof (cases "f e")
      case (Some t)
      then have "event_time e = Some t" by (rule sub)
      with Cons.prems IH Some show ?thesis using mem [of _ es] by (auto simp: List.map_filter_simps)
    qed (use IH in \<open>simp add: List.map_filter_simps\<close>)
  qed (simp add: List.map_filter_simps)
qed

lemma at_event_time:
  "received_at e = Some t \<Longrightarrow> event_time e = Some t" "dropped_at e = Some t \<Longrightarrow> event_time e = Some t"
  "predicted_at e = Some t \<Longrightarrow> event_time e = Some t" "secondary_at e = Some t \<Longrightarrow> event_time e = Some t"
  by (cases e; simp)+

definition telemetry_holds :: "telemetry_event list \<Rightarrow> real \<Rightarrow> telemetry \<Rightarrow> bool" where
  "telemetry_holds es now tel \<longleftrightarrow>
     (let ok = time_window.window_of (outdated (tl_packet_window_seconds tel))
      in ok (List.map_filter received_at es) now (tl_packet_received_times tel) \<and>
         ok (List.map_filter dropped_at es) now (tl_packet_dropped_times tel) \<and>
         ok (List.map_filter predicted_at es) now (tl_ml_prediction_times tel) \<and>
         ok (List.map_filter secondary_at es) now (tl_secondary_model_prediction_times tel))"

lemma holds_later:
  assumes "0 < tl_packet_window_seconds tel" and "telemetry_holds es t tel" and "t \<le> now"
  shows "telemetry_holds es now tel"
  using assms time_window.window_of_later [OF time_window_outdated [OF assms(1)] _ assms(3)]
  by (simp add: telemetry_holds_def Let_def)

lemma holds_push:
  assumes pos: "0 < width" and "time_window.window_of (outdated width) (List.map_filter f es) now q"
    and "now \<le> t" and "f e = Some t" and "sorted (List.map_filter f (es @ [e]))"
  shows "time_window.window_of (outdated width) (List.map_filter f (es @ [e])) t (push_trim (outdated width) t t q)"
  using time_window.window_of_push [OF time_window_outdated [OF pos] assms(2), of t] assms(3-5)
  by (simp add: map_filter_append List.map_filter_simps)

lemma telemetry_holds_collect:
  assumes pos: "0 < w" and w: "tl_packet_window_seconds tel = w" and h: "telemetry_holds es t tel"
    and Some: "event_time e = Some t" and sorted: "sorted (List.map_filter event_time (es @ [e]))"
  shows "telemetry_holds (es @ [e]) t (collect e tel)"
proof -
  note o = sorted_at(1) [OF sorted]
  from h have h1: "time_window.window_of (outdated w) (List.map_filter received_at es) t (tl_packet_received_times tel)"
    and h2: "time_window.window_of (outdated w) (List.map_filter dropped_at es) t (tl_packet_dropped_times tel)"
    and h3: "time_window.window_of (outdated w) (List.map_filter predicted_at es) t (tl_ml_prediction_times tel)"
    and h4: "time_window.window_of (outdated w) (List.map_filter secondary_at es) t (tl_secondary_model_prediction_times tel)"
    by (simp_all add: telemetry_holds_def w Let_def)
  show ?thesis
  proof (cases e)
    case (Received u)
    with Some have e: "e = Received t" by simp
    have "time_window.window_of (outdated w) (List.map_filter received_at (es @ [e])) t
        (push_trim (outdated w) t t (tl_packet_received_times tel))"
      by (rule holds_push [OF pos h1 order_refl _ o]) (use e at_event_time in auto)
    with h2 h3 h4 show ?thesis
      by (simp add: telemetry_holds_def w e record_packet_received_def map_filter_append List.map_filter_simps)
  next
    case (Dropped u)
    with Some have e: "e = Dropped t" by simp
    have "time_window.window_of (outdated w) (List.map_filter dropped_at (es @ [e])) t
        (push_trim (outdated w) t t (tl_packet_dropped_times tel))"
      by (rule holds_push [OF pos h2 order_refl _ o]) (use e at_event_time in auto)
    with h1 h3 h4 show ?thesis
      by (simp add: telemetry_holds_def w e record_packet_dropped_def map_filter_append List.map_filter_simps)
  next
    case (MlPrediction u d)
    with Some have e: "e = MlPrediction t d" by simp
    have "time_window.window_of (outdated w) (List.map_filter predicted_at (es @ [e])) t
        (push_trim (outdated w) t t (tl_ml_prediction_times tel))"
      by (rule holds_push [OF pos h3 order_refl _ o]) (use e at_event_time in auto)
    with h1 h2 h4 show ?thesis
      by (simp add: telemetry_holds_def w e record_ml_prediction_def map_filter_append List.map_filter_simps)
  next
    case (SecondaryPrediction u)
    with Some have e: "e = SecondaryPrediction t" by simp
    have "time_window.window_of (outdated w) (List.map_filter secondary_at (es @ [e])) t
        (push_trim (outdated w) t t (tl_secondary_model_prediction_times tel))"
      by (rule holds_push [OF pos h4 order_refl _ o]) (use e at_event_time in auto)
    with h1 h2 h3 show ?thesis
      by (simp add: telemetry_holds_def w e record_secondary_model_prediction_def map_filter_append List.map_filter_simps)
  qed (use Some in simp)
qed

lemma telemetry_holds_collected:
  assumes pos: "0 < w"
  shows "sorted (List.map_filter event_time es) \<Longrightarrow> \<forall>t\<in>set (List.map_filter event_time es). t \<le> now \<Longrightarrow>
   telemetry_holds es now (collected es (telemetry_init w m))"
proof (induction es arbitrary: now rule: rev_induct)
  case Nil
  then show ?case
    using time_window.window_of_Nil [OF time_window_outdated [OF pos]]
    by (simp add: telemetry_holds_def collected_def telemetry_init_def List.map_filter_simps Let_def)
next
  case (snoc e es)
  let ?tel = "collected es (telemetry_init w m)"
  have w: "tl_packet_window_seconds ?tel = w" by (simp add: telemetry_init_def)
  have s: "sorted (List.map_filter event_time es)"
    using snoc.prems(1) by (simp add: map_filter_append sorted_append)
  show ?case
  proof (cases "event_time e")
    case None
    then have e: "e = Processed" by (cases e) auto
    then have "telemetry_holds es now ?tel"
      using snoc by (simp add: map_filter_append List.map_filter_simps)
    then show ?thesis
      by (simp add: e collected_snoc telemetry_holds_def map_filter_append List.map_filter_simps
          record_packet_processed_def)
  next
    case (Some t)
    then have "\<forall>u\<in>set (List.map_filter event_time es). u \<le> t" and le: "t \<le> now"
      using snoc.prems by (auto simp: map_filter_append List.map_filter_simps sorted_append)
    from snoc.IH [OF s this(1)] have h: "telemetry_holds es t ?tel" .
    have "telemetry_holds (es @ [e]) t (collect e ?tel)"
      by (rule telemetry_holds_collect [OF pos w h Some snoc.prems(1)])
    then show ?thesis
      unfolding collected_snoc using holds_later [OF _ _ le, of "collect e ?tel" "es @ [e]"] pos by simp
  qed
qed

definition processed_events :: "telemetry_event list \<Rightarrow> nat" where
  "processed_events es = length (filter (\<lambda>e. e = Processed) es)"

lemma collected_totals:
  "tl_packets_received_total (collected es (telemetry_init w m)) = length (List.map_filter received_at es)"
  "tl_packets_dropped_total (collected es (telemetry_init w m)) = length (List.map_filter dropped_at es)"
  "tl_ml_predictions_total (collected es (telemetry_init w m)) = length (List.map_filter predicted_at es)"
  "tl_secondary_model_predictions_total (collected es (telemetry_init w m)) =
     length (List.map_filter secondary_at es)"
  "tl_packets_processed_total (collected es (telemetry_init w m)) = processed_events es"
proof (induction es rule: rev_induct)
  case Nil
  {
    case 1
    show ?case by (simp add: collected_def telemetry_init_def List.map_filter_simps)
  next
    case 2
    show ?case by (simp add: collected_def telemetry_init_def List.map_filter_simps)
  next
    case 3
    show ?case by (simp add: collected_def telemetry_init_def List.map_filter_simps)
  next
    case 4
    show ?case by (simp add: collected_def telemetry_init_def List.map_filter_simps)
  next
    case 5
    show ?case by (simp add: collected_def telemetry_init_def processed_events_def)
  }
next
  case (snoc e es)
  note defs = collected_snoc record_packet_received_def record_packet_processed_def
    record_packet_dropped_def record_ml_prediction_def record_secondary_model_prediction_def
    map_filter_append List.map_filter_simps processed_events_def
  {
    case 1
    show ?case using snoc by (cases e) (simp_all add: defs)
  next
    case 2
    show ?case using snoc by (cases e) (simp_all add: defs)
  next
    case 3
    show ?case using snoc by (cases e) (simp_all add: defs)
  next
    case 4
    show ?case using snoc by (cases e) (simp_all add: defs)
  next
    case 5
    show ?case using snoc by (cases e) (simp_all add: defs)
  }
qed

subsection \<open>Property\<close>

text \<open>
  C30: A telemetry snapshot reports what happened. For events recorded in order of the clock, the
  totals of packets received, processed and dropped (which is also the total lost) and of the
  predictions of either model count all of them, the per-window figures count exactly those of the
  last \<open>packet_window_seconds\<close> before the snapshot, loss is reported if and only if a packet was
  dropped within that window, the queue figures are those of the queue, and at most \<open>max_exchange_count\<close> of the live sessions are listed.
\<close>
theorem telemetry_snapshot_exact:
  assumes pos: "0 < w" and sorted: "sorted (List.map_filter event_time es @ [now])"
    and snap: "(s, tel) = telemetry_snapshot now qsize maxsize builder (collected es (telemetry_init w m))"
  shows "sn_packets_received_total s = length (List.map_filter received_at es) \<and>
    sn_packets_received_per_30s s = length [t \<leftarrow> List.map_filter received_at es. now - w < t] \<and>
    sn_packets_processed_total s = processed_events es \<and>
    sn_packets_dropped_total s = length (List.map_filter dropped_at es) \<and>
    sn_packets_lost_total s = length (List.map_filter dropped_at es) \<and>
    (sn_packet_loss_detected s \<longleftrightarrow> (\<exists>t. Dropped t \<in> set es \<and> now - w < t)) \<and>
    sn_ml_predictions_total s = length (List.map_filter predicted_at es) \<and>
    sn_ml_predictions_per_30s s = length [t \<leftarrow> List.map_filter predicted_at es. now - w < t] \<and>
    sn_ml_processing_rate_per_30s s = sn_ml_predictions_per_30s s \<and>
    sn_secondary_model_predictions_total s = length (List.map_filter secondary_at es) \<and>
    sn_secondary_model_predictions_per_30s s = length [t \<leftarrow> List.map_filter secondary_at es. now - w < t] \<and>
    sn_packet_queue_size s = (case qsize of None \<Rightarrow> 0 | Some n \<Rightarrow> n) \<and> sn_packet_queue_maxsize s = max 0 maxsize \<and>
    sn_active_sessions s = length (sb_sessions builder) \<and>
    length (sn_active_network_exchanges s) = min m (length (sb_sessions builder))"
proof -
  let ?tel = "collected es (telemetry_init w m)"
  have o: "sorted (List.map_filter event_time es)" "\<forall>t\<in>set (List.map_filter event_time es). t \<le> now"
    using sorted by (simp_all add: sorted_append)
  have h: "telemetry_holds es now ?tel" by (rule telemetry_holds_collected [OF pos o])
  note tw = time_window_outdated [OF pos]
  note tr = time_window.window_of_trim [OF tw _ order_refl]
  have t: "trim (outdated w) now (tl_packet_received_times ?tel) =
      filter (\<lambda>t. \<not> outdated w now t) (List.map_filter received_at es)"
    "trim (outdated w) now (tl_packet_dropped_times ?tel) =
      filter (\<lambda>t. \<not> outdated w now t) (List.map_filter dropped_at es)"
    "trim (outdated w) now (tl_ml_prediction_times ?tel) =
      filter (\<lambda>t. \<not> outdated w now t) (List.map_filter predicted_at es)"
    "trim (outdated w) now (tl_secondary_model_prediction_times ?tel) =
      filter (\<lambda>t. \<not> outdated w now t) (List.map_filter secondary_at es)"
    using h sorted_at(1) [OF o(1)] at_event_time by (auto simp: telemetry_holds_def Let_def intro!: tr)
  have d: "List.map_filter dropped_at es = List.map_filter (\<lambda>e. case e of Dropped t \<Rightarrow> Some t | _ \<Rightarrow> None) es"
    by (rule arg_cong [where f = "\<lambda>f. List.map_filter f es"])
      (auto simp: fun_eq_iff split: telemetry_event.splits)
  have dropped: "t \<in> set (List.map_filter dropped_at es) \<longleftrightarrow> Dropped t \<in> set es" for t
    unfolding d by (induction es) (auto simp: List.map_filter_simps split: telemetry_event.splits)
  have f: "\<not> outdated w now t \<longleftrightarrow> now - w < t" for t by (auto simp: outdated_def)
  have s: "s = fst (telemetry_snapshot now qsize maxsize builder ?tel)" using snap by (metis fst_conv)
  have "0 < length (filter (\<lambda>t. now - w < t) (List.map_filter dropped_at es)) \<longleftrightarrow>
      (\<exists>t. Dropped t \<in> set es \<and> now - w < t)"
    using dropped by (auto simp: filter_empty_conv)
  then show ?thesis
    unfolding s by (simp add: telemetry_snapshot_def Let_def trim_windows_def t f collected_totals
        snapshot_sessions_def safe_qsize_def)
qed

theorem telemetry_snapshot_exact_witness:
  "sn_packet_loss_detected (fst (telemetry_snapshot 100 (Some 3) 10 builder_init
     (collected [Received 60, Dropped 65, Received 90] (telemetry_init 30 20)))) = False"
proof -
  obtain s tel where snap: "(s, tel) = telemetry_snapshot 100 (Some 3) 10 builder_init
     (collected [Received 60, Dropped 65, Received 90] (telemetry_init 30 20))"
    by (metis prod.collapse)
  have "\<not> sn_packet_loss_detected s"
    using telemetry_snapshot_exact [OF _ _ snap] by (simp add: List.map_filter_simps)
  then show ?thesis by (metis snap fst_conv)
qed

end
