(* ===== verification/Features.thy ===== *)
theory Features
  imports SessionBuilder
begin

text \<open>
  The feature engine (\<open>feature_engine\<close>, \<open>ml/features/schema.py\<close>): the \<open>safe_\<close> statistics, the
  session feature extractor with its check of the incremental statistics, and the bounded
  store of feature rows. The statistics of the standard library are taken exactly:
  \<open>mean\<close>, \<open>pvariance\<close> and \<open>pstdev\<close> are the mean, the population variance and its root.
\<close>

subsection \<open>Statistics (\<open>feature_engine/stats.py\<close>)\<close>

definition mean_of :: "real list \<Rightarrow> real" where
  "mean_of xs = sum_list xs / real (length xs)"

definition pvariance :: "real list \<Rightarrow> real" where
  "pvariance xs = (\<Sum>x\<leftarrow>xs. (x - mean_of xs)\<^sup>2) / real (length xs)"

definition safe_min :: "real list \<Rightarrow> real" where
  "safe_min xs = (if xs = [] then 0 else Min (set xs))"

definition safe_max :: "real list \<Rightarrow> real" where
  "safe_max xs = (if xs = [] then 0 else Max (set xs))"

definition safe_mean :: "real list \<Rightarrow> real" where
  "safe_mean xs = (if xs = [] then 0 else mean_of xs)"

definition safe_std :: "real list \<Rightarrow> real" where
  "safe_std xs = (if xs = [] then 0 else if length xs = 1 then 0 else sqrt (pvariance xs))"

definition safe_variance :: "real list \<Rightarrow> real" where
  "safe_variance xs = (if xs = [] then 0 else if length xs = 1 then 0 else pvariance xs)"

definition safe_rate :: "real \<Rightarrow> real option \<Rightarrow> real" where
  "safe_rate value duration =
     (case duration of None \<Rightarrow> 0 | Some d \<Rightarrow> if d \<le> 0 then 0 else value / d)"

record iat_stats =
  iat_min :: real
  iat_max :: real
  iat_mean :: real
  iat_std :: real
  iat_total :: real

definition no_iats :: iat_stats where
  "no_iats = \<lparr>iat_min = 0, iat_max = 0, iat_mean = 0, iat_std = 0, iat_total = 0\<rparr>"

fun gaps :: "real list \<Rightarrow> real list" where
  "gaps (x # y # ys) = (y - x) # gaps (y # ys)"
| "gaps _ = []"

definition safe_iat_stats :: "real list \<Rightarrow> iat_stats" where
  "safe_iat_stats ts =
     (if ts = [] \<or> length ts < 2 then no_iats
      else let ordered = sort ts; cleaned = filter (\<lambda>g. 0 \<le> g) (gaps ordered)
        in if cleaned = [] then no_iats
           else \<lparr>iat_min = safe_min cleaned, iat_max = safe_max cleaned,
             iat_mean = safe_mean cleaned, iat_std = safe_std cleaned,
             iat_total = sum_list cleaned\<rparr>)"

text \<open>
  \<open>float(v)\<close>: \<open>None\<close> where it raises. Parsing a float from a string is the argument \<open>parse\<close>.
\<close>

fun py_float :: "(string \<Rightarrow> pyfloat option) \<Rightarrow> json \<Rightarrow> pyfloat option" where
  "py_float parse (JInt i) = Some (Fin (of_int i))"
| "py_float parse (JBool b) = Some (Fin (if b then 1 else 0))"
| "py_float parse (JFloat f) = Some f"
| "py_float parse (JStr s) = parse s"
| "py_float parse _ = None"

definition sanitize_value :: "(string \<Rightarrow> pyfloat option) \<Rightarrow> json \<Rightarrow> real" where
  "sanitize_value parse v = (case py_float parse v of Some (Fin x) \<Rightarrow> x | _ \<Rightarrow> 0)"

definition sanitize_feature_dict ::
    "(string \<Rightarrow> pyfloat option) \<Rightarrow> (string, json) pydict \<Rightarrow> (string, real) pydict" where
  "sanitize_feature_dict parse d = map (\<lambda>(k, v). (k, sanitize_value parse v)) d"

subsection \<open>The schema\<close>

definition FEATURE_COLUMNS :: "string list" where
  "FEATURE_COLUMNS = [
    ''dst_port'', ''protocol'', ''flow_duration'', ''total_fwd_packets'', ''total_fwd_bytes'',
    ''flow_bytes_per_sec'', ''flow_packets_per_sec'', ''packet_len_min'', ''packet_len_max'',
    ''packet_len_mean'', ''packet_len_std'', ''packet_len_variance'', ''avg_packet_size'',
    ''fwd_packet_len_min'', ''fwd_packet_len_max'', ''fwd_packet_len_mean'',
    ''fwd_packet_len_std'', ''flow_iat_min'', ''flow_iat_max'', ''flow_iat_mean'',
    ''flow_iat_std'', ''fwd_iat_min'', ''fwd_iat_max'', ''fwd_iat_mean'', ''fwd_iat_std'',
    ''fwd_iat_total'', ''fwd_packets_per_sec'', ''fin_flag_count'', ''syn_flag_count'',
    ''rst_flag_count'', ''psh_flag_count'', ''ack_flag_count'', ''urg_flag_count'',
    ''fwd_header_length'', ''init_win_bytes_forward'', ''act_data_pkt_fwd'',
    ''min_seg_size_forward'']"

definition LABEL_COLUMN :: string where
  "LABEL_COLUMN = ''Attack Type''"

subsection \<open>The extractor\<close>

definition lengths :: "int list \<Rightarrow> real list" where
  "lengths = map of_int"

definition some_int :: "int option \<Rightarrow> json" where
  "some_int v = JInt (case v of None \<Rightarrow> 0 | Some i \<Rightarrow> i)"

abbreviation num :: "real \<Rightarrow> json" where
  "num x \<equiv> JFloat (Fin x)"

definition feature_values :: "traffic_session \<Rightarrow> (string, json) pydict" where
  "feature_values s =
     (let duration = s_duration s;
          lens = lengths (s_packet_lengths s);
          fwd = lengths (s_fwd_packet_lengths s);
          flow_iat = safe_iat_stats (s_packet_timestamps s);
          fwd_iat = safe_iat_stats (s_fwd_packet_timestamps s)
      in [(''dst_port'', some_int (s_dst_port s)),
          (''protocol'', JInt (s_protocol s)),
          (''flow_duration'', num duration),
          (''total_fwd_packets'', JInt (int (s_fwd_packet_count s))),
          (''total_fwd_bytes'', JInt (s_fwd_total_bytes s)),
          (''flow_bytes_per_sec'', num (safe_rate (of_int (s_total_bytes s)) (Some duration))),
          (''flow_packets_per_sec'', num (safe_rate (real (s_packet_count s)) (Some duration))),
          (''packet_len_min'', num (safe_min lens)),
          (''packet_len_max'', num (safe_max lens)),
          (''packet_len_mean'', num (safe_mean lens)),
          (''packet_len_std'', num (safe_std lens)),
          (''packet_len_variance'', num (safe_variance lens)),
          (''avg_packet_size'', num (average_packet_size s)),
          (''fwd_packet_len_min'', num (safe_min fwd)),
          (''fwd_packet_len_max'', num (safe_max fwd)),
          (''fwd_packet_len_mean'', num (safe_mean fwd)),
          (''fwd_packet_len_std'', num (safe_std fwd)),
          (''flow_iat_min'', num (iat_min flow_iat)),
          (''flow_iat_max'', num (iat_max flow_iat)),
          (''flow_iat_mean'', num (iat_mean flow_iat)),
          (''flow_iat_std'', num (iat_std flow_iat)),
          (''fwd_iat_min'', num (iat_min fwd_iat)),
          (''fwd_iat_max'', num (iat_max fwd_iat)),
          (''fwd_iat_mean'', num (iat_mean fwd_iat)),
          (''fwd_iat_std'', num (iat_std fwd_iat)),
          (''fwd_iat_total'', num (iat_total fwd_iat)),
          (''fwd_packets_per_sec'', num (safe_rate (real (s_fwd_packet_count s)) (Some duration))),
          (''fin_flag_count'', JInt (int (fc_fin (s_flag_counts s)))),
          (''syn_flag_count'', JInt (int (fc_syn (s_flag_counts s)))),
          (''rst_flag_count'', JInt (int (fc_rst (s_flag_counts s)))),
          (''psh_flag_count'', JInt (int (fc_psh (s_flag_counts s)))),
          (''ack_flag_count'', JInt (int (fc_ack (s_flag_counts s)))),
          (''urg_flag_count'', JInt (int (fc_urg (s_flag_counts s)))),
          (''fwd_header_length'', JInt (s_fwd_header_length s)),
          (''init_win_bytes_forward'', some_int (s_init_win_bytes_forward s)),
          (''act_data_pkt_fwd'', JInt (int (s_act_data_pkt_fwd s))),
          (''min_seg_size_forward'', some_int (s_min_seg_size_forward s))])"

definition is_close :: "real \<Rightarrow> real \<Rightarrow> bool" where
  "is_close a b = (a = b \<or> \<bar>a - b\<bar> \<le> max ((1 / 1000000) * max \<bar>a\<bar> \<bar>b\<bar>) (1 / 1000000))"

definition incremental_values :: "traffic_session \<Rightarrow> (string, real) pydict" where
  "incremental_values s =
     (let r = s_packet_length_stats s; f = s_fwd_packet_length_stats s
      in [(''packet_len_min'', rs_get_min r), (''packet_len_max'', rs_get_max r),
          (''packet_len_mean'', rs_get_mean r), (''packet_len_std'', rs_std r),
          (''packet_len_variance'', rs_variance r),
          (''fwd_packet_len_min'', rs_get_min f), (''fwd_packet_len_max'', rs_get_max f),
          (''fwd_packet_len_mean'', rs_get_mean f), (''fwd_packet_len_std'', rs_std f)])"

text \<open>The fields for which \<open>_validate_against_incremental_stats\<close> logs a divergence.\<close>

definition validate_against_incremental_stats ::
    "traffic_session \<Rightarrow> (string, json) pydict \<Rightarrow> string list" where
  "validate_against_incremental_stats s values =
     map fst (filter (\<lambda>(name, inc).
       \<not> is_close (sanitize_value (\<lambda>_. None) (the (map_of values name))) inc) (incremental_values s))"

text \<open>The row and the fields logged, with the \<open>SMARTIDS_FEATURE_EXTRACTION_VALIDATE\<close> switch.\<close>

definition validate_switch :: "environ \<Rightarrow> bool" where
  "validate_switch env =
     (lower (strip (case env ''SMARTIDS_FEATURE_EXTRACTION_VALIDATE'' of None \<Rightarrow> [] | Some v \<Rightarrow> v))
        \<in> {''1'', ''true'', ''yes'', ''on''})"

definition extract_features ::
    "(string \<Rightarrow> pyfloat option) \<Rightarrow> bool \<Rightarrow> traffic_session \<Rightarrow> (string, real) pydict \<times> string list" where
  "extract_features parse validate s =
     (let values = feature_values s;
          logged = (if validate then validate_against_incremental_stats s values else []);
          sanitized = sanitize_feature_dict parse values
      in (map (\<lambda>c. (c, case map_of sanitized c of None \<Rightarrow> 0 | Some x \<Rightarrow> x)) FEATURE_COLUMNS, logged))"

subsection \<open>The feature store: \<open>deque(maxlen=max_size)\<close>\<close>

record 'a feature_store =
  fs_max_size :: nat
  fs_features :: "'a list"

definition feature_store_init :: "nat \<Rightarrow> 'a feature_store" where
  "feature_store_init n = \<lparr>fs_max_size = n, fs_features = []\<rparr>"

definition fs_add :: "'a \<Rightarrow> 'a feature_store \<Rightarrow> 'a feature_store" where
  "fs_add x st = st\<lparr>fs_features := last_n (fs_max_size st) (fs_features st @ [x])\<rparr>"

definition fs_get_all :: "'a feature_store \<Rightarrow> 'a list" where
  "fs_get_all st = fs_features st"

definition fs_size :: "'a feature_store \<Rightarrow> nat" where
  "fs_size st = length (fs_features st)"

text \<open>The store keeps the newest rows: it provides the contract of \<^const>\<open>newest_store\<close>.\<close>

interpretation rows: newest_store fs_max_size fs_features fs_add
  by unfold_locales (simp_all add: fs_add_def)

subsection \<open>Facts about the statistics\<close>

lemma mean_of_mult: "xs \<noteq> [] \<Longrightarrow> real (length xs) * mean_of xs = sum_list xs"
  by (simp add: mean_of_def)

lemma rs_mean_eq: "xs \<noteq> [] \<Longrightarrow> rs_mean (rs_of xs) = mean_of xs"
  using rs_mean_of [of xs] by (simp add: mean_of_def field_simps)

lemma rs_m2_eq: "xs \<noteq> [] \<Longrightarrow> rs_m2 (rs_of xs) = real (length xs) * pvariance xs"
  by (simp add: rs_m2_of rs_mean_eq pvariance_def)

lemma sum_list_bounds:
  fixes xs :: "real list"
  assumes "\<And>x. x \<in> set xs \<Longrightarrow> a \<le> x" and "\<And>x. x \<in> set xs \<Longrightarrow> x \<le> b"
  shows "real (length xs) * a \<le> sum_list xs \<and> sum_list xs \<le> real (length xs) * b"
  using assms by (induction xs) (auto simp: algebra_simps add_mono)

lemma mean_of_bounds:
  assumes "xs \<noteq> []" shows "Min (set xs) \<le> mean_of xs \<and> mean_of xs \<le> Max (set xs)"
  using sum_list_bounds [of xs "Min (set xs)" "Max (set xs)"] assms
  by (simp add: mean_of_def pos_le_divide_eq pos_divide_le_eq mult.commute)

lemma pvariance_nonneg: "0 \<le> pvariance xs"
  unfolding pvariance_def by (intro divide_nonneg_nonneg sum_list_nonneg) auto

text \<open>The variance is bounded by the distances of the mean to both ends (Bhatia and Davis).\<close>

lemma sum_list_ends:
  fixes xs :: "real list"
  shows "(\<Sum>x\<leftarrow>xs. (b - x) * (x - a)) =
    (a + b) * sum_list xs - (\<Sum>x\<leftarrow>xs. x\<^sup>2) - real (length xs) * a * b"
  by (induction xs) (auto simp: power2_eq_square algebra_simps)

lemma pvariance_bound:
  assumes ne: "xs \<noteq> []"
  shows "pvariance xs \<le> (Max (set xs) - mean_of xs) * (mean_of xs - Min (set xs))"
proof -
  let ?a = "Min (set xs)" and ?b = "Max (set xs)" and ?m = "mean_of xs" and ?n = "real (length xs)"
  have S: "sum_list xs = ?n * ?m" using mean_of_mult [OF ne] by simp
  have "0 \<le> (\<Sum>x\<leftarrow>xs. (?b - x) * (x - ?a))"
    by (intro sum_list_nonneg) auto
  also have "\<dots> = ?n * ((?b - ?m) * (?m - ?a)) - (\<Sum>x\<leftarrow>xs. (x - ?m)\<^sup>2)"
    unfolding sum_list_ends sum_list_sq_dev S by (simp add: power2_eq_square algebra_simps)
  finally show ?thesis
    using ne by (simp add: pvariance_def pos_divide_le_eq mult.commute)
qed

lemma safe_stats_of_accumulator:
  "rs_get_min (rs_of xs) = safe_min xs" "rs_get_max (rs_of xs) = safe_max xs"
  "rs_get_mean (rs_of xs) = safe_mean xs" "rs_variance (rs_of xs) = safe_variance xs"
  "rs_std (rs_of xs) = safe_std xs"
proof -
  show v: "rs_variance (rs_of xs) = safe_variance xs"
  proof (cases "xs = []")
    case True
    then show ?thesis by (simp add: rs_variance_def safe_variance_def rs_init_def)
  next
    case False
    then show ?thesis
      by (cases xs rule: gaps.cases) (auto simp: rs_variance_def safe_variance_def rs_m2_eq)
  qed
  then show "rs_std (rs_of xs) = safe_std xs"
    by (simp add: rs_std_def safe_std_def safe_variance_def)
  show "rs_get_min (rs_of xs) = safe_min xs" "rs_get_max (rs_of xs) = safe_max xs"
    "rs_get_mean (rs_of xs) = safe_mean xs"
    by (cases "xs = []"; simp add: rs_get_min_def rs_get_max_def rs_get_mean_def safe_min_def
        safe_max_def safe_mean_def rs_min_of rs_max_of rs_mean_eq; simp add: rs_init_def)+
qed

lemma safe_std_variance: "(safe_std xs)\<^sup>2 = safe_variance xs" "0 \<le> safe_std xs"
  by (simp_all add: safe_std_def safe_variance_def pvariance_nonneg)

lemma safe_stats_bounds:
  "safe_min xs \<le> safe_mean xs" "safe_mean xs \<le> safe_max xs"
  "safe_variance xs \<le> (safe_max xs - safe_mean xs) * (safe_mean xs - safe_min xs)"
  using mean_of_bounds [of xs] pvariance_bound [of xs]
  by (auto simp: safe_min_def safe_mean_def safe_max_def safe_variance_def)

lemma safe_rate_times: "0 < d \<Longrightarrow> safe_rate v (Some d) * d = v"
  by (simp add: safe_rate_def)

subsection \<open>Inter-arrival times\<close>

lemma length_gaps [simp]: "length (gaps ts) = length ts - 1"
  by (induction ts rule: gaps.induct) auto

lemma gaps_nonneg: "sorted ts \<Longrightarrow> g \<in> set (gaps ts) \<Longrightarrow> 0 \<le> g"
  by (induction ts rule: gaps.induct) auto

lemma sum_gaps: "ts \<noteq> [] \<Longrightarrow> sum_list (gaps ts) = last ts - hd ts"
  by (induction ts rule: gaps.induct) auto

lemma gaps_clean: "sorted ts \<Longrightarrow> filter (\<lambda>g. 0 \<le> g) (gaps ts) = gaps ts"
  by (simp add: filter_id_conv gaps_nonneg)

lemma sorted_hd_Min: "ts \<noteq> [] \<Longrightarrow> sorted ts \<Longrightarrow> hd ts = (Min (set ts) :: real)"
  by (cases ts) (auto intro!: Min_eqI [symmetric])

lemma sorted_last_Max: "ts \<noteq> [] \<Longrightarrow> sorted ts \<Longrightarrow> last ts = (Max (set ts) :: real)"
  by (cases ts rule: rev_cases) (auto simp: sorted_append intro!: Max_eqI [symmetric])

lemma sum_gaps_sort:
  "ts \<noteq> [] \<Longrightarrow> sum_list (gaps (sort ts)) = Max (set ts) - Min (set ts)"
  using sorted_hd_Min [of "sort ts"] sorted_last_Max [of "sort ts"] sum_gaps [of "sort ts"]
  by (metis set_sort sort_key_simps(1) sorted_sort length_0_conv length_sort)

lemma safe_iat_stats_eq:
  assumes "2 \<le> length ts"
  shows "safe_iat_stats ts = \<lparr>iat_min = safe_min (gaps (sort ts)), iat_max = safe_max (gaps (sort ts)),
     iat_mean = safe_mean (gaps (sort ts)), iat_std = safe_std (gaps (sort ts)),
     iat_total = sum_list (gaps (sort ts))\<rparr>"
proof -
  have "gaps (sort ts) \<noteq> []"
    using assms by (metis length_gaps length_sort list.size(3) One_nat_def Suc_1 diff_is_0_eq
        not_less_eq_eq)
  with assms show ?thesis
    unfolding safe_iat_stats_def Let_def gaps_clean [OF sorted_sort] by auto
qed

subsection \<open>The row of a session\<close>

lemma map_lookup_self:
  "wf_dict d \<Longrightarrow> map (\<lambda>c. (c, case map_of d c of None \<Rightarrow> x | Some y \<Rightarrow> y)) (dkeys d) = d"
  by (auto intro!: map_idI split: option.splits dest: map_of_is_SomeI)

lemma dkeys_feature_values: "dkeys (feature_values s) = FEATURE_COLUMNS"
  by (simp add: feature_values_def Let_def FEATURE_COLUMNS_def)

lemma distinct_FEATURE_COLUMNS: "distinct FEATURE_COLUMNS"
  by (simp add: FEATURE_COLUMNS_def)

lemma dkeys_sanitize [simp]: "dkeys (sanitize_feature_dict parse d) = dkeys d"
  by (simp add: sanitize_feature_dict_def case_prod_beta)

lemma extract_row:
  "fst (extract_features parse v s) = sanitize_feature_dict parse (feature_values s)"
proof -
  have k: "dkeys (sanitize_feature_dict parse (feature_values s)) = FEATURE_COLUMNS"
    by (simp only: dkeys_sanitize dkeys_feature_values)
  show ?thesis
    using map_lookup_self [of "sanitize_feature_dict parse (feature_values s)" 0]
    unfolding k using distinct_FEATURE_COLUMNS by (simp add: extract_features_def Let_def)
qed

lemma row_lookup:
  "map_of (fst (extract_features parse v s)) c =
     map_option (sanitize_value parse) (map_of (feature_values s) c)"
  unfolding extract_row sanitize_feature_dict_def by (simp add: map_of_map)

lemma sanitize_simps [simp]:
  "sanitize_value parse (num x) = x" "sanitize_value parse (JInt i) = of_int i"
  by (simp_all add: sanitize_value_def)

lemma feature_lookups:
  "map_of (feature_values s) ''packet_len_min'' = Some (num (safe_min (lengths (s_packet_lengths s))))"
  "map_of (feature_values s) ''packet_len_max'' = Some (num (safe_max (lengths (s_packet_lengths s))))"
  "map_of (feature_values s) ''packet_len_mean'' = Some (num (safe_mean (lengths (s_packet_lengths s))))"
  "map_of (feature_values s) ''packet_len_std'' = Some (num (safe_std (lengths (s_packet_lengths s))))"
  "map_of (feature_values s) ''packet_len_variance'' =
     Some (num (safe_variance (lengths (s_packet_lengths s))))"
  "map_of (feature_values s) ''fwd_packet_len_min'' =
     Some (num (safe_min (lengths (s_fwd_packet_lengths s))))"
  "map_of (feature_values s) ''fwd_packet_len_max'' =
     Some (num (safe_max (lengths (s_fwd_packet_lengths s))))"
  "map_of (feature_values s) ''fwd_packet_len_mean'' =
     Some (num (safe_mean (lengths (s_fwd_packet_lengths s))))"
  "map_of (feature_values s) ''fwd_packet_len_std'' =
     Some (num (safe_std (lengths (s_fwd_packet_lengths s))))"
  by (simp_all add: feature_values_def Let_def)

lemma is_close_refl [simp]: "is_close a a"
  by (simp add: is_close_def)

lemma validate_silent:
  assumes "s_packet_length_stats s = rs_of (lengths (s_packet_lengths s))"
    and "s_fwd_packet_length_stats s = rs_of (lengths (s_fwd_packet_lengths s))"
  shows "validate_against_incremental_stats s (feature_values s) = []"
  using assms
  by (simp add: validate_against_incremental_stats_def incremental_values_def Let_def
      feature_lookups safe_stats_of_accumulator)

lemma sum_lengths: "sum_list (lengths ls) = of_int (sum_list ls)"
  by (induction ls) (auto simp: lengths_def)

lemma session_accumulators:
  assumes "same_key qs"
  shows "s_packet_length_stats (session_of qs) = rs_of (lengths (s_packet_lengths (session_of qs)))"
    "s_fwd_packet_length_stats (session_of qs) =
       rs_of (lengths (s_fwd_packet_lengths (session_of qs)))"
  by (simp_all add: session_totals [OF assms] session_forward_totals [OF assms] lengths_def comp_def)

lemma session_average:
  assumes "same_key qs"
  shows "average_packet_size (session_of qs) = safe_mean (lengths (s_packet_lengths (session_of qs)))"
proof -
  have "qs \<noteq> []" using assms by simp
  then show ?thesis
    unfolding average_packet_size_def safe_mean_def mean_of_def sum_lengths
      session_totals [OF assms] by (simp add: lengths_def)
qed

subsection \<open>Properties\<close>

text \<open>
  C22: The incremental (Welford) statistics kept on a session agree with the statistics
  recomputed from the packet lists, for every session a reachable builder holds or has handed
  out: the divergence check of the extractor logs no field.
\<close>
theorem incremental_stats_agree:
  assumes "builder_run ps fs b"
    and "s \<in> snd ` set (sb_sessions b) \<union> f_session ` set (fs @ sb_pending_finalizations b)"
  shows "snd (extract_features parse True s) = []"
proof -
  obtain qs where "same_key qs" "s = session_of qs" using reachable_session [OF assms] .
  then have "validate_against_incremental_stats s (feature_values s) = []"
    by (simp add: validate_silent session_accumulators)
  then show ?thesis by (simp add: extract_features_def Let_def)
qed

theorem incremental_stats_agree_witness:
  "snd (extract_features (\<lambda>_. None) True (session_of [sample_packet])) = []"
  by (rule incremental_stats_agree [OF run_one [of sample_packet]]) (simp add: process_first_session)

text \<open>
  A feature row has exactly the 37 schema columns, in schema order and without repetition:
  the extractor computes every column of the schema, so that none takes the default 0.0, and it
  computes no column the schema drops; each column holds the sanitized computed value.
\<close>
lemma feature_row_schema:
  "map fst (fst (extract_features parse v s)) = FEATURE_COLUMNS \<and>
   map fst (feature_values s) = FEATURE_COLUMNS \<and>
   distinct FEATURE_COLUMNS \<and> length FEATURE_COLUMNS = 37 \<and>
   map_of (fst (extract_features parse v s)) c =
     map_option (sanitize_value parse) (map_of (feature_values s) c)"
  using dkeys_feature_values [of s] distinct_FEATURE_COLUMNS row_lookup [of parse v s c]
  by (simp add: extract_row) (simp add: FEATURE_COLUMNS_def)

text \<open>
  The length statistics of a row are consistent: the mean lies between the minimum and the
  maximum, equals the average packet size and the standard deviation squares to the variance,
  which is at most \<open>(max - mean) * (mean - min)\<close>; and both flow rates give back the totals when
  multiplied by a positive duration, and are 0 for a session without duration.
\<close>
theorem feature_row_statistics:
  assumes "builder_run ps fs b"
    and "s \<in> snd ` set (sb_sessions b) \<union> f_session ` set (fs @ sb_pending_finalizations b)"
    and x: "x = (\<lambda>c. the (map_of (fst (extract_features parse v s)) c))"
  shows "x ''packet_len_min'' \<le> x ''packet_len_mean'' \<and> x ''packet_len_mean'' \<le> x ''packet_len_max'' \<and>
    x ''avg_packet_size'' = x ''packet_len_mean'' \<and>
    0 \<le> x ''packet_len_std'' \<and> (x ''packet_len_std'')\<^sup>2 = x ''packet_len_variance'' \<and>
    x ''packet_len_variance'' \<le>
      (x ''packet_len_max'' - x ''packet_len_mean'') * (x ''packet_len_mean'' - x ''packet_len_min'') \<and>
    (if 0 < x ''flow_duration'' then
       x ''flow_bytes_per_sec'' * x ''flow_duration'' = of_int (s_total_bytes s) \<and>
       x ''flow_packets_per_sec'' * x ''flow_duration'' = real (s_packet_count s)
     else x ''flow_duration'' = 0 \<and> x ''flow_bytes_per_sec'' = 0 \<and> x ''flow_packets_per_sec'' = 0)"
proof -
  obtain qs where "same_key qs" "s = session_of qs" using reachable_session [OF assms(1,2)] .
  then have avg: "average_packet_size s = safe_mean (lengths (s_packet_lengths s))"
    by (simp add: session_average)
  have len: "x ''packet_len_min'' = safe_min (lengths (s_packet_lengths s))"
    "x ''packet_len_max'' = safe_max (lengths (s_packet_lengths s))"
    "x ''packet_len_mean'' = safe_mean (lengths (s_packet_lengths s))"
    "x ''packet_len_std'' = safe_std (lengths (s_packet_lengths s))"
    "x ''packet_len_variance'' = safe_variance (lengths (s_packet_lengths s))"
    "x ''avg_packet_size'' = average_packet_size s"
    "x ''flow_duration'' = s_duration s"
    "x ''flow_bytes_per_sec'' = safe_rate (of_int (s_total_bytes s)) (Some (s_duration s))"
    "x ''flow_packets_per_sec'' = safe_rate (real (s_packet_count s)) (Some (s_duration s))"
    by (simp_all add: x row_lookup feature_lookups) (simp_all add: feature_values_def Let_def)
  show ?thesis
    unfolding len avg
    using safe_stats_bounds safe_std_variance
    by (auto simp: safe_rate_def not_less intro: antisym)
qed

theorem feature_row_statistics_witness:
  "\<exists>x. x = (\<lambda>c. the (map_of (fst (extract_features (\<lambda>_. None) False (session_of [sample_packet]))) c)) \<and>
     x ''packet_len_min'' \<le> x ''packet_len_mean'' \<and> x ''avg_packet_size'' = x ''packet_len_mean''"
  using feature_row_statistics [OF run_one [of sample_packet], of "session_of [sample_packet]"]
  by (simp add: process_first_session)

text \<open>
  Inter-arrival statistics: for at least two timestamps, in any order, every gap of the sorted
  timestamps is counted, the total telescopes to the span from the earliest to the latest, and
  the mean is the span over the number of gaps; fewer timestamps give zeros.
\<close>
lemma iat_stats_span:
  "(if 2 \<le> length ts then
      iat_total (safe_iat_stats ts) = Max (set ts) - Min (set ts) \<and>
      iat_mean (safe_iat_stats ts) = (Max (set ts) - Min (set ts)) / real (length ts - 1) \<and>
      0 \<le> iat_min (safe_iat_stats ts) \<and>
      iat_min (safe_iat_stats ts) \<le> iat_mean (safe_iat_stats ts) \<and>
      iat_mean (safe_iat_stats ts) \<le> iat_max (safe_iat_stats ts) \<and>
      iat_max (safe_iat_stats ts) \<le> iat_total (safe_iat_stats ts)
    else safe_iat_stats ts = no_iats)"
proof (cases "2 \<le> length ts")
  case True
  let ?g = "gaps (sort ts)"
  from True have ne: "ts \<noteq> []" and g: "?g \<noteq> []"
    by (auto simp flip: length_greater_0_conv)
  have pos: "\<forall>x\<in>set ?g. 0 \<le> x" using gaps_nonneg [of "sort ts"] by auto
  then have "Max (set ?g) \<le> sum_list ?g"
    using g by (meson List.finite_set Max_in member_le_sum_list set_empty)
  moreover have "0 \<le> Min (set ?g)" using g pos by simp
  ultimately show ?thesis
    using True g mean_of_bounds [OF g]
    by (simp add: safe_iat_stats_eq safe_min_def safe_max_def safe_mean_def sum_gaps_sort [OF ne])
      (simp add: mean_of_def sum_gaps_sort [OF ne])
next
  case False
  then show ?thesis by (simp add: safe_iat_stats_def)
qed

end
