(* ===== verification/Publisher.thy ===== *)
theory Publisher
  imports PyRuntime "HOL-Library.Multiset"
begin

text \<open>
  Delivery to the backend (\<open>packet_capture/forwarding\<close>): the disk-backed spill store of a
  forwarder and the background publisher with its bounded queue. The spill file is the list of
  its lines, each given by what decoding it finds: \<open>Dumped d\<close> is the line dumped for a payload \<open>d\<close>, \<open>Other v\<close>
  a JSON value that is not an object, \<open>Garbage\<close> a line that is not JSON, \<open>Blank\<close> a blank one.
  One worker thread runs the publisher; its steps interleave with the submissions.
\<close>

datatype 'p spill_line = Dumped 'p | Other json | Garbage string | Blank

subsection \<open>The spill store\<close>

text \<open>The file is \<open>None\<close> when it does not exist or cannot be read.\<close>

record 'p spill_store =
  ds_max_entries :: nat
  ds_count :: nat
  ds_file :: "'p spill_line list option"

definition try_decode :: "'p spill_line \<Rightarrow> 'p option \<times> bool" where
  "try_decode line = (case line of
       Blank \<Rightarrow> (None, False)
     | Garbage s \<Rightarrow> (None, True)
     | Other v \<Rightarrow> (None, True)
     | Dumped d \<Rightarrow> (Some d, False))"

definition decode_line :: "'p spill_line \<Rightarrow> 'p option" where
  "decode_line line = fst (try_decode line)"

definition read_lines :: "'p spill_line list option \<Rightarrow> 'p spill_line list" where
  "read_lines file = (case file of None \<Rightarrow> [] | Some lines \<Rightarrow> filter (\<lambda>l. l \<noteq> Blank) lines)"

definition spill_init :: "int \<Rightarrow> 'p spill_line list option \<Rightarrow> 'p spill_store" where
  "spill_init max_entries file =
     \<lparr>ds_max_entries = nat (max 1 max_entries), ds_count = length (read_lines file), ds_file = file\<rparr>"

definition compact :: "'p spill_store \<Rightarrow> 'p spill_store" where
  "compact st =
     (let trimmed = last_n (ds_max_entries st) (read_lines (ds_file st))
      in st\<lparr>ds_file := Some trimmed, ds_count := length trimmed\<rparr>)"

definition spill_append :: "'p \<Rightarrow> 'p spill_store \<Rightarrow> 'p spill_store" where
  "spill_append p st =
     (let st1 = st\<lparr>ds_file := Some ((case ds_file st of None \<Rightarrow> [] | Some ls \<Rightarrow> ls) @ [Dumped p]),
                   ds_count := ds_count st + 1\<rparr>
      in if real (ds_max_entries st) * (11 / 10) < real (ds_count st1) then compact st1 else st1)"

definition peek_batch :: "nat \<Rightarrow> 'p spill_store \<Rightarrow> 'p list" where
  "peek_batch n st = take n (List.map_filter decode_line (read_lines (ds_file st)))"

text \<open>The index after the \<open>n\<close>-th valid line, or the length when there are fewer.\<close>

fun cut_index :: "nat \<Rightarrow> 'p spill_line list \<Rightarrow> nat" where
  "cut_index n [] = 0"
| "cut_index n (l # ls) =
     (if decode_line l = None then Suc (cut_index n ls)
      else if n \<le> 1 then 1 else Suc (cut_index (n - 1) ls))"

definition discard_batch :: "nat \<Rightarrow> 'p spill_store \<Rightarrow> 'p spill_store" where
  "discard_batch n st =
     (if n = 0 then st
      else let lines = read_lines (ds_file st); remaining = drop (cut_index n lines) lines
        in st\<lparr>ds_file := Some remaining, ds_count := length remaining\<rparr>)"

definition spill_is_empty :: "'p spill_store \<Rightarrow> bool" where
  "spill_is_empty st = (ds_count st = 0)"

subsection \<open>The publisher\<close>

datatype publish_outcome = Returned bool | Raised

text \<open>
  \<open>pb_delivered\<close> lists the payloads whose publication was confirmed; it records what the code does
  and no step reads it. \<open>publish\<close>, an argument of the steps, is the callable of the publisher.
\<close>

record ('p, 'w) publisher =
  pb_queue :: "'p list"
  pb_maxsize :: nat
  pb_dropped :: nat
  pb_spill :: "'p spill_store option"
  pb_world :: 'w
  pb_delivered :: "'p list"

type_synonym ('p, 'w) publish = "'p \<Rightarrow> 'w \<Rightarrow> publish_outcome \<times> 'w"

definition SPILL_DRAIN_BATCH_SIZE :: nat where "SPILL_DRAIN_BATCH_SIZE = 50"

definition publisher_init :: "int \<Rightarrow> 'p spill_store option \<Rightarrow> 'w \<Rightarrow> ('p, 'w) publisher" where
  "publisher_init max_queue_size spill w = \<lparr>pb_queue = [], pb_maxsize = nat (max 1 max_queue_size),
     pb_dropped = 0, pb_spill = spill, pb_world = w, pb_delivered = []\<rparr>"

definition submit :: "'p \<Rightarrow> ('p, 'w) publisher \<Rightarrow> bool \<times> ('p, 'w) publisher" where
  "submit p b =
     (if length (pb_queue b) < pb_maxsize b then (True, b\<lparr>pb_queue := pb_queue b @ [p]\<rparr>)
      else (False, b\<lparr>pb_dropped := pb_dropped b + 1\<rparr>))"

definition confirmed :: "publish_outcome \<Rightarrow> bool" where
  "confirmed r = (case r of Returned ok \<Rightarrow> ok | Raised \<Rightarrow> False)"

definition attempt :: "('p, 'w) publish \<Rightarrow> 'p \<Rightarrow> ('p, 'w) publisher \<Rightarrow> bool \<times> ('p, 'w) publisher" where
  "attempt publish p b =
     (case publish p (pb_world b) of (r, w) \<Rightarrow>
        if confirmed r then (True, b\<lparr>pb_world := w, pb_delivered := pb_delivered b @ [p]\<rparr>)
        else (False, b\<lparr>pb_world := w\<rparr>))"

fun replay :: "('p, 'w) publish \<Rightarrow> 'p list \<Rightarrow> nat \<Rightarrow> ('p, 'w) publisher \<Rightarrow> nat \<times> ('p, 'w) publisher" where
  "replay publish [] n b = (n, b)"
| "replay publish (p # ps) n b =
     (case attempt publish p b of (ok, b1) \<Rightarrow> if ok then replay publish ps (n + 1) b1 else (n, b1))"

definition drain_spill_backlog :: "('p, 'w) publish \<Rightarrow> 'p spill_store \<Rightarrow> ('p, 'w) publisher \<Rightarrow> ('p, 'w) publisher" where
  "drain_spill_backlog publish st b =
     (case replay publish (peek_batch SPILL_DRAIN_BATCH_SIZE st) 0 b of (delivered_count, b1) \<Rightarrow>
        if 0 < delivered_count then b1\<lparr>pb_spill := Some (discard_batch delivered_count st)\<rparr> else b1)"

text \<open>One turn of the worker's loop; with an empty queue the worker waits.\<close>

definition worker_step :: "('p, 'w) publish \<Rightarrow> ('p, 'w) publisher \<Rightarrow> ('p, 'w) publisher" where
  "worker_step publish b =
     (case pb_queue b of
        [] \<Rightarrow> b
      | p # queue \<Rightarrow>
          (case attempt publish p (b\<lparr>pb_queue := queue\<rparr>) of (delivered, b1) \<Rightarrow>
             if \<not> delivered then
               (case pb_spill b1 of None \<Rightarrow> b1 | Some st \<Rightarrow> b1\<lparr>pb_spill := Some (spill_append p st)\<rparr>)
             else
               (case pb_spill b1 of
                  None \<Rightarrow> b1
                | Some st \<Rightarrow> if spill_is_empty st then b1 else drain_spill_backlog publish st b1)))"

subsection \<open>The store as a queue of payloads\<close>

definition entries :: "'p spill_store \<Rightarrow> 'p list" where
  "entries st = List.map_filter decode_line (read_lines (ds_file st))"

definition store_counts :: "'p spill_store \<Rightarrow> bool" where
  "store_counts st \<longleftrightarrow> ds_count st = length (read_lines (ds_file st))"

lemma read_lines_idem: "read_lines (Some (read_lines f)) = read_lines f"
  by (simp add: read_lines_def split: option.splits)

lemma read_lines_sub: "set ls \<subseteq> set (read_lines f) \<Longrightarrow> read_lines (Some ls) = ls"
  by (auto simp: read_lines_def filter_id_conv split: option.splits)

lemma read_lines_snoc:
  "read_lines (Some ((case f of None \<Rightarrow> [] | Some ls \<Rightarrow> ls) @ [Dumped p])) = read_lines f @ [Dumped p]"
  by (simp add: read_lines_def split: option.splits)

lemma length_map_filter: "length (List.map_filter f xs) \<le> length xs"
  by (induction xs) (auto simp: List.map_filter_simps split: option.splits)

lemma decode_Dumped [simp]: "decode_line (Dumped p) = Some p"
  by (simp add: decode_line_def try_decode_def)

lemma cut_index_drop:
  "1 \<le> n \<Longrightarrow> List.map_filter decode_line (drop (cut_index n ls) ls) = drop n (List.map_filter decode_line ls)"
proof (induction ls arbitrary: n)
  case (Cons l ls)
  show ?case
  proof (cases "decode_line l")
    case None
    with Cons show ?thesis by (simp add: List.map_filter_simps)
  next
    case (Some p)
    show ?thesis
    proof (cases "n = 1")
      case False
      with Cons.prems have "1 \<le> n - 1" by simp
      from Cons.IH [OF this] Some False Cons.prems show ?thesis
        by (cases n) (simp_all add: List.map_filter_simps)
    qed (use Some in \<open>simp add: List.map_filter_simps\<close>)
  qed
qed (simp add: List.map_filter_simps)

lemma entries_peek: "peek_batch n st = take n (entries st)"
  by (simp add: peek_batch_def entries_def)

lemma entries_discard: "entries (discard_batch n st) = drop n (entries st)"
proof (cases "n = 0")
  case False
  let ?ls = "read_lines (ds_file st)"
  have "set (drop (cut_index n ?ls) ?ls) \<subseteq> set ?ls" by (rule set_drop_subset)
  then have "read_lines (Some (drop (cut_index n ?ls) ?ls)) = drop (cut_index n ?ls) ?ls"
    by (rule read_lines_sub)
  with False cut_index_drop [of n ?ls] show ?thesis
    by (simp add: discard_batch_def Let_def entries_def)
qed (simp add: discard_batch_def)

lemma entries_append_roomy:
  assumes "real (ds_count st + 1) \<le> real (ds_max_entries st) * (11 / 10)"
  shows "entries (spill_append p st) = entries st @ [p]"
  using assms
  by (simp add: spill_append_def Let_def entries_def read_lines_snoc map_filter_append List.map_filter_simps)

lemma suffix_map_filter: "suffix xs ys \<Longrightarrow> suffix (List.map_filter f xs) (List.map_filter f ys)"
  unfolding suffix_def by (metis map_filter_append)

lemma entries_append_suffix: "suffix (entries (spill_append p st)) (entries st @ [p])"
proof -
  let ?ls = "read_lines (ds_file st) @ [Dumped p]"
  have "read_lines (Some (last_n n ?ls)) = last_n n ?ls" for n
    using read_lines_sub [of "last_n n ?ls"
        "Some ((case ds_file st of None \<Rightarrow> [] | Some ls \<Rightarrow> ls) @ [Dumped p])"] set_last_n [of n ?ls]
    by (simp add: read_lines_snoc)
  then have "entries (spill_append p st) = List.map_filter decode_line ?ls \<or>
      (\<exists>n. entries (spill_append p st) = List.map_filter decode_line (last_n n ?ls))"
    by (auto simp: spill_append_def Let_def entries_def read_lines_snoc compact_def)
  moreover have "List.map_filter decode_line ?ls = entries st @ [p]"
    by (simp add: entries_def map_filter_append List.map_filter_simps)
  ultimately show ?thesis using suffix_map_filter [OF suffix_last_n] by (metis suffix_order.refl)
qed

lemma store_counts_append: "store_counts st \<Longrightarrow> store_counts (spill_append p st)"
proof -
  assume c: "store_counts st"
  let ?f = "Some ((case ds_file st of None \<Rightarrow> [] | Some ls \<Rightarrow> ls) @ [Dumped p])"
  have "read_lines (Some (last_n n (read_lines ?f))) = last_n n (read_lines ?f)" for n
    by (rule read_lines_sub [OF set_last_n])
  with c show ?thesis
    by (auto simp: store_counts_def spill_append_def Let_def compact_def read_lines_snoc)
qed

lemma store_counts_discard: "store_counts st \<Longrightarrow> store_counts (discard_batch n st)"
proof -
  have "read_lines (Some (drop k (read_lines (ds_file st)))) = drop k (read_lines (ds_file st))" for k
    by (rule read_lines_sub [OF set_drop_subset])
  then show "store_counts st \<Longrightarrow> ?thesis" by (simp add: store_counts_def discard_batch_def Let_def)
qed

lemma store_counts_init: "store_counts (spill_init m file)"
  by (simp add: store_counts_def spill_init_def)

lemma spill_max [simp]:
  "ds_max_entries (spill_append p st) = ds_max_entries st"
  "ds_max_entries (discard_batch n st) = ds_max_entries st"
  by (simp_all add: spill_append_def compact_def discard_batch_def Let_def)

subsection \<open>Runs of the publisher\<close>

text \<open>\<open>publisher_run publish b0 acc b\<close>: from \<open>b0\<close>, with the payloads \<open>acc\<close> accepted, to \<open>b\<close>.\<close>

inductive publisher_run ::
    "('p, 'w) publish \<Rightarrow> ('p, 'w) publisher \<Rightarrow> 'p list \<Rightarrow> ('p, 'w) publisher \<Rightarrow> bool" for publish b0 where
  start: "publisher_run publish b0 [] b0"
| accepted: "publisher_run publish b0 acc b \<Longrightarrow> submit p b = (True, b') \<Longrightarrow>
    publisher_run publish b0 (acc @ [p]) b'"
| refused: "publisher_run publish b0 acc b \<Longrightarrow> submit p b = (False, b') \<Longrightarrow>
    publisher_run publish b0 acc b'"
| worked: "publisher_run publish b0 acc b \<Longrightarrow> publisher_run publish b0 acc (worker_step publish b)"

inductive_cases publisher_run_accepted: "publisher_run publish b0 (acc @ [p]) b"

lemma attempt_frame:
  "attempt publish p b = (ok, b') \<Longrightarrow> pb_queue b' = pb_queue b \<and> pb_maxsize b' = pb_maxsize b \<and>
   pb_dropped b' = pb_dropped b \<and> pb_spill b' = pb_spill b \<and>
   pb_delivered b' = pb_delivered b @ (if ok then [p] else [])"
  by (auto simp: attempt_def split: prod.splits if_splits)

lemma replay_frame:
  "replay publish ps n b = (m, b') \<Longrightarrow> n \<le> m \<and> m - n \<le> length ps \<and> pb_queue b' = pb_queue b \<and>
   pb_maxsize b' = pb_maxsize b \<and> pb_dropped b' = pb_dropped b \<and> pb_spill b' = pb_spill b \<and>
   pb_delivered b' = pb_delivered b @ take (m - n) ps"
proof (induction ps arbitrary: n b)
  case (Cons p ps)
  obtain ok b1 where a: "attempt publish p b = (ok, b1)" by fastforce
  note f = attempt_frame [OF a]
  show ?case
  proof (cases ok)
    case True
    with Cons.prems a have r: "replay publish ps (n + 1) b1 = (m, b')" by simp
    have "Suc n \<le> m" using Cons.IH [OF r] by simp
    then have "m - n = Suc (m - (n + 1))" by arith
    with Cons.IH [OF r] f True show ?thesis by simp
  next
    case False
    with Cons.prems a f show ?thesis by auto
  qed
qed simp

lemma drain_frame:
  assumes "pb_spill b = Some st"
  shows "\<exists>k\<le>50. pb_delivered (drain_spill_backlog publish st b) = pb_delivered b @ take k (entries st) \<and>
    pb_spill (drain_spill_backlog publish st b) = Some (discard_batch k st) \<and>
    pb_queue (drain_spill_backlog publish st b) = pb_queue b \<and>
    pb_maxsize (drain_spill_backlog publish st b) = pb_maxsize b \<and>
    pb_dropped (drain_spill_backlog publish st b) = pb_dropped b"
proof -
  obtain k b1 where r: "replay publish (peek_batch SPILL_DRAIN_BATCH_SIZE st) 0 b = (k, b1)" by fastforce
  note f = replay_frame [OF r]
  have k: "k \<le> 50" using f by (simp add: entries_peek SPILL_DRAIN_BATCH_SIZE_def)
  then have "take k (peek_batch SPILL_DRAIN_BATCH_SIZE st) = take k (entries st)"
    by (simp add: entries_peek SPILL_DRAIN_BATCH_SIZE_def min_def)
  with f k assms r show ?thesis
    by (intro exI [of _ k]) (auto simp: drain_spill_backlog_def discard_batch_def)
qed

text \<open>What every run keeps: nothing accepted is lost while the store has room.\<close>

definition conserved :: "nat \<Rightarrow> 'p multiset \<Rightarrow> 'p list \<Rightarrow> ('p, 'w) publisher \<Rightarrow> bool" where
  "conserved n0 spilled acc b \<longleftrightarrow> (\<exists>st. pb_spill b = Some st \<and> store_counts st \<and>
     length (pb_queue b) + ds_count st \<le> n0 + length acc \<and>
     mset acc + spilled = mset (pb_delivered b) + mset (pb_queue b) + mset (entries st))"

lemma conserved_drain:
  assumes "pb_spill b = Some st" and "conserved n0 X acc b"
  shows "conserved n0 X acc (drain_spill_backlog publish st b)"
proof -
  obtain k where k: "pb_delivered (drain_spill_backlog publish st b) = pb_delivered b @ take k (entries st)"
    "pb_spill (drain_spill_backlog publish st b) = Some (discard_batch k st)"
    "pb_queue (drain_spill_backlog publish st b) = pb_queue b"
    using drain_frame [OF assms(1), of publish] by blast
  have c: "store_counts st" "length (pb_queue b) + ds_count st \<le> n0 + length acc"
    "mset acc + X = mset (pb_delivered b) + mset (pb_queue b) + mset (entries st)"
    using assms by (simp_all add: conserved_def)
  have "ds_count (discard_batch k st) \<le> ds_count st"
    using c(1) by (simp add: discard_batch_def Let_def store_counts_def)
  then have n: "length (pb_queue b) + ds_count (discard_batch k st) \<le> n0 + length acc" using c(2) by simp
  have "mset (take k (entries st)) + mset (drop k (entries st)) = mset (entries st)"
    by (metis append_take_drop_id mset_append)
  with c(3) have m: "mset acc + X = mset (pb_delivered b @ take k (entries st)) + mset (pb_queue b) +
      mset (drop k (entries st))"
    by (simp add: ac_simps)
  show ?thesis
    unfolding conserved_def k using n m store_counts_discard [OF c(1)]
    by (intro exI [of _ "discard_batch k st"]) (simp only: entries_discard simp_thms)
qed

lemma conserved_step:
  assumes cons: "conserved n0 X acc b" and room: "\<forall>st. pb_spill b = Some st \<longrightarrow> n0 + length acc \<le> ds_max_entries st"
  shows "conserved n0 X acc (worker_step publish b)"
proof (cases "pb_queue b")
  case Nil
  then show ?thesis using cons by (simp add: worker_step_def)
next
  case (Cons p queue)
  obtain st where st: "pb_spill b = Some st" "store_counts st"
    "length (pb_queue b) + ds_count st \<le> n0 + length acc"
    "mset acc + X = mset (pb_delivered b) + mset (pb_queue b) + mset (entries st)"
    using cons by (auto simp: conserved_def)
  obtain ok b1 where a: "attempt publish p (b\<lparr>pb_queue := queue\<rparr>) = (ok, b1)" by fastforce
  note f = attempt_frame [OF a]
  show ?thesis
  proof (cases ok)
    case True
    have "conserved n0 X acc b1" using st f Cons True by (auto simp: conserved_def)
    then show ?thesis using True Cons a f st(1)
      by (auto simp: worker_step_def intro: conserved_drain)
  next
    case False
    have "real (ds_count st + 1) \<le> real (ds_max_entries st)" using room st Cons by simp
    then have roomy: "real (ds_count st + 1) \<le> real (ds_max_entries st) * (11 / 10)" by simp
    then have "ds_count (spill_append p st) = ds_count st + 1" by (simp add: spill_append_def Let_def)
    then show ?thesis using False Cons a f st entries_append_roomy [OF roomy, of p]
      by (auto simp: worker_step_def conserved_def store_counts_append)
  qed
qed

lemma submit_frame:
  "submit p b = (ok, b') \<Longrightarrow> pb_queue b' = pb_queue b @ (if ok then [p] else []) \<and>
   pb_spill b' = pb_spill b \<and> pb_delivered b' = pb_delivered b \<and> pb_maxsize b' = pb_maxsize b"
  by (auto simp: submit_def split: if_splits)

lemma worker_max:
  "pb_spill b = Some st \<Longrightarrow> \<exists>st'. pb_spill (worker_step publish b) = Some st' \<and> ds_max_entries st' = ds_max_entries st"
proof -
  assume st: "pb_spill b = Some st"
  show ?thesis
  proof (cases "pb_queue b")
    case (Cons p queue)
    obtain ok b1 where a: "attempt publish p (b\<lparr>pb_queue := queue\<rparr>) = (ok, b1)" by fastforce
    then have "pb_spill b1 = Some st" using attempt_frame [OF a] st by simp
    then show ?thesis using Cons a drain_frame [of b1 st publish] by (auto simp: worker_step_def)
  qed (use st in \<open>simp add: worker_step_def\<close>)
qed

lemma publisher_run_conserved:
  assumes "publisher_run publish b0 acc b" and "pb_spill b0 = Some st0" and "store_counts st0"
    and "pb_queue b0 = []" and "pb_delivered b0 = []" and "ds_count st0 + length acc \<le> ds_max_entries st0"
  shows "conserved (ds_count st0) (mset (entries st0)) acc b \<and>
    (\<exists>st. pb_spill b = Some st \<and> ds_max_entries st = ds_max_entries st0)"
  using assms(1,6)
proof (induction rule: publisher_run.induct)
  case start
  then show ?case using assms(2-5) by (auto simp: conserved_def)
next
  case (accepted acc b p b')
  then show ?case using submit_frame [OF accepted.hyps(2)] by (auto simp: conserved_def)
next
  case (refused acc b p b')
  then show ?case using submit_frame [OF refused.hyps(2)] by (auto simp: conserved_def)
next
  case (worked acc b)
  then show ?case using worker_max conserved_step by (metis (no_types, lifting) option.inject)
qed

lemma entries_append_last:
  assumes "1 \<le> ds_max_entries st"
  shows "\<exists>es. entries (spill_append p st) = es @ [p]"
proof -
  let ?f = "Some ((case ds_file st of None \<Rightarrow> [] | Some ls \<Rightarrow> ls) @ [Dumped p])"
  have "read_lines (Some (last_n (ds_max_entries st) (read_lines ?f))) = last_n (ds_max_entries st) (read_lines ?f)"
    by (rule read_lines_sub [OF set_last_n])
  then show ?thesis using assms
    by (auto simp: spill_append_def Let_def compact_def entries_def read_lines_snoc last_n_snoc
        map_filter_append List.map_filter_simps)
qed

lemma append_bounded:
  "real (ds_count (spill_append p st)) \<le> real (ds_max_entries st) * (11 / 10)"
  by (auto simp: spill_append_def Let_def compact_def not_less)

subsection \<open>Properties\<close>

text \<open>
  C24: The spill store is a bounded first-in first-out queue of payloads, whatever corrupt and blank
  lines its file holds: a batch read is the oldest valid entries, discarding \<open>n\<close> removes exactly the
  \<open>n\<close> oldest valid entries, an append adds the payload at the end and, only once the count passes
  1.1 times the limit, drops entries from the front, never the new one; the count kept in memory
  is the number of lines on disk and stays within 1.1 times the limit.
\<close>
theorem spill_store_queue:
  assumes "store_counts st" and "1 \<le> ds_max_entries st"
  shows "peek_batch n st = take n (entries st) \<and>
    entries (discard_batch n st) = drop n (entries st) \<and> store_counts (discard_batch n st) \<and>
    (if real (ds_count st + 1) \<le> real (ds_max_entries st) * (11 / 10)
     then entries (spill_append p st) = entries st @ [p]
     else \<exists>es. entries (spill_append p st) = es @ [p] \<and> suffix es (entries st)) \<and>
    store_counts (spill_append p st) \<and>
    real (ds_count (spill_append p st)) \<le> real (ds_max_entries st) * (11 / 10)"
proof -
  obtain es where es: "entries (spill_append p st) = es @ [p]" using entries_append_last [OF assms(2)] by blast
  then have "suffix es (entries st)" using entries_append_suffix [of p st] by simp
  with es show ?thesis
    using entries_append_roomy [of st p] append_bounded [of p st]
    by (auto simp: entries_peek entries_discard store_counts_append store_counts_discard assms(1))
qed

theorem spill_store_queue_witness:
  "entries (discard_batch 1 (spill_append [(''k'', JInt 2)]
     \<lparr>ds_max_entries = 5, ds_count = 2, ds_file = Some [Dumped [(''k'', JInt 1)], Blank, Garbage ''x'']\<rparr>)) =
   [[(''k'', JInt 2)]]"
proof -
  let ?st = "\<lparr>ds_max_entries = 5, ds_count = 2,
    ds_file = Some [Dumped [(''k'', JInt 1)], Blank, Garbage ''x'']\<rparr>"
  have c: "store_counts ?st" by (simp add: store_counts_def read_lines_def)
  have e: "entries ?st = [[(''k'', JInt 1)]]"
    by (simp add: entries_def read_lines_def List.map_filter_simps decode_line_def try_decode_def)
  from spill_store_queue [OF c] have a: "entries (spill_append [(''k'', JInt 2)] ?st) = [[(''k'', JInt 1)], [(''k'', JInt 2)]]"
    by (simp add: e)
  from spill_store_queue [OF c] have "store_counts (spill_append [(''k'', JInt 2)] ?st)" by simp
  from spill_store_queue [OF this] a show ?thesis by simp
qed

text \<open>
  C8: With a spill store nothing accepted is lost to failures of the backend. Along any interleaving
  of submissions and worker steps, whatever the publishing call answers or raises, and while no
  more payloads were accepted than the store may hold, every payload accepted and every payload
  spilled before is exactly once confirmed as delivered, waiting in the queue, or on disk.
\<close>
theorem accepted_never_lost:
  assumes run: "publisher_run publish (publisher_init m (Some st0) w) acc b"
    and "store_counts st0" and "ds_count st0 + length acc \<le> ds_max_entries st0"
  shows "\<exists>st. pb_spill b = Some st \<and>
    mset acc + mset (entries st0) = mset (pb_delivered b) + mset (pb_queue b) + mset (entries st)"
  using publisher_run_conserved [OF run _ assms(2) _ _ assms(3)]
  by (auto simp: publisher_init_def conserved_def)

theorem accepted_never_lost_witness:
  "\<exists>b st. publisher_run (\<lambda>p w. (Raised, w)) (publisher_init 8 (Some (spill_init 10 None)) ())
       [[(''k'', JInt 1)]] b \<and> pb_spill b = Some st \<and> pb_queue b = [] \<and>
     mset (pb_delivered b) + mset (entries st) = {#[(''k'', JInt 1)]#}"
proof -
  let ?p = "[(''k'', JInt 1)]" and ?b0 = "publisher_init 8 (Some (spill_init 10 None)) ()"
  let ?pub = "\<lambda>p w. (Raised, w)"
  have "submit ?p ?b0 = (True, ?b0\<lparr>pb_queue := [?p]\<rparr>)" by (simp add: submit_def publisher_init_def)
  from publisher_run.accepted [OF publisher_run.start this]
  have "publisher_run ?pub ?b0 [?p] (?b0\<lparr>pb_queue := [?p]\<rparr>)" by simp
  then have run: "publisher_run ?pub ?b0 [?p] (worker_step ?pub (?b0\<lparr>pb_queue := [?p]\<rparr>))"
    by (rule publisher_run.worked)
  have q: "pb_queue (worker_step ?pub (?b0\<lparr>pb_queue := [?p]\<rparr>)) = []"
    by (simp add: worker_step_def attempt_def confirmed_def publisher_init_def)
  have "ds_count (spill_init 10 None) + length [?p] \<le> ds_max_entries (spill_init 10 None)"
    by (simp add: spill_init_def read_lines_def)
  from accepted_never_lost [OF run store_counts_init this] q run show ?thesis
    by (auto simp: spill_init_def entries_def read_lines_def List.map_filter_simps)
qed

text \<open>
  A replay delivers a prefix: the backlog is offered oldest first, at most 50 payloads at a time,
  up to the first failure; exactly the payloads confirmed leave the disk, in their order, and
  everything from the first failure on stays.
\<close>
theorem replay_in_order:
  assumes "pb_spill b = Some st"
  shows "\<exists>k\<le>50. pb_delivered (drain_spill_backlog publish st b) = pb_delivered b @ take k (entries st) \<and>
    (\<exists>st'. pb_spill (drain_spill_backlog publish st b) = Some st' \<and> entries st' = drop k (entries st)) \<and>
    pb_queue (drain_spill_backlog publish st b) = pb_queue b"
  using drain_frame [OF assms, of publish] by (auto simp: entries_discard)

theorem replay_in_order_witness:
  "\<exists>b. b = drain_spill_backlog (\<lambda>p w. (Returned True, w)) (spill_init 5 (Some [Dumped [], Dumped [(''k'', JNull)]]))
       (publisher_init 1 (Some (spill_init 5 (Some [Dumped [], Dumped [(''k'', JNull)]]))) ()) \<and>
     prefix (pb_delivered b) [[], [(''k'', JNull)]]"
  using replay_in_order [of "publisher_init 1 (Some (spill_init 5 (Some [Dumped [], Dumped [(''k'', JNull)]]))) ()"
      "spill_init 5 (Some [Dumped [], Dumped [(''k'', JNull)]])" "\<lambda>p w. (Returned True, w)"]
  by (auto simp: publisher_init_def entries_def spill_init_def read_lines_def List.map_filter_simps take_is_prefix)

end
