(* ===== verification/ModelRuntime.thy ===== *)
theory ModelRuntime
  imports Features Publisher
begin

text \<open>
  The model runtime (\<open>ml/runtime\<close>): the decision tree the engine ships its own runtime for, the
  checks made before a pickled model is deserialized, the stack of a primary and a secondary
  model, and the two predictors with the queue of secondary predictions. The trained models are
  data files: what they predict is a field of the loaded model.
\<close>

type_synonym frame = "real list"

subsection \<open>The decision tree (\<open>custom_decision_tree_runtime.py\<close>)\<close>

datatype tree_node = TreeNode
  (tn_is_leaf: bool) (tn_prediction: int) (tn_class_counts: "int list option")
  (tn_feature_index: "int option") (tn_threshold: "real option")
  (tn_left: "tree_node option") (tn_right: "tree_node option")

definition default_leaf :: tree_node where
  "default_leaf = TreeNode True 0 (Some [1]) None None None None"

text \<open>\<open>row[i]\<close>, and 0.0 for an index past the end; a negative index counts from the end.\<close>

definition feature_at :: "frame \<Rightarrow> int \<Rightarrow> py_error + real" where
  "feature_at row i =
     (if int (length row) \<le> i then Inr 0
      else if 0 \<le> i then Inr (row ! nat i)
      else if - int (length row) \<le> i then Inr (row ! nat (int (length row) + i))
      else Inl IndexError)"

definition or_zero :: "'a::zero option \<Rightarrow> 'a" where
  "or_zero v = (case v of None \<Rightarrow> 0 | Some x \<Rightarrow> x)"

fun descend :: "frame \<Rightarrow> tree_node option \<Rightarrow> py_error + tree_node" where
  "descend row None = Inr default_leaf"
| "descend row (Some (TreeNode leaf p counts i thr l r)) =
     (if leaf then Inr (TreeNode leaf p counts i thr l r)
      else case feature_at row (or_zero i) of
             Inl e \<Rightarrow> Inl e
           | Inr v \<Rightarrow> if v \<le> or_zero thr then descend row l else descend row r)"

record tree_classifier =
  tc_root :: "tree_node option"
  tc_n_classes :: int

definition predict_row :: "tree_classifier \<Rightarrow> frame \<Rightarrow> py_error + int" where
  "predict_row c row = (case descend row (tc_root c) of Inl e \<Rightarrow> Inl e | Inr n \<Rightarrow> Inr (tn_prediction n))"

definition one_hot :: "int \<Rightarrow> int \<Rightarrow> real list" where
  "one_hot n p = map (\<lambda>k. if int k = p then 1 else 0) [0..<nat n]"

definition node_proba :: "int \<Rightarrow> tree_node \<Rightarrow> real list" where
  "node_proba n node =
     (let n_classes = max (if n = 0 then 1 else n) 1; fallback = one_hot n_classes (tn_prediction node)
      in case tn_class_counts node of
           None \<Rightarrow> fallback
         | Some counts \<Rightarrow>
             if counts \<noteq> [] \<and> 0 < sum_list counts
             then map (\<lambda>c. of_int c / of_int (sum_list counts)) counts
             else fallback)"

definition predict_row_proba :: "tree_classifier \<Rightarrow> frame \<Rightarrow> py_error + real list" where
  "predict_row_proba c row =
     (case descend row (tc_root c) of Inl e \<Rightarrow> Inl e | Inr n \<Rightarrow> Inr (node_proba (tc_n_classes c) n))"

text \<open>A trained tree: leaves count the classes they saw, and predict one of them.\<close>

fun tree_ok :: "int \<Rightarrow> tree_node option \<Rightarrow> bool" where
  "tree_ok n None = True"
| "tree_ok n (Some (TreeNode leaf p counts i thr l r)) \<longleftrightarrow>
     0 \<le> p \<and> p < n \<and> (case counts of None \<Rightarrow> True | Some cs \<Rightarrow> \<forall>c\<in>set cs. 0 \<le> c) \<and>
     (case i of None \<Rightarrow> True | Some k \<Rightarrow> 0 \<le> k) \<and> tree_ok n l \<and> tree_ok n r"

subsection \<open>Artifacts (\<open>artifact_validation.py\<close>, \<open>artifact_integrity.py\<close>)\<close>

record loaded_model =
  lm_predict :: "frame \<Rightarrow> int"
  lm_predict_proba :: "(frame \<Rightarrow> real list) option"
  lm_feature_names :: "string list option"

record label_encoder =
  le_has_classes :: bool
  le_inverse_transform :: "int \<Rightarrow> string"

datatype checksum_file = NoChecksumFile | UnreadableChecksum | ChecksumText string

text \<open>
  A bundle on disk: the paths that do not exist, the parsed feature columns (\<open>None\<close> when the file
  is not JSON), the checksum files and actual digests of both pickles, and what deserializing
  each one gives (\<open>None\<close> when it raises).
\<close>

record artifact_bundle =
  af_missing_paths :: "string list"
  af_feature_columns :: "json option"
  af_model_checksum :: checksum_file
  af_model_digest :: string
  af_encoder_checksum :: checksum_file
  af_encoder_digest :: string
  af_model :: "loaded_model option"
  af_encoder :: "label_encoder option"

datatype artifact_error =
  MissingArtifacts "string list" | SchemaMismatch | MissingChecksum | UnreadableChecksumFile
| EmptyChecksum | ChecksumMismatch | LoadFailed | FeatureNamesMismatch | MissingClasses

datatype load_exception = RuntimeArtifactError artifact_error | OtherError py_error

text \<open>\<open>text.strip().split()[0]\<close>, and the empty string for a blank text.\<close>

definition first_token :: "string \<Rightarrow> string" where
  "first_token s = takeWhile (\<lambda>c. \<not> py_space c) (strip s)"

definition verify_artifact_checksum :: "string \<Rightarrow> checksum_file \<Rightarrow> artifact_error option" where
  "verify_artifact_checksum digest f =
     (case f of
        NoChecksumFile \<Rightarrow> Some MissingChecksum
      | UnreadableChecksum \<Rightarrow> Some UnreadableChecksumFile
      | ChecksumText s \<Rightarrow>
          let expected = first_token s
          in if expected = [] then Some EmptyChecksum
             else if lower digest \<noteq> lower expected then Some ChecksumMismatch
             else None)"

text \<open>The outcome, and whether a pickle was deserialized on the way.\<close>

definition load_runtime_model_artifacts ::
    "artifact_bundle \<Rightarrow> (load_exception + loaded_model \<times> label_encoder) \<times> bool" where
  "load_runtime_model_artifacts af =
     (if af_missing_paths af \<noteq> [] then
        (Inl (RuntimeArtifactError (MissingArtifacts (af_missing_paths af))), False)
      else case af_feature_columns af of
        None \<Rightarrow> (Inl (OtherError ValueError), False)
      | Some columns \<Rightarrow>
          if columns \<noteq> JList (map JStr FEATURE_COLUMNS) then
            (Inl (RuntimeArtifactError SchemaMismatch), False)
          else case verify_artifact_checksum (af_model_digest af) (af_model_checksum af) of
            Some e \<Rightarrow> (Inl (RuntimeArtifactError e), False)
          | None \<Rightarrow>
            (case verify_artifact_checksum (af_encoder_digest af) (af_encoder_checksum af) of
              Some e \<Rightarrow> (Inl (RuntimeArtifactError e), False)
            | None \<Rightarrow>
              (case (af_model af, af_encoder af) of
                (Some m, Some enc) \<Rightarrow>
                  (if (case lm_feature_names m of None \<Rightarrow> False | Some ns \<Rightarrow> ns \<noteq> FEATURE_COLUMNS) then
                     (Inl (RuntimeArtifactError FeatureNamesMismatch), True)
                   else if \<not> le_has_classes enc then
                     (Inl (RuntimeArtifactError MissingClasses), True)
                   else (Inr (m, enc), True))
              | _ \<Rightarrow> (Inl (RuntimeArtifactError LoadFailed), True))))"

subsection \<open>The model stack (\<open>model_stack.py\<close>)\<close>

record model_bundle =
  mb_model_key :: string
  mb_model_name :: string
  mb_model :: "(loaded_model \<times> label_encoder) option"
  mb_artifact_error :: "artifact_error option"

definition mb_enabled :: "model_bundle \<Rightarrow> bool" where
  "mb_enabled b = (mb_model b \<noteq> None)"

text \<open>Only \<open>RuntimeArtifactError\<close> is caught by the constructor.\<close>

definition load_bundle :: "string \<Rightarrow> string \<Rightarrow> artifact_bundle \<Rightarrow> py_error + model_bundle" where
  "load_bundle key name af =
     (case fst (load_runtime_model_artifacts af) of
        Inr m \<Rightarrow> Inr \<lparr>mb_model_key = key, mb_model_name = name, mb_model = Some m, mb_artifact_error = None\<rparr>
      | Inl (RuntimeArtifactError e) \<Rightarrow>
          Inr \<lparr>mb_model_key = key, mb_model_name = name, mb_model = None, mb_artifact_error = Some e\<rparr>
      | Inl (OtherError e) \<Rightarrow> Inl e)"

record bundle_prediction =
  bp_model_key :: string
  bp_model_name :: string
  bp_label :: string
  bp_confidence :: real
  bp_encoded :: int
  bp_probabilities :: "real list option"

text \<open>The prediction of a pickled model is a function of the frame; one that raises is not modelled.\<close>

definition bundle_predict :: "model_bundle \<Rightarrow> frame \<Rightarrow> bundle_prediction option" where
  "bundle_predict b fr =
     (case mb_model b of
        None \<Rightarrow> None
      | Some (m, enc) \<Rightarrow>
          let encoded = lm_predict m fr;
              probabilities = (case lm_predict_proba m of None \<Rightarrow> None | Some f \<Rightarrow> Some (f fr))
          in Some \<lparr>bp_model_key = mb_model_key b, bp_model_name = mb_model_name b,
               bp_label = le_inverse_transform enc encoded,
               bp_confidence = (case probabilities of None \<Rightarrow> 0 | Some ps \<Rightarrow> Max (set ps)),
               bp_encoded = encoded, bp_probabilities = probabilities\<rparr>)"

record model_stack =
  ms_primary :: model_bundle
  ms_secondary :: "model_bundle option"

definition ms_enabled :: "model_stack \<Rightarrow> bool" where
  "ms_enabled st = mb_enabled (ms_primary st)"

definition secondary_enabled :: "model_stack \<Rightarrow> bool" where
  "secondary_enabled st = (case ms_secondary st of None \<Rightarrow> False | Some b \<Rightarrow> mb_enabled b)"

definition build_frame :: "(string, pyfloat) pydict \<Rightarrow> frame" where
  "build_frame features =
     map (\<lambda>c. case map_of features c of Some (Fin x) \<Rightarrow> x | _ \<Rightarrow> 0) FEATURE_COLUMNS"

record prediction =
  pr_label :: string
  pr_confidence :: real
  pr_encoded :: int
  pr_model_key :: string
  pr_model_name :: string
  pr_primary :: bundle_prediction
  pr_secondary :: "bundle_prediction option"
  pr_primary_enabled :: bool
  pr_secondary_enabled :: bool
  pr_primary_artifact_error :: "artifact_error option"
  pr_secondary_artifact_error :: "artifact_error option"

definition stack_prediction ::
    "model_stack \<Rightarrow> bundle_prediction \<Rightarrow> bundle_prediction option \<Rightarrow> prediction" where
  "stack_prediction st p sec = \<lparr>pr_label = bp_label p, pr_confidence = bp_confidence p,
     pr_encoded = bp_encoded p, pr_model_key = bp_model_key p, pr_model_name = bp_model_name p,
     pr_primary = p, pr_secondary = sec, pr_primary_enabled = mb_enabled (ms_primary st),
     pr_secondary_enabled = secondary_enabled st,
     pr_primary_artifact_error = mb_artifact_error (ms_primary st),
     pr_secondary_artifact_error =
       (case ms_secondary st of None \<Rightarrow> None | Some b \<Rightarrow> mb_artifact_error b)\<rparr>"

definition predict_primary_from_frame :: "model_stack \<Rightarrow> frame \<Rightarrow> prediction option" where
  "predict_primary_from_frame st fr =
     map_option (\<lambda>p. stack_prediction st p None) (bundle_predict (ms_primary st) fr)"

definition predict_primary :: "model_stack \<Rightarrow> (string, pyfloat) pydict \<Rightarrow> prediction option" where
  "predict_primary st features =
     (if \<not> ms_enabled st then None else predict_primary_from_frame st (build_frame features))"

definition stack_predict :: "model_stack \<Rightarrow> (string, pyfloat) pydict \<Rightarrow> prediction option" where
  "stack_predict st features =
     (if \<not> ms_enabled st then None
      else let fr = build_frame features
        in map_option (\<lambda>p. stack_prediction st p
             (case ms_secondary st of None \<Rightarrow> None | Some b \<Rightarrow> bundle_predict b fr))
             (bundle_predict (ms_primary st) fr))"

subsection \<open>The predictors (\<open>live_predictor.py\<close>, \<open>completed_flow_predictor.py\<close>)\<close>

text \<open>Both predictors have the same code; they differ in the name of their queue.\<close>

record secondary_context =
  cx_session_key :: string
  cx_src_ip :: string
  cx_dst_ip :: string
  cx_src_port :: "int option"
  cx_dst_port :: "int option"
  cx_protocol :: int
  cx_timestamp :: real
  cx_event_type :: string
  cx_is_final :: bool

type_synonym secondary_job = "frame \<times> secondary_context"

record predictor =
  pd_stack :: model_stack
  pd_secondary_publisher :: "(secondary_job, unit) publisher option"

definition predictor_init :: "environ \<Rightarrow> model_stack \<Rightarrow> predictor" where
  "predictor_init env st = \<lparr>pd_stack = st,
     pd_secondary_publisher =
       (if secondary_enabled st
        then Some (publisher_init (positive_int env None ''SMARTIDS_SECONDARY_MODEL_QUEUE_SIZE'' 256) None ())
        else None)\<rparr>"

definition submit_secondary_frame :: "frame \<Rightarrow> secondary_context \<Rightarrow> predictor \<Rightarrow> bool \<times> predictor" where
  "submit_secondary_frame fr cx pd =
     (if \<not> secondary_enabled (pd_stack pd) then (False, pd)
      else case pd_secondary_publisher pd of
             None \<Rightarrow> (False, pd)
           | Some q \<Rightarrow> (case submit (fr, cx) q of (ok, q') \<Rightarrow>
               (ok, pd\<lparr>pd_secondary_publisher := Some q'\<rparr>)))"

definition submit_secondary ::
    "(string, pyfloat) pydict \<Rightarrow> secondary_context \<Rightarrow> predictor \<Rightarrow> bool \<times> predictor" where
  "submit_secondary features cx pd = submit_secondary_frame (build_frame features) cx pd"

definition predict_primary_and_submit_secondary ::
    "(string, pyfloat) pydict \<Rightarrow> secondary_context \<Rightarrow> predictor \<Rightarrow> prediction option \<times> predictor" where
  "predict_primary_and_submit_secondary features cx pd =
     (if \<not> ms_enabled (pd_stack pd) then (None, pd)
      else let fr = build_frame features;
               prediction = predict_primary_from_frame (pd_stack pd) fr
        in (prediction, snd (submit_secondary_frame fr cx pd)))"

definition run_secondary_prediction :: "predictor \<Rightarrow> secondary_job \<Rightarrow> bundle_prediction option" where
  "run_secondary_prediction pd job =
     (case ms_secondary (pd_stack pd) of None \<Rightarrow> None | Some b \<Rightarrow> bundle_predict b (fst job))"

subsection \<open>Facts about trees\<close>


lemma feature_at_in_range: "0 \<le> i \<Longrightarrow> \<exists>v. feature_at row i = Inr v"
  by (simp add: feature_at_def)

text \<open>In a trained tree, the descent ends in a node that predicts a class and counts classes.\<close>

definition node_ok :: "int \<Rightarrow> tree_node \<Rightarrow> bool" where
  "node_ok n node \<longleftrightarrow> 0 \<le> tn_prediction node \<and> tn_prediction node < n \<and>
     (case tn_class_counts node of None \<Rightarrow> True | Some cs \<Rightarrow> \<forall>c\<in>set cs. 0 \<le> c)"

lemma descend_ok:
  "1 \<le> n \<Longrightarrow> tree_ok n t \<Longrightarrow> \<exists>node. descend row t = Inr node \<and> node_ok n node"
proof (induction row t rule: descend.induct)
  case (1 row)
  then show ?case by (simp add: node_ok_def default_leaf_def)
next
  case (2 row leaf p counts i thr l r)
  show ?case
  proof (cases leaf)
    case True
    with "2.prems" show ?thesis by (simp add: node_ok_def)
  next
    case False
    have "0 \<le> or_zero i" using "2.prems" by (auto simp: or_zero_def split: option.splits)
    then obtain v where v: "feature_at row (or_zero i) = Inr v" using feature_at_in_range by blast
    show ?thesis
      using "2.IH" [OF False v] "2.prems" False v by (cases "v \<le> or_zero thr") simp_all
  qed
qed

lemma sum_list_div: "sum_list (map (\<lambda>c. f c / d) xs) = sum_list (map f xs) / (d::real)"
  by (induction xs) (auto simp: add_divide_distrib)

lemma sum_list_of_int: "sum_list (map of_int xs) = (of_int (sum_list xs) :: real)"
  by (induction xs) auto

lemma sum_one_hot: "0 \<le> p \<Longrightarrow> p < n \<Longrightarrow> sum_list (one_hot n p) = 1"
proof -
  assume p: "0 \<le> p" "p < n"
  then have e: "(\<lambda>k. if int k = p then 1 else 0 :: real) = (\<lambda>k. if k = nat p then 1 else 0)"
    by (auto simp: fun_eq_iff)
  have "sum_list (one_hot n p) = (\<Sum>k\<in>{0..<nat n}. if k = nat p then 1 else 0)"
    unfolding one_hot_def e by (simp flip: sum_set_upt_conv_sum_list_nat)
  then show ?thesis using p by simp
qed

lemma member_le_total: "(c :: int) \<in> set cs \<Longrightarrow> \<forall>c\<in>set cs. 0 \<le> c \<Longrightarrow> c \<le> sum_list cs"
  by (rule member_le_sum_list) auto

lemma node_proba_ok:
  assumes "node_ok n node" and "1 \<le> n"
  shows "sum_list (node_proba n node) = 1 \<and> (\<forall>q\<in>set (node_proba n node). 0 \<le> q \<and> q \<le> 1) \<and>
    node_proba n node \<noteq> []"
proof -
  have f: "max (if n = 0 then 1 else n) 1 = n" using assms(2) by simp
  have p: "0 \<le> tn_prediction node" "tn_prediction node < n" using assms(1) by (simp_all add: node_ok_def)
  have oh: "sum_list (one_hot n (tn_prediction node)) = 1 \<and>
      (\<forall>q\<in>set (one_hot n (tn_prediction node)). 0 \<le> q \<and> q \<le> 1) \<and> one_hot n (tn_prediction node) \<noteq> []"
    using sum_one_hot [OF p] p assms(2) by (auto simp: one_hot_def)
  show ?thesis
  proof (cases "tn_class_counts node")
    case None
    with oh f show ?thesis by (simp add: node_proba_def)
  next
    case (Some cs)
    show ?thesis
    proof (cases "cs \<noteq> [] \<and> 0 < sum_list cs")
      case True
      have pos: "\<forall>c\<in>set cs. 0 \<le> c" using assms(1) Some by (simp add: node_ok_def)
      have "0 \<le> real_of_int c / of_int (sum_list cs) \<and> real_of_int c / of_int (sum_list cs) \<le> 1"
        if "c \<in> set cs" for c
        using that pos True member_le_total [OF that pos] by (simp add: divide_le_eq_1)
      then show ?thesis using True Some
        by (auto simp: node_proba_def sum_list_div sum_list_of_int)
    next
      case False
      with oh f Some show ?thesis by (simp add: node_proba_def del: not_less) (metis not_less)
    qed
  qed
qed

subsection \<open>Properties\<close>

text \<open>
  C31: On a trained tree the runtime answers for every row: the class predicted is one of the
  classes, and the class probabilities are at least 0, at most 1 and sum to 1, also where a leaf
  has no counts.
\<close>
theorem tree_probabilities:
  assumes "1 \<le> tc_n_classes c" and "tree_ok (tc_n_classes c) (tc_root c)"
  shows "\<exists>p probs. predict_row c row = Inr p \<and> 0 \<le> p \<and> p < tc_n_classes c \<and>
    predict_row_proba c row = Inr probs \<and> sum_list probs = 1 \<and> (\<forall>q\<in>set probs. 0 \<le> q \<and> q \<le> 1)"
proof -
  obtain node where d: "descend row (tc_root c) = Inr node" and ok: "node_ok (tc_n_classes c) node"
    using descend_ok [OF assms] by blast
  then show ?thesis using node_proba_ok [OF ok assms(1)]
    by (auto simp: predict_row_def predict_row_proba_def node_ok_def)
qed

definition sample_tree :: tree_classifier where
  "sample_tree = \<lparr>tc_root = Some (TreeNode False 0 None (Some 0) (Some 5)
     (Some (TreeNode True 0 (Some [3, 1]) None None None None))
     (Some (TreeNode True 1 None None None None None))), tc_n_classes = 2\<rparr>"

theorem tree_probabilities_witness:
  "\<exists>probs. predict_row_proba sample_tree [4] = Inr probs \<and> sum_list probs = 1"
  using tree_probabilities [of sample_tree "[4]"] by (auto simp: sample_tree_def)

text \<open>
  C25: Nothing is deserialized before it is verified. If loading a bundle deserializes a pickle at
  all, then no file was missing, the saved feature columns are exactly the schema's, and the digest
  of the model and of the encoder each match the first token of their checksum file. A bundle
  loads, with what was deserialized, exactly if in addition both pickles can be deserialized, the
  encoder has classes and the model carries either no feature names or those of the schema.
\<close>
theorem verified_before_deserialized:
  assumes "load_runtime_model_artifacts af = (result, deserialized)"
  shows "(if deserialized then
       af_missing_paths af = [] \<and> af_feature_columns af = Some (JList (map JStr FEATURE_COLUMNS)) \<and>
       (\<exists>t. af_model_checksum af = ChecksumText t \<and> first_token t \<noteq> [] \<and>
          lower (af_model_digest af) = lower (first_token t)) \<and>
       (\<exists>t. af_encoder_checksum af = ChecksumText t \<and> first_token t \<noteq> [] \<and>
          lower (af_encoder_digest af) = lower (first_token t))
     else \<exists>e. result = Inl e) \<and>
    (\<forall>m enc. result = Inr (m, enc) \<longleftrightarrow> deserialized \<and> af_model af = Some m \<and> af_encoder af = Some enc \<and>
       le_has_classes enc \<and> (lm_feature_names m = None \<or> lm_feature_names m = Some FEATURE_COLUMNS))"
  using assms
  by (auto simp: load_runtime_model_artifacts_def verify_artifact_checksum_def Let_def
      split: if_splits option.splits checksum_file.splits prod.splits)

text \<open>A bundle whose encoder does not match its checksum, and the same one intact.\<close>

definition sample_model :: loaded_model where
  "sample_model = \<lparr>lm_predict = (\<lambda>_. 0), lm_predict_proba = None, lm_feature_names = Some FEATURE_COLUMNS\<rparr>"

definition sample_encoder :: label_encoder where
  "sample_encoder = \<lparr>le_has_classes = True, le_inverse_transform = (\<lambda>_. ''Normal Traffic'')\<rparr>"

definition sample_bundle :: artifact_bundle where
  "sample_bundle = \<lparr>af_missing_paths = [], af_feature_columns = Some (JList (map JStr FEATURE_COLUMNS)),
     af_model_checksum = ChecksumText ''ab12  model.pkl'', af_model_digest = ''ab12'',
     af_encoder_checksum = ChecksumText ''ff00'', af_encoder_digest = ''ff01'',
     af_model = Some sample_model, af_encoder = Some sample_encoder\<rparr>"

lemma sample_tokens: "first_token ''ab12  model.pkl'' = ''ab12''" "first_token ''ff00'' = ''ff00''"
  "lower ''ff00'' \<noteq> lower ''ff01''"
  by (simp_all add: first_token_def strip_def lstrip_def rstrip_def py_space_def lower_def lower_char_def)

theorem verified_before_deserialized_witness:
  "snd (load_runtime_model_artifacts sample_bundle) = False \<and>
   fst (load_runtime_model_artifacts (sample_bundle\<lparr>af_encoder_digest := ''ff00''\<rparr>)) = Inr (sample_model, sample_encoder)"
proof
  show "snd (load_runtime_model_artifacts sample_bundle) = False"
  proof (rule ccontr)
    assume "snd (load_runtime_model_artifacts sample_bundle) \<noteq> False"
    then have "load_runtime_model_artifacts sample_bundle = (fst (load_runtime_model_artifacts sample_bundle), True)"
      by (metis prod.collapse)
    from verified_before_deserialized [OF this] show False using sample_tokens by (simp add: sample_bundle_def)
  qed
  let ?good = "sample_bundle\<lparr>af_encoder_digest := ''ff00''\<rparr>"
  have "snd (load_runtime_model_artifacts ?good) = True"
    by (simp add: load_runtime_model_artifacts_def sample_bundle_def verify_artifact_checksum_def sample_tokens Let_def
        sample_model_def sample_encoder_def)
  then have "load_runtime_model_artifacts ?good = (fst (load_runtime_model_artifacts ?good), True)" by (metis prod.collapse)
  from verified_before_deserialized [OF this]
  show "fst (load_runtime_model_artifacts ?good) = Inr (sample_model, sample_encoder)"
    by (simp add: sample_bundle_def sample_model_def sample_encoder_def)
qed

end
