(* ===== verification/Contracts.thy ===== *)
theory Contracts
  imports ModelRuntime Heuristics
begin

text \<open>
  The payloads sent to the backend (\<open>packet_capture/forwarding/contracts.py\<close>) and the identifiers
  they carry. A payload is a record with the fields of the dictionary built; the SHA-256 digest of
  an identifier is the argument \<open>sha256\<close>, from text to the hexadecimal digest.
\<close>

subsection \<open>Identifiers\<close>

definition opt_int_str :: "int option \<Rightarrow> string" where
  "opt_int_str v = (case v of None \<Rightarrow> ''None'' | Some i \<Rightarrow> int_str i)"

definition session_id :: "session_key \<Rightarrow> string" where
  "session_id k = k_src_ip k @ '':'' @ opt_int_str (k_src_port k) @ ''-'' @
     k_dst_ip k @ '':'' @ opt_int_str (k_dst_port k) @ ''-'' @ int_str (k_protocol k)"

definition prediction_event_id ::
    "(string \<Rightarrow> string) \<Rightarrow> string \<Rightarrow> string \<Rightarrow> string \<Rightarrow> real \<Rightarrow> string" where
  "prediction_event_id sha256 sid event_type label timestamp =
     take 32 (sha256 (sid @ '':'' @ event_type @ '':'' @ label @ '':'' @
       int_str (py_trunc (timestamp * 1000))))"

definition severity_from_prediction :: "string \<Rightarrow> real \<Rightarrow> string" where
  "severity_from_prediction label confidence =
     (if label = ''Normal Traffic'' then ''low''
      else if 8 / 10 \<le> confidence then ''high''
      else ''medium'')"

definition risk_score :: "string option \<Rightarrow> real \<Rightarrow> int \<Rightarrow> real" where
  "risk_score label confidence heuristic_score =
     (let ml_score = (if label = None \<or> label = Some ''Normal Traffic'' then 0 else confidence);
          heuristic_score_normalized = min 1 (max 0 (of_int heuristic_score / 10))
      in py_round 4 (max ml_score heuristic_score_normalized))"

subsection \<open>Payloads\<close>

record forwarded_features =
  ff_features :: "(string, real) pydict"
  ff_session_id :: string
  ff_source_ip :: string
  ff_destination_ip :: string
  ff_source_port :: "int option"
  ff_destination_port :: "int option"
  ff_session_duration :: real
  ff_session_packet_count :: nat
  ff_session_byte_count :: int
  ff_is_final :: bool
  ff_model_outputs :: "bundle_prediction \<times> bundle_prediction option"
  ff_model_stack :: "bool \<times> bool \<times> artifact_error option \<times> artifact_error option"

record ids_event =
  ie_schema_version :: string
  ie_event_id :: string
  ie_ts :: int
  ie_source :: string
  ie_source_ip :: string
  ie_destination_ip :: string
  ie_source_port :: "int option"
  ie_destination_port :: "int option"
  ie_protocol :: int
  ie_model :: string
  ie_prediction :: string
  ie_attack_type :: string
  ie_confidence :: real
  ie_confidence_score :: real
  ie_severity :: string
  ie_action :: string
  ie_action_taken :: string
  ie_detection_method :: string
  ie_session_id :: string
  ie_risk_score :: real
  ie_packet_count :: nat
  ie_byte_count :: int
  ie_flow_duration :: real
  ie_ml_prediction :: string
  ie_features :: forwarded_features

text \<open>
  The prediction comes from the model stack, which always sets the keys read here, so that the
  defaults of \<open>get\<close> do not occur and both optional parts are present.
\<close>

definition build_ids_event_payload ::
    "(string \<Rightarrow> string) \<Rightarrow> session_key \<Rightarrow> traffic_session \<Rightarrow> prediction \<Rightarrow> (string, real) pydict \<Rightarrow>
     string \<Rightarrow> bool \<Rightarrow> ids_event" where
  "build_ids_event_payload sha256 key s pr features event_type is_final =
     (let confidence = pr_confidence pr; label = pr_label pr; sid = session_id key;
          timestamp = s_last_seen s;
          action = (if label = ''Normal Traffic'' then ''allow'' else ''alert'');
          forwarded = \<lparr>ff_features = features, ff_session_id = sid, ff_source_ip = s_src_ip s,
            ff_destination_ip = s_dst_ip s, ff_source_port = s_src_port s,
            ff_destination_port = s_dst_port s, ff_session_duration = s_duration s,
            ff_session_packet_count = s_packet_count s, ff_session_byte_count = s_total_bytes s,
            ff_is_final = is_final, ff_model_outputs = (pr_primary pr, pr_secondary pr),
            ff_model_stack = (pr_primary_enabled pr, pr_secondary_enabled pr,
              pr_primary_artifact_error pr, pr_secondary_artifact_error pr)\<rparr>
      in \<lparr>ie_schema_version = ''1.0'',
          ie_event_id = prediction_event_id sha256 sid event_type label timestamp,
          ie_ts = iso_us timestamp, ie_source = s_src_ip s, ie_source_ip = s_src_ip s,
          ie_destination_ip = s_dst_ip s, ie_source_port = s_src_port s,
          ie_destination_port = s_dst_port s, ie_protocol = s_protocol s,
          ie_model = pr_model_key pr, ie_prediction = label, ie_attack_type = label,
          ie_confidence = confidence, ie_confidence_score = confidence,
          ie_severity = severity_from_prediction label confidence,
          ie_action = action, ie_action_taken = action, ie_detection_method = event_type,
          ie_session_id = sid, ie_risk_score = confidence,
          ie_packet_count = s_packet_count s, ie_byte_count = s_total_bytes s,
          ie_flow_duration = py_round 4 (s_duration s), ie_ml_prediction = label,
          ie_features = forwarded\<rparr>)"

record session_upsert =
  su_session_id :: string
  su_start_time :: int
  su_end_time :: int
  su_source_ip :: string
  su_destination_ip :: string
  su_source_port :: "int option"
  su_destination_port :: "int option"
  su_protocol :: int
  su_packet_count :: nat
  su_byte_count :: int
  su_duration :: real
  su_risk_score :: real
  su_ml_prediction :: "string option"
  su_heuristic_result :: string
  su_state :: string
  su_action_taken :: string

definition build_session_upsert_payload ::
    "session_key \<Rightarrow> traffic_session \<Rightarrow> string \<Rightarrow> prediction option \<Rightarrow> heuristic_decision \<Rightarrow> session_upsert" where
  "build_session_upsert_payload key s session_state pr dec =
     (let confidence = (case pr of None \<Rightarrow> 0 | Some p \<Rightarrow> pr_confidence p);
          ml_prediction = map_option pr_label pr
      in \<lparr>su_session_id = session_id key, su_start_time = iso_us (s_start_time s),
          su_end_time = iso_us (s_last_seen s), su_source_ip = s_src_ip s,
          su_destination_ip = s_dst_ip s, su_source_port = s_src_port s,
          su_destination_port = s_dst_port s, su_protocol = s_protocol s,
          su_packet_count = s_packet_count s, su_byte_count = s_total_bytes s,
          su_duration = s_duration s,
          su_risk_score = risk_score ml_prediction confidence (hd_score dec),
          su_ml_prediction = ml_prediction,
          su_heuristic_result = hd_reason dec @ '':'' @ int_str (hd_score dec),
          su_state = session_state,
          su_action_taken = (if session_state = ''active'' then ''allowed'' else session_state)\<rparr>)"

subsection \<open>Facts about identifiers\<close>

lemma py_round_near_4: "\<bar>py_round 4 x - x\<bar> \<le> 5 / 100000"
  using round_half_even_near [of "x * 10 ^ 4"] by (simp add: py_round_def abs_le_iff field_simps)

lemma append_sep_inject:
  assumes "c \<notin> set a" and "c \<notin> set a'"
  shows "a @ c # b = a' @ c # b' \<longleftrightarrow> a = a' \<and> b = b'"
proof
  assume eq: "a @ c # b = a' @ c # b'"
  have t: "takeWhile (\<lambda>x. x \<noteq> c) (x @ c # y) = x" if "c \<notin> set x" for x y :: "'a list"
    using that by (induction x) auto
  have "a = a'" using t [OF assms(1), of b] t [OF assms(2), of b'] eq by metis
  with eq show "a = a' \<and> b = b'" by simp
qed simp

lemma append_last_sep_inject:
  assumes "c \<notin> set b" and "c \<notin> set b'"
  shows "a @ c # b = a' @ c # b' \<longleftrightarrow> a = a' \<and> b = b'"
proof -
  have "a @ c # b = a' @ c # b' \<longleftrightarrow> rev b @ c # rev a = rev b' @ c # rev a'"
    by (metis rev.simps(2) rev_append rev_rev_ident append_Cons append_Nil append_assoc)
  then show ?thesis using append_sep_inject [of c "rev b" "rev b'" "rev a" "rev a'"] assms by auto
qed

lemma opt_int_str_no_sep:
  "(case v of None \<Rightarrow> True | Some i \<Rightarrow> 0 \<le> i) \<Longrightarrow> CHR '':'' \<notin> set (opt_int_str v) \<and> CHR ''-'' \<notin> set (opt_int_str v)"
  using not_digit_notin_nat_str [of "CHR '':''"] not_digit_notin_nat_str [of "CHR ''-''"]
  by (auto simp: opt_int_str_def int_str_def is_digit_def split: option.splits)

lemma opt_int_str_inject: "opt_int_str v = opt_int_str v' \<longleftrightarrow> v = v'"
proof -
  have "int_str i \<noteq> ''None''" for i
  proof
    assume "int_str i = ''None''"
    then have "CHR ''N'' \<in> set (nat_str (nat i))" by (auto simp: int_str_def split: if_splits)
    then show False using nat_str_digits by (fastforce simp: is_digit_def)
  qed
  then show ?thesis by (auto simp: opt_int_str_def split: option.splits) (metis)+
qed


subsection \<open>Properties\<close>

text \<open>What the session identifier is injective on: addresses without a hyphen, ports and protocol
  numbers that are not negative.\<close>

definition plain_key :: "session_key \<Rightarrow> bool" where
  "plain_key k \<longleftrightarrow> CHR ''-'' \<notin> set (k_src_ip k) \<and> CHR ''-'' \<notin> set (k_dst_ip k) \<and>
     (case k_src_port k of None \<Rightarrow> True | Some i \<Rightarrow> 0 \<le> i) \<and>
     (case k_dst_port k of None \<Rightarrow> True | Some i \<Rightarrow> 0 \<le> i)"

lemma endpoint_inject:
  assumes "case p of None \<Rightarrow> True | Some i \<Rightarrow> 0 \<le> i" and "case p' of None \<Rightarrow> True | Some i \<Rightarrow> 0 \<le> i"
  shows "ip @ '':'' @ opt_int_str p = ip' @ '':'' @ opt_int_str p' \<longleftrightarrow> ip = ip' \<and> p = p'"
  using append_last_sep_inject [of "CHR '':''" "opt_int_str p" "opt_int_str p'" ip ip']
    opt_int_str_no_sep [OF assms(1)] opt_int_str_no_sep [OF assms(2)]
  by (simp add: opt_int_str_inject)

text \<open>
  Two flows have the same session identifier exactly when they have the same key, when the
  addresses contain no hyphen (no IPv4 or IPv6 address does) and the ports are not negative: the
  text form loses nothing, also for absent ports and for IPv6 addresses full of colons.
\<close>
theorem session_id_injective:
  assumes "plain_key k" and "plain_key k'"
  shows "session_id k = session_id k' \<longleftrightarrow> k = k'"
proof -
  let ?e = "\<lambda>ip p. ip @ '':'' @ opt_int_str p"
  have no: "CHR ''-'' \<notin> set (?e (k_src_ip x) (k_src_port x))" "CHR ''-'' \<notin> set (?e (k_dst_ip x) (k_dst_port x))"
    if "plain_key x" for x
    using that opt_int_str_no_sep [of "k_src_port x"] opt_int_str_no_sep [of "k_dst_port x"]
    by (auto simp: plain_key_def)
  have split: "session_id x = ?e (k_src_ip x) (k_src_port x) @ CHR ''-'' #
      (?e (k_dst_ip x) (k_dst_port x) @ CHR ''-'' # int_str (k_protocol x))" for x
    by (simp add: session_id_def)
  have "session_id k = session_id k' \<longleftrightarrow>
      ?e (k_src_ip k) (k_src_port k) = ?e (k_src_ip k') (k_src_port k') \<and>
      ?e (k_dst_ip k) (k_dst_port k) = ?e (k_dst_ip k') (k_dst_port k') \<and>
      int_str (k_protocol k) = int_str (k_protocol k')"
    unfolding split append_sep_inject [OF no(1) [OF assms(1)] no(1) [OF assms(2)]]
      append_sep_inject [OF no(2) [OF assms(1)] no(2) [OF assms(2)]] ..
  also have "\<dots> \<longleftrightarrow> k = k'"
    using assms unfolding plain_key_def by (simp add: endpoint_inject [simplified]) (metis session_key.equality unit.exhaust)
  finally show ?thesis .
qed

theorem session_id_injective_witness:
  "session_id \<lparr>k_src_ip = ''::1'', k_dst_ip = ''::2'', k_protocol = 6, k_src_port = Some 80, k_dst_port = None\<rparr> \<noteq>
   session_id \<lparr>k_src_ip = ''::1'', k_dst_ip = ''::2'', k_protocol = 6, k_src_port = None, k_dst_port = Some 80\<rparr>"
  by (subst session_id_injective) (simp_all add: plain_key_def)

text \<open>
  The risk reported for a session is a number between 0 and 1 within 0.00005 of the stronger
  of its two signals: the confidence of an attack verdict (nothing for normal traffic or without
  a verdict) and the heuristic score in tenths, clamped to the unit interval.
\<close>
theorem risk_score_sound:
  assumes "0 \<le> confidence" and "confidence \<le> 1"
  shows "0 \<le> risk_score label confidence score \<and> risk_score label confidence score \<le> 1 \<and>
    \<bar>risk_score label confidence score -
      max (if label \<in> {None, Some ''Normal Traffic''} then 0 else confidence)
          (if score \<le> 0 then 0 else if 10 \<le> score then 1 else of_int score / 10)\<bar> \<le> 5 / 100000"
proof -
  define ml where "ml = (if label \<in> {None, Some ''Normal Traffic''} then 0 else confidence)"
  define h where "h = (if score \<le> 0 then 0 else if 10 \<le> score then 1 else of_int score / 10 :: real)"
  have h: "min 1 (max 0 (of_int score / 10)) = h" by (auto simp: h_def min_def max_def)
  have r: "risk_score label confidence score = py_round 4 (max ml h)"
    by (simp add: risk_score_def h ml_def)
  have "0 \<le> max ml h" "max ml h \<le> 1" using assms by (auto simp: ml_def h_def)
  with py_round_unit have "0 \<le> py_round 4 (max ml h) \<and> py_round 4 (max ml h) \<le> 1" by blast
  moreover have "\<bar>py_round 4 (max ml h) - max ml h\<bar> \<le> 5 / 100000" by (rule py_round_near_4)
  ultimately show ?thesis unfolding r ml_def h_def by blast
qed

theorem risk_score_sound_witness:
  "risk_score (Some ''DDoS'') (3 / 4) 12 \<le> 1 \<and> 1 - 5 / 100000 \<le> risk_score (Some ''DDoS'') (3 / 4) 12"
  using risk_score_sound [of "3 / 4" "Some ''DDoS''" 12] by (simp only: abs_le_iff) simp

end
