(* ===== verification/Processor.thy ===== *)
theory Processor
  imports AutoBlocker Policy Telemetry Contracts
begin

text \<open>
  The packet processor (\<open>packet_capture/processor/packet_processor.py\<close>), which composes the other
  components: the response to heuristics, brute force and model verdicts, the alerts, the session
  and prediction events, the commands of the backend and the shadow events of the secondary
  model. Its state extends the blocker's, so that the blocker's methods run on it. A publisher
  is present or absent; what it is given is appended to \<open>pp_published\<close>, and an exception it raises
  is caught, so that nothing else depends on what it does. Log lines are not modelled.
\<close>

subsection \<open>Alerts, events and commands\<close>

text \<open>Keys that a dictionary lacks are \<open>None\<close> in its record, and \<open>False\<close> for \<open>is_final\<close>.\<close>

record alert =
  al_type :: string
  al_attack_type :: string
  al_confidence :: real
  al_blocked :: bool
  al_block_status :: string
  al_block_duration_seconds :: int
  al_src_ip :: string
  al_dst_ip :: string
  al_src_port :: "int option"
  al_dst_port :: "int option"
  al_protocol :: int
  al_timestamp :: real
  al_is_final :: bool
  al_session_id :: "string option"
  al_update_type :: "string option"

record heuristic_event =
  he_src_ip :: string
  he_dst_ip :: string
  he_src_port :: "int option"
  he_dst_port :: "int option"
  he_protocol :: int
  he_packet_size :: int
  he_timestamp :: real
  he_score :: int
  he_reason :: string

record ml_event =
  me_src_ip :: string
  me_dst_ip :: string
  me_src_port :: "int option"
  me_dst_port :: "int option"
  me_protocol :: int
  me_label :: string
  me_confidence :: real
  me_encoded :: int
  me_timestamp :: real

record block_notice =
  bn_event_id :: string
  bn_timestamp :: int
  bn_source_ip :: string
  bn_action_taken :: string
  bn_reason :: string
  bn_detection_method :: string
  bn_session_id :: "string option"
  bn_source_port :: "int option"
  bn_destination_ip :: "string option"
  bn_destination_port :: "int option"
  bn_protocol :: "int option"

record shadow_event =
  se_event_id :: string
  se_ts :: int
  se_context :: secondary_context
  se_model :: string
  se_prediction :: string
  se_confidence :: real
  se_severity :: string
  se_action :: string
  se_detection_method :: string
  se_session_id :: string
  se_risk_score :: real
  se_is_final :: bool
  se_result :: bundle_prediction

datatype publication =
  AlertOut alert | EventOut ids_event | SessionOut session_upsert | BlockOut block_notice
| ShadowOut shadow_event

type_synonym backend_command = "(string, json) pydict"

type_synonym alert_signature = "string \<times> real \<times> bool"

subsection \<open>State\<close>

record 'w processor = "'w blocker" +
  pp_heuristic_detector :: heuristic_detector
  pp_session_builder :: session_builder
  pp_feature_store :: "(string, real) pydict feature_store"
  pp_heuristic_events :: "heuristic_event feature_store"
  pp_ml_events :: "ml_event feature_store"
  pp_alert_store :: "alert feature_store"
  pp_alert_publisher :: bool
  pp_event_publisher :: bool
  pp_session_update_publisher :: bool
  pp_block_event_publisher :: bool
  pp_telemetry_collector :: "telemetry option"
  pp_live_predictor :: predictor
  pp_completed_flow_predictor :: predictor
  pp_response_policy :: response_policy
  pp_session_alert_state :: "(string, alert_signature \<times> alert) pydict"
  pp_processed_command_store :: command_store
  pp_published :: "publication list"

text \<open>
  What the methods read beside the state: the host, the order in which a set is iterated, the float
  parser, the validation switch of the extractor, the digest and the text of other JSON values.
\<close>

record 'w proc_env =
  pe_host :: "'w host"
  pe_set_order :: "string list \<Rightarrow> string list"
  pe_float_of_str :: "string \<Rightarrow> pyfloat option"
  pe_validate :: bool
  pe_sha256 :: "string \<Rightarrow> string"
  pe_repr :: "json \<Rightarrow> string"

definition alert_confidence_threshold :: real where "alert_confidence_threshold = 8 / 10"

definition processor_init ::
    "'w blocker \<Rightarrow> bool \<times> bool \<times> bool \<times> bool \<Rightarrow> telemetry option \<Rightarrow> heuristic_detector \<Rightarrow>
     nat \<Rightarrow> predictor \<Rightarrow> predictor \<Rightarrow> response_policy \<Rightarrow> command_store \<Rightarrow> 'w processor" where
  "processor_init ab publishers collector detector feature_store_size live completed policy commands =
     (case publishers of (alert_p, event_p, session_p, block_p) \<Rightarrow>
       blocker.extend ab (processor.fields detector builder_init (feature_store_init feature_store_size)
         (feature_store_init 1000) (feature_store_init 1000) (feature_store_init 1000)
         alert_p event_p session_p block_p collector live completed policy [] commands []))"

subsection \<open>Access to the parts\<close>

text \<open>Running a method of a part of the state, and the publications.\<close>

definition on_field ::
    "('s \<Rightarrow> 'c) \<Rightarrow> (('c \<Rightarrow> 'c) \<Rightarrow> 's \<Rightarrow> 's) \<Rightarrow> ('c \<Rightarrow> 'a \<times> 'c) \<Rightarrow> ('s, 'a) state" where
  "on_field get upd f = State (\<lambda>s. case f (get s) of (x, c) \<Rightarrow> (x, upd (\<lambda>_. c) s))"

definition emit_if :: "(('w, 'z) processor_scheme \<Rightarrow> bool) \<Rightarrow> publication \<Rightarrow>
    (('w, 'z) processor_scheme, unit) state" where
  "emit_if present x = do {
     callable \<leftarrow> gets present;
     whenM callable (modify (\<lambda>s. s\<lparr>pp_published := pp_published s @ [x]\<rparr>))
   }"

definition count_telemetry ::
    "'w proc_env \<Rightarrow> (real \<Rightarrow> telemetry \<Rightarrow> telemetry) \<Rightarrow> (('w, 'z) processor_scheme, unit) state" where
  "count_telemetry env f = do {
     tel \<leftarrow> gets pp_telemetry_collector;
     case tel of
       None \<Rightarrow> State_Monad.return ()
     | Some t \<Rightarrow> do {
         now \<leftarrow> clock (pe_host env);
         modify (\<lambda>s. s\<lparr>pp_telemetry_collector := Some (f now t)\<rparr>)
       }
   }"

subsection \<open>Publishing\<close>

definition publish_alert :: "alert \<Rightarrow> (('w, 'z) processor_scheme, unit) state" where
  "publish_alert al = emit_if pp_alert_publisher (AlertOut al)"

definition raise_alert :: "alert \<Rightarrow> (('w, 'z) processor_scheme, unit) state" where
  "raise_alert al = do {
     modify (\<lambda>s. s\<lparr>pp_alert_store := fs_add al (pp_alert_store s)\<rparr>);
     publish_alert al
   }"

definition publish_block_event :: "block_notice \<Rightarrow> (('w, 'z) processor_scheme, unit) state" where
  "publish_block_event bn = emit_if pp_block_event_publisher (BlockOut bn)"

definition publish_prediction_event ::
    "'w proc_env \<Rightarrow> session_key \<Rightarrow> traffic_session \<Rightarrow> prediction \<Rightarrow> (string, real) pydict \<Rightarrow>
     string \<Rightarrow> bool \<Rightarrow> (('w, 'z) processor_scheme, unit) state" where
  "publish_prediction_event env key s pr features event_type is_final =
     emit_if pp_event_publisher
       (EventOut (build_ids_event_payload (pe_sha256 env) key s pr features event_type is_final))"

definition publish_session_update ::
    "session_key \<Rightarrow> traffic_session \<Rightarrow> string \<Rightarrow> prediction option \<Rightarrow> heuristic_decision \<Rightarrow>
     (('w, 'z) processor_scheme, unit) state" where
  "publish_session_update key s session_state pr dec =
     emit_if pp_session_update_publisher
       (SessionOut (build_session_upsert_payload key s session_state pr dec))"

definition should_alert :: "prediction \<Rightarrow> bool" where
  "should_alert pr =
     (if pr_label pr = ''Normal Traffic'' then False else alert_confidence_threshold \<le> pr_confidence pr)"

definition session_key_str :: "session_key \<Rightarrow> string" where
  "session_key_str k = k_src_ip k @ '':'' @ opt_int_str (k_src_port k) @ ''-'' @
     k_dst_ip k @ '':'' @ opt_int_str (k_dst_port k) @ ''-'' @ int_str (k_protocol k)"

definition alert_signature_of :: "alert \<Rightarrow> alert_signature" where
  "alert_signature_of al = (al_attack_type al, py_round 4 (al_confidence al), al_blocked al)"

definition emit_session_alert ::
    "session_key \<Rightarrow> alert \<Rightarrow> bool \<Rightarrow> (('w, 'z) processor_scheme, unit) state" where
  "emit_session_alert session_key al is_final = do {
     let key = session_key_str session_key;
     let signature = alert_signature_of al;
     previous \<leftarrow> gets (\<lambda>s. map_of (pp_session_alert_state s) key);
     if (case previous of None \<Rightarrow> False | Some (sig, _) \<Rightarrow> sig = signature) \<and> \<not> is_final
     then State_Monad.return ()
     else do {
       let update_type = (if is_final then ''final'' else if previous = None then ''new'' else ''updated'');
       let al = al\<lparr>al_session_id := Some key, al_update_type := Some update_type\<rparr>;
       modify (\<lambda>s. s\<lparr>
         pp_session_alert_state := AList.update key (signature, al) (pp_session_alert_state s),
         pp_alert_store := fs_add al (pp_alert_store s)\<rparr>);
       publish_alert al;
       whenM is_final (modify (\<lambda>s. s\<lparr>
         pp_session_alert_state := AList.delete key (pp_session_alert_state s)\<rparr>))
     }
   }"

subsection \<open>Responses\<close>

definition event_tag :: "string \<Rightarrow> string \<Rightarrow> real \<Rightarrow> string" where
  "event_tag tag ip t = tag @ ''-'' @ ip @ ''-'' @ int_str (py_trunc (t * 1000))"

definition packet_alert ::
    "string \<Rightarrow> string \<Rightarrow> real \<Rightarrow> bool \<times> string \<Rightarrow> int \<Rightarrow> packet \<Rightarrow> alert" where
  "packet_alert alert_type attack_type confidence outcome duration p =
     \<lparr>al_type = alert_type, al_attack_type = attack_type, al_confidence = confidence,
      al_blocked = fst outcome, al_block_status = snd outcome, al_block_duration_seconds = duration,
      al_src_ip = p_src_ip p, al_dst_ip = p_dst_ip p, al_src_port = p_src_port p,
      al_dst_port = p_dst_port p, al_protocol = p_protocol p, al_timestamp = p_timestamp p,
      al_is_final = False, al_session_id = None, al_update_type = None\<rparr>"

definition packet_notice :: "string \<Rightarrow> string \<Rightarrow> packet \<Rightarrow> block_notice" where
  "packet_notice tag reason p =
     \<lparr>bn_event_id = event_tag tag (p_src_ip p) (p_timestamp p), bn_timestamp = iso_us (p_timestamp p),
      bn_source_ip = p_src_ip p, bn_action_taken = ''blocked'', bn_reason = reason,
      bn_detection_method = ''heuristic'', bn_session_id = Some (session_key_str (key_of p)),
      bn_source_port = p_src_port p, bn_destination_ip = Some (p_dst_ip p),
      bn_destination_port = p_dst_port p, bn_protocol = Some (p_protocol p)\<rparr>"

definition session_alert ::
    "string \<Rightarrow> prediction \<Rightarrow> bool \<times> string \<Rightarrow> traffic_session \<Rightarrow> bool \<Rightarrow> alert" where
  "session_alert alert_type pr outcome s is_final =
     \<lparr>al_type = alert_type, al_attack_type = pr_label pr, al_confidence = pr_confidence pr,
      al_blocked = fst outcome, al_block_status = snd outcome,
      al_block_duration_seconds = ml_confirmed_block_seconds,
      al_src_ip = s_src_ip s, al_dst_ip = s_dst_ip s, al_src_port = s_src_port s,
      al_dst_port = s_dst_port s, al_protocol = s_protocol s, al_timestamp = s_last_seen s,
      al_is_final = is_final, al_session_id = None, al_update_type = None\<rparr>"

definition session_notice :: "string \<Rightarrow> prediction \<Rightarrow> session_key \<Rightarrow> traffic_session \<Rightarrow> block_notice" where
  "session_notice tag pr key s =
     \<lparr>bn_event_id = event_tag tag (s_src_ip s) (s_last_seen s), bn_timestamp = iso_us (s_last_seen s),
      bn_source_ip = s_src_ip s, bn_action_taken = ''blocked'', bn_reason = pr_label pr,
      bn_detection_method = ''ml'', bn_session_id = Some (session_key_str key),
      bn_source_port = s_src_port s, bn_destination_ip = Some (s_dst_ip s),
      bn_destination_port = s_dst_port s, bn_protocol = Some (s_protocol s)\<rparr>"

text \<open>The activity of a source that is blocked or on the watchlist.\<close>

definition note_known_source :: "'w proc_env \<Rightarrow> packet \<Rightarrow> (('w, 'z) processor_scheme, unit) state" where
  "note_known_source env p = do {
     blocked \<leftarrow> is_currently_blocked (pe_host env) (p_src_ip p);
     whenM blocked (record_detection_activity (pe_host env) (p_src_ip p)
       ''blocked_ip_activity'' ''blocked'' (p_timestamp p));
     watched \<leftarrow> gets (is_watchlisted (p_src_ip p));
     whenM watched (record_detection_activity (pe_host env) (p_src_ip p)
       ''watchlisted_ip_activity'' ''watchlisted'' (p_timestamp p))
   }"

definition respond_heuristic ::
    "'w proc_env \<Rightarrow> packet \<Rightarrow> heuristic_decision \<Rightarrow> (('w, 'z) processor_scheme, unit) state" where
  "respond_heuristic env p dec = do {
     modify (\<lambda>s. s\<lparr>pp_heuristic_events := fs_add
       \<lparr>he_src_ip = p_src_ip p, he_dst_ip = p_dst_ip p, he_src_port = p_src_port p,
        he_dst_port = p_dst_port p, he_protocol = p_protocol p, he_packet_size = p_size p,
        he_timestamp = p_timestamp p, he_score = hd_score dec, he_reason = hd_reason dec\<rparr>
       (pp_heuristic_events s)\<rparr>);
     record_detection_activity (pe_host env) (p_src_ip p) (hd_reason dec) ''allowed'' (p_timestamp p);
     whenM (classify_heuristic_action (hd_score dec) = ''high_temp_block'') (do {
       outcome \<leftarrow> temp_block (pe_host env) (p_src_ip p) high_heuristic_block_seconds;
       let al = packet_alert ''heuristic_high_confidence'' ''Heuristic Suspicious Activity''
         (min (99 / 100) (of_int (hd_score dec) / 10)) outcome high_heuristic_block_seconds p;
       raise_alert al;
       whenM (fst outcome) (publish_block_event (packet_notice ''heuristic'' ''heuristic_high_confidence'' p))
     })
   }"

definition respond_bruteforce :: "'w proc_env \<Rightarrow> packet \<Rightarrow> (('w, 'z) processor_scheme, unit) state" where
  "respond_bruteforce env p = do {
     outcome \<leftarrow> temp_block (pe_host env) (p_src_ip p) bruteforce_block_seconds;
     let al = packet_alert ''heuristic_bruteforce_detected'' ''Brute Force'' (9 / 10) outcome
       bruteforce_block_seconds p;
     raise_alert al;
     whenM (fst outcome) (publish_block_event (packet_notice ''bruteforce'' ''bruteforce_detected'' p));
     record_detection_activity (pe_host env) (p_src_ip p) ''Brute Force''
       (if fst outcome then ''blocked'' else ''allowed'') (p_timestamp p)
   }"

text \<open>The answer to a model verdict that should alert, for a live and for a completed flow.\<close>

definition respond_verdict ::
    "'w proc_env \<Rightarrow> string \<Rightarrow> string \<Rightarrow> session_key \<Rightarrow> traffic_session \<Rightarrow> prediction \<Rightarrow> bool \<Rightarrow>
     (('w, 'z) processor_scheme, unit) state" where
  "respond_verdict env alert_type tag key s pr is_final = do {
     outcome \<leftarrow> temp_block (pe_host env) (s_src_ip s) ml_confirmed_block_seconds;
     emit_session_alert key (session_alert alert_type pr outcome s is_final) is_final;
     whenM (fst outcome) (publish_block_event (session_notice tag pr key s));
     record_detection_activity (pe_host env) (s_src_ip s) (pr_label pr)
       (if fst outcome then ''blocked'' else ''allowed'') (s_last_seen s)
   }"

subsection \<open>Predictions\<close>

definition context_of :: "session_key \<Rightarrow> traffic_session \<Rightarrow> string \<Rightarrow> bool \<Rightarrow> secondary_context" where
  "context_of key s event_type is_final =
     \<lparr>cx_session_key = session_key_str key, cx_src_ip = s_src_ip s, cx_dst_ip = s_dst_ip s,
      cx_src_port = s_src_port s, cx_dst_port = s_dst_port s, cx_protocol = s_protocol s,
      cx_timestamp = s_last_seen s, cx_event_type = event_type, cx_is_final = is_final\<rparr>"

text \<open>A timed call of a predictor, counted when it answers.\<close>

definition timed_prediction ::
    "'w proc_env \<Rightarrow> (('w, 'z) processor_scheme, prediction option) state \<Rightarrow>
     (('w, 'z) processor_scheme, prediction option) state" where
  "timed_prediction env call = do {
     prediction_started \<leftarrow> on_world (host_perf (pe_host env));
     pr \<leftarrow> call;
     prediction_ended \<leftarrow> on_world (host_perf (pe_host env));
     whenM (pr \<noteq> None) (count_telemetry env
       (\<lambda>now. record_ml_prediction now (prediction_ended - prediction_started)));
     State_Monad.return pr
   }"

definition extracted :: "'w proc_env \<Rightarrow> traffic_session \<Rightarrow> (string, real) pydict" where
  "extracted env s = fst (extract_features (pe_float_of_str env) (pe_validate env) s)"

definition predictor_input :: "(string, real) pydict \<Rightarrow> (string, pyfloat) pydict" where
  "predictor_input features = map (\<lambda>(c, x). (c, Fin x)) features"

definition process_finalized_session ::
    "'w proc_env \<Rightarrow> heuristic_decision \<Rightarrow> finalization \<Rightarrow> (('w, 'z) processor_scheme, unit) state" where
  "process_finalized_session env dec finalized = do {
     let final_session = f_session finalized;
     let final_key = f_key finalized;
     let final_features = extracted env final_session;
     final_prediction \<leftarrow> timed_prediction env
       (on_field pp_completed_flow_predictor pp_completed_flow_predictor_update
         (predict_primary_and_submit_secondary (predictor_input final_features)
           (context_of final_key final_session ''ml_completed_flow_secondary_shadow'' True)));
     publish_session_update final_key final_session (f_reason finalized) final_prediction dec;
     case final_prediction of
       None \<Rightarrow> State_Monad.return ()
     | Some pr \<Rightarrow> do {
         publish_prediction_event env final_key final_session pr final_features
           ''ml_completed_flow_prediction'' True;
         whenM (should_alert pr) (respond_verdict env ''ml_completed_flow_update'' ''ml-final''
           final_key final_session pr True)
       }
   }"

definition ml_event_of :: "traffic_session \<Rightarrow> prediction \<Rightarrow> ml_event" where
  "ml_event_of s pr =
     \<lparr>me_src_ip = s_src_ip s, me_dst_ip = s_dst_ip s, me_src_port = s_src_port s,
      me_dst_port = s_dst_port s, me_protocol = s_protocol s, me_label = pr_label pr,
      me_confidence = pr_confidence pr, me_encoded = pr_encoded pr, me_timestamp = s_last_seen s\<rparr>"

definition predict_live_session ::
    "'w proc_env \<Rightarrow> heuristic_decision \<Rightarrow> session_key \<Rightarrow> traffic_session \<Rightarrow>
     (('w, 'z) processor_scheme, unit) state" where
  "predict_live_session env dec key s = do {
     let features = extracted env s;
     modify (\<lambda>st. st\<lparr>pp_feature_store := fs_add features (pp_feature_store st)\<rparr>);
     prediction \<leftarrow> timed_prediction env
       (on_field pp_live_predictor pp_live_predictor_update
         (predict_primary_and_submit_secondary (predictor_input features)
           (context_of key s ''ml_live_secondary_shadow'' False)));
     publish_session_update key s ''active'' prediction dec;
     case prediction of
       None \<Rightarrow> State_Monad.return ()
     | Some pr \<Rightarrow> do {
         modify (\<lambda>st. st\<lparr>pp_ml_events := fs_add (ml_event_of s pr) (pp_ml_events st)\<rparr>);
         publish_prediction_event env key s pr features ''ml_live_prediction'' False;
         whenM (should_alert pr) (respond_verdict env ''ml_attack_detected'' ''ml-live'' key s pr False)
       }
   }"

subsection \<open>A packet\<close>

definition evaluate_source ::
    "'w proc_env \<Rightarrow> packet \<Rightarrow> (('w, 'z) processor_scheme, heuristic_decision \<times> bool) state" where
  "evaluate_source env p = do {
     dec \<leftarrow> on_field pp_heuristic_detector pp_heuristic_detector_update
       (evaluate_packet (pe_set_order env) p);
     brute_force_suspected \<leftarrow> on_field pp_response_policy pp_response_policy_update
       (record_bruteforce_attempt (p_src_ip p) (p_dst_ip p) (p_dst_port p) (p_timestamp p));
     State_Monad.return (dec, brute_force_suspected)
   }"

definition process :: "'w proc_env \<Rightarrow> packet \<Rightarrow> (('w, 'z) processor_scheme, unit) state" where
  "process env p = do {
     expire_blocks (pe_host env);
     note_known_source env p;
     (dec, brute_force_suspected) \<leftarrow> evaluate_source env p;
     whenM (hd_suspicious dec) (respond_heuristic env p dec);
     whenM brute_force_suspected (respond_bruteforce env p);
     session \<leftarrow> on_field pp_session_builder pp_session_builder_update (process_packet p);
     expired_finalized \<leftarrow> on_field pp_session_builder pp_session_builder_update drain_finalized_sessions;
     for_each expired_finalized (process_finalized_session env dec);
     predict \<leftarrow> on_field pp_session_builder pp_session_builder_update (should_predict p);
     whenM predict (predict_live_session env dec (key_of p) session);
     finalized \<leftarrow> on_field pp_session_builder pp_session_builder_update (finalize_session_if_needed p);
     (case finalized of
        None \<Rightarrow> State_Monad.return ()
      | Some f \<Rightarrow> process_finalized_session env dec f);
     tel \<leftarrow> gets pp_telemetry_collector;
     (case tel of
        None \<Rightarrow> State_Monad.return ()
      | Some t \<Rightarrow> modify (\<lambda>s. s\<lparr>pp_telemetry_collector := Some (record_packet_processed t)\<rparr>))
   }"

subsection \<open>Backend commands\<close>

text \<open>
  \<open>str(command.get(k, ""))\<close> and \<open>int(command.get("duration_seconds", 300) or 300)\<close>; the latter
  raises before anything is done when the value is no number.
\<close>

definition command_text :: "(json \<Rightarrow> string) \<Rightarrow> backend_command \<Rightarrow> string \<Rightarrow> string" where
  "command_text rep command k = strip (py_str rep (obj_get command k (JStr [])))"

definition command_duration :: "backend_command \<Rightarrow> py_error + int" where
  "command_duration command =
     (let v = obj_get command ''duration_seconds'' (JInt 300)
      in py_int (if truthy v then v else JInt 300))"

definition mapped_action :: "string \<Rightarrow> string" where
  "mapped_action action =
     (if action = ''unblock'' then ''unblocked''
      else if action = ''watchlist'' then ''watchlisted''
      else if action = ''unwatchlist'' then ''unwatchlisted''
      else ''blocked'')"

definition command_notice :: "string \<Rightarrow> string \<Rightarrow> string \<Rightarrow> real \<Rightarrow> block_notice" where
  "command_notice command_id action ip t =
     \<lparr>bn_event_id = (if command_id \<noteq> [] then ''cmd-'' @ command_id else ''cmd-'' @ ip @ ''-'' @ action),
      bn_timestamp = iso_us t, bn_source_ip = ip, bn_action_taken = mapped_action action,
      bn_reason = ''manual_'' @ action, bn_detection_method = ''manual'', bn_session_id = None,
      bn_source_port = None, bn_destination_ip = None, bn_destination_port = None, bn_protocol = None\<rparr>"

definition run_command ::
    "'w proc_env \<Rightarrow> string \<Rightarrow> string \<Rightarrow> string \<Rightarrow> (('w, 'z) processor_scheme, bool \<times> string) state \<Rightarrow>
     (('w, 'z) processor_scheme, bool \<times> string) state" where
  "run_command env command_id action ip call = do {
     (ok, status) \<leftarrow> call;
     whenM (ok \<and> command_id \<noteq> []) (modify (\<lambda>s. s\<lparr>pp_processed_command_store :=
       cs_add command_id (pp_processed_command_store s)\<rparr>));
     whenM ok (do {
       now \<leftarrow> clock (pe_host env);
       publish_block_event (command_notice command_id action ip now)
     });
     State_Monad.return (ok, status)
   }"

definition apply_backend_command ::
    "'w proc_env \<Rightarrow> backend_command \<Rightarrow> (('w, 'z) processor_scheme, py_error + bool \<times> string) state" where
  "apply_backend_command env command = do {
     let command_id = command_text (pe_repr env) command ''command_id'';
     let action = lower (command_text (pe_repr env) command ''action'');
     let ip = command_text (pe_repr env) command ''ip_address'';
     case command_duration command of
       Inl e \<Rightarrow> State_Monad.return (Inl e)
     | Inr duration_seconds \<Rightarrow>
         if action = [] \<or> ip = [] then State_Monad.return (Inr (False, ''invalid_command''))
         else do {
           duplicate \<leftarrow> gets (\<lambda>s. command_id \<noteq> [] \<and> cs_contains command_id (pp_processed_command_store s));
           if duplicate then State_Monad.return (Inr (True, ''duplicate_command''))
           else if action = ''block'' then do {
             r \<leftarrow> run_command env command_id action ip
               (manual_block (pe_host env) ip (max 1 duration_seconds));
             State_Monad.return (Inr r) }
           else if action = ''unblock'' then do {
             r \<leftarrow> run_command env command_id action ip (manual_unblock (pe_host env) ip);
             State_Monad.return (Inr r) }
           else if action = ''watchlist'' then do {
             r \<leftarrow> run_command env command_id action ip (watchlist_ip (pe_host env) ip);
             State_Monad.return (Inr r) }
           else if action = ''unwatchlist'' then do {
             r \<leftarrow> run_command env command_id action ip (unwatchlist_ip (pe_host env) ip);
             State_Monad.return (Inr r) }
           else State_Monad.return (Inr (False, ''unsupported_action''))
         }
   }"

subsection \<open>The secondary model\<close>

definition shadow_severity :: "string \<Rightarrow> real \<Rightarrow> string" where
  "shadow_severity label confidence =
     (if label = ''Normal Traffic'' then ''low''
      else if alert_confidence_threshold \<le> confidence then ''high''
      else ''medium'')"

definition shadow_event_of ::
    "(string \<Rightarrow> string) \<Rightarrow> bundle_prediction \<Rightarrow> secondary_context \<Rightarrow> shadow_event" where
  "shadow_event_of sha256 r cx =
     \<lparr>se_event_id = prediction_event_id sha256 (cx_session_key cx) (cx_event_type cx) (bp_label r) (cx_timestamp cx),
      se_ts = iso_us (cx_timestamp cx), se_context = cx, se_model = bp_model_key r,
      se_prediction = bp_label r, se_confidence = bp_confidence r,
      se_severity = shadow_severity (bp_label r) (bp_confidence r), se_action = ''shadow'',
      se_detection_method = cx_event_type cx, se_session_id = cx_session_key cx,
      se_risk_score = bp_confidence r, se_is_final = cx_is_final cx, se_result = r\<rparr>"

definition publish_shadow_event ::
    "'w proc_env \<Rightarrow> bundle_prediction \<Rightarrow> secondary_context \<Rightarrow> (('w, 'z) processor_scheme, unit) state" where
  "publish_shadow_event env r cx = do {
     count_telemetry env record_secondary_model_prediction;
     callable \<leftarrow> gets pp_event_publisher;
     whenM callable (do {
       now \<leftarrow> clock (pe_host env);
       emit_if pp_event_publisher (ShadowOut (shadow_event_of (pe_sha256 env) r cx))
     })
   }"

text \<open>
  One turn of a worker of the predictor \<open>sel\<close>: it takes the oldest job and publishes the result of
  the secondary model. Jobs are only submitted while that model is loaded, so that the prediction
  exists and the publisher of the jobs confirms.
\<close>

datatype which_predictor = LivePredictor | CompletedFlowPredictor

fun predictor_of :: "which_predictor \<Rightarrow> ('w, 'z) processor_scheme \<Rightarrow> predictor" where
  "predictor_of LivePredictor s = pp_live_predictor s"
| "predictor_of CompletedFlowPredictor s = pp_completed_flow_predictor s"

fun set_predictor :: "which_predictor \<Rightarrow> predictor \<Rightarrow> ('w, 'z) processor_scheme \<Rightarrow> ('w, 'z) processor_scheme" where
  "set_predictor LivePredictor pd s = s\<lparr>pp_live_predictor := pd\<rparr>"
| "set_predictor CompletedFlowPredictor pd s = s\<lparr>pp_completed_flow_predictor := pd\<rparr>"

definition take_job :: "predictor \<Rightarrow> secondary_job option \<times> predictor" where
  "take_job pd =
     (case pd_secondary_publisher pd of
        None \<Rightarrow> (None, pd)
      | Some q \<Rightarrow> (case pb_queue q of
          [] \<Rightarrow> (None, pd)
        | job # jobs \<Rightarrow> (Some job, pd\<lparr>pd_secondary_publisher := Some
            (q\<lparr>pb_queue := jobs, pb_delivered := pb_delivered q @ [job]\<rparr>)\<rparr>)))"

definition secondary_turn :: "'w proc_env \<Rightarrow> which_predictor \<Rightarrow> (('w, 'z) processor_scheme, unit) state" where
  "secondary_turn env sel = do {
     job \<leftarrow> on_field (predictor_of sel) (\<lambda>f s. set_predictor sel (f (predictor_of sel s)) s) take_job;
     case job of
       None \<Rightarrow> State_Monad.return ()
     | Some (fr, cx) \<Rightarrow> do {
         pd \<leftarrow> gets (predictor_of sel);
         case run_secondary_prediction pd (fr, cx) of
           None \<Rightarrow> State_Monad.return ()
         | Some r \<Rightarrow> publish_shadow_event env r cx
       }
   }"

definition telemetry_extras :: "('w, 'z) processor_scheme \<Rightarrow> nat \<times> nat \<times> real \<times> nat" where
  "telemetry_extras s =
     (let dispatchers = List.map_filter pd_secondary_publisher
            [pp_live_predictor s, pp_completed_flow_predictor s];
          queue_size = sum_list (map (length \<circ> pb_queue) dispatchers);
          queue_maxsize = sum_list (map pb_maxsize dispatchers);
          dropped_total = sum_list (map pb_dropped dispatchers)
      in (queue_size, queue_maxsize,
          (if 0 < queue_maxsize then py_round 4 (real queue_size / real queue_maxsize * 100) else 0),
          dropped_total))"

end
