(* ===== verification/Engine.thy ===== *)
theory Engine
  imports Processor
begin

text \<open>
  The engine as it runs: packets, backend commands and turns of the secondary workers in any order.
  The locales state what an invariant of the processor must be kept by, and lift it to every
  method and every run; the blocker, the alerts and the session table each instantiate them.
\<close>

subsection \<open>Steps\<close>

datatype engine_input =
  PacketIn packet | CommandIn backend_command | SecondaryTurn which_predictor

fun engine_step :: "'w proc_env \<Rightarrow> engine_input \<Rightarrow> 'w processor \<Rightarrow> 'w processor" where
  "engine_step env (PacketIn p) s = snd (run_state (process env p) s)"
| "engine_step env (CommandIn c) s = snd (run_state (apply_backend_command env c) s)"
| "engine_step env (SecondaryTurn sel) s = snd (run_state (secondary_turn env sel) s)"

definition engine_run :: "'w proc_env \<Rightarrow> engine_input list \<Rightarrow> 'w processor \<Rightarrow> 'w processor" where
  "engine_run env inputs s = fold (engine_step env) inputs s"

lemma keeps_on_field [keeps_intros]:
  "(\<And>s c. I s \<Longrightarrow> I (upd (\<lambda>_. c) s)) \<Longrightarrow> keeps I (on_field get upd f)"
  by (auto simp: keeps_def on_field_def split: prod.splits)

lemma run_on_field [simp]: "run_state (on_field get upd f) s =
    (fst (f (get s)), upd (\<lambda>_. snd (f (get s))) s)"
  by (simp add: on_field_def case_prod_beta)

subsection \<open>Invariants\<close>

locale engine_part =
  fixes env :: "'w proc_env" and I :: "'w processor \<Rightarrow> bool"
  assumes at_clock: "keeps I (clock (pe_host env))"
    and at_perf: "keeps I (on_world (host_perf (pe_host env)))"
    and at_expire: "keeps I (expire_blocks (pe_host env))"
    and at_check: "keeps I (is_currently_blocked (pe_host env) ip)"
    and at_activity: "keeps I (record_detection_activity (pe_host env) ip attack_type action t)"
    and at_block: "keeps I (temp_block (pe_host env) ip d)"
    and at_unblock: "keeps I (manual_unblock (pe_host env) ip)"
    and at_watch: "keeps I (watchlist_ip (pe_host env) ip)"
    and at_unwatch: "keeps I (unwatchlist_ip (pe_host env) ip)"
    and at_raise: "al_session_id al = None \<Longrightarrow> keeps I (raise_alert al)"
    and at_session_alert: "al_is_final al = fin \<Longrightarrow> keeps I (emit_session_alert key al fin)"
    and at_emit: "(\<And>al. x \<noteq> AlertOut al) \<Longrightarrow> (\<And>u. x \<noteq> SessionOut u) \<Longrightarrow> keeps I (emit_if present x)"
    and at_fields: "I s \<Longrightarrow> I (s\<lparr>pp_heuristic_detector := detector\<rparr>)"
      "I s \<Longrightarrow> I (s\<lparr>pp_feature_store := rows\<rparr>)"
      "I s \<Longrightarrow> I (s\<lparr>pp_heuristic_events := heuristics\<rparr>)"
      "I s \<Longrightarrow> I (s\<lparr>pp_ml_events := predictions\<rparr>)"
      "I s \<Longrightarrow> I (s\<lparr>pp_telemetry_collector := collector\<rparr>)"
      "I s \<Longrightarrow> I (s\<lparr>pp_live_predictor := predictor\<rparr>)"
      "I s \<Longrightarrow> I (s\<lparr>pp_completed_flow_predictor := predictor\<rparr>)"
      "I s \<Longrightarrow> I (s\<lparr>pp_response_policy := policy\<rparr>)"
begin

lemmas parts = keeps_intros at_clock at_perf at_expire at_check at_activity at_block at_unblock
  at_watch at_unwatch at_raise at_session_alert at_emit at_fields

lemma keeps_count: "keeps I (count_telemetry env f)"
  unfolding count_telemetry_def by (intro parts)

lemma keeps_known: "keeps I (note_known_source env p)"
  unfolding note_known_source_def by (intro parts)

lemma keeps_evaluate: "keeps I (evaluate_source env p)"
  unfolding evaluate_source_def by (intro parts)

lemma keeps_notice: "keeps I (publish_block_event bn)"
  unfolding publish_block_event_def by (intro parts) simp_all

lemma keeps_heuristic: "keeps I (respond_heuristic env p dec)"
  unfolding respond_heuristic_def Let_def by (intro parts keeps_notice) (simp_all add: packet_alert_def)

lemma keeps_bruteforce: "keeps I (respond_bruteforce env p)"
  unfolding respond_bruteforce_def Let_def by (intro parts keeps_notice) (simp_all add: packet_alert_def)

lemma keeps_verdict: "keeps I (respond_verdict env alert_type tag key s pr fin)"
  unfolding respond_verdict_def by (intro parts keeps_notice) (simp_all add: session_alert_def)

lemma keeps_timed: "keeps I call \<Longrightarrow> keeps I (timed_prediction env call)"
  unfolding timed_prediction_def by (intro parts keeps_count)

lemma keeps_prediction_event: "keeps I (publish_prediction_event env key s pr features ty fin)"
  unfolding publish_prediction_event_def by (intro parts) simp_all

lemmas responses = parts keeps_count keeps_known keeps_evaluate keeps_notice keeps_heuristic
  keeps_bruteforce keeps_verdict keeps_timed keeps_prediction_event

lemma keeps_shadow: "keeps I (publish_shadow_event env r cx)"
  unfolding publish_shadow_event_def by (intro responses) simp_all

lemma keeps_secondary: "keeps I (secondary_turn env sel)"
proof -
  have "I s \<Longrightarrow> I (set_predictor sel pd s)" for pd s by (cases sel) (simp_all add: at_fields)
  then show ?thesis unfolding secondary_turn_def by (intro responses keeps_shadow)
qed

end

locale engine_packets = engine_part +
  assumes at_session_out: "keeps I (emit_if pp_session_update_publisher (SessionOut u))"
    and at_builder: "I s \<Longrightarrow> I (s\<lparr>pp_session_builder := b\<rparr>)"
begin

lemma keeps_session_update: "keeps I (publish_session_update key s st pr dec)"
  unfolding publish_session_update_def by (rule at_session_out)

lemma keeps_finalized: "keeps I (process_finalized_session env dec f)"
  unfolding process_finalized_session_def Let_def by (intro responses keeps_session_update)

lemma keeps_live: "keeps I (predict_live_session env dec key s)"
  unfolding predict_live_session_def Let_def by (intro responses keeps_session_update)

lemma keeps_process: "keeps I (process env p)"
  unfolding process_def by (intro responses keeps_finalized keeps_live at_builder)

end

locale engine_commands = engine_part +
  assumes at_commands: "I s \<Longrightarrow> I (s\<lparr>pp_processed_command_store := commands\<rparr>)"
begin

lemma keeps_command_run: "keeps I call \<Longrightarrow> keeps I (run_command env cid action ip call)"
  unfolding run_command_def by (intro responses at_commands)

lemma keeps_command: "keeps I (apply_backend_command env c)"
  unfolding apply_backend_command_def Let_def manual_block_def
  by (cases "command_duration c"; simp only: sum.case) (intro responses keeps_command_run)+

end

locale engine_invariant = engine_packets + engine_commands
begin

lemma step: "I s \<Longrightarrow> I (engine_step env x s)"
  by (cases x) (simp_all add: keepsD [OF keeps_process] keepsD [OF keeps_command] keepsD [OF keeps_secondary])

lemma run: "I s \<Longrightarrow> I (engine_run env inputs s)"
  unfolding engine_run_def by (induction inputs arbitrary: s) (simp_all add: step)

end

subsection \<open>Invariants that no blocker method touches\<close>

locale framed_part =
  fixes env :: "'w proc_env" and I :: "'w processor \<Rightarrow> bool"
  assumes ab_fields: "I s \<Longrightarrow> I (s\<lparr>ab_last_block_time := stamps\<rparr>)"
      "I s \<Longrightarrow> I (s\<lparr>ab_blocked_until := untils\<rparr>)"
      "I s \<Longrightarrow> I (s\<lparr>ab_block_counts := counts\<rparr>)"
      "I s \<Longrightarrow> I (s\<lparr>ab_watchlisted_ips := ips\<rparr>)"
      "I s \<Longrightarrow> I (s\<lparr>ab_record_store := records\<rparr>)"
      "I s \<Longrightarrow> I (s\<lparr>ab_activity_tracker := tracker\<rparr>)"
      "I s \<Longrightarrow> I (s\<lparr>ab_world := w\<rparr>)"
    and fr_raise: "al_session_id al = None \<Longrightarrow> keeps I (raise_alert al)"
    and fr_session_alert: "al_is_final al = fin \<Longrightarrow> keeps I (emit_session_alert key al fin)"
    and fr_emit: "(\<And>al. x \<noteq> AlertOut al) \<Longrightarrow> (\<And>u. x \<noteq> SessionOut u) \<Longrightarrow> keeps I (emit_if present x)"
    and fr_fields: "I s \<Longrightarrow> I (s\<lparr>pp_heuristic_detector := detector\<rparr>)"
      "I s \<Longrightarrow> I (s\<lparr>pp_feature_store := rows\<rparr>)"
      "I s \<Longrightarrow> I (s\<lparr>pp_heuristic_events := heuristics\<rparr>)"
      "I s \<Longrightarrow> I (s\<lparr>pp_ml_events := predictions\<rparr>)"
      "I s \<Longrightarrow> I (s\<lparr>pp_telemetry_collector := collector\<rparr>)"
      "I s \<Longrightarrow> I (s\<lparr>pp_live_predictor := predictor\<rparr>)"
      "I s \<Longrightarrow> I (s\<lparr>pp_completed_flow_predictor := predictor\<rparr>)"
      "I s \<Longrightarrow> I (s\<lparr>pp_response_policy := policy\<rparr>)"
begin

lemma keeps_world: "keeps I (on_world f)"
  by (auto simp: keeps_def intro: ab_fields)

lemma keeps_clock: "keeps I (clock hst)"
  unfolding clock_def by (rule keeps_world)

lemma keeps_tables: "keeps I (forget_block ip)" "keeps I (set_block ip now d)" "keeps I (count_block ip)"
proof -
  have "I (s\<lparr>ab_blocked_until := x, ab_last_block_time := y\<rparr>)"
    "I (s\<lparr>ab_last_block_time := y, ab_blocked_until := x\<rparr>)" if "I s" for s x y
    using that by (simp_all add: ab_fields)
  then show "keeps I (forget_block ip)" "keeps I (set_block ip now d)" "keeps I (count_block ip)"
    unfolding forget_block_def set_block_def count_block_def by (intro keeps_intros ab_fields; simp)+
qed

lemma keeps_detection: "keeps I (record_detection_activity hst ip ty act t)"
  unfolding record_detection_activity_def by (intro keeps_intros keeps_clock ab_fields)

lemma keeps_record: "keeps I (record_block hst status ip d)"
  unfolding record_block_def by (intro keeps_intros keeps_clock ab_fields)

lemmas frames = keeps_intros keeps_world keeps_clock keeps_tables keeps_detection keeps_record ab_fields

lemma keeps_expire: "keeps I (expire_blocks hst)"
  unfolding expire_blocks_def expire_block_def by (intro frames)

lemma keeps_check: "keeps I (is_currently_blocked hst ip)"
  unfolding is_currently_blocked_def by (intro frames)

lemma keeps_block: "keeps I (temp_block hst ip d)"
  unfolding temp_block_def by (intro frames keeps_expire)

lemma keeps_unblock: "keeps I (manual_unblock hst ip)"
  unfolding manual_unblock_def by (intro frames)

lemma keeps_watch: "keeps I (watchlist_ip hst ip)"
  unfolding watchlist_ip_def by (intro frames)

lemma keeps_unwatch: "keeps I (unwatchlist_ip hst ip)"
  unfolding unwatchlist_ip_def by (intro frames)

end

sublocale framed_part \<subseteq> engine_part
  by unfold_locales
    (simp_all add: keeps_world keeps_clock keeps_expire keeps_check keeps_detection keeps_block
      keeps_unblock keeps_watch keeps_unwatch fr_raise fr_session_alert fr_emit fr_fields)

locale framed_packets = framed_part +
  assumes fr_session_out: "keeps I (emit_if pp_session_update_publisher (SessionOut u))"
    and fr_builder: "I s \<Longrightarrow> I (s\<lparr>pp_session_builder := b\<rparr>)"

sublocale framed_packets \<subseteq> engine_packets
  by unfold_locales (rule fr_session_out, rule fr_builder)

locale framed_commands = framed_part +
  assumes fr_commands: "I s \<Longrightarrow> I (s\<lparr>pp_processed_command_store := commands\<rparr>)"

sublocale framed_commands \<subseteq> engine_commands
  by unfold_locales (rule fr_commands)

locale framed_invariant = framed_packets + framed_commands

sublocale framed_invariant \<subseteq> engine_invariant
  by unfold_locales

subsection \<open>The alerts\<close>

text \<open>The alerts given to the publisher, and those of one session.\<close>

definition alerts_in :: "publication list \<Rightarrow> alert list" where
  "alerts_in pubs = List.map_filter (\<lambda>x. case x of AlertOut al \<Rightarrow> Some al | _ \<Rightarrow> None) pubs"

definition session_alerts :: "string \<Rightarrow> alert list \<Rightarrow> alert list" where
  "session_alerts key als = filter (\<lambda>al. al_session_id al = Some key) als"

text \<open>
  \<open>alert_chain prev als\<close>: after the alert \<open>prev\<close> of the session still open, the alerts \<open>als\<close> are
  each new, updated or final as the one before says, and one that is not final differs from it.
\<close>

fun alert_chain :: "alert option \<Rightarrow> alert list \<Rightarrow> bool" where
  "alert_chain prev [] = True"
| "alert_chain prev (al # als) =
     (al_update_type al = Some (if al_is_final al then ''final'' else if prev = None then ''new'' else ''updated'') \<and>
      (\<not> al_is_final al \<longrightarrow> map_option alert_signature_of prev \<noteq> Some (alert_signature_of al)) \<and>
      alert_chain (if al_is_final al then None else Some al) als)"

fun last_open :: "alert option \<Rightarrow> alert list \<Rightarrow> alert option" where
  "last_open prev [] = prev"
| "last_open prev (al # als) = last_open (if al_is_final al then None else Some al) als"

lemma alert_chain_append:
  "alert_chain prev (als @ [al]) \<longleftrightarrow> alert_chain prev als \<and> alert_chain (last_open prev als) [al]"
  by (induction als arbitrary: prev) auto

lemma last_open_append:
  "last_open prev (als @ [al]) = (if al_is_final al then None else Some al)"
  by (induction als arbitrary: prev) auto

text \<open>
  \<open>alerts_ok\<close>: with an alert publisher present, the store is the newest of the alerts published,
  the alert state remembers the open alert of each session, and every session's alerts are a chain.
\<close>

definition alerts_ok :: "('w, 'z) processor_scheme \<Rightarrow> bool" where
  "alerts_ok s \<longleftrightarrow> pp_alert_publisher s \<and>
     fs_features (pp_alert_store s) = last_n (fs_max_size (pp_alert_store s)) (alerts_in (pp_published s)) \<and>
     fs_max_size (pp_alert_store s) = 1000 \<and>
     (\<forall>key. alert_chain None (session_alerts key (alerts_in (pp_published s))) \<and>
        map_of (pp_session_alert_state s) key =
          map_option (\<lambda>al. (alert_signature_of al, al)) (last_open None (session_alerts key (alerts_in (pp_published s)))))"

lemma alerts_in_snoc [simp]:
  "alerts_in (pubs @ [x]) = alerts_in pubs @ (case x of AlertOut al \<Rightarrow> [al] | _ \<Rightarrow> [])"
  by (cases x) (simp_all add: alerts_in_def map_filter_append List.map_filter_simps)

lemma session_alerts_snoc [simp]: "session_alerts key (als @ [al]) =
    session_alerts key als @ (if al_session_id al = Some key then [al] else [])"
  by (simp add: session_alerts_def)

lemma alerts_ok_store:
  "alerts_ok s \<Longrightarrow> fs_features (fs_add al (pp_alert_store s)) =
     last_n (fs_max_size (pp_alert_store s)) (alerts_in (pp_published s) @ [al])"
  by (simp add: alerts_ok_def fs_add_def last_n_append_last_n)

lemma alerts_ok_emit:
  assumes ok: "alerts_ok s" and fin: "al_is_final al = fin"
  shows "alerts_ok (snd (run_state (emit_session_alert sk al fin) s))"
proof -
  let ?key = "session_key_str sk"
  let ?prev = "last_open None (session_alerts ?key (alerts_in (pp_published s)))"
  let ?al = "al\<lparr>al_session_id := Some ?key, al_update_type := Some (if fin then ''final'' else
    if ?prev = None then ''new'' else ''updated'')\<rparr>"
  have sig: "alert_signature_of (al\<lparr>al_session_id := x, al_update_type := y\<rparr>) = alert_signature_of al" for x y by (simp add: alert_signature_of_def)
  have st: "map_of (pp_session_alert_state s) ?key = map_option (\<lambda>al. (alert_signature_of al, al)) ?prev"
    and pub: "pp_alert_publisher s" using ok by (simp_all add: alerts_ok_def)
  show ?thesis
  proof (cases "map_option alert_signature_of ?prev = Some (alert_signature_of al) \<and> \<not> fin")
    case True
    then have "run_state (emit_session_alert sk al fin) s = ((), s)"
      by (cases ?prev) (simp_all add: emit_session_alert_def Let_def st)
    with ok show ?thesis by simp
  next
    case False
    define al' where "al' = ?al"
    have a: "al_session_id al' = Some ?key" "al_is_final al' = fin"
      "alert_signature_of al' = alert_signature_of al" "al_update_type al' =
        Some (if fin then ''final'' else if ?prev = None then ''new'' else ''updated'')"
      using fin by (simp_all add: al'_def sig)
    define s' where "s' = snd (run_state (emit_session_alert sk al fin) s)"
    have s': "s' = s\<lparr>
        pp_session_alert_state := (if fin then AList.delete ?key (AList.update ?key (alert_signature_of al, al') (pp_session_alert_state s))
          else AList.update ?key (alert_signature_of al, al') (pp_session_alert_state s)),
        pp_alert_store := fs_add al' (pp_alert_store s),
        pp_published := pp_published s @ [AlertOut al']\<rparr>"
      using False pub
      by (cases ?prev; cases fin) (simp_all add: s'_def al'_def emit_session_alert_def Let_def st publish_alert_def emit_if_def)
    have log: "session_alerts key (alerts_in (pp_published s')) =
        session_alerts key (alerts_in (pp_published s)) @ (if key = ?key then [al'] else [])" for key
      by (simp add: s' a)
    have "alert_chain ?prev [al']" using False by (auto simp: a)
    then have chain: "alert_chain None (session_alerts key (alerts_in (pp_published s')))" for key
      using ok by (simp add: log alerts_ok_def alert_chain_append)
    have state: "map_of (pp_session_alert_state s') key =
        map_option (\<lambda>al. (alert_signature_of al, al))
          (last_open None (session_alerts key (alerts_in (pp_published s'))))" for key
      using ok fin by (simp add: log alerts_ok_def last_open_append a) (simp add: s' a)
    have "fs_features (pp_alert_store s') =
        last_n (fs_max_size (pp_alert_store s')) (alerts_in (pp_published s'))"
      "fs_max_size (pp_alert_store s') = 1000" "pp_alert_publisher s'"
      using alerts_ok_store [OF ok, of al'] ok by (simp_all add: s' fs_add_def alerts_ok_def)
    with chain state have "alerts_ok s'" by (simp add: alerts_ok_def)
    then show ?thesis by (simp add: s'_def)
  qed
qed

interpretation alerting: framed_invariant env alerts_ok for env
proof (unfold_locales, goal_cases)
  case (8 al)
  then show ?case using alerts_ok_store
    by (auto simp: keeps_def raise_alert_def publish_alert_def emit_if_def alerts_ok_def fs_add_def
      last_n_append_last_n)
next
  case (9 al fin key)
  then show ?case by (simp add: keeps_def alerts_ok_emit)
next
  case (10 x present)
  then show ?case
    by (cases x) (auto simp: keeps_def emit_if_def alerts_ok_def)
next
  case (19 u)
  then show ?case by (simp add: keeps_def emit_if_def alerts_ok_def)
qed (simp_all add: alerts_ok_def)

lemma alerts_ok_init:
  "alerts_ok (processor_init ab (True, e, u, n) tel det k live completed policy commands)"
  by (simp add: processor_init_def alerts_ok_def processor.defs blocker.defs alerts_in_def
      List.map_filter_simps session_alerts_def feature_store_init_def)

subsection \<open>Blocks, sessions and commands\<close>

lemma keeps_emit_if: "(\<And>s ps. I s \<Longrightarrow> I (s\<lparr>pp_published := ps\<rparr>)) \<Longrightarrow> keeps I (emit_if present x)"
  by (simp add: keeps_def emit_if_def)

lemma keeps_alerts:
  assumes "\<And>s ps store st. I s \<Longrightarrow> I (s\<lparr>pp_alert_store := store\<rparr>)" "\<And>s ps. I s \<Longrightarrow> I (s\<lparr>pp_published := ps\<rparr>)"
    and "\<And>s st. I s \<Longrightarrow> I (s\<lparr>pp_session_alert_state := st\<rparr>)"
  shows "keeps I (raise_alert al)" and "keeps I (emit_session_alert key al fin)"
proof -
  have "I (s\<lparr>pp_session_alert_state := st, pp_alert_store := store\<rparr>)" if "I s" for s st store
    using assms(1) [OF assms(3) [OF that]] .
  then show "keeps I (raise_alert al)" "keeps I (emit_session_alert key al fin)"
    unfolding raise_alert_def emit_session_alert_def publish_alert_def Let_def
    by (intro keeps_intros keeps_emit_if assms; simp)+
qed

lemma enforced_engine:
  fixes env :: "'w proc_env"
  assumes h: "documented_host a (pe_host env) rules"
  shows "engine_invariant env (enforced a rules X)"
proof -
  have q: "keeps (enforced a rules X) m" if "\<And>s0. keeps (quiet a rules s0) m" for m :: "('w processor, 'b) state"
    unfolding keeps_def using enforced_quiet_op [OF that] by simp
  have perf: "keeps (quiet a rules s0) (on_world (host_perf (pe_host env)))" for s0 :: "'w processor"
    by (auto simp: keeps_def quiet_def adapter_perf_effect [OF h])
  have f: "enforced a rules X (s\<lparr>pp_published := ps\<rparr>) = enforced a rules X s"
    "enforced a rules X (s\<lparr>pp_alert_store := store\<rparr>) = enforced a rules X s"
    "enforced a rules X (s\<lparr>pp_session_alert_state := st\<rparr>) = enforced a rules X s"
    for s :: "'w processor" and ps store st by (simp_all add: enforced_def)
  note al = keeps_alerts [of "enforced a rules X"] keeps_emit_if [of "enforced a rules X"]
  show ?thesis
  proof (unfold_locales, goal_cases)
    case 1 show ?case by (intro q keeps_quiet_clock h)
  next
    case 2 show ?case by (intro q perf)
  next
    case (5 ip ty act t) show ?case by (intro q keeps_quiet_activity h)
  qed (simp_all add: al f keeps_def [of _ "expire_blocks x" for x] keeps_def [of _ "temp_block x y z" for x y z]
      keeps_def [of _ "manual_unblock x y" for x y] keeps_def [of _ "watchlist_ip x y" for x y]
      keeps_def [of _ "unwatchlist_ip x y" for x y] keeps_def [of _ "is_currently_blocked x y" for x y]
      enforced_temp_block [OF h] enforced_manual_unblock [OF h]
      enforced_expire_blocks [OF h] enforced_watchlist [OF h] enforced_currently_blocked [OF h],
      simp_all add: enforced_def)
qed

interpretation commands: framed_packets env "\<lambda>s. pp_processed_command_store s = c" for env c
  by unfold_locales (simp_all add: keeps_alerts keeps_emit_if)

subsection \<open>The reports on finished sessions\<close>

text \<open>\<open>ends P m Q\<close>: run from a state with \<open>P\<close>, \<open>m\<close> ends in a state with \<open>Q\<close>.\<close>

definition ends :: "('s \<Rightarrow> bool) \<Rightarrow> ('s, 'a) state \<Rightarrow> ('s \<Rightarrow> bool) \<Rightarrow> bool" where
  "ends P m Q \<longleftrightarrow> (\<forall>s. P s \<longrightarrow> Q (snd (run_state m s)))"

lemma ends_keeps: "keeps I m \<Longrightarrow> ends I m I"
  by (simp add: ends_def keeps_def)

lemma ends_after: "keeps I m \<Longrightarrow> (\<And>x. ends I (f x) Q) \<Longrightarrow> ends I (State_Monad.bind m f) Q"
  by (auto simp: ends_def keeps_def split: prod.splits)

lemma ends_bind: "ends P m R \<Longrightarrow> (\<And>x. ends R (f x) Q) \<Longrightarrow> ends P (State_Monad.bind m f) Q"
  by (auto simp: ends_def split: prod.splits)

lemma ends_case_prod: "(\<And>a b. ends P (f a b) Q) \<Longrightarrow> ends P (case x of (a, b) \<Rightarrow> f a b) Q"
  by (cases x) simp

text \<open>The final reports published: identifier, reason, packets and bytes of each.\<close>

type_synonym final_report = "string \<times> string \<times> nat \<times> int"

definition final_report_of :: "session_upsert \<Rightarrow> final_report list" where
  "final_report_of u = (if su_state u = ''active'' then []
     else [(su_session_id u, su_state u, su_packet_count u, su_byte_count u)])"

definition finals_in :: "publication list \<Rightarrow> final_report list" where
  "finals_in pubs = concat (map (\<lambda>x. case x of SessionOut u \<Rightarrow> final_report_of u | _ \<Rightarrow> []) pubs)"

definition report :: "finalization \<Rightarrow> final_report list" where
  "report f = (if f_reason f = ''active'' then []
     else [(session_id (f_key f), f_reason f, s_packet_count (f_session f), s_total_bytes (f_session f))])"

definition reported :: "session_builder \<Rightarrow> final_report list \<Rightarrow> ('w, 'z) processor_scheme \<Rightarrow> bool" where
  "reported b out s \<longleftrightarrow> pp_session_builder s = b \<and> finals_in (pp_published s) = out \<and>
     pp_session_update_publisher s"

lemma finals_in_snoc [simp]:
  "finals_in (pubs @ [x]) = finals_in pubs @ (case x of SessionOut u \<Rightarrow> final_report_of u | _ \<Rightarrow> [])"
  by (simp add: finals_in_def)

interpretation reports: framed_commands env "reported b out" for env b out
proof (unfold_locales, goal_cases)
  case (10 x present)
  then show ?case by (cases x) (auto simp: keeps_def emit_if_def reported_def)
qed (auto simp: reported_def keeps_def raise_alert_def emit_session_alert_def publish_alert_def
    emit_if_def Let_def split: option.splits)

lemma ends_session_call:
  "ends (reported (snd (g b)) out) (f (fst (g b))) Q \<Longrightarrow>
   ends (reported b out) (State_Monad.bind (on_field pp_session_builder pp_session_builder_update g) f) Q"
  by (simp add: ends_def reported_def)

lemma ends_update:
  "ends (reported b out) (publish_session_update key ss st pr dec :: ('w processor, unit) state)
     (reported b (out @ (if st = ''active'' then [] else [(session_id key, st, s_packet_count ss, s_total_bytes ss)])))"
  by (simp add: ends_def reported_def publish_session_update_def emit_if_def build_session_upsert_payload_def
      Let_def final_report_of_def)

lemma ends_finalized:
  "ends (reported b out) (process_finalized_session env dec f :: ('w processor, unit) state)
     (reported b (out @ report f))"
  unfolding process_finalized_session_def Let_def report_def
  by (rule ends_after, (intro reports.responses; assumption)[1], rule ends_bind [OF ends_update],
      rule ends_keeps, intro reports.responses)

lemma ends_live:
  "ends (reported b out) (predict_live_session env dec key ss :: ('w processor, unit) state) (reported b out)"
proof -
  have u: "ends (reported b out) (publish_session_update key ss ''active'' pr dec :: ('w processor, unit) state)
      (reported b out)" for pr using ends_update [of b out key ss "''active''" pr dec] by simp
  show ?thesis
    unfolding predict_live_session_def Let_def
    by (rule ends_after, (intro reports.responses; assumption)[1], rule ends_after, (intro reports.responses; assumption)[1],
        rule ends_bind [OF u], rule ends_keeps, intro reports.responses)
qed

lemma ends_each_finalized:
  "ends (reported b out) (for_each fs (process_finalized_session env dec) :: ('w processor, unit) state)
     (reported b (out @ concat (map report fs)))"
proof (induction fs arbitrary: out)
  case Nil
  then show ?case by (simp add: ends_def)
next
  case (Cons f fs)
  show ?case using ends_bind [OF ends_finalized Cons.IH [of "out @ report f"]] by simp
qed

text \<open>What a packet does to the session table, and what it finalizes.\<close>

definition session_turn :: "packet \<Rightarrow> session_builder \<Rightarrow> finalization list \<times> session_builder" where
  "session_turn p b =
     (let (drained, b1) = drain_finalized_sessions (snd (process_packet p b));
          (closed, b2) = finalize_session_if_needed p (snd (should_predict p b1))
      in (drained @ (case closed of None \<Rightarrow> [] | Some f \<Rightarrow> [f]), b2))"

lemma ends_process:
  "ends (reported b out) (process env p :: ('w processor, unit) state)
     (reported (snd (session_turn p b)) (out @ concat (map report (fst (session_turn p b)))))"
proof -
  note keeps = reports.keeps_expire reports.keeps_known reports.keeps_evaluate
    reports.keeps_heuristic reports.keeps_bruteforce keeps_intros
  have last: "ends (reported b out) ((case closed of None \<Rightarrow> State_Monad.return ()
      | Some f \<Rightarrow> process_finalized_session env dec f) :: ('w processor, unit) state)
      (reported b (out @ concat (map report (case closed of None \<Rightarrow> [] | Some f \<Rightarrow> [f]))))" for b out closed dec
    using ends_finalized [of b out env dec] by (cases closed) (auto simp: ends_def)
  have live: "ends (reported b out) (whenM c (predict_live_session env dec key ss) :: ('w processor, unit) state)
      (reported b out)" for b out c dec key ss
    using ends_live [of b out env dec key ss] by (cases c) (auto simp: ends_def whenM_def)
  show ?thesis
    unfolding process_def session_turn_def case_prod_beta Let_def fst_conv snd_conv map_append concat_append
      append_assoc [symmetric]
    apply (rule ends_after, (intro keeps; assumption)[1])
    apply (rule ends_after, (intro keeps; assumption)[1])
    apply (rule ends_after, (intro keeps; assumption)[1])
    apply (rule ends_after, (intro keeps; assumption)[1])
    apply (rule ends_after, (intro keeps; assumption)[1])
    apply (rule ends_session_call)
    apply (rule ends_session_call)
    apply (rule ends_bind [OF ends_each_finalized])
    apply (rule ends_session_call)
    apply (rule ends_bind [OF live])
    apply (rule ends_session_call)
    apply (rule ends_bind [OF last])
    apply (rule ends_keeps, intro keeps)
    apply (simp add: reported_def)
    done
qed

text \<open>Between packets nothing waits to be drained, and every finalization was reported.\<close>

definition sessions_reported :: "packet list \<Rightarrow> 'w processor \<Rightarrow> bool" where
  "sessions_reported ps s \<longleftrightarrow> (\<exists>fs b. builder_run ps fs b \<and> sb_pending_finalizations b = [] \<and>
     reported b (concat (map report fs)) s)"

lemma session_turn_run:
  assumes "builder_run ps fs b" and "sb_pending_finalizations b = []"
  shows "builder_run (ps @ [p]) (fs @ fst (session_turn p b)) (snd (session_turn p b)) \<and>
    sb_pending_finalizations (snd (session_turn p b)) = []"
proof -
  obtain s b1 where b1: "process_packet p b = (s, b1)" by fastforce
  obtain out b2 where b2: "drain_finalized_sessions b1 = (out, b2)" by fastforce
  obtain d b3 where b3: "should_predict p b2 = (d, b3)" by fastforce
  obtain c b4 where b4: "finalize_session_if_needed p b3 = (c, b4)" by fastforce
  have r: "builder_run (ps @ [p]) (fs @ out) b3"
    using run_predict [OF run_drain [OF run_packet [OF assms(1) b1] b2] b3] .
  have "sb_pending_finalizations b2 = []" using b2 by (auto simp: drain_finalized_sessions_def)
  then have "sb_pending_finalizations b3 = []" using should_predict_effect [OF b3] by auto
  then have p: "sb_pending_finalizations b4 = []"
    using b4 by (auto simp: finalize_session_if_needed_def drop_session_def split: option.splits if_splits)
  have t: "session_turn p b = (out @ (case c of None \<Rightarrow> [] | Some f \<Rightarrow> [f]), b4)"
    by (simp add: session_turn_def b1 b2 b3 b4)
  show ?thesis using run_finalize [OF r] run_finalize_none [OF r] b4 p t by (cases c) auto
qed

fun packets_in :: "engine_input list \<Rightarrow> packet list" where
  "packets_in [] = []"
| "packets_in (PacketIn p # inputs) = p # packets_in inputs"
| "packets_in (_ # inputs) = packets_in inputs"

lemma sessions_reported_step:
  "sessions_reported ps s \<Longrightarrow> sessions_reported (ps @ packets_in [x]) (engine_step env x s)"
proof -
  assume "sessions_reported ps s"
  then obtain fs b where b: "builder_run ps fs b" "sb_pending_finalizations b = []"
    "reported b (concat (map report fs)) s" by (auto simp: sessions_reported_def)
  show ?thesis
  proof (cases x)
    case (PacketIn p)
    have "reported (snd (session_turn p b)) (concat (map report (fs @ fst (session_turn p b))))
        (engine_step env x s)"
      using ends_process [of b "concat (map report fs)" env p] b(3) PacketIn by (simp add: ends_def)
    then show ?thesis
      using session_turn_run [OF b(1,2), of p] PacketIn unfolding sessions_reported_def
      by (intro exI [of _ "fs @ fst (session_turn p b)"] exI [of _ "snd (session_turn p b)"]) simp
  next
    case (CommandIn c)
    with b keepsD [OF reports.keeps_command b(3), of env c] show ?thesis
      unfolding sessions_reported_def by (intro exI [of _ fs] exI [of _ b]) simp
  next
    case (SecondaryTurn sel)
    with b keepsD [OF reports.keeps_secondary b(3), of env sel] show ?thesis
      unfolding sessions_reported_def by (intro exI [of _ fs] exI [of _ b]) simp
  qed
qed

lemma sessions_reported_run:
  "sessions_reported ps s \<Longrightarrow> sessions_reported (ps @ packets_in inputs) (engine_run env inputs s)"
proof (induction inputs arbitrary: ps s)
  case Nil
  then show ?case by (simp add: engine_run_def)
next
  case (Cons x inputs)
  have "packets_in (x # inputs) = packets_in [x] @ packets_in inputs" by (cases x) simp_all
  with Cons.IH [OF sessions_reported_step [OF Cons.prems, of x env]] show ?case
    by (simp add: engine_run_def)
qed

lemma sessions_reported_init:
  "sessions_reported [] (processor_init ab (a, e, True, n) tel det k live completed policy commands)"
  unfolding sessions_reported_def
  by (intro exI [of _ "[]"] exI [of _ builder_init])
    (simp add: run_init reported_def processor_init_def processor.defs blocker.defs finals_in_def,
      simp add: builder_init_def)

subsection \<open>The commands\<close>

lemma run_command_store:
  fixes s :: "'w processor"
  assumes "\<And>c. keeps (\<lambda>s. pp_processed_command_store s = c) call"
    and "run_state (run_command env cid action ip call) s = (r, s')"
  shows "pp_processed_command_store s' =
    (if fst r \<and> cid \<noteq> [] then cs_add cid (pp_processed_command_store s) else pp_processed_command_store s)"
proof -
  obtain ok status s1 where call: "run_state call s = ((ok, status), s1)"
    by (metis prod.collapse)
  have "pp_processed_command_store s1 = pp_processed_command_store s"
    using keeps_run [OF assms(1) refl call] by simp
  then show ?thesis using assms(2) call
    by (auto simp: run_command_def publish_block_event_def emit_if_def split: if_splits)
qed

lemmas command_calls = commands.keeps_block commands.keeps_unblock commands.keeps_watch commands.keeps_unwatch

text \<open>A command that succeeds and is no duplicate is remembered; any other leaves the store.\<close>

lemma apply_command_store:
  fixes s :: "'w processor"
  assumes "run_state (apply_backend_command env c) s = (r, s')"
    and new: "\<not> cs_contains (command_text (pe_repr env) c ''command_id'') (pp_processed_command_store s)"
  shows "pp_processed_command_store s' =
    (if (\<exists>st. r = Inr (True, st)) \<and> command_text (pe_repr env) c ''command_id'' \<noteq> []
     then cs_add (command_text (pe_repr env) c ''command_id'') (pp_processed_command_store s)
     else pp_processed_command_store s)"
proof -
  let ?cid = "command_text (pe_repr env) c ''command_id''"
  have run: "pp_processed_command_store s2 = (if fst r2 \<and> ?cid \<noteq> [] then cs_add ?cid (pp_processed_command_store s)
      else pp_processed_command_store s)"
    if "run_state (run_command env ?cid action ip call) s = (r2, s2)"
      "\<And>c. keeps (\<lambda>s. pp_processed_command_store s = c) call"
    for action ip call r2 and s2 :: "'w processor"
    using run_command_store [OF that(2,1)] .
  have case_run: "pp_processed_command_store s' = (if (\<exists>st. r = Inr (True, st)) \<and> ?cid \<noteq> []
      then cs_add ?cid (pp_processed_command_store s) else pp_processed_command_store s)"
    if "run_state (do { r \<leftarrow> run_command env ?cid action ip call; State_Monad.return (Inr r) }) s = (r, s')"
      "\<And>c. keeps (\<lambda>s. pp_processed_command_store s = c) call" for action ip call
  proof -
    obtain r2 s2 where r2: "run_state (run_command env ?cid action ip call) s = (r2, s2)" by fastforce
    with that(1) have "r = Inr r2" "s' = s2" by simp_all
    with run [OF r2 that(2)] show ?thesis by (cases r2) auto
  qed
  show ?thesis
    using assms case_run [OF _ command_calls(1)] case_run [OF _ command_calls(2)]
      case_run [OF _ command_calls(3)] case_run [OF _ command_calls(4)]
    unfolding apply_backend_command_def Let_def manual_block_def
    by (auto split: sum.splits if_splits)
qed

text \<open>What a run adds to the store: one id per command at most.\<close>

definition is_command :: "engine_input \<Rightarrow> bool" where
  "is_command x = (case x of CommandIn _ \<Rightarrow> True | _ \<Rightarrow> False)"

lemma duplicate_no_change:
  assumes "cs_contains (command_text (pe_repr env) c ''command_id'') (pp_processed_command_store s)"
    and "run_state (apply_backend_command env c) s = (r, s')"
  shows "s' = s"
proof -
  have "command_text (pe_repr env) c ''command_id'' \<noteq> []"
    using assms(1) by (auto simp: cs_contains_def Let_def strip_Nil)
  with assms show ?thesis
    by (auto simp: apply_backend_command_def Let_def split: sum.splits if_splits)
qed

lemma step_store:
  fixes s :: "'w processor"
  shows "\<exists>ids. length ids \<le> length (filter is_command [x]) \<and>
    pp_processed_command_store (engine_step env x s) = fold cs_add ids (pp_processed_command_store s)"
proof (cases x)
  case (PacketIn p)
  then show ?thesis using keepsD [OF commands.keeps_process refl, of env p s] by (intro exI [of _ "[]"]) simp
next
  case (SecondaryTurn sel)
  then show ?thesis using keepsD [OF commands.keeps_secondary refl, of env sel s] by (intro exI [of _ "[]"]) simp
next
  case (CommandIn c)
  obtain r s' where r: "run_state (apply_backend_command env c) s = (r, s')" by fastforce
  let ?id = "command_text (pe_repr env) c ''command_id''"
  show ?thesis
  proof (cases "cs_contains ?id (pp_processed_command_store s)")
    case True
    with duplicate_no_change [OF _ r] CommandIn r show ?thesis by (intro exI [of _ "[]"]) simp
  next
    case False
    from apply_command_store [OF r False] CommandIn r show ?thesis
      by (cases "(\<exists>st. r = Inr (True, st)) \<and> ?id \<noteq> []")
        (rule exI [of _ "[?id]"], simp add: is_command_def, rule exI [of _ "[]"], simp)
  qed
qed

lemma run_store:
  fixes s :: "'w processor"
  shows "\<exists>ids. length ids \<le> length (filter is_command inputs) \<and>
    pp_processed_command_store (engine_run env inputs s) = fold cs_add ids (pp_processed_command_store s)"
proof (induction inputs arbitrary: s)
  case Nil
  then show ?case by (simp add: engine_run_def)
next
  case (Cons x inputs)
  obtain ids where ids: "length ids \<le> length (filter is_command [x])"
    "pp_processed_command_store (engine_step env x s) = fold cs_add ids (pp_processed_command_store s)"
    using step_store by blast
  obtain ids' where ids': "length ids' \<le> length (filter is_command inputs)"
    "pp_processed_command_store (engine_run env inputs (engine_step env x s)) =
      fold cs_add ids' (pp_processed_command_store (engine_step env x s))"
    using Cons.IH by blast
  have "length (ids @ ids') \<le> length (filter is_command (x # inputs))"
    using ids(1) ids'(1) by (cases "is_command x") simp_all
  moreover have "pp_processed_command_store (engine_run env (x # inputs) s) =
      fold cs_add (ids @ ids') (pp_processed_command_store s)"
    using ids(2) ids'(2) by (simp add: engine_run_def)
  ultimately show ?case by blast
qed

subsection \<open>The secondary model\<close>

lemma shadow_effect:
  "snd (run_state (publish_shadow_event env r cx) s) = (let tick = (\<lambda>w. snd (host_time (pe_host env) w));
      w = (if pp_telemetry_collector s = None then ab_world s else tick (ab_world s))
    in s\<lparr>ab_world := (if pp_event_publisher s then tick w else w),
      pp_telemetry_collector := map_option (record_secondary_model_prediction
        (fst (host_time (pe_host env) (ab_world s)))) (pp_telemetry_collector s),
      pp_published := pp_published s @ map ShadowOut
        (if pp_event_publisher s then [shadow_event_of (pe_sha256 env) r cx] else [])\<rparr>)"
  by (cases "pp_telemetry_collector s"; cases "pp_event_publisher s")
    (simp_all add: publish_shadow_event_def count_telemetry_def emit_if_def)

lemma set_predictor_fields [simp]:
  "ab_world (set_predictor sel pd s) = ab_world s"
  "pp_telemetry_collector (set_predictor sel pd s) = pp_telemetry_collector s"
  "pp_event_publisher (set_predictor sel pd s) = pp_event_publisher s"
  "pp_published (set_predictor sel pd s) = pp_published s"
  "(set_predictor sel pd s)\<lparr>ab_world := w, pp_telemetry_collector := tel, pp_published := ps\<rparr> =
   set_predictor sel pd (s\<lparr>ab_world := w, pp_telemetry_collector := tel, pp_published := ps\<rparr>)"
  by (cases sel; simp)+

subsection \<open>Properties\<close>

text \<open>
  C1: The engine's firewall rules are exactly its pending blocks. On a host whose firewall program
  behaves as documented, after any sequence of packets, backend commands and turns of the
  secondary workers, every address with a pending block is valid, not a loopback address and
  blocked by the firewall, and every address the firewall blocks was blocked before the engine
  started or has a pending block.
\<close>
theorem engine_enforces_blocks:
  assumes "documented_host a (pe_host env) rules" and "create_firewall_adapter system = Some a"
    and "rules_ok a rules w"
    and s: "s = engine_run env inputs (processor_init (blocker_init system tracker records w)
      publishers tel det k live completed policy commands)"
  shows "(\<forall>ip\<in>fst ` set (ab_blocked_until s).
      ip \<in> blocked_ips a rules (ab_world s) \<and> is_valid_routable_ip ip) \<and>
    (\<forall>ip\<in>blocked_ips a rules (ab_world s).
      ip \<in> blocked_ips a rules w \<or> map_of (ab_blocked_until s) ip \<noteq> None)"
proof -
  have "enforced a rules (blocked_ips a rules w) (processor_init (blocker_init system tracker records w)
      publishers tel det k live completed policy commands)"
    using assms(2,3)
    by (cases publishers) (simp add: enforced_def blocker_init_def processor_init_def processor.defs blocker.defs)
  from engine_invariant.run [OF enforced_engine [OF assms(1)] this, of inputs]
  have "enforced a rules (blocked_ips a rules w) s" by (simp add: s)
  then show ?thesis unfolding enforced_def dget_None_iff by blast
qed

text \<open>
  C9: The alerts of a session tell a consistent story. With an alert publisher, after any inputs,
  the alerts published for a session identifier form chains: each starts with an alert marked
  new (or is a single final one), goes on with updates that each differ from the one before in
  attack type, rounded confidence or blocking, and is closed by a final one, after which the next
  is new again; and the alert store holds the newest 1000 of all alerts published.
\<close>
theorem session_alerts_chain:
  "let s = engine_run env inputs (processor_init ab (True, e, u, n) tel det k live completed policy commands)
   in alert_chain None (session_alerts key (alerts_in (pp_published s))) \<and>
     fs_get_all (pp_alert_store s) = last_n 1000 (alerts_in (pp_published s))"
  using alerting.run [OF alerts_ok_init, of env inputs ab e u n tel det k live completed policy commands]
  by (simp add: Let_def alerts_ok_def fs_get_all_def)

text \<open>
  C2: Every finished session is reported to the backend exactly once and with its true totals. With
  a publisher of session updates, after any inputs: the final reports published are, in order, those
  of the finalizations the session table has handed out while it processed the packets of the
  inputs, nothing waits to be reported, and all other sessions are still in the table.
\<close>
theorem finished_sessions_reported:
  "let s = engine_run env inputs (processor_init ab (al, e, True, n) tel det k live completed policy commands)
   in \<exists>fs. builder_run (packets_in inputs) fs (pp_session_builder s) \<and>
     sb_pending_finalizations (pp_session_builder s) = [] \<and>
     finals_in (pp_published s) = concat (map report fs)"
  using sessions_reported_run [OF sessions_reported_init, of inputs env ab al e n tel det k live completed policy commands]
  unfolding Let_def sessions_reported_def reported_def by auto

text \<open>
  C7: A backend command is carried out at most once. When a command with an id that is not in the
  store succeeds, then sending it again, after any further inputs with fewer than
  \<open>max_command_ids\<close> commands, is answered as a duplicate and changes nothing at all.
\<close>
theorem command_applied_once:
  fixes s :: "'w processor"
  assumes ok: "store_ok (pp_processed_command_store s)"
    and id: "command_text (pe_repr env) c ''command_id'' \<noteq> []"
    and new: "\<not> cs_contains (command_text (pe_repr env) c ''command_id'') (pp_processed_command_store s)"
    and first: "run_state (apply_backend_command env c) s = (Inr (True, status), s1)"
    and few: "length (filter is_command inputs) < cs_max_command_ids (pp_processed_command_store s)"
    and s2: "s2 = engine_run env inputs s1"
  shows "run_state (apply_backend_command env c) s2 = (Inr (True, ''duplicate_command''), s2)"
proof -
  let ?id = "command_text (pe_repr env) c ''command_id''"
  have id': "strip ?id \<noteq> []" using id by (simp add: command_text_def)
  have s1: "pp_processed_command_store s1 = cs_add ?id (pp_processed_command_store s)"
    using apply_command_store [OF first new] id by simp
  obtain ids where ids: "length ids \<le> length (filter is_command inputs)"
    "pp_processed_command_store s2 = fold cs_add ids (pp_processed_command_store s1)"
    using run_store s2 by blast
  have "cs_contains ?id (pp_processed_command_store s2)"
    unfolding ids(2) s1 using ids(1) few by (intro command_id_remembered [OF ok id' new]) simp
  moreover have "lower (command_text (pe_repr env) c ''action'') \<noteq> []"
    "command_text (pe_repr env) c ''ip_address'' \<noteq> []" "\<exists>d. command_duration c = Inr d"
    using first by (auto simp: apply_backend_command_def Let_def split: sum.splits if_splits)
  ultimately show ?thesis using id by (auto simp: apply_backend_command_def Let_def)
qed

text \<open>
  C23: The secondary model never acts. A turn of one of its workers can only take a job from its
  queue, read the clock, count the prediction and publish at most one shadow event: no block, no
  firewall command, no alert, no session, no command and no policy changes, whatever the model says.
\<close>
theorem secondary_never_acts:
  "\<exists>pd w tel shadows. engine_step env (SecondaryTurn sel) s =
     set_predictor sel pd (s\<lparr>ab_world := w, pp_telemetry_collector := tel,
       pp_published := pp_published s @ map ShadowOut shadows\<rparr>) \<and>
     length shadows \<le> 1 \<and> pd_stack pd = pd_stack (predictor_of sel s) \<and>
     w \<in> {ab_world s, snd (host_time (pe_host env) (ab_world s)),
       snd (host_time (pe_host env) (snd (host_time (pe_host env) (ab_world s))))}"
proof -
  let ?pd = "snd (take_job (predictor_of sel s))"
  let ?s1 = "set_predictor sel ?pd s"
  have same: "set_predictor sel ?pd (s\<lparr>ab_world := ab_world s, pp_telemetry_collector := pp_telemetry_collector s,
      pp_published := pp_published s @ map ShadowOut []\<rparr>) = ?s1" by simp
  have st: "pd_stack ?pd = pd_stack (predictor_of sel s)"
    by (simp add: take_job_def split: option.split list.split)
  show ?thesis
  proof (cases "fst (take_job (predictor_of sel s))")
    case None
    then have "engine_step env (SecondaryTurn sel) s = ?s1" by (simp add: secondary_turn_def)
    then show ?thesis using same st by (intro exI [of _ ?pd] exI [of _ "ab_world s"]
        exI [of _ "pp_telemetry_collector s"] exI [of _ "[]"]) simp
  next
    case (Some job)
    show ?thesis
    proof (cases "run_secondary_prediction (predictor_of sel ?s1) job")
      case None
      with Some have "engine_step env (SecondaryTurn sel) s = ?s1"
        by (cases job) (simp add: secondary_turn_def)
      then show ?thesis using same st by (intro exI [of _ ?pd] exI [of _ "ab_world s"]
          exI [of _ "pp_telemetry_collector s"] exI [of _ "[]"]) simp
    next
      case (Some r)
      have run: "engine_step env (SecondaryTurn sel) s = snd (run_state (publish_shadow_event env r (snd job)) ?s1)"
        using Some \<open>fst (take_job (predictor_of sel s)) = Some job\<close> by (cases job) (simp add: secondary_turn_def)
      show ?thesis unfolding run shadow_effect Let_def set_predictor_fields
        by (rule exI [of _ ?pd], intro exI conjI, rule refl) (simp_all add: st)
    qed
  qed
qed

subsection \<open>A concrete engine\<close>

definition off_bundle :: model_bundle where
  "off_bundle = \<lparr>mb_model_key = ''xgboost'', mb_model_name = ''XGBoost'', mb_model = None,
     mb_artifact_error = Some MissingClasses\<rparr>"

definition off_predictor :: predictor where
  "off_predictor = predictor_init (\<lambda>_. None) \<lparr>ms_primary = off_bundle, ms_secondary = None\<rparr>"

definition sample_processor :: "sim_world processor" where
  "sample_processor = processor_init sample_blocker (True, True, True, True) None
     (heuristic_init (\<lambda>_. None) None) 100 off_predictor off_predictor
     \<lparr>rp_bruteforce_window_seconds = 90, rp_bruteforce_attempt_threshold = 25, rp_attempts = []\<rparr>
     \<lparr>cs_max_command_ids = 100, cs_command_ids = [], cs_file = None\<rparr>"

definition sample_env :: "sim_world proc_env" where
  "sample_env = \<lparr>pe_host = sim_iptables, pe_set_order = id, pe_float_of_str = (\<lambda>_. None),
     pe_validate = False, pe_sha256 = id, pe_repr = (\<lambda>_. [])\<rparr>"

definition watch_command :: backend_command where
  "watch_command = [(''command_id'', JStr ''c7''), (''action'', JStr ''watchlist''), (''ip_address'', JStr ''10.0.0.5'')]"

theorem engine_enforces_blocks_witness:
  "\<exists>s. s = engine_run sample_env [PacketIn sample_packet, CommandIn watch_command] sample_processor \<and>
    (\<forall>ip\<in>fst ` set (ab_blocked_until s).
      ip \<in> blocked_ips LinuxFirewallAdapter sw_rules (ab_world s) \<and> is_valid_routable_ip ip)"
proof -
  have h: "documented_host LinuxFirewallAdapter (pe_host sample_env) sw_rules"
    using sample_host by (simp add: sample_env_def)
  have ok: "rules_ok LinuxFirewallAdapter sw_rules \<lparr>sw_rules = [], sw_clock = 1000\<rparr>" by simp
  show ?thesis
    unfolding sample_processor_def sample_blocker_def
    by (rule exI, rule conjI, rule refl) (rule conjunct1 [OF engine_enforces_blocks [OF h sample_adapter ok refl]])
qed

lemma watch_command_texts:
  "command_text (pe_repr sample_env) watch_command ''command_id'' = ''c7''"
  "command_text (pe_repr sample_env) watch_command ''action'' = ''watchlist''"
  "command_text (pe_repr sample_env) watch_command ''ip_address'' = ''10.0.0.5''"
  "command_duration watch_command = Inr 300"
  by (simp_all add: command_text_def watch_command_def obj_get_def int_str_def nat_str.simps digit_char_def
      strip_def lstrip_def rstrip_def py_space_def command_duration_def)

theorem command_applied_once_witness:
  "\<exists>s1 :: sim_world processor. run_state (apply_backend_command sample_env watch_command) s1 = (Inr (True, ''duplicate_command''), s1)"
proof -
  let ?r = "run_state (apply_backend_command sample_env watch_command) sample_processor"
  have "fst ?r = Inr (True, ''watchlisted'')"
    by (simp add: apply_backend_command_def watch_command_texts lower_def lower_char_def cs_contains_def Let_def
        sample_processor_def processor_init_def processor.defs blocker.defs run_command_def watchlist_ip_def
        sample_ip_valid record_detection_activity_def publish_block_event_def emit_if_def case_prod_beta)
  then have r: "?r = (Inr (True, ''watchlisted''), snd ?r)" by (metis prod.collapse)
  have "store_ok (pp_processed_command_store sample_processor)"
    "command_text (pe_repr sample_env) watch_command ''command_id'' \<noteq> []"
    "\<not> cs_contains (command_text (pe_repr sample_env) watch_command ''command_id'')
       (pp_processed_command_store sample_processor)"
    "length (filter is_command [PacketIn sample_packet]) <
       cs_max_command_ids (pp_processed_command_store sample_processor)"
    by (simp_all add: watch_command_texts sample_processor_def processor_init_def processor.defs blocker.defs
        store_ok_def clean_ids_def cs_contains_def Let_def is_command_def)
  from command_applied_once [OF this(1,2,3) r this(4) refl] show ?thesis
    by (rule exI [of _ "engine_run sample_env [PacketIn sample_packet] (snd ?r)"])
qed

subsection \<open>A stale alert state\<close>

lemma timed_alert_state [simp]:
  "fst (run_state (timed_prediction env (on_field pp_completed_flow_predictor pp_completed_flow_predictor_update f)) s) =
     fst (f (pp_completed_flow_predictor s))"
  "pp_session_alert_state (snd (run_state (timed_prediction env
     (on_field pp_completed_flow_predictor pp_completed_flow_predictor_update f)) s)) = pp_session_alert_state s"
  by (simp_all add: timed_prediction_def case_prod_beta count_telemetry_def split: option.split)

lemma emit_if_alert_state [simp]:
  "pp_session_alert_state (snd (run_state (emit_if present x) s)) = pp_session_alert_state s"
  by (simp add: emit_if_def)

text \<open>
  C32: The alert state of a session outlives the session. When a session ends and the model of
  completed flows gives no verdict that alerts, its last live alert stays remembered, and an alert
  with the same attack type, rounded confidence and blocking of the next session with that key
  is suppressed although it is the first of that session.
\<close>
theorem silent_end_mutes_next_alert:
  assumes quiet: "case fst (predict_primary_and_submit_secondary (predictor_input (extracted env (f_session f)))
      (context_of (f_key f) (f_session f) ''ml_completed_flow_secondary_shadow'' True)
      (pp_completed_flow_predictor s)) of None \<Rightarrow> True | Some pr \<Rightarrow> \<not> should_alert pr"
    and last: "map_of (pp_session_alert_state s) (session_key_str (f_key f)) = Some (alert_signature_of al, prev)"
    and s': "s' = snd (run_state (process_finalized_session env dec f) s)"
  shows "run_state (emit_session_alert (f_key f) al False) s' = ((), s')"
proof -
  have "pp_session_alert_state s' = pp_session_alert_state s"
    using quiet unfolding s' process_finalized_session_def Let_def
    by (auto simp: case_prod_beta publish_session_update_def publish_prediction_event_def split: option.splits)
  with last show ?thesis by (simp add: emit_session_alert_def Let_def)
qed

theorem silent_end_mutes_next_alert_witness:
  "\<exists>al s'. run_state (emit_session_alert (key_of sample_packet) al False) s' = ((), s' :: sim_world processor)"
proof -
  define al where "al = packet_alert ''ml_attack_detected'' ''DDoS'' (9 / 10) (False, ''cooldown_active'') 900 sample_packet"
  define s where "s = sample_processor\<lparr>pp_session_alert_state :=
    [(session_key_str (key_of sample_packet), (alert_signature_of al, al))]\<rparr>"
  define f where "f = \<lparr>f_session = session_of [sample_packet], f_key = key_of sample_packet, f_reason = ''idle_timeout''\<rparr>"
  have "fst (predict_primary_and_submit_secondary (predictor_input (extracted sample_env (f_session f)))
      (context_of (f_key f) (f_session f) ''ml_completed_flow_secondary_shadow'' True)
      (pp_completed_flow_predictor s)) = None"
    by (simp add: s_def sample_processor_def processor_init_def processor.defs blocker.defs off_predictor_def
        predictor_init_def predict_primary_and_submit_secondary_def ms_enabled_def mb_enabled_def off_bundle_def)
  moreover have "map_of (pp_session_alert_state s) (session_key_str (f_key f)) = Some (alert_signature_of al, al)"
    by (simp add: s_def f_def)
  ultimately have "run_state (emit_session_alert (f_key f) al False)
      (snd (run_state (process_finalized_session sample_env dec f) s)) =
      ((), snd (run_state (process_finalized_session sample_env dec f) s))" for dec
    using silent_end_mutes_next_alert [of sample_env f s al al _ dec] by simp
  then show ?thesis by (auto simp: f_def)
qed

end
