(* ===== verification/Capture.thy ===== *)
theory Capture
  imports Telemetry "HOL-Library.Word"
begin

text \<open>
  The capture side: the packet parser (\<open>packet_capture/parsers/packet_parser.py\<close>), the sniffer's
  bounded hand-over to the consumer (\<open>packet_capture/sniffers/live_sniffer.py\<close>), the capture filter
  (\<open>packet_capture/utils/packet_filters.py\<close>) and the choice of the interface
  (\<open>packet_capture/sniffers/interface_manager.py\<close>). What scapy delivers is a record of the layers
  and fields the parser reads; \<open>get_if_list\<close> and \<open>get_windows_if_list\<close> are arguments.
\<close>

subsection \<open>Protocols and the parser\<close>

datatype ProtocolType = TCP | UDP | ICMP | UNKNOWN

fun protocol_value :: "ProtocolType \<Rightarrow> int" where
  "protocol_value TCP = 6"
| "protocol_value UDP = 17"
| "protocol_value ICMP = 1"
| "protocol_value UNKNOWN = 0"

record tcp_layer =
  tcp_sport :: int
  tcp_dport :: int
  tcp_flag_bits :: int
  tcp_window :: int
  tcp_dataofs :: "int option"
  tcp_payload :: "8 word list"

record udp_layer =
  udp_sport :: int
  udp_dport :: int
  udp_payload :: "8 word list"

text \<open>A captured frame: addresses of its IP layer, its transport layers and its length.\<close>

record frame_view =
  fr_ip :: "(string \<times> string) option"
  fr_tcp :: "tcp_layer option"
  fr_udp :: "udp_layer option"
  fr_icmp :: "8 word list option"
  fr_length :: nat

definition parse :: "real \<Rightarrow> frame_view \<Rightarrow> packet option" where
  "parse now fr =
     (case fr_ip fr of
        None \<Rightarrow> None
      | Some (src_ip, dst_ip) \<Rightarrow>
          let base = \<lparr>p_src_ip = src_ip, p_dst_ip = dst_ip, p_protocol = protocol_value UNKNOWN,
                p_size = int (fr_length fr), p_timestamp = now, p_src_port = None, p_dst_port = None,
                p_tcp_flags = None, p_tcp_window_size = None, p_tcp_header_length = None,
                p_transport_header_length = None, p_payload_size = Some 0\<rparr>
          in Some (case fr_tcp fr of
               Some tcp \<Rightarrow>
                 let header = (case tcp_dataofs tcp of None \<Rightarrow> 0 | Some d \<Rightarrow> d * 4)
                 in base\<lparr>p_protocol := protocol_value TCP, p_src_port := Some (tcp_sport tcp),
                      p_dst_port := Some (tcp_dport tcp), p_tcp_flags := Some (tcp_flag_bits tcp),
                      p_tcp_window_size := Some (tcp_window tcp), p_tcp_header_length := Some header,
                      p_transport_header_length := Some header,
                      p_payload_size := Some (int (length (tcp_payload tcp)))\<rparr>
             | None \<Rightarrow>
                 (case fr_udp fr of
                    Some udp \<Rightarrow> base\<lparr>p_protocol := protocol_value UDP, p_src_port := Some (udp_sport udp),
                      p_dst_port := Some (udp_dport udp), p_transport_header_length := Some 8,
                      p_payload_size := Some (int (length (udp_payload udp)))\<rparr>
                  | None \<Rightarrow>
                      (case fr_icmp fr of
                         Some body \<Rightarrow> base\<lparr>p_protocol := protocol_value ICMP,
                           p_transport_header_length := Some 8, p_payload_size := Some (int (length body))\<rparr>
                       | None \<Rightarrow> base))))"

subsection \<open>The sniffer\<close>

record sniffer =
  sn_packet_queue :: "packet list"
  sn_maxsize :: nat
  sn_telemetry_collector :: "telemetry option"
  sn_seen_packets :: nat

definition sniffer_init :: "nat \<Rightarrow> telemetry option \<Rightarrow> sniffer" where
  "sniffer_init maxsize collector = \<lparr>sn_packet_queue = [], sn_maxsize = maxsize,
     sn_telemetry_collector = collector, sn_seen_packets = 0\<rparr>"

text \<open>\<open>put_nowait\<close>: a queue of size 0 is unbounded. \<open>now\<close> is read by the parser and by each counter.\<close>

definition put_nowait :: "packet \<Rightarrow> sniffer \<Rightarrow> bool \<times> sniffer" where
  "put_nowait p sn =
     (if 0 < sn_maxsize sn \<and> sn_maxsize sn \<le> length (sn_packet_queue sn) then (False, sn)
      else (True, sn\<lparr>sn_packet_queue := sn_packet_queue sn @ [p]\<rparr>))"

definition handle_packet :: "real \<Rightarrow> real \<Rightarrow> real \<Rightarrow> frame_view \<Rightarrow> sniffer \<Rightarrow> sniffer" where
  "handle_packet t_parsed t_received t_dropped fr sn =
     (case parse t_parsed fr of
        None \<Rightarrow> sn
      | Some p \<Rightarrow>
          let sn1 = sn\<lparr>sn_seen_packets := sn_seen_packets sn + 1,
                sn_telemetry_collector := map_option (record_packet_received t_received) (sn_telemetry_collector sn)\<rparr>
          in (case put_nowait p sn1 of
                (True, sn2) \<Rightarrow> sn2
              | (False, sn2) \<Rightarrow> sn2\<lparr>sn_telemetry_collector :=
                  map_option (record_packet_dropped t_dropped) (sn_telemetry_collector sn2)\<rparr>))"

text \<open>The consumer's \<open>get\<close>, which waits on an empty queue.\<close>

definition take_packet :: "sniffer \<Rightarrow> packet option \<times> sniffer" where
  "take_packet sn =
     (case sn_packet_queue sn of
        [] \<Rightarrow> (None, sn)
      | p # queue \<Rightarrow> (Some p, sn\<lparr>sn_packet_queue := queue\<rparr>))"

subsection \<open>The capture filter\<close>

definition basic_filter :: string where "basic_filter = ''ip''"
definition tcp_udp_filter :: string where "tcp_udp_filter = ''tcp or udp''"
definition web_traffic_filter :: string where
  "web_traffic_filter = ''(tcp port 80) or (tcp port 443)''"

definition valid_ips :: "string list option \<Rightarrow> string list" where
  "valid_ips ips = filter (\<lambda>candidate. candidate \<noteq> [] \<and> ip_address candidate \<noteq> None)
     (map strip (case ips of None \<Rightarrow> [] | Some l \<Rightarrow> l))"

text \<open>
  The port of an argument, \<open>None\<close> when it is skipped; \<open>OverflowError\<close> of \<open>int(inf)\<close> is not caught.
\<close>

definition valid_port :: "json \<Rightarrow> py_error + int option" where
  "valid_port raw =
     (let candidate = (case raw of JStr s \<Rightarrow> JStr (strip s) | v \<Rightarrow> v)
      in if candidate = JStr [] \<or> candidate = JNull then Inr None
         else (case py_int candidate of
             Inl TypeError \<Rightarrow> Inr None
           | Inl ValueError \<Rightarrow> Inr None
           | Inl e \<Rightarrow> Inl e
           | Inr parsed \<Rightarrow> Inr (if 0 < parsed \<and> parsed \<le> 65535 then Some parsed else None)))"

fun valid_ports :: "json list \<Rightarrow> py_error + int list" where
  "valid_ports [] = Inr []"
| "valid_ports (raw # ports) =
     (case valid_port raw of
        Inl e \<Rightarrow> Inl e
      | Inr port \<Rightarrow> (case valid_ports ports of
          Inl e \<Rightarrow> Inl e
        | Inr rest \<Rightarrow> Inr (case port of None \<Rightarrow> rest | Some p \<Rightarrow> p # rest)))"

definition filter_terms :: "string list \<Rightarrow> int list \<Rightarrow> string list" where
  "filter_terms ips ports = map (\<lambda>ip. ''host '' @ ip) ips @ map (\<lambda>p. ''port '' @ int_str p) ports"

definition build_capture_filter ::
    "string list option \<Rightarrow> json list \<Rightarrow> string list option \<Rightarrow> json list \<Rightarrow> py_error + string" where
  "build_capture_filter watch_ips watch_ports exclude_ips exclude_ports =
     (case valid_ports watch_ports of
        Inl e \<Rightarrow> Inl e
      | Inr wports \<Rightarrow> (case valid_ports exclude_ports of
          Inl e \<Rightarrow> Inl e
        | Inr eports \<Rightarrow>
            let watch_terms = filter_terms (valid_ips watch_ips) wports;
                exclude_terms = filter_terms (valid_ips exclude_ips) eports;
                clauses = [basic_filter]
                  @ (if watch_terms = [] then [] else [''('' @ join_with '' or '' watch_terms @ '')''])
                  @ (if exclude_terms = [] then [] else [''not ('' @ join_with '' or '' exclude_terms @ '')''])
            in Inr (join_with '' and '' clauses)))"

subsection \<open>The interface\<close>

type_synonym interface_item = "(string, json) pydict"

definition contains_str :: "string \<Rightarrow> string \<Rightarrow> bool" where
  "contains_str needle s = list_ex (prefix needle) (suffixes s)"

definition LOOPBACK_KEYWORDS :: "string list" where
  "LOOPBACK_KEYWORDS = [''loopback'', ''pseudo-interface'', ''pseudo interface'']"
definition VIRTUAL_KEYWORDS :: "string list" where
  "VIRTUAL_KEYWORDS = [''virtual'', ''vmware'', ''virtualbox'', ''hyper-v'', ''hyperv'', ''vbox'',
     ''npcap loopback'', ''tunnel'', ''tap'', ''miniport'']"
definition PREFERRED_KEYWORDS :: "string list" where
  "PREFERRED_KEYWORDS = [''wi-fi'', ''wifi'', ''wireless'', ''ethernet'', ''lan'']"

definition mentions :: "string list \<Rightarrow> string \<Rightarrow> bool" where
  "mentions keywords searchable = list_ex (\<lambda>k. contains_str k searchable) keywords"

definition looks_physical :: "string \<Rightarrow> bool" where
  "looks_physical = mentions [''wifi'', ''wi-fi'', ''ethernet'', ''lan'', ''wireless'', ''intel'',
     ''realtek'', ''qualcomm'', ''broadcom'']"

definition looks_wired :: "string \<Rightarrow> bool" where
  "looks_wired = mentions [''ethernet'', ''lan'']"

definition item_text :: "(json \<Rightarrow> string) \<Rightarrow> interface_item \<Rightarrow> string \<Rightarrow> string" where
  "item_text rep item k = strip (py_str rep (obj_get item k (JStr [])))"

definition looks_ipv4 :: "string \<Rightarrow> bool" where
  "looks_ipv4 s = (CHR ''.'' \<in> set s \<and> CHR '':'' \<notin> set s)"

text \<open>The first IPv4 address under one of the four keys: a text, or the first text of a list.\<close>

definition ipv4_under :: "json \<Rightarrow> string option" where
  "ipv4_under v =
     (case v of
        JStr s \<Rightarrow> (if strip s \<noteq> [] then Some (strip s) else None)
      | JList entries \<Rightarrow> map_option strip
          (find looks_ipv4 (List.map_filter (\<lambda>e. case e of JStr s \<Rightarrow> Some s | _ \<Rightarrow> None) entries))
      | _ \<Rightarrow> None)"

definition extract_ipv4 :: "(json \<Rightarrow> string) \<Rightarrow> interface_item \<Rightarrow> string option" where
  "extract_ipv4 rep item =
     (case List.map_filter (\<lambda>k. ipv4_under (obj_get item k JNull)) [''ipv4'', ''IPv4'', ''ip'', ''address''] of
        a # _ \<Rightarrow> Some a
      | [] \<Rightarrow> (case obj_get item ''ips'' JNull of
          JList entries \<Rightarrow> find looks_ipv4 (map (\<lambda>e. strip (py_str rep e)) entries)
        | _ \<Rightarrow> None))"

text \<open>
  \<open>value.isdigit()\<close> also holds of superscript digits, which \<open>int\<close> rejects with \<open>ValueError\<close>.
\<close>

definition isdigit_str :: "string \<Rightarrow> bool" where
  "isdigit_str s = (s \<noteq> [] \<and> list_all (\<lambda>c. is_digit c \<or> (of_char c :: nat) \<in> {178, 179, 185}) s)"

fun extract_metric_at :: "interface_item \<Rightarrow> string list \<Rightarrow> py_error + int option" where
  "extract_metric_at item [] = Inr None"
| "extract_metric_at item (k # ks) =
     (case obj_get item k JNull of
        JInt i \<Rightarrow> Inr (Some i)
      | JBool b \<Rightarrow> Inr (Some (if b then 1 else 0))
      | JStr s \<Rightarrow>
          (if isdigit_str s then
             (case py_int_of_str s of None \<Rightarrow> Inl ValueError | Some i \<Rightarrow> Inr (Some i))
           else extract_metric_at item ks)
      | _ \<Rightarrow> extract_metric_at item ks)"

definition extract_metric :: "interface_item \<Rightarrow> py_error + int option" where
  "extract_metric item =
     extract_metric_at item [''metric'', ''ipv4_metric'', ''IPv4Metric'', ''win_index'', ''index'']"

definition searchable_text :: "(json \<Rightarrow> string) \<Rightarrow> interface_item \<Rightarrow> string" where
  "searchable_text rep item = lower (join_with '' '' (filter (\<lambda>v. v \<noteq> [])
     [item_text rep item ''name'', item_text rep item ''description'', item_text rep item ''guid'']))"

definition score_windows_interface :: "(json \<Rightarrow> string) \<Rightarrow> interface_item \<Rightarrow> py_error + int option" where
  "score_windows_interface rep item =
     (let searchable = searchable_text rep item
      in if item_text rep item ''name'' = [] then Inr None
         else if mentions LOOPBACK_KEYWORDS searchable then Inr None
         else (case extract_ipv4 rep item of
             None \<Rightarrow> Inr None
           | Some a \<Rightarrow>
               if a = [] then Inr None
               else (case extract_metric item of
                   Inl e \<Rightarrow> Inl e
                 | Inr metric \<Rightarrow> Inr (Some (100
                     + (if looks_physical searchable then 100 else 0)
                     + (if mentions PREFERRED_KEYWORDS searchable then 50 else 0)
                     - (if mentions VIRTUAL_KEYWORDS searchable then 120 else 0)
                     - (case metric of None \<Rightarrow> 0 | Some m \<Rightarrow> min 50 (max 0 m))
                     + (if looks_wired searchable then 15 else 0))))))"

fun scored_interfaces :: "(json \<Rightarrow> string) \<Rightarrow> interface_item list \<Rightarrow> py_error + (int \<times> string) list" where
  "scored_interfaces rep [] = Inr []"
| "scored_interfaces rep (item # items) =
     (case score_windows_interface rep item of
        Inl e \<Rightarrow> Inl e
      | Inr score \<Rightarrow> (case scored_interfaces rep items of
          Inl e \<Rightarrow> Inl e
        | Inr rest \<Rightarrow> Inr (case score of None \<Rightarrow> rest | Some sc \<Rightarrow> (sc, item_text rep item ''name'') # rest)))"

text \<open>\<open>get_windows_if_list\<close>: absent, raising, or returning its items.\<close>

datatype windows_list = Absent | Raises | Items "interface_item list"

definition get_windows_interfaces :: "windows_list \<Rightarrow> interface_item list" where
  "get_windows_interfaces win = (case win of Items items \<Rightarrow> items | _ \<Rightarrow> [])"

definition first_interface :: "string list \<Rightarrow> string option" where
  "first_interface interfaces = (case interfaces of [] \<Rightarrow> None | i # _ \<Rightarrow> Some i)"

definition get_best_active_interface ::
    "(json \<Rightarrow> string) \<Rightarrow> windows_list \<Rightarrow> string list \<Rightarrow> py_error + string option" where
  "get_best_active_interface rep win if_list =
     (case get_windows_interfaces win of
        [] \<Rightarrow> Inr (first_interface if_list)
      | items \<Rightarrow> (case scored_interfaces rep items of
          Inl e \<Rightarrow> Inl e
        | Inr scored \<Rightarrow> (case sort_key (\<lambda>e. - fst e) scored of
            [] \<Rightarrow> Inr (first_interface if_list)
          | (_, name) # _ \<Rightarrow> Inr (if name = [] then None else Some name))))"

text \<open>The last case raises \<open>Exception("No network interfaces found")\<close>: \<open>Inr None\<close>.\<close>

definition get_default_interface ::
    "(json \<Rightarrow> string) \<Rightarrow> windows_list \<Rightarrow> string list \<Rightarrow> py_error + string option" where
  "get_default_interface rep win if_list =
     (case get_best_active_interface rep win if_list of
        Inl e \<Rightarrow> Inl e
      | Inr (Some i) \<Rightarrow> Inr (if i = [] then first_interface if_list else Some i)
      | Inr None \<Rightarrow> Inr (first_interface if_list))"

definition item_matches :: "(json \<Rightarrow> string) \<Rightarrow> string \<Rightarrow> interface_item \<Rightarrow> bool" where
  "item_matches rep requested item =
     (let field = (\<lambda>k. lower (py_str rep (obj_get item k (JStr [])))); r = lower requested
      in r \<in> {field ''name'', field ''description'', field ''guid''} \<or>
         contains_str r (field ''name'') \<or> contains_str r (field ''description'') \<or>
         contains_str r (field ''guid''))"

definition resolve_interface ::
    "(json \<Rightarrow> string) \<Rightarrow> windows_list \<Rightarrow> string list \<Rightarrow> string \<Rightarrow> py_error + string option" where
  "resolve_interface rep win if_list identifier =
     (let requested = strip identifier
      in if requested = [] then get_default_interface rep win if_list
         else if requested \<in> set if_list then Inr (Some requested)
         else (case find (item_matches rep requested) (get_windows_interfaces win) of
             None \<Rightarrow> Inr (Some requested)
           | Some item \<Rightarrow> Inr (Some (py_str rep (obj_get item ''name'' JNull)))))"

subsection \<open>Facts about addresses\<close>

definition addr_char :: "char \<Rightarrow> bool" where
  "addr_char c \<longleftrightarrow> hex_val c \<noteq> None \<or> c \<in> {CHR '':'', CHR ''.''}"

lemma set_split_on: "x \<in> set s \<Longrightarrow> x = c \<or> (\<exists>p\<in>set (split_on c s). x \<in> set p)"
  by (induction s) (auto split: list.splits if_splits)

lemma digit_addr_char: "is_digit c \<Longrightarrow> addr_char c"
  by (simp add: addr_char_def hex_val_def is_digit_def Let_def)

lemma ipv4_octet_chars: "ipv4_octet p = Some n \<Longrightarrow> x \<in> set p \<Longrightarrow> addr_char x"
  by (auto simp: ipv4_octet_def list_all_iff digit_addr_char split: if_splits)

lemma parse_ipv4_chars:
  assumes "parse_ipv4 s = Some n" and "x \<in> set s"
  shows "addr_char x"
proof -
  obtain a b c d where p: "split_on (CHR ''.'') s = [a, b, c, d]"
    "ipv4_octet a \<noteq> None" "ipv4_octet b \<noteq> None" "ipv4_octet c \<noteq> None" "ipv4_octet d \<noteq> None"
    using assms(1) by (auto simp: parse_ipv4_def split: list.splits option.splits)
  from set_split_on [OF assms(2), of "CHR ''.''"] p show ?thesis
    by (auto simp: addr_char_def [of "CHR ''.''"] dest: ipv4_octet_chars)
qed

lemma hex_num_chars: "hex_num a s = Some n \<Longrightarrow> x \<in> set s \<Longrightarrow> hex_val x \<noteq> None"
  by (induction s arbitrary: a) (auto split: option.splits)

lemma hextet_chars: "ipv6_hextet p \<noteq> None \<Longrightarrow> x \<in> set p \<Longrightarrow> addr_char x"
  using hex_num_chars by (fastforce simp: ipv6_hextet_def addr_char_def split: if_splits)

lemma ipv6_words_hextets: "ipv6_words ps = Some ws \<Longrightarrow> p \<in> set ps \<Longrightarrow> ipv6_hextet p \<noteq> None"
  by (induction ps arbitrary: ws) (auto split: option.splits)

lemma ipv6_int_cases:
  assumes int: "ipv6_int s = Some ws" and parts: "ipv6_parts s = Some ps"
  obtains (plain) "ipv6_words ps = Some ws"
    | (gap) k mid hi lo where "filter (\<lambda>i. ps ! i = []) [1..<length ps - 1] = [k]"
        "hi = (if hd ps = [] then k - 1 else k)"
        "lo = (if last ps = [] then length ps - k - 1 - 1 else length ps - k - 1)"
        "ipv6_words (take hi ps @ mid @ drop (length ps - lo) ps) = Some ws"
        "\<not> (hd ps = [] \<and> hi \<noteq> 0 \<or> last ps = [] \<and> lo \<noteq> 0)"
proof -
  have guard: "(if A then None else w) = Some ws \<Longrightarrow> \<not> A \<and> w = Some ws" for A and w :: "nat list option"
    by (simp split: if_splits)
  have n9: "(9 < length ps) = False"
    using int parts by (cases "9 < length ps") (simp_all add: ipv6_int_def)
  show thesis
  proof (cases "filter (\<lambda>i. ps ! i = []) [1..<length ps - 1]")
    case Nil
    then have "ipv6_words ps = Some ws" using int parts by (simp add: ipv6_int_def split: if_splits)
    then show ?thesis by (rule plain)
  next
    case (Cons k ks)
    let ?hi = "if hd ps = [] then k - 1 else k"
    let ?lo = "if last ps = [] then length ps - k - 1 - 1 else length ps - k - 1"
    show ?thesis
    proof (cases ks)
      case Nil
      with Cons int parts have "(if hd ps = [] \<and> ?hi \<noteq> 0 \<or> last ps = [] \<and> ?lo \<noteq> 0 \<or> 8 < ?hi + ?lo + 1 then None
          else ipv6_words (take ?hi ps @ replicate (8 - (?hi + ?lo)) ''0'' @ drop (length ps - ?lo) ps)) = Some ws"
        unfolding ipv6_int_def Let_def by (simp only: option.case list.case n9 if_False)
      note g = guard [OF this]
      have one: "filter (\<lambda>i. ps ! i = []) [1..<length ps - 1] = [k]" using Cons Nil by (simp only:)
      have "\<not> (hd ps = [] \<and> ?hi \<noteq> 0 \<or> last ps = [] \<and> ?lo \<noteq> 0)" using conjunct1 [OF g] by blast
      with gap [OF one refl refl conjunct2 [OF g]] show ?thesis by blast
    next
      case more: (Cons k2 ks2)
      with Cons int parts show ?thesis by (simp add: ipv6_int_def split: if_splits)
    qed
  qed
qed

lemma gap_member:
  assumes j: "j < length ps" "ps ! j = p" and ne: "ps \<noteq> []"
    and k: "k \<in> set [1..<length ps - 1]" "ps ! k = []"
    and hi: "hi = (if hd ps = [] then k - 1 else k)"
    and lo: "lo = (if last ps = [] then length ps - k - 1 - 1 else length ps - k - 1)"
    and ends: "\<not> (hd ps = [] \<and> hi \<noteq> 0 \<or> last ps = [] \<and> lo \<noteq> 0)"
  shows "p = [] \<or> p \<in> set (take hi ps) \<union> set (drop (length ps - lo) ps)"
proof -
  consider "j = k" | "j < k" | "k < j" by linarith
  then show ?thesis
  proof cases
    case 1
    then show ?thesis using k j by simp
  next
    case 2
    show ?thesis
    proof (cases "hd ps = []")
      case True
      with ends hi 2 have "j = 0" by simp
      with True j ne show ?thesis by (simp add: hd_conv_nth)
    next
      case False
      with 2 j hi show ?thesis by (auto simp: in_set_conv_nth)
    qed
  next
    case 3
    show ?thesis
    proof (cases "last ps = []")
      case True
      with ends lo 3 j k have "j = length ps - 1" by auto
      with True j ne show ?thesis by (simp add: last_conv_nth)
    next
      case False
      with 3 j k lo have "p = drop (length ps - lo) ps ! (j - (length ps - lo)) \<and>
          j - (length ps - lo) < length (drop (length ps - lo) ps)" by auto
      then show ?thesis using nth_mem by (metis UnCI)
    qed
  qed
qed

lemma ipv6_int_hextets:
  assumes int: "ipv6_int s = Some ws" and parts: "ipv6_parts s = Some ps" and p: "p \<in> set ps"
  shows "p = [] \<or> ipv6_hextet p \<noteq> None"
  using int parts
proof (cases rule: ipv6_int_cases)
  case plain
  then show ?thesis using ipv6_words_hextets p by blast
next
  case (gap k mid hi lo)
  obtain j where j: "j < length ps" "ps ! j = p" using p by (auto simp: in_set_conv_nth)
  have ne: "ps \<noteq> []" using p by auto
  have "k \<in> set (filter (\<lambda>i. ps ! i = []) [1..<length ps - 1])" unfolding gap(1) by simp
  then have k: "k \<in> set [1..<length ps - 1]" "ps ! k = []" by simp_all
  from gap_member [OF j ne k gap(2,3,5)] ipv6_words_hextets [OF gap(4)] show ?thesis by auto
qed

lemma ipv6_int_chars:
  assumes int: "ipv6_int s = Some ws" and x: "x \<in> set s"
  shows "addr_char x"
proof -
  obtain ps where ps: "ipv6_parts s = Some ps"
    using int by (auto simp: ipv6_int_def split: option.splits)
  let ?parts = "split_on (CHR '':'') s"
  have "x = CHR '':'' \<or> (\<exists>p\<in>set ?parts. x \<in> set p)" by (rule set_split_on [OF x])
  moreover have "addr_char x" if "p \<in> set ?parts" "x \<in> set p" for p
  proof -
    have "p \<in> set ps \<or> parse_ipv4 p \<noteq> None"
    proof (cases "CHR ''.'' \<in> set (last ?parts)")
      case True
      have "p \<in> set (butlast ?parts) \<or> p = last ?parts"
        using that(1) by (metis append_butlast_last_id in_set_conv_decomp split_list
            UnE empty_iff list.set(1) set_ConsD set_append split_on_nonempty)
      with True ps show ?thesis
        by (auto simp: ipv6_parts_def Let_def split: if_splits option.splits)
    next
      case False
      with ps that(1) show ?thesis by (auto simp: ipv6_parts_def Let_def split: if_splits)
    qed
    then show ?thesis
      using ipv6_int_hextets [OF int ps] hextet_chars parse_ipv4_chars that(2) by fastforce
  qed
  ultimately show ?thesis by (auto simp: addr_char_def)
qed

lemma ip_address_chars:
  assumes "ip_address s \<noteq> None" and "CHR ''%'' \<notin> set s" and x: "x \<in> set s"
  shows "addr_char x"
proof (cases "parse_ipv4 s")
  case None
  then obtain ws where "parse_ipv6 s = Some ws" using assms(1) by (auto simp: ip_address_def)
  then have "ipv6_int s = Some ws"
    using split_on_no_sep [OF assms(2)] by (auto simp: parse_ipv6_def split: if_splits)
  then show ?thesis using ipv6_int_chars x by blast
next
  case (Some n)
  then show ?thesis using parse_ipv4_chars x by blast
qed

subsection \<open>Facts about the filter, the queue and the scores\<close>

lemma valid_ports_range: "valid_ports ports = Inr l \<Longrightarrow> p \<in> set l \<Longrightarrow> 0 < p \<and> p \<le> 65535"
proof (induction ports arbitrary: l)
  case (Cons raw ports)
  obtain port rest where r: "valid_port raw = Inr port" "valid_ports ports = Inr rest"
    "l = (case port of None \<Rightarrow> rest | Some q \<Rightarrow> q # rest)"
    using Cons.prems(1) by (auto split: sum.splits)
  have "port = Some q \<Longrightarrow> 0 < q \<and> q \<le> 65535" for q
    using r(1) by (auto simp: valid_port_def Let_def split: if_splits sum.splits py_error.splits)
  with r Cons.IH Cons.prems(2) show ?case by (cases port) auto
qed simp

text \<open>A term that selects one host or one port, with nothing else in it.\<close>

definition safe_term :: "string \<Rightarrow> bool" where
  "safe_term t \<longleftrightarrow> (\<exists>h. t = ''host '' @ h \<and> h \<noteq> [] \<and> list_all addr_char h) \<or>
     (\<exists>n. t = ''port '' @ nat_str n \<and> 0 < n \<and> n \<le> 65535)"

definition rendered_filter :: "string list \<Rightarrow> string list \<Rightarrow> string" where
  "rendered_filter watch exclude = ''ip'' @
     (if watch = [] then [] else '' and ('' @ join_with '' or '' watch @ '')'') @
     (if exclude = [] then [] else '' and not ('' @ join_with '' or '' exclude @ '')'')"

lemma filter_terms_safe:
  assumes "valid_ports ports = Inr l" and "\<forall>ip\<in>set (case ips of None \<Rightarrow> [] | Some l \<Rightarrow> l). CHR ''%'' \<notin> set ip"
    and "t \<in> set (filter_terms (valid_ips ips) l)"
  shows "safe_term t"
proof -
  have no: "CHR ''%'' \<notin> set (strip ip)" if "CHR ''%'' \<notin> set ip" for ip
    using that set_dropWhileD unfolding strip_def rstrip_def lstrip_def by (metis set_rev)
  consider (host) ip where "t = ''host '' @ strip ip" "ip \<in> set (case ips of None \<Rightarrow> [] | Some l \<Rightarrow> l)"
      "strip ip \<noteq> []" "ip_address (strip ip) \<noteq> None"
    | (port) p where "t = ''port '' @ int_str p" "p \<in> set l"
    using assms(3) by (auto simp: filter_terms_def valid_ips_def)
  then show ?thesis
  proof cases
    case host
    with assms(2) no have "CHR ''%'' \<notin> set (strip ip)" by blast
    from ip_address_chars [OF host(4) this] have "list_all addr_char (strip ip)" by (simp add: list_all_iff)
    with host(1,3) show ?thesis unfolding safe_term_def by blast
  next
    case port
    have "0 < p \<and> p \<le> 65535" by (rule valid_ports_range [OF assms(1) port(2)])
    with port(1) have "t = ''port '' @ nat_str (nat p) \<and> 0 < nat p \<and> nat p \<le> 65535"
      by (simp add: int_str_def nat_le_iff)
    then show ?thesis unfolding safe_term_def by blast
  qed
qed

lemma sort_key_Cons_min:
  assumes "sort_key f xs = x # ys"
  shows "x \<in> set xs \<and> (\<forall>y\<in>set xs. f x \<le> (f y :: int))"
proof -
  have "sorted (map f (x # ys))" by (metis assms sorted_sort_key)
  moreover have "set xs = set (x # ys)" by (metis assms set_sort)
  ultimately show ?thesis by auto
qed

lemma scored_interfaces_set:
  "scored_interfaces rep items = Inr scored \<Longrightarrow> set scored =
     {(sc, item_text rep item ''name'') | sc item. item \<in> set items \<and> score_windows_interface rep item = Inr (Some sc)}"
proof (induction items arbitrary: scored)
  case (Cons item items)
  then obtain score rest where r: "score_windows_interface rep item = Inr score"
    "scored_interfaces rep items = Inr rest"
    "scored = (case score of None \<Rightarrow> rest | Some sc \<Rightarrow> (sc, item_text rep item ''name'') # rest)"
    by (auto split: sum.splits)
  from Cons.IH [OF r(2)] r show ?case by (cases score) auto
qed simp

datatype capture_op = Captured real real real frame_view | Taken

fun capture_step :: "capture_op \<Rightarrow> packet list \<times> sniffer \<Rightarrow> packet list \<times> sniffer" where
  "capture_step (Captured t1 t2 t3 fr) (out, sn) = (out, handle_packet t1 t2 t3 fr sn)"
| "capture_step Taken (out, sn) =
     (case take_packet sn of (None, sn') \<Rightarrow> (out, sn') | (Some p, sn') \<Rightarrow> (out @ [p], sn'))"

fun parsed_in :: "capture_op list \<Rightarrow> packet list" where
  "parsed_in [] = []"
| "parsed_in (Captured t1 t2 t3 fr # ops) =
     (case parse t1 fr of None \<Rightarrow> parsed_in ops | Some p \<Rightarrow> p # parsed_in ops)"
| "parsed_in (Taken # ops) = parsed_in ops"

definition accounted :: "packet list \<Rightarrow> packet list \<times> sniffer \<Rightarrow> bool" where
  "accounted ps os \<longleftrightarrow> (case os of (out, sn) \<Rightarrow>
     subseq (out @ sn_packet_queue sn) ps \<and> sn_seen_packets sn = length ps \<and>
     (sn_maxsize sn = 0 \<or> length (sn_packet_queue sn) \<le> sn_maxsize sn) \<and>
     (\<exists>tel. sn_telemetry_collector sn = Some tel \<and> tl_packets_received_total tel = length ps \<and>
        tl_packets_dropped_total tel + length (out @ sn_packet_queue sn) = length ps))"

lemma accounted_step: "accounted ps os \<Longrightarrow> accounted (ps @ parsed_in [x]) (capture_step x os)"
proof (cases x; cases os)
  fix t1 t2 t3 fr out sn
  assume a: "accounted ps os" and x: "x = Captured t1 t2 t3 fr" and os: "os = (out, sn)"
  show ?thesis
  proof (cases "parse t1 fr")
    case None
    with a x os show ?thesis by (simp add: handle_packet_def)
  next
    case (Some p)
    have "subseq (out @ sn_packet_queue sn) (ps @ [p])"
      "subseq ((out @ sn_packet_queue sn) @ [p]) (ps @ [p])"
      using a os by (auto simp: accounted_def intro: list_emb_append2 list_emb_append_mono subseq_order.order_trans
        simp del: append_assoc)
    with a x os Some show ?thesis
      by (auto simp: accounted_def handle_packet_def put_nowait_def Let_def record_packet_received_def
          record_packet_dropped_def)
  qed
next
  fix out sn
  assume a: "accounted ps os" and x: "x = Taken" and os: "os = (out, sn)"
  with a show ?thesis by (auto simp: accounted_def take_packet_def split: list.splits)
qed

lemma accounted_run:
  "accounted ps os \<Longrightarrow> accounted (ps @ parsed_in ops) (fold capture_step ops os)"
proof (induction ops arbitrary: ps os)
  case (Cons x ops)
  have "parsed_in (x # ops) = parsed_in [x] @ parsed_in ops" by (cases x) (simp_all split: option.split)
  with Cons.IH [OF accounted_step [OF Cons.prems, of x]] show ?case by simp
qed simp

subsection \<open>Properties\<close>

text \<open>
  C12: No captured packet disappears unaccounted. After any interleaving of captured frames and
  of the consumer's \<open>get\<close>: the packets handed to the consumer followed by those still queued are,
  in order, some of the packets parsed; the telemetry's received total counts all parsed packets,
  its dropped total exactly the others, and the queue never exceeds its size.
\<close>
theorem capture_accounting:
  "let (out, sn) = fold capture_step ops ([], sniffer_init n (Some (telemetry_init width exchange)))
   in subseq (out @ sn_packet_queue sn) (parsed_in ops) \<and>
     (n = 0 \<or> length (sn_packet_queue sn) \<le> n) \<and>
     (\<exists>tel. sn_telemetry_collector sn = Some tel \<and>
       tl_packets_received_total tel = length (parsed_in ops) \<and>
       tl_packets_dropped_total tel + length out + length (sn_packet_queue sn) = length (parsed_in ops))"
proof -
  let ?os = "fold capture_step ops ([], sniffer_init n (Some (telemetry_init width exchange)))"
  have "accounted [] ([], sniffer_init n (Some (telemetry_init width exchange)))"
    by (simp add: accounted_def sniffer_init_def telemetry_init_def)
  from accounted_run [OF this, of ops] have a: "accounted (parsed_in ops) ?os" by simp
  have "sn_maxsize (handle_packet t1 t2 t3 fr sn) = sn_maxsize sn" for t1 t2 t3 fr sn
    by (auto simp: handle_packet_def put_nowait_def Let_def split: option.split)
  then have "sn_maxsize (snd (capture_step x os)) = sn_maxsize (snd os)" for x os
    by (cases x; cases os) (auto simp: take_packet_def split: list.split)
  then have "sn_maxsize (snd (fold capture_step ops os)) = sn_maxsize (snd os)" for os
    by (induction ops arbitrary: os) simp_all
  then have "sn_maxsize (snd ?os) = n" by (simp add: sniffer_init_def)
  with a show ?thesis by (auto simp: accounted_def case_prod_beta)
qed

text \<open>
  The terms asked for: every argument that, stripped, is an IP address, and every one that Python's
  \<open>int\<close> reads as a port number, in their order.
\<close>

definition asked_port :: "json \<Rightarrow> int option" where
  "asked_port raw = (case py_int raw of Inl _ \<Rightarrow> None | Inr p \<Rightarrow> if 1 \<le> p \<and> p \<le> 65535 then Some p else None)"

definition asked_terms :: "string list option \<Rightarrow> json list \<Rightarrow> string list" where
  "asked_terms ips ports =
     map (\<lambda>h. ''host '' @ h) (filter (\<lambda>h. ip_address h \<noteq> None) (map strip (case ips of None \<Rightarrow> [] | Some l \<Rightarrow> l))) @
     map (\<lambda>p. ''port '' @ int_str p) (List.map_filter asked_port ports)"

lemma valid_port_asked: "valid_port raw = Inr port \<Longrightarrow> port = asked_port raw"
proof -
  have blank: "py_int_of_str [] = None" by (simp add: py_int_of_str_def strip_def lstrip_def rstrip_def)
  have "py_int (JStr (strip s)) = py_int (JStr s)" for s by (simp add: py_int_of_str_def strip_strip)
  then have "py_int (case raw of JStr s \<Rightarrow> JStr (strip s) | v \<Rightarrow> v) = py_int raw" by (cases raw) simp_all
  then show "valid_port raw = Inr port \<Longrightarrow> port = asked_port raw"
    by (auto simp: valid_port_def asked_port_def Let_def blank split: if_splits sum.splits py_error.splits)
qed

lemma valid_ports_asked: "valid_ports ports = Inr l \<Longrightarrow> l = List.map_filter asked_port ports"
  by (induction ports arbitrary: l) (auto simp: List.map_filter_simps dest: valid_port_asked split: sum.splits option.splits)

lemma no_empty_address: "ip_address [] = None"
  by (simp add: ip_address_def parse_ipv4_def parse_ipv6_def ipv6_int_def ipv6_parts_def)

lemma filter_terms_asked: "valid_ports ports = Inr l \<Longrightarrow> filter_terms (valid_ips ips) l = asked_terms ips ports"
  using no_empty_address
  by (auto simp: filter_terms_def valid_ips_def asked_terms_def dest!: valid_ports_asked intro!: arg_cong [where f = "map _"] filter_cong)

text \<open>
  C33: The capture filter selects exactly what was asked for. When no address given has a zone suffix
  (no \<open>%\<close>), the filter built is \<open>ip\<close>, then one disjunction of the watch terms if there are any,
  then the negated disjunction of the exclude terms if there are any: for every address and every
  port given, in order, one term, and none for what is no address or no port. Each term is a host
  whose text consists of hexadecimal digits, colons and dots, or a port between 1 and 65535, so
  that no argument can change the structure of the filter.
\<close>
theorem capture_filter_safe:
  assumes "build_capture_filter wips wports eips eports = Inr f"
    and "\<forall>ip\<in>set (case wips of None \<Rightarrow> [] | Some l \<Rightarrow> l). CHR ''%'' \<notin> set ip"
    and "\<forall>ip\<in>set (case eips of None \<Rightarrow> [] | Some l \<Rightarrow> l). CHR ''%'' \<notin> set ip"
  shows "f = rendered_filter (asked_terms wips wports) (asked_terms eips eports) \<and>
    (\<forall>t\<in>set (asked_terms wips wports) \<union> set (asked_terms eips eports). safe_term t)"
proof -
  obtain w e where p: "valid_ports wports = Inr w" "valid_ports eports = Inr e"
    using assms(1) by (auto simp: build_capture_filter_def split: sum.splits)
  let ?w = "filter_terms (valid_ips wips) w" and ?e = "filter_terms (valid_ips eips) e"
  have "f = rendered_filter ?w ?e"
    using assms(1) p by (auto simp: build_capture_filter_def rendered_filter_def basic_filter_def Let_def)
  moreover have "\<forall>t\<in>set ?w \<union> set ?e. safe_term t"
    using filter_terms_safe [OF p(1) assms(2)] filter_terms_safe [OF p(2) assms(3)] by blast
  ultimately show ?thesis by (simp only: filter_terms_asked [OF p(1)] filter_terms_asked [OF p(2)])
qed

theorem capture_filter_safe_witness:
  "build_capture_filter (Some [''10.0.0.5'', ''x'']) [JStr '' 443''] None [JStr ''x'', JInt 80] =
     Inr ''ip and (host 10.0.0.5 or port 443) and not (port 80)''"
proof -
  note ev = strip_def lstrip_def rstrip_def py_space_def py_int_of_str_def is_digit_def
  have int: "py_int (JStr '' 443'') = Inr 443" "py_int (JStr ''x'') = Inl ValueError"
    by (simp_all add: ev digits_val_def digit_val_def)
  then have port: "asked_port (JStr '' 443'') = Some 443" "asked_port (JStr ''x'') = None" "asked_port (JInt 80) = Some 80"
    by (simp_all add: asked_port_def)
  have host: "ip_address ''10.0.0.5'' \<noteq> None" "ip_address ''x'' = None" "strip ''10.0.0.5'' = ''10.0.0.5''" "strip ''x'' = ''x''"
    by (simp_all add: ip_address_def parse_ipv4_def parse_ipv6_def ipv6_int_def ipv6_parts_def ipv4_octet_def ev
        digits_val_def digit_val_def)
  have digits: "int_str 443 = ''443''" "int_str 80 = ''80''"
    by (simp_all add: int_str_def nat_str.simps digit_char_def char_of_def bit_0)
  have terms: "asked_terms (Some [''10.0.0.5'', ''x'']) [JStr '' 443''] = [''host 10.0.0.5'', ''port 443'']"
    "asked_terms None [JStr ''x'', JInt 80] = [''port 80'']"
    using port host digits by (simp_all add: asked_terms_def List.map_filter_simps)
  have "\<exists>f. build_capture_filter (Some [''10.0.0.5'', ''x'']) [JStr '' 443''] None [JStr ''x'', JInt 80] = Inr f"
    by (auto simp: build_capture_filter_def valid_port_def Let_def ev split: option.split)
  then obtain f where f: "build_capture_filter (Some [''10.0.0.5'', ''x'']) [JStr '' 443''] None [JStr ''x'', JInt 80] = Inr f" ..
  from capture_filter_safe [OF this] have "f = rendered_filter [''host 10.0.0.5'', ''port 443''] [''port 80'']"
    unfolding terms by simp
  with f show ?thesis by (simp add: rendered_filter_def)
qed

text \<open>
  A zone suffix is not filtered: the address check accepts any text after \<open>%\<close>, so that an
  address read from the environment can rewrite the filter. Here the one watch address turns the
  filter into one that matches every IP packet.
\<close>
theorem capture_filter_zone_injection:
  "build_capture_filter (Some [''fe80::1%a) or (ip'']) [] None [] = Inr ''ip and (host fe80::1%a) or (ip)''"
proof -
  have "ipv6_words (replicate 6 ''0'' @ [''1'']) \<noteq> None"
    by (simp add: eval_nat_numeral ipv6_hextet_def hex_val_def)
  then show ?thesis
    by (simp add: build_capture_filter_def valid_ips_def filter_terms_def basic_filter_def ip_address_def
        parse_ipv4_def parse_ipv6_def ipv6_int_def ipv6_parts_def ipv6_hextet_def hex_val_def strip_def
        lstrip_def rstrip_def py_space_def upt_rec)
qed

text \<open>
  The interface chosen from the Windows list is a best one: it carries an IPv4 address, is no
  loopback interface, and no other interface of the list scores higher.
\<close>
theorem best_interface_maximal:
  assumes "get_best_active_interface rep (Items items) if_list = Inr (Some chosen)"
    and "scored_interfaces rep items = Inr scored" and "scored \<noteq> []"
  shows "\<exists>item\<in>set items. \<exists>sc. item_text rep item ''name'' = chosen \<and>
    score_windows_interface rep item = Inr (Some sc) \<and> extract_ipv4 rep item \<noteq> None \<and>
    \<not> mentions LOOPBACK_KEYWORDS (searchable_text rep item) \<and>
    (\<forall>other\<in>set items. \<forall>sc'. score_windows_interface rep other = Inr (Some sc') \<longrightarrow> sc' \<le> sc)"
proof -
  obtain sc name rest where s: "sort_key (\<lambda>e. - fst e) scored = (sc, name) # rest"
    using assms(3) by (cases "sort_key (\<lambda>e. - fst e) scored") (auto dest: arg_cong [of _ _ set])
  then have "chosen = name" using assms(1,2)
    by (cases items) (auto simp: get_best_active_interface_def get_windows_interfaces_def split: if_splits)
  note m = sort_key_Cons_min [OF s] and sset = scored_interfaces_set [OF assms(2)]
  obtain item where i: "item \<in> set items" "name = item_text rep item ''name''"
    "score_windows_interface rep item = Inr (Some sc)" using m sset by auto
  have "sc' \<le> sc" if "other \<in> set items" "score_windows_interface rep other = Inr (Some sc')" for other sc'
    using m sset that by force
  moreover have "extract_ipv4 rep item \<noteq> None \<and> \<not> mentions LOOPBACK_KEYWORDS (searchable_text rep item)"
    using i(3) by (auto simp: score_windows_interface_def Let_def split: if_splits option.splits)
  ultimately show ?thesis using i \<open>chosen = name\<close> by blast
qed

theorem best_interface_maximal_witness:
  "\<exists>item\<in>set [[(''name'', JStr ''eth0''), (''ip'', JStr ''10.0.0.5'')]].
    item_text (\<lambda>_. []) item ''name'' = ''eth0''"
proof -
  have "score_windows_interface (\<lambda>_. []) [(''name'', JStr ''eth0''), (''ip'', JStr ''10.0.0.5'')] = Inr (Some 100)"
    by (simp add: score_windows_interface_def searchable_text_def item_text_def obj_get_def strip_def lstrip_def rstrip_def
     py_space_def mentions_def LOOPBACK_KEYWORDS_def PREFERRED_KEYWORDS_def VIRTUAL_KEYWORDS_def looks_physical_def looks_wired_def
     contains_str_def extract_ipv4_def ipv4_under_def List.map_filter_simps extract_metric_def lower_def lower_char_def Let_def)
  then have s: "scored_interfaces (\<lambda>_. []) [[(''name'', JStr ''eth0''), (''ip'', JStr ''10.0.0.5'')]] = Inr [(100, ''eth0'')]"
    by (simp add: item_text_def obj_get_def strip_def lstrip_def rstrip_def py_space_def)
  then have "get_best_active_interface (\<lambda>_. []) (Items [[(''name'', JStr ''eth0''), (''ip'', JStr ''10.0.0.5'')]]) [] = Inr (Some ''eth0'')"
    by (simp add: get_best_active_interface_def get_windows_interfaces_def)
  from best_interface_maximal [OF this s] show ?thesis by blast
qed

end
