(* ===== verification/Http.thy ===== *)
theory Http
  imports Publisher
begin

text \<open>
  The engine's HTTP clients: request signing (\<open>packet_capture/auth/request_signer.py\<close>), the
  forwarders (\<open>packet_capture/forwarding/fastapi_*_forwarder.py\<close>), the command poller
  (\<open>response_engine/backend_command_poller.py\<close>), the capture configuration and the saved engine
  credential (\<open>packet_capture/registration/capture_config_client.py\<close> and \<open>local_config.py\<close>).
  \<open>urlopen\<close>, the clock, the random nonce and the digests are fields of the argument \<open>net\<close>; a
  response carries its status and its body parsed as JSON, or \<open>None\<close> when it does not parse.
\<close>

subsection \<open>The network\<close>

record http_request =
  rq_url :: string
  rq_method :: string
  rq_headers :: "(string, string) pydict"
  rq_body :: "json option"

text \<open>\<open>Unreached\<close> is any of the exceptions the callers catch.\<close>

datatype http_outcome = Response int "json option" | Unreached

record 'w net =
  net_time :: "'w \<Rightarrow> real \<times> 'w"
  net_stamp :: "'w \<Rightarrow> string \<times> 'w"
  net_nonce :: "'w \<Rightarrow> string \<times> 'w"
  net_send :: "http_request \<Rightarrow> 'w \<Rightarrow> http_outcome \<times> 'w"
  net_sha256 :: "string \<Rightarrow> string"
  net_hmac :: "string \<Rightarrow> string \<Rightarrow> string"
  net_float_repr :: "real \<Rightarrow> string"

definition ok_status :: "int \<Rightarrow> bool" where
  "ok_status status = (200 \<le> status \<and> status < 300)"

subsection \<open>\<open>json.dumps\<close>\<close>

definition hex_digit :: "nat \<Rightarrow> char" where
  "hex_digit d = char_of (if d < 10 then 48 + d else 87 + d)"

definition json_escape :: "char \<Rightarrow> string" where
  "json_escape c =
     (let n = (of_char c :: nat) in
      if n = 34 then [CHR 0x5C, c] else if n = 92 then [c, c]
      else if n = 8 then [CHR 0x5C, CHR ''b''] else if n = 9 then [CHR 0x5C, CHR ''t'']
      else if n = 10 then [CHR 0x5C, CHR ''n''] else if n = 12 then [CHR 0x5C, CHR ''f'']
      else if n = 13 then [CHR 0x5C, CHR ''r'']
      else if 32 \<le> n \<and> n < 127 then [c]
      else CHR 0x5C # ''u00'' @ [hex_digit (n div 16), hex_digit (n mod 16)])"

definition json_quote :: "string \<Rightarrow> string" where
  "json_quote s = CHR 0x22 # concat (map json_escape s) @ [CHR 0x22]"

fun json_dumps :: "(real \<Rightarrow> string) \<Rightarrow> json \<Rightarrow> string" where
  "json_dumps rep JNull = ''null''"
| "json_dumps rep (JBool b) = (if b then ''true'' else ''false'')"
| "json_dumps rep (JInt i) = int_str i"
| "json_dumps rep (JFloat f) =
     (case f of Fin x \<Rightarrow> rep x | PInf \<Rightarrow> ''Infinity'' | NInf \<Rightarrow> ''-Infinity'' | NaN \<Rightarrow> ''NaN'')"
| "json_dumps rep (JStr s) = json_quote s"
| "json_dumps rep (JList vs) = ''['' @ join_with '', '' (map (json_dumps rep) vs) @ '']''"
| "json_dumps rep (JObj kvs) =
     ''{'' @ join_with '', '' (map (\<lambda>(k, v). json_quote k @ '': '' @ json_dumps rep v) kvs) @ ''}''"

subsection \<open>Signing\<close>

text \<open>
  \<open>urlsplit\<close>, up to the path and the query: the scheme, then the network location after \<open>//\<close>,
  whose brackets must match, then the fragment and the query are cut off.
\<close>

definition split_at :: "char \<Rightarrow> string \<Rightarrow> string \<times> string" where
  "split_at c s = (takeWhile (\<lambda>x. x \<noteq> c) s, drop 1 (dropWhile (\<lambda>x. x \<noteq> c) s))"

definition alpha_char :: "char \<Rightarrow> bool" where
  "alpha_char c = (let n = (of_char c :: nat) in 65 \<le> n \<and> n \<le> 90 \<or> 97 \<le> n \<and> n \<le> 122)"

definition scheme_char :: "char \<Rightarrow> bool" where
  "scheme_char c = (alpha_char c \<or> is_digit c \<or> c \<in> {CHR ''+'', CHR ''-'', CHR ''.''})"

definition drop_scheme :: "string \<Rightarrow> string" where
  "drop_scheme url =
     (case split_at (CHR '':'') url of (scheme, rest) \<Rightarrow>
        if CHR '':'' \<in> set url \<and> scheme \<noteq> [] \<and> alpha_char (hd scheme) \<and> list_all scheme_char scheme
        then rest else url)"

definition url_path_query :: "string \<Rightarrow> py_error + string \<times> string" where
  "url_path_query url =
     (let url1 = filter (\<lambda>c. c \<notin> {CHR 0x09, CHR 0x0A, CHR 0x0D}) (dropWhile (\<lambda>c. (of_char c :: nat) \<le> 32) url);
          url2 = drop_scheme url1;
          is_net = (take 2 url2 = ''//'');
          stop = (\<lambda>c. c \<in> {CHR ''/'', CHR ''?'', CHR ''#''});
          netloc = (if is_net then takeWhile (\<lambda>c. \<not> stop c) (drop 2 url2) else []);
          url3 = (if is_net then dropWhile (\<lambda>c. \<not> stop c) (drop 2 url2) else url2)
      in if (CHR ''['' \<in> set netloc) \<noteq> (CHR '']'' \<in> set netloc) then Inl ValueError
         else Inr (split_at (CHR ''?'') (fst (split_at (CHR ''#'') url3))))"

definition path_with_query :: "string \<Rightarrow> py_error + string" where
  "path_with_query url =
     (case url_path_query url of
        Inl e \<Rightarrow> Inl e
      | Inr (path, query) \<Rightarrow> Inr (if query \<noteq> [] then path @ ''?'' @ query else path))"

text \<open>\<open>method.upper()\<close>, of a method name in ASCII.\<close>

definition upper :: "string \<Rightarrow> string" where
  "upper s = map (\<lambda>c. let n = (of_char c :: nat) in if 97 \<le> n \<and> n \<le> 122 then char_of (n - 32) else c) s"

record signer =
  sg_secret :: string
  sg_engine_id :: "string option"

definition newline :: string where "newline = [CHR 0x0A]"

definition signing_string :: "string \<Rightarrow> string \<Rightarrow> string \<Rightarrow> string \<Rightarrow> string \<Rightarrow> string" where
  "signing_string meth path body_hash timestamp nonce =
     join_with newline [upper meth, path, body_hash, timestamp, nonce]"

definition sign ::
    "'w net \<Rightarrow> signer \<Rightarrow> string \<Rightarrow> string \<Rightarrow> string \<Rightarrow> ('w, (string, string) pydict) state" where
  "sign net sg meth path body = do {
     timestamp \<leftarrow> State (net_stamp net);
     nonce \<leftarrow> State (net_nonce net);
     let signature = net_hmac net (sg_secret sg)
       (signing_string meth path (net_sha256 net body) timestamp nonce);
     State_Monad.return ([(''x-smartids-signature'', signature), (''x-smartids-timestamp'', timestamp),
       (''x-smartids-nonce'', nonce)] @
       (case sg_engine_id sg of
          None \<Rightarrow> []
        | Some engine_id \<Rightarrow> if engine_id = [] then [] else [(''x-smartids-engine-id'', engine_id)]))
   }"

text \<open>The constructor of \<open>request.Request\<close> raises \<open>ValueError\<close> on a URL without a type.\<close>

definition url_typed :: "string \<Rightarrow> bool" where
  "url_typed url =
     (let u1 = strip url;
          u2 = (if take 1 u1 = ''<'' \<and> u1 \<noteq> [] \<and> last u1 = CHR ''>'' then strip (butlast (drop 1 u1)) else u1);
          u3 = (if take 4 u2 = ''URL:'' then strip (drop 4 u2) else u2);
          scheme = fst (split_at (CHR '':'') u3)
      in CHR '':'' \<in> set u3 \<and> scheme \<noteq> [] \<and> CHR ''/'' \<notin> set scheme)"

text \<open>The headers of a request, which raise when the URL cannot be split.\<close>

definition signed_headers ::
    "'w net \<Rightarrow> signer option \<Rightarrow> string \<Rightarrow> string \<Rightarrow> string \<Rightarrow> (string, string) pydict \<Rightarrow>
     ('w, py_error + (string, string) pydict) state" where
  "signed_headers net sg meth url body headers =
     (case sg of
        None \<Rightarrow> State_Monad.return (Inr headers)
      | Some s \<Rightarrow> (case path_with_query url of
          Inl e \<Rightarrow> State_Monad.return (Inl e)
        | Inr path \<Rightarrow> do {
            signed \<leftarrow> sign net s meth path body;
            State_Monad.return (Inr (headers @ signed))
          }))"

subsection \<open>The forwarders\<close>

record forwarder =
  fo_endpoint_url :: string
  fo_signer :: "signer option"

definition post_json ::
    "'w net \<Rightarrow> string \<Rightarrow> signer option \<Rightarrow> json \<Rightarrow> ('w, py_error + bool) state" where
  "post_json net url sg v = do {
     headers \<leftarrow> signed_headers net sg ''POST'' url (json_dumps (net_float_repr net) v)
       [(''Content-Type'', ''application/json'')];
     case headers of
       Inl e \<Rightarrow> State_Monad.return (Inl e)
     | Inr hs \<Rightarrow> if \<not> url_typed url then State_Monad.return (Inl ValueError) else do {
         outcome \<leftarrow> State (net_send net
           \<lparr>rq_url = url, rq_method = ''POST'', rq_headers = hs, rq_body = Some v\<rparr>);
         State_Monad.return (Inr (case outcome of Response status _ \<Rightarrow> ok_status status | Unreached \<Rightarrow> False))
       }
   }"

text \<open>The five forwarders have the same code, each with the endpoint of its payload.\<close>

definition forward_alert :: "'w net \<Rightarrow> forwarder \<Rightarrow> json \<Rightarrow> ('w, py_error + bool) state" where
  "forward_alert net fo v = post_json net (fo_endpoint_url fo) (fo_signer fo) v"
definition forward_event :: "'w net \<Rightarrow> forwarder \<Rightarrow> json \<Rightarrow> ('w, py_error + bool) state" where
  "forward_event net fo v = post_json net (fo_endpoint_url fo) (fo_signer fo) v"
definition forward_session_update :: "'w net \<Rightarrow> forwarder \<Rightarrow> json \<Rightarrow> ('w, py_error + bool) state" where
  "forward_session_update net fo v = post_json net (fo_endpoint_url fo) (fo_signer fo) v"
definition forward_block_event :: "'w net \<Rightarrow> forwarder \<Rightarrow> json \<Rightarrow> ('w, py_error + bool) state" where
  "forward_block_event net fo v = post_json net (fo_endpoint_url fo) (fo_signer fo) v"
definition forward_telemetry :: "'w net \<Rightarrow> forwarder \<Rightarrow> json \<Rightarrow> ('w, py_error + bool) state" where
  "forward_telemetry net fo v = post_json net (fo_endpoint_url fo) (fo_signer fo) v"

text \<open>As the callable of a background publisher, whose worker catches what it raises.\<close>

definition as_publish :: "(json \<Rightarrow> ('w, py_error + bool) state) \<Rightarrow> (json, 'w) publish" where
  "as_publish f v w = (case run_state (f v) w of
     (Inl e, w') \<Rightarrow> (Raised, w') | (Inr ok, w') \<Rightarrow> (Returned ok, w'))"

subsection \<open>The command poller\<close>

definition dict_items :: "json list \<Rightarrow> (string, json) pydict list" where
  "dict_items vs = List.map_filter (\<lambda>v. case v of JObj d \<Rightarrow> Some d | _ \<Rightarrow> None) vs"

definition commands_of :: "json \<Rightarrow> (string, json) pydict list" where
  "commands_of payload =
     (case payload of
        JList vs \<Rightarrow> dict_items vs
      | JObj d \<Rightarrow> (case obj_get d ''commands'' (JList []) of JList vs \<Rightarrow> dict_items vs | _ \<Rightarrow> [])
      | _ \<Rightarrow> [])"

definition get_json :: "'w net \<Rightarrow> string \<Rightarrow> signer option \<Rightarrow> ('w, py_error + json option) state" where
  "get_json net url sg = do {
     headers \<leftarrow> signed_headers net sg ''GET'' url [] [];
     case headers of
       Inl e \<Rightarrow> State_Monad.return (Inl e)
     | Inr hs \<Rightarrow> if \<not> url_typed url then State_Monad.return (Inl ValueError) else do {
         outcome \<leftarrow> State (net_send net \<lparr>rq_url = url, rq_method = ''GET'', rq_headers = hs, rq_body = None\<rparr>);
         State_Monad.return (Inr (case outcome of
             Response status body \<Rightarrow> if ok_status status then body else None
           | Unreached \<Rightarrow> None))
       }
   }"

record poller =
  po_endpoint_url :: string
  po_signer :: "signer option"

definition poll_commands ::
    "'w net \<Rightarrow> poller \<Rightarrow> ('w, py_error + (string, json) pydict list) state" where
  "poll_commands net po = do {
     payload \<leftarrow> get_json net (po_endpoint_url po) (po_signer po);
     State_Monad.return (case payload of
         Inl e \<Rightarrow> Inl e
       | Inr None \<Rightarrow> Inr []
       | Inr (Some v) \<Rightarrow> Inr (commands_of v))
   }"

definition ack_command ::
    "'w net \<Rightarrow> poller \<Rightarrow> string \<Rightarrow> string \<Rightarrow> string \<Rightarrow> ('w, py_error + bool) state" where
  "ack_command net po ack_endpoint_url command_id status = do {
     now \<leftarrow> State (net_time net);
     post_json net ack_endpoint_url (po_signer po) (JObj [(''command_id'', JStr command_id),
       (''status'', JStr status), (''acked_at'', JFloat (Fin now))])
   }"

subsection \<open>The capture configuration\<close>

definition rstrip_char :: "char \<Rightarrow> string \<Rightarrow> string" where
  "rstrip_char c s = rev (dropWhile (\<lambda>x. x = c) (rev s))"

text \<open>The port is returned as it came: \<open>isinstance(port, int)\<close> also holds of a boolean.\<close>

definition watch_port_of :: "json \<Rightarrow> json option" where
  "watch_port_of payload =
     (case payload of
        JObj d \<Rightarrow> (case obj_get d ''data'' JNull of
            JObj data \<Rightarrow> (case obj_get data ''captureWatchPort'' JNull of
                JInt i \<Rightarrow> Some (JInt i)
              | JBool b \<Rightarrow> Some (JBool b)
              | _ \<Rightarrow> None)
          | _ \<Rightarrow> None)
      | _ \<Rightarrow> None)"

definition fetch_capture_watch_port ::
    "'w net \<Rightarrow> string \<Rightarrow> signer \<Rightarrow> ('w, py_error + json option) state" where
  "fetch_capture_watch_port net backend_url sg = do {
     payload \<leftarrow> get_json net (rstrip_char (CHR ''/'') backend_url @ ''/api/v1/engines/me/capture-config'') (Some sg);
     State_Monad.return (case payload of
         Inl e \<Rightarrow> Inl e
       | Inr None \<Rightarrow> Inr None
       | Inr (Some v) \<Rightarrow> Inr (watch_port_of v))
   }"

subsection \<open>The saved engine credential\<close>

text \<open>
  The configuration file: missing or unreadable, not UTF-8, not JSON, or its JSON value. Saving
  writes a sibling file and renames it, which is atomic.
\<close>

datatype config_file = NoFile | NotUtf8 | NotJson | ConfigJson json

definition REQUIRED_FIELDS :: "string list" where
  "REQUIRED_FIELDS = [''engine_id'', ''engine_secret'', ''backend_url'', ''heartbeat_interval_seconds'']"

definition config_save :: "string \<Rightarrow> string \<Rightarrow> string \<Rightarrow> int \<Rightarrow> config_file" where
  "config_save engine_id engine_secret backend_url heartbeat_interval_seconds =
     ConfigJson (JObj [(''engine_id'', JStr engine_id), (''engine_secret'', JStr engine_secret),
       (''backend_url'', JStr backend_url),
       (''heartbeat_interval_seconds'', JInt heartbeat_interval_seconds)])"

text \<open>\<open>UnicodeDecodeError\<close>, a \<open>ValueError\<close>, is neither \<open>OSError\<close> nor \<open>JSONDecodeError\<close>.\<close>

definition config_load :: "config_file \<Rightarrow> py_error + (string, json) pydict option" where
  "config_load file =
     (case file of
        NoFile \<Rightarrow> Inr None
      | NotJson \<Rightarrow> Inr None
      | NotUtf8 \<Rightarrow> Inl ValueError
      | ConfigJson (JObj d) \<Rightarrow>
          Inr (if list_all (\<lambda>f. map_of d f \<noteq> None) REQUIRED_FIELDS then Some d else None)
      | ConfigJson _ \<Rightarrow> Inr None)"


subsection \<open>What a signature covers\<close>

lemma set_split_at: "set (fst (split_at c s)) \<subseteq> set s" "set (snd (split_at c s)) \<subseteq> set s"
  by (auto simp: split_at_def dest: set_takeWhileD set_dropWhileD in_set_dropD)

lemma set_drop_scheme: "set (drop_scheme url) \<subseteq> set url"
proof -
  obtain a b where ab: "split_at (CHR '':'') url = (a, b)" by fastforce
  with set_split_at(2) [of "CHR '':''" url] have "set b \<subseteq> set url" by simp
  with ab show ?thesis by (simp add: drop_scheme_def)
qed

lemma path_no_newline:
  assumes "path_with_query url = Inr p"
  shows "CHR 0x0A \<notin> set p"
proof -
  let ?u1 = "filter (\<lambda>c. c \<notin> {CHR 0x09, CHR 0x0A, CHR 0x0D}) (dropWhile (\<lambda>c. (of_char c :: nat) \<le> 32) url)"
  obtain q r where u: "url_path_query url = Inr (q, r)" "p = (if r \<noteq> [] then q @ ''?'' @ r else q)"
    using assms by (auto simp: path_with_query_def split: sum.splits prod.splits)
  let ?u2 = "drop_scheme ?u1" and ?stop = "\<lambda>c. c \<in> {CHR ''/'', CHR ''?'', CHR ''#''}"
  let ?u3 = "if take 2 ?u2 = ''//'' then dropWhile (\<lambda>c. \<not> ?stop c) (drop 2 ?u2) else ?u2"
  have qr: "(q, r) = split_at (CHR ''?'') (fst (split_at (CHR ''#'') ?u3))"
    using u(1) unfolding url_path_query_def Let_def by (simp split: if_split_asm)
  have "set q \<union> set r \<subseteq> set (fst (split_at (CHR ''#'') ?u3))"
    using set_split_at [of "CHR ''?''" "fst (split_at (CHR ''#'') ?u3)"] qr [symmetric] by simp
  also have "\<dots> \<subseteq> set ?u3" by (rule set_split_at)
  also have "\<dots> \<subseteq> set ?u2" by (auto dest: set_dropWhileD in_set_dropD)
  finally have "set q \<union> set r \<subseteq> set ?u2" .
  moreover have "CHR 0x0A \<notin> set (drop_scheme ?u1)" using set_drop_scheme [of ?u1] by auto
  ultimately show ?thesis using u(2) by (auto split: if_splits)
qed

lemma upper_char_newline:
  "(let k = (of_char c :: nat) in if 97 \<le> k \<and> k \<le> 122 then char_of (k - 32) else c) = CHR 0x0A \<Longrightarrow> c = CHR 0x0A"
proof -
  let ?k = "of_char c :: nat"
  assume a: "(let k = (of_char c :: nat) in if 97 \<le> k \<and> k \<le> 122 then char_of (k - 32) else c) = CHR 0x0A"
  show ?thesis
  proof (cases "97 \<le> ?k \<and> ?k \<le> 122")
    case True
    with a have "of_char (char_of (?k - 32) :: char) = (of_char (CHR 0x0A) :: nat)" by (simp add: Let_def)
    then have "(?k - 32) mod 256 = 10" by simp
    moreover have "(?k - 32) mod 256 = ?k - 32" by (rule mod_less) (use True in linarith)
    ultimately have "?k - 32 = 10" by simp
    with True have False by linarith
    then show ?thesis ..
  qed (use a in \<open>auto simp: Let_def\<close>)
qed

lemma upper_newline: "CHR 0x0A \<notin> set s \<Longrightarrow> CHR 0x0A \<notin> set (upper s)"
  using upper_char_newline by (fastforce simp: upper_def)

lemma signing_parts:
  assumes "CHR 0x0A \<notin> set m" "CHR 0x0A \<notin> set p" "CHR 0x0A \<notin> set h" "CHR 0x0A \<notin> set t" "CHR 0x0A \<notin> set n"
  shows "split_on (CHR 0x0A) (signing_string m p h t n) = [upper m, p, h, t, n]"
  using assms upper_newline [of m]
  by (simp add: signing_string_def newline_def split_on_append_sep split_on_no_sep)

text \<open>
  C20: The signature covers the request: the string that is signed determines the method, the path
  with its query, the digest of the body, the timestamp and the nonce, so that no two requests
  that differ in any of them share one. The path never holds the separator, whatever the URL.
\<close>
theorem signature_covers_request:
  assumes "path_with_query url = Inr p" and "path_with_query url' = Inr p'"
    and "\<And>s. s \<in> {m, h, t, n, m', h', t', n'} \<Longrightarrow> CHR 0x0A \<notin> set s"
    and same: "signing_string m p h t n = signing_string m' p' h' t' n'"
  shows "upper m = upper m' \<and> p = p' \<and> h = h' \<and> t = t' \<and> n = n'"
proof -
  have "[upper m, p, h, t, n] = [upper m', p', h', t', n']"
    using signing_parts [of m p h t n] signing_parts [of m' p' h' t' n'] same assms(3)
      path_no_newline [OF assms(1)] path_no_newline [OF assms(2)] by simp
  then show ?thesis by simp
qed

theorem signature_covers_request_witness:
  "signing_string ''GET'' ''/a?b'' ''00'' ''1.5'' ''ff'' \<noteq> signing_string ''GET'' ''/a'' ''00'' ''1.5'' ''ff''"
proof
  assume eq: "signing_string ''GET'' ''/a?b'' ''00'' ''1.5'' ''ff'' = signing_string ''GET'' ''/a'' ''00'' ''1.5'' ''ff''"
  have "path_with_query ''/a?b'' = Inr ''/a?b''" "path_with_query ''/a'' = Inr ''/a''"
    by (simp_all add: path_with_query_def url_path_query_def drop_scheme_def split_at_def Let_def)
  moreover have "CHR 0x0A \<notin> set s" if "s \<in> {''GET'', ''00'', ''1.5'', ''ff'', ''GET'', ''00'', ''1.5'', ''ff''}" for s
    using that by auto
  ultimately show False using signature_covers_request [OF _ _ _ eq] by simp
qed

end
