(* ===== verification/Realtime.thy ===== *)
theory Realtime
  imports Engine Http
begin

text \<open>
  The two ways a backend command reaches the processor, apart from the thread that polls: the
  WebSocket client (\<open>packet_capture/realtime/engine_ws_client.py\<close>), its handshake, its catch-up
  poll, the frames, the queue of acknowledgements and the reconnecting loop. The socket, the
  random numbers and the identifiers are fields of \<open>ws_env\<close>. The threads that run beside the
  client, its acknowledgement worker and the rest of the engine, take their turns between frames.
\<close>

subsection \<open>Sequences that stop at an error\<close>

fun each_ok :: "'a list \<Rightarrow> ('a \<Rightarrow> ('s, 'e + unit) state) \<Rightarrow> ('s, 'e + unit) state" where
  "each_ok [] f = State_Monad.return (Inr ())"
| "each_ok (x # xs) f = do {
     r \<leftarrow> f x;
     case r of Inl e \<Rightarrow> State_Monad.return (Inl e) | Inr _ \<Rightarrow> each_ok xs f
   }"

subsection \<open>State\<close>

text \<open>
  \<open>lk_open\<close> says that \<open>self._ws\<close> is set. \<open>lk_sent\<close> lists the frames written to the socket; it
  records what the code does and no step reads it.
\<close>

record ('w, 'n) link =
  lk_processor :: "'w processor"
  lk_net :: 'n
  lk_open :: bool
  lk_sent :: "json list"

text \<open>The state of the client is that of its acknowledgement publisher, whose callable uses the link.\<close>

type_synonym ('w, 'n) ws_client = "((string, json) pydict, ('w, 'n) link) publisher"

text \<open>
  \<open>we_send\<close> writes a frame, or raises when it answers \<open>False\<close>; \<open>we_gap\<close> tells whether the
  connection closes between the two looks an acknowledgement takes at it.
\<close>

record ('w, 'n) ws_env =
  we_proc :: "'w proc_env"
  we_net :: "'n net"
  we_signer :: signer
  we_config_update :: "((string, json) pydict \<Rightarrow> 'n \<Rightarrow> py_error option \<times> 'n) option"
  we_catchup_poller :: "poller option"
  we_catchup_ack_endpoint_url :: "string option"
  we_uuid :: "'n \<Rightarrow> string \<times> 'n"
  we_send :: "json \<Rightarrow> 'n \<Rightarrow> bool \<times> 'n"
  we_gap :: "'n \<Rightarrow> bool \<times> 'n"
  we_jitter :: "'n \<Rightarrow> real \<times> 'n"
  we_reconnect_base_seconds :: real
  we_reconnect_cap_seconds :: real

datatype ws_error = AuthRejected | ConnectionLost | Escaped py_error

text \<open>What \<open>json.loads\<close> makes of a message.\<close>

datatype ws_message = Unparsed | Parsed json

definition ENGINE_WS_AUTH_METHOD :: string where "ENGINE_WS_AUTH_METHOD = ''WS_AUTH''"
definition ENGINE_WS_AUTH_PATH :: string where
  "ENGINE_WS_AUTH_PATH = ''/api/v1/realtime/engine-ws''"

definition ws_client_init :: "int \<Rightarrow> ('w, 'n) link \<Rightarrow> ('w, 'n) ws_client" where
  "ws_client_init command_ack_queue_size lk = publisher_init command_ack_queue_size None lk"

definition ws_bounds :: "real \<Rightarrow> real \<Rightarrow> real \<times> real" where
  "ws_bounds base cap = (max (1 / 10) base, max (max (1 / 10) base) cap)"

definition on_net :: "('n \<Rightarrow> 'a \<times> 'n) \<Rightarrow> (('w, 'n) link, 'a) state" where
  "on_net f = on_field lk_net lk_net_update f"

definition on_processor :: "('w processor, 'a) state \<Rightarrow> (('w, 'n) link, 'a) state" where
  "on_processor m = on_field lk_processor lk_processor_update (run_state m)"

definition on_link :: "(('w, 'n) link, 'a) state \<Rightarrow> (('w, 'n) ws_client, 'a) state" where
  "on_link m = on_field pb_world pb_world_update (run_state m)"

subsection \<open>Frames\<close>

definition send_frame :: "('w, 'n) ws_env \<Rightarrow> json \<Rightarrow> (('w, 'n) link, bool) state" where
  "send_frame env frame = do {
     ok \<leftarrow> on_net (we_send env frame);
     whenM ok (modify (\<lambda>l. l\<lparr>lk_sent := lk_sent l @ [frame]\<rparr>));
     State_Monad.return ok
   }"

text \<open>\<open>False\<close> when the write raises.\<close>

definition send_envelope ::
    "('w, 'n) ws_env \<Rightarrow> string \<Rightarrow> (string, json) pydict \<Rightarrow> (('w, 'n) link, bool) state" where
  "send_envelope env msg_type payload = do {
     is_open \<leftarrow> gets lk_open;
     if \<not> is_open then State_Monad.return True
     else do {
       uid \<leftarrow> on_net (we_uuid env);
       ts \<leftarrow> on_net (net_time (we_net env));
       send_frame env (JObj [(''type'', JStr msg_type), (''id'', JStr uid),
         (''ts'', JFloat (Fin ts)), (''payload'', JObj payload)])
     }
   }"

text \<open>The callable of the acknowledgement publisher, on its worker thread.\<close>

definition publish_command_ack_sync ::
    "('w, 'n) ws_env \<Rightarrow> ((string, json) pydict, ('w, 'n) link) publish" where
  "publish_command_ack_sync env payload = run_state (do {
     is_open \<leftarrow> gets lk_open;
     if \<not> is_open then State_Monad.return (Returned False)
     else do {
       closes \<leftarrow> on_net (we_gap env);
       whenM closes (modify (\<lambda>l. l\<lparr>lk_open := False\<rparr>));
       ok \<leftarrow> send_envelope env ''command_ack'' payload;
       State_Monad.return (Returned ok)
     }
   })"

subsection \<open>The handshake\<close>

definition auth_accepted :: "json \<Rightarrow> bool" where
  "auth_accepted reply =
     (case reply of
        JObj d \<Rightarrow> obj_get d ''type'' JNull = JStr ''auth'' \<and>
          (case obj_get d ''payload'' JNull of
             JObj payload \<Rightarrow> obj_get payload ''status'' JNull = JStr ''ok''
           | _ \<Rightarrow> False)
      | _ \<Rightarrow> False)"

definition header :: "(string, string) pydict \<Rightarrow> string \<Rightarrow> json" where
  "header headers k = (case map_of headers k of None \<Rightarrow> JNull | Some v \<Rightarrow> JStr v)"

text \<open>The reply is \<open>None\<close> when none arrives in time.\<close>

definition authenticate ::
    "('w, 'n) ws_env \<Rightarrow> ws_message option \<Rightarrow> (('w, 'n) link, ws_error + unit) state" where
  "authenticate env reply = do {
     headers \<leftarrow> on_net (run_state
       (sign (we_net env) (we_signer env) ENGINE_WS_AUTH_METHOD ENGINE_WS_AUTH_PATH []));
     uid \<leftarrow> on_net (we_uuid env);
     ts \<leftarrow> on_net (net_time (we_net env));
     sent \<leftarrow> send_frame env (JObj [(''type'', JStr ''auth''), (''id'', JStr uid), (''ts'', JFloat (Fin ts)),
       (''payload'', JObj [(''signature'', header headers ''x-smartids-signature''),
         (''timestamp'', header headers ''x-smartids-timestamp''),
         (''nonce'', header headers ''x-smartids-nonce''),
         (''engine_id'', header headers ''x-smartids-engine-id'')])]);
     State_Monad.return
       (if \<not> sent then Inl ConnectionLost
        else case reply of
          None \<Rightarrow> Inl ConnectionLost
        | Some Unparsed \<Rightarrow> Inl (Escaped ValueError)
        | Some (Parsed v) \<Rightarrow> if auth_accepted v then Inr () else Inl AuthRejected)
   }"

subsection \<open>Commands\<close>

definition apply_command ::
    "'w proc_env \<Rightarrow> backend_command \<Rightarrow> (('w, 'n) link, py_error + bool \<times> string) state" where
  "apply_command env c = on_processor (apply_backend_command env c)"

fun ack_status :: "bool \<times> string \<Rightarrow> string" where
  "ack_status (ok, status) = (if ok then status else ''error:'' @ status)"

definition apply_and_ack_via_rest ::
    "('w, 'n) ws_env \<Rightarrow> backend_command \<Rightarrow> (('w, 'n) link, ws_error + unit) state" where
  "apply_and_ack_via_rest env c = do {
     r \<leftarrow> apply_command (we_proc env) c;
     case r of
       Inl e \<Rightarrow> State_Monad.return (Inl (Escaped e))
     | Inr outcome \<Rightarrow>
         (case (we_catchup_ack_endpoint_url env, we_catchup_poller env) of
            (Some url, Some po) \<Rightarrow> do {
              let command_id = command_text (pe_repr (we_proc env)) c ''command_id'';
              if command_id = [] then State_Monad.return (Inr ())
              else do {
                acked \<leftarrow> on_net (run_state (ack_command (we_net env) po url command_id (ack_status outcome)));
                State_Monad.return (case acked of Inl e \<Rightarrow> Inl (Escaped e) | Inr _ \<Rightarrow> Inr ())
              }
            }
          | _ \<Rightarrow> State_Monad.return (Inr ()))
   }"

definition run_catchup :: "('w, 'n) ws_env \<Rightarrow> (('w, 'n) link, ws_error + unit) state" where
  "run_catchup env =
     (case we_catchup_poller env of
        None \<Rightarrow> State_Monad.return (Inr ())
      | Some po \<Rightarrow> do {
          commands \<leftarrow> on_net (run_state (poll_commands (we_net env) po));
          case commands of
            Inl e \<Rightarrow> State_Monad.return (Inl (Escaped e))
          | Inr cs \<Rightarrow> each_ok cs (apply_and_ack_via_rest env)
        })"

definition handle_command ::
    "('w, 'n) ws_env \<Rightarrow> backend_command \<Rightarrow> (('w, 'n) ws_client, ws_error + unit) state" where
  "handle_command env c = do {
     r \<leftarrow> on_link (apply_command (we_proc env) c);
     case r of
       Inl e \<Rightarrow> State_Monad.return (Inl (Escaped e))
     | Inr outcome \<Rightarrow> do {
         let command_id = command_text (pe_repr (we_proc env)) c ''command_id'';
         if command_id = [] then State_Monad.return (Inr ())
         else do {
           now \<leftarrow> on_link (on_net (net_time (we_net env)));
           _ \<leftarrow> State (submit [(''command_id'', JStr command_id), (''status'', JStr (ack_status outcome)),
             (''acked_at'', JFloat (Fin now)), (''ack_source'', JStr ''engine_ws'')]);
           State_Monad.return (Inr ())
         }
       }
   }"

definition handle_config_update ::
    "('w, 'n) ws_env \<Rightarrow> (string, json) pydict \<Rightarrow> (('w, 'n) link, ws_error + unit) state" where
  "handle_config_update env config =
     (case we_config_update env of
        None \<Rightarrow> State_Monad.return (Inr ())
      | Some f \<Rightarrow> do {
          raised \<leftarrow> on_net (f config);
          State_Monad.return (case raised of None \<Rightarrow> Inr () | Some e \<Rightarrow> Inl (Escaped e))
        })"

definition frame_payload :: "(string, json) pydict \<Rightarrow> (string, json) pydict" where
  "frame_payload d = (case obj_get d ''payload'' JNull of JObj payload \<Rightarrow> payload | _ \<Rightarrow> [])"

definition handle_incoming ::
    "('w, 'n) ws_env \<Rightarrow> ws_message \<Rightarrow> (('w, 'n) ws_client, ws_error + unit) state" where
  "handle_incoming env raw =
     (case raw of
        Parsed (JObj d) \<Rightarrow>
          (let msg_type = obj_get d ''type'' JNull; payload = frame_payload d in
           if msg_type = JStr ''command'' then handle_command env payload
           else if msg_type = JStr ''config_update'' then on_link (handle_config_update env payload)
           else if msg_type = JStr ''ping'' then do {
             ok \<leftarrow> on_link (send_envelope env ''pong'' []);
             State_Monad.return (if ok then Inr () else Inl ConnectionLost)
           }
           else State_Monad.return (Inr ()))
      | _ \<Rightarrow> State_Monad.return (Inr ()))"

subsection \<open>Connections\<close>

datatype ws_turn = Frame ws_message | AckWorker | EngineTurn engine_input

fun take_turn :: "('w, 'n) ws_env \<Rightarrow> ws_turn \<Rightarrow> (('w, 'n) ws_client, ws_error + unit) state" where
  "take_turn env (Frame raw) = handle_incoming env raw"
| "take_turn env AckWorker = do {
     modify (worker_step (publish_command_ack_sync env));
     State_Monad.return (Inr ())
   }"
| "take_turn env (EngineTurn x) = do {
     on_link (modify (\<lambda>l. l\<lparr>lk_processor := engine_step (we_proc env) x (lk_processor l)\<rparr>));
     State_Monad.return (Inr ())
   }"

text \<open>One connection: whether it opens, the answer to the handshake, and the turns until it closes.\<close>

record connection =
  cn_opens :: bool
  cn_reply :: "ws_message option"
  cn_turns :: "ws_turn list"

definition set_open :: "bool \<Rightarrow> (('w, 'n) ws_client, unit) state" where
  "set_open b = on_link (modify (\<lambda>l. l\<lparr>lk_open := b\<rparr>))"

definition run_connection ::
    "('w, 'n) ws_env \<Rightarrow> connection \<Rightarrow> (('w, 'n) ws_client, ws_error + unit) state" where
  "run_connection env cn =
     (if \<not> cn_opens cn then State_Monad.return (Inl ConnectionLost)
      else do {
        set_open True;
        r \<leftarrow> on_link (authenticate env (cn_reply cn));
        r1 \<leftarrow> (case r of Inl e \<Rightarrow> State_Monad.return (Inl e) | Inr _ \<Rightarrow> on_link (run_catchup env));
        r2 \<leftarrow> (case r1 of Inl e \<Rightarrow> State_Monad.return (Inl e) | Inr _ \<Rightarrow> each_ok (cn_turns cn) (take_turn env));
        set_open False;
        State_Monad.return r2
      })"

subsection \<open>Reconnecting\<close>

text \<open>
  \<open>base * (2 ** attempt)\<close> is a float times an integer, which is converted to a float: that raises
  \<open>OverflowError\<close> from \<open>2 ** 1024\<close> on. \<open>random.uniform(0, capped)\<close> is a fraction of \<open>capped\<close>.
\<close>

definition next_backoff_delay :: "('w, 'n) ws_env \<Rightarrow> nat \<Rightarrow> (('w, 'n) link, py_error + real) state" where
  "next_backoff_delay env tries =
     (if 1024 \<le> tries then State_Monad.return (Inl OverflowError)
      else do {
        let uncapped = we_reconnect_base_seconds env * 2 ^ tries;
        let capped = min (we_reconnect_cap_seconds env) uncapped;
        u \<leftarrow> on_net (we_jitter env);
        State_Monad.return (Inr (0 + (capped - 0) * u))
      })"

text \<open>
  The loop over a script of attempts; each says whether the stop event is set when the loop tests
  it before and after the connection. \<open>StillRunning\<close> is the loop where the script ends.
\<close>

datatype loop_end = Stopped | Crashed py_error | StillRunning

record attempt_script =
  as_stop_before :: bool
  as_connection :: connection
  as_stop_after :: bool

fun connect_loop ::
    "('w, 'n) ws_env \<Rightarrow> attempt_script list \<Rightarrow> nat \<Rightarrow> (('w, 'n) ws_client, loop_end) state" where
  "connect_loop env [] n = State_Monad.return StillRunning"
| "connect_loop env (a # rest) n =
     (if as_stop_before a then State_Monad.return Stopped
      else do {
        _ \<leftarrow> run_connection env (as_connection a);
        if as_stop_after a then State_Monad.return Stopped
        else do {
          delay \<leftarrow> on_link (next_backoff_delay env n);
          (case delay of
             Inl e \<Rightarrow> State_Monad.return (Crashed e)
           | Inr _ \<Rightarrow> connect_loop env rest (n + 1))
        }
      })"


subsection \<open>What a connection does to the engine\<close>

text \<open>
  An activity that drives the engine: each of its items changes the processor as a sequence of
  engine inputs does, and it stops at the first error.
\<close>

locale drives_engine =
  fixes env :: "'w proc_env" and engine :: "'s \<Rightarrow> 'w processor"
    and act :: "'a \<Rightarrow> ('s, 'e + unit) state" and inputs :: "'a \<Rightarrow> engine_input list"
  assumes drives: "engine (snd (run_state (act x) s)) = engine_run env (inputs x) (engine s)"
begin

lemma each: "\<exists>ran. prefix ran xs \<and>
    engine (snd (run_state (each_ok xs act) s)) = engine_run env (concat (map inputs ran)) (engine s) \<and>
    (fst (run_state (each_ok xs act) s) = Inr () \<longrightarrow> ran = xs)"
proof (induction xs arbitrary: s)
  case Nil
  show ?case by (simp add: engine_run_def)
next
  case (Cons x xs)
  obtain r s1 where r: "run_state (act x) s = (r, s1)" by fastforce
  with drives [of x s] have e1: "engine s1 = engine_run env (inputs x) (engine s)" by simp
  show ?case
  proof (cases r)
    case (Inl e)
    with r e1 show ?thesis by (intro exI [of _ "[x]"]) (simp add: engine_run_def)
  next
    case (Inr u)
    from Cons.IH [of s1] obtain ran where "prefix ran xs"
      "engine (snd (run_state (each_ok xs act) s1)) = engine_run env (concat (map inputs ran)) (engine s1)"
      "fst (run_state (each_ok xs act) s1) = Inr () \<longrightarrow> ran = xs" by blast
    with r e1 Inr show ?thesis by (intro exI [of _ "x # ran"]) (simp add: engine_run_def)
  qed
qed

end

lemma keeps_case_sum [keeps_intros]:
  "(\<And>a. x = Inl a \<Longrightarrow> keeps I (f a)) \<Longrightarrow> (\<And>b. x = Inr b \<Longrightarrow> keeps I (g b)) \<Longrightarrow>
   keeps I (case x of Inl a \<Rightarrow> f a | Inr b \<Rightarrow> g b)"
  by (cases x) auto

abbreviation same_engine :: "'w processor \<Rightarrow> ('w, 'n) link \<Rightarrow> bool" where
  "same_engine p \<equiv> (\<lambda>l. lk_processor l = p)"

lemma keeps_on_net [keeps_intros]: "keeps (same_engine p) (on_net f)"
  unfolding on_net_def by (intro keeps_intros) simp

lemma keeps_send_frame [keeps_intros]: "keeps (same_engine p) (send_frame env frame)"
  unfolding send_frame_def by (intro keeps_intros) simp

lemma keeps_send_envelope [keeps_intros]: "keeps (same_engine p) (send_envelope env ty payload)"
  unfolding send_envelope_def by (intro keeps_intros)

lemma keeps_authenticate [keeps_intros]: "keeps (same_engine p) (authenticate env reply)"
  unfolding authenticate_def by (intro keeps_intros)

lemma keeps_config_update [keeps_intros]: "keeps (same_engine p) (handle_config_update env config)"
  unfolding handle_config_update_def by (intro keeps_intros)

lemma apply_command_engine:
  "lk_processor (snd (run_state (apply_command env c) l)) = engine_run env [CommandIn c] (lk_processor l)"
  by (simp add: apply_command_def on_processor_def engine_run_def)

lemma keeps_engine_eq: "keeps (same_engine (lk_processor l)) m \<Longrightarrow> lk_processor (snd (run_state m l)) = lk_processor l"
  by (simp add: keeps_def)

interpretation rest: drives_engine "we_proc env" lk_processor "apply_and_ack_via_rest env" "\<lambda>c. [CommandIn c]" for env
proof
  fix c and l :: "('a, 'b) link"
  obtain r l1 where r: "run_state (apply_command (we_proc env) c) l = (r, l1)" by fastforce
  have e1: "lk_processor l1 = engine_run (we_proc env) [CommandIn c] (lk_processor l)"
    using apply_command_engine [of "we_proc env" c l] r by simp
  have "keeps (same_engine (lk_processor l1)) (on_net f)" for f :: "'b \<Rightarrow> (py_error + bool) \<times> 'b"
    by (intro keeps_intros)
  from keeps_engine_eq [OF this] show "lk_processor (snd (run_state (apply_and_ack_via_rest env c) l)) =
      engine_run (we_proc env) [CommandIn c] (lk_processor l)"
    by (simp add: apply_and_ack_via_rest_def r e1 Let_def case_prod_beta split: sum.splits option.splits)
qed

abbreviation engine_of :: "('w, 'n) ws_client \<Rightarrow> 'w processor" where
  "engine_of c \<equiv> lk_processor (pb_world c)"

fun turn_inputs :: "ws_turn \<Rightarrow> engine_input list" where
  "turn_inputs (Frame (Parsed (JObj d))) =
     (if obj_get d ''type'' JNull = JStr ''command'' then [CommandIn (frame_payload d)] else [])"
| "turn_inputs (Frame _) = []"
| "turn_inputs AckWorker = []"
| "turn_inputs (EngineTurn x) = [x]"

lemma engine_on_link: "engine_of (snd (run_state (on_link m) c)) = lk_processor (snd (run_state m (pb_world c)))"
  by (simp add: on_link_def)

lemma fst_on_link: "fst (run_state (on_link m) c) = fst (run_state m (pb_world c))"
  by (simp add: on_link_def)

lemma submit_world: "pb_world (snd (submit p c)) = pb_world c"
  by (simp add: submit_def)

lemma publish_ack_engine: "lk_processor (snd (publish_command_ack_sync env payload l)) = lk_processor l"
proof -
  have "keeps (same_engine (lk_processor l)) (do {
     is_open \<leftarrow> gets lk_open;
     if \<not> is_open then State_Monad.return (Returned False)
     else do {
       closes \<leftarrow> on_net (we_gap env);
       whenM closes (modify (\<lambda>l. l\<lparr>lk_open := False\<rparr>));
       ok \<leftarrow> send_envelope env ''command_ack'' payload;
       State_Monad.return (Returned ok)
     }})" by (intro keeps_intros) simp
  from keeps_engine_eq [OF this] show ?thesis by (simp only: publish_command_ack_sync_def)
qed

lemma attempt_engine: "engine_of (snd (attempt (publish_command_ack_sync env) p c)) = engine_of c"
  using publish_ack_engine [of env p "pb_world c"] by (auto simp: attempt_def split: prod.splits)

lemma replay_engine: "engine_of (snd (replay (publish_command_ack_sync env) ps n c)) = engine_of c"
proof (induction ps arbitrary: n c)
  case (Cons p ps)
  obtain ok c1 where a: "attempt (publish_command_ack_sync env) p c = (ok, c1)" by fastforce
  with attempt_engine [of env p c] have "engine_of c1 = engine_of c" by simp
  with Cons a show ?case by simp
qed simp

lemma drain_engine: "engine_of (drain_spill_backlog (publish_command_ack_sync env) st c) = engine_of c"
  using replay_engine [of env "peek_batch SPILL_DRAIN_BATCH_SIZE st" 0 c]
  by (auto simp: drain_spill_backlog_def split: prod.splits)

lemma worker_engine: "engine_of (worker_step (publish_command_ack_sync env) c) = engine_of c"
proof (cases "pb_queue c")
  case (Cons p ps)
  obtain ok c1 where a: "attempt (publish_command_ack_sync env) p (c\<lparr>pb_queue := ps\<rparr>) = (ok, c1)" by fastforce
  with attempt_engine [of env p "c\<lparr>pb_queue := ps\<rparr>"] have "engine_of c1 = engine_of c" by simp
  with Cons a show ?thesis by (auto simp: worker_step_def drain_engine split: option.splits)
qed (simp add: worker_step_def)

lemma handle_command_engine:
  "engine_of (snd (run_state (handle_command env c) s)) = engine_run (we_proc env) [CommandIn c] (engine_of s)"
proof -
  obtain r l where r: "run_state (apply_command (we_proc env) c) (pb_world s) = (r, l)" by fastforce
  have e: "lk_processor l = engine_run (we_proc env) [CommandIn c] (engine_of s)"
    using apply_command_engine [of "we_proc env" c "pb_world s"] r by simp
  have "lk_processor (snd (run_state (on_net f) l)) = lk_processor l" for f :: "'b \<Rightarrow> real \<times> 'b"
    by (rule keeps_engine_eq) (intro keeps_intros)
  with r e show ?thesis
    by (auto simp: handle_command_def on_link_def submit_world Let_def case_prod_beta split: sum.splits)
qed

interpretation turns: drives_engine "we_proc env" engine_of "take_turn env" turn_inputs for env
proof
  fix x and c :: "('a, 'b) ws_client"
  have quiet: "keeps (same_engine (engine_of c)) m \<Longrightarrow> lk_processor (snd (run_state m (pb_world c))) = engine_of c"
    for m :: "(('a, 'b) link, 'c) state" by (rule keeps_engine_eq)
  have update: "lk_processor (snd (run_state (handle_config_update env d) (pb_world c))) = engine_of c" for d
    by (rule keeps_engine_eq) (intro keeps_intros)
  have pong: "lk_processor (snd (run_state (send_envelope env ty d) (pb_world c))) = engine_of c" for ty d
    by (rule keeps_engine_eq) (intro keeps_intros)
  show "engine_of (snd (run_state (take_turn env x) c)) = engine_run (we_proc env) (turn_inputs x) (engine_of c)"
    by (cases "(env, x)" rule: take_turn.cases)
      (auto simp: handle_incoming_def handle_command_engine engine_on_link update pong worker_engine engine_run_def
        Let_def case_prod_beta on_link_def split: ws_message.splits json.splits)
qed

definition accepted :: "connection \<Rightarrow> bool" where
  "accepted cn = (cn_opens cn \<and> (case cn_reply cn of Some (Parsed v) \<Rightarrow> auth_accepted v | _ \<Rightarrow> False))"

lemma authenticate_result:
  "fst (run_state (authenticate env reply) l) = Inr () \<Longrightarrow> (case reply of Some (Parsed v) \<Rightarrow> auth_accepted v | _ \<Rightarrow> False)"
  by (auto simp: authenticate_def case_prod_beta Let_def split: if_splits option.splits ws_message.splits)

lemma authenticate_engine: "lk_processor (snd (run_state (authenticate env reply) l)) = lk_processor l"
  by (rule keeps_engine_eq) (intro keeps_intros)

text \<open>The commands the catch-up poll of a connection brings.\<close>

definition caught_up :: "('w, 'n) ws_env \<Rightarrow> ('w, 'n) link \<Rightarrow> backend_command list" where
  "caught_up env l = (case we_catchup_poller env of
       None \<Rightarrow> []
     | Some po \<Rightarrow> (case fst (run_state (poll_commands (we_net env) po) (lk_net l)) of Inl _ \<Rightarrow> [] | Inr cs \<Rightarrow> cs))"

lemma catchup_engine:
  "\<exists>ran. prefix ran (caught_up env l) \<and>
    lk_processor (snd (run_state (run_catchup env) l)) = engine_run (we_proc env) (map CommandIn ran) (lk_processor l) \<and>
    (fst (run_state (run_catchup env) l) = Inr () \<longrightarrow> ran = caught_up env l)"
proof (cases "we_catchup_poller env")
  case None
  then show ?thesis by (simp add: run_catchup_def caught_up_def engine_run_def)
next
  case (Some po)
  obtain r n where r: "run_state (poll_commands (we_net env) po) (lk_net l) = (r, n)" by fastforce
  have map: "concat (map (\<lambda>c. [CommandIn c]) cs) = map CommandIn cs" for cs by (induction cs) simp_all
  show ?thesis
  proof (cases r)
    case (Inl e)
    with Some r show ?thesis by (simp add: run_catchup_def caught_up_def engine_run_def on_net_def)
  next
    case (Inr cs)
    have "run_state (run_catchup env) l = run_state (each_ok cs (apply_and_ack_via_rest env)) (l\<lparr>lk_net := n\<rparr>)"
      using Some r Inr by (simp add: run_catchup_def on_net_def)
    with rest.each [of cs env "l\<lparr>lk_net := n\<rparr>"] Some r Inr show ?thesis by (simp add: map caught_up_def)
  qed
qed


lemma run_set_open: "run_state (set_open b) c = ((), c\<lparr>pb_world := (pb_world c)\<lparr>lk_open := b\<rparr>\<rparr>)"
  by (simp add: set_open_def on_link_def)

lemma run_on_link: "run_state (on_link m) c =
    (fst (run_state m (pb_world c)), c\<lparr>pb_world := snd (run_state m (pb_world c))\<rparr>)"
  by (simp add: on_link_def)

lemma next_delay_result:
  "fst (run_state (next_backoff_delay env tries) l) = Inl e \<longleftrightarrow> 1024 \<le> tries \<and> e = OverflowError"
  by (auto simp: next_backoff_delay_def Let_def case_prod_beta)

lemma connect_loop_result:
  assumes "\<And>a. a \<in> set script \<Longrightarrow> \<not> as_stop_before a \<and> \<not> as_stop_after a" and "tries \<le> 1024"
  shows "fst (run_state (connect_loop env script tries) c) =
    (if tries + length script \<le> 1024 then StillRunning else Crashed OverflowError)"
  using assms
proof (induction script arbitrary: tries c)
  case (Cons a rest)
  obtain r c1 where r: "run_state (run_connection env (as_connection a)) c = (r, c1)" by fastforce
  obtain d l where d: "run_state (next_backoff_delay env tries) (pb_world c1) = (d, l)" by fastforce
  have go: "\<not> as_stop_before a" "\<not> as_stop_after a" using Cons.prems by auto
  show ?case
  proof (cases "tries = 1024")
    case True
    then have "d = Inl OverflowError" using d by (simp add: next_backoff_delay_def)
    with r d go True show ?thesis by (simp add: run_on_link)
  next
    case False
    then have "tries < 1024" using Cons.prems(2) by simp
    then obtain x where "d = Inr x"
      using next_delay_result [of env tries "pb_world c1"] d by (cases d) auto
    with r d go Cons.IH [of "tries + 1" "c1\<lparr>pb_world := l\<rparr>"] Cons.prems False show ?thesis
      by (simp add: run_on_link)
  qed
qed simp

text \<open>
  C4: What a WebSocket connection does to the processor is what some sequence of engine inputs does:
  first the commands of the catch-up poll, then the command frames and the turns of the rest of
  the engine, each once and in their order, up to the first error; all of them when the
  connection ends without one, and none unless the handshake was accepted.
\<close>
theorem connection_drives_engine:
  "let polled = caught_up env (snd (run_state (authenticate env (cn_reply cn)) ((pb_world c)\<lparr>lk_open := True\<rparr>)))
   in \<exists>commands turns. prefix commands polled \<and> prefix turns (cn_turns cn) \<and>
     engine_of (snd (run_state (run_connection env cn) c)) =
       engine_run (we_proc env) (map CommandIn commands @ concat (map turn_inputs turns)) (engine_of c) \<and>
     (commands = [] \<and> turns = [] \<or> accepted cn) \<and>
     (fst (run_state (run_connection env cn) c) = Inr () \<longrightarrow> commands = polled \<and> turns = cn_turns cn)"
proof (cases "cn_opens cn")
  case False
  then show ?thesis
    by (intro exI [of _ "[]"] conjI | simp add: run_connection_def engine_run_def Let_def)+
next
  case True
  let ?l0 = "(pb_world c)\<lparr>lk_open := True\<rparr>"
  obtain r l1 where auth: "run_state (authenticate env (cn_reply cn)) ?l0 = (r, l1)" by fastforce
  have l1: "lk_processor l1 = engine_of c" using authenticate_engine [of env "cn_reply cn" ?l0] auth by simp
  show ?thesis
  proof (cases r)
    case (Inl e)
    with True auth l1 show ?thesis unfolding Let_def
      by (intro exI [of _ "[]"] conjI | simp add: run_connection_def run_set_open run_on_link engine_run_def)+
  next
    case (Inr u)
    then have acc: "accepted cn" using authenticate_result [of env "cn_reply cn" ?l0] auth True
      by (simp add: accepted_def)
    obtain r1 l2 where catch: "run_state (run_catchup env) l1 = (r1, l2)" by fastforce
    obtain cs where cs: "prefix cs (caught_up env l1)"
      "lk_processor l2 = engine_run (we_proc env) (map CommandIn cs) (engine_of c)"
      "r1 = Inr () \<longrightarrow> cs = caught_up env l1"
      using catchup_engine [of env l1] catch l1 by auto
    show ?thesis
    proof (cases r1)
      case (Inl e)
      with True auth Inr catch cs acc show ?thesis unfolding Let_def
        by (intro exI [of _ cs] exI [of _ "[]"]) (simp add: run_connection_def run_set_open run_on_link)
    next
      case (Inr v)
      let ?c2 = "c\<lparr>pb_world := l2\<rparr>"
      obtain r2 c3 where turns: "run_state (each_ok (cn_turns cn) (take_turn env)) ?c2 = (r2, c3)" by fastforce
      from turns.each [of "cn_turns cn" env ?c2] turns obtain ts where ts: "prefix ts (cn_turns cn)"
        "engine_of c3 = engine_run (we_proc env) (concat (map turn_inputs ts)) (lk_processor l2)"
        "r2 = Inr () \<longrightarrow> ts = cn_turns cn" by auto
      from True auth \<open>r = Inr u\<close> Inr catch cs acc turns ts show ?thesis unfolding Let_def
        by (intro exI [of _ cs] exI [of _ ts])
          (simp add: run_connection_def run_set_open run_on_link engine_run_def)
    qed
  qed
qed

text \<open>
  C21: The client never resets its count of attempts, however long a connection lasted: the 1025th
  wait of its life raises \<open>OverflowError\<close> outside the handler, and the thread that delivers
  commands ends for good. Up to then it always goes on.
\<close>
theorem ws_client_gives_up:
  assumes "\<And>a. a \<in> set script \<Longrightarrow> \<not> as_stop_before a \<and> \<not> as_stop_after a"
  shows "fst (run_state (connect_loop env script 0) c) =
    (if length script \<le> 1024 then StillRunning else Crashed OverflowError)"
  by (subst connect_loop_result) (use assms in simp_all)

text \<open>
  The wait before the next attempt is never negative, never above the cap, and at most the
  base doubled once per attempt made.
\<close>
theorem backoff_bounded:
  assumes "(we_reconnect_base_seconds env, we_reconnect_cap_seconds env) = ws_bounds base cap"
    and "\<And>n. 0 \<le> fst (we_jitter env n) \<and> fst (we_jitter env n) \<le> 1" and "tries < 1024"
  shows "\<exists>d l'. run_state (next_backoff_delay env tries) l = (Inr d, l') \<and> 0 \<le> d \<and>
    d \<le> we_reconnect_cap_seconds env \<and> d \<le> we_reconnect_base_seconds env * 2 ^ tries"
proof -
  let ?b = "we_reconnect_base_seconds env" and ?c = "we_reconnect_cap_seconds env"
  let ?m = "min ?c (?b * 2 ^ tries)" and ?u = "fst (we_jitter env (lk_net l))"
  have "0 < ?b" "?b \<le> ?c" using assms(1) by (auto simp: ws_bounds_def)
  then have m: "0 \<le> ?m" by simp
  have "?m * ?u \<le> ?m" using mult_left_le [of ?u ?m] m assms(2) by blast
  then have "?m * ?u \<le> ?c" "?m * ?u \<le> ?b * 2 ^ tries" by linarith+
  moreover have "0 \<le> ?m * ?u" using m assms(2) by simp
  moreover have "run_state (next_backoff_delay env tries) l = (Inr (?m * ?u), snd (run_state (on_net (we_jitter env)) l))"
    using assms(3) by (simp add: next_backoff_delay_def on_net_def case_prod_beta Let_def)
  ultimately show ?thesis by blast
qed


subsection \<open>A client\<close>

definition sample_net :: "unit net" where
  "sample_net = \<lparr>net_time = Pair 0, net_stamp = Pair ''0'', net_nonce = Pair ''n'',
     net_send = (\<lambda>_. Pair Unreached), net_sha256 = id, net_hmac = (\<lambda>k s. k @ s), net_float_repr = (\<lambda>_. ''0.0'')\<rparr>"

definition sample_ws_env :: "(sim_world, unit) ws_env" where
  "sample_ws_env = \<lparr>we_proc = sample_env, we_net = sample_net, we_signer = \<lparr>sg_secret = ''s'', sg_engine_id = None\<rparr>,
     we_config_update = None, we_catchup_poller = None, we_catchup_ack_endpoint_url = None,
     we_uuid = Pair ''u'', we_send = (\<lambda>_. Pair True), we_gap = Pair True, we_jitter = Pair (1 / 2),
     we_reconnect_base_seconds = 1, we_reconnect_cap_seconds = 60\<rparr>"

definition sample_link :: "(sim_world, unit) link" where
  "sample_link = \<lparr>lk_processor = sample_processor, lk_net = (), lk_open = True, lk_sent = []\<rparr>"

definition command_frame :: "backend_command \<Rightarrow> ws_turn" where
  "command_frame c = Frame (Parsed (JObj [(''type'', JStr ''command''), (''payload'', JObj c)]))"

theorem connection_drives_engine_witness:
  "engine_of (snd (run_state (run_connection sample_ws_env
     \<lparr>cn_opens = True, cn_reply = None, cn_turns = [command_frame watch_command]\<rparr>)
     (ws_client_init 4 sample_link))) = sample_processor"
  using connection_drives_engine [of sample_ws_env
      "\<lparr>cn_opens = True, cn_reply = None, cn_turns = [command_frame watch_command]\<rparr>" "ws_client_init 4 sample_link"]
  by (auto simp: accepted_def engine_run_def ws_client_init_def publisher_init_def sample_link_def)

theorem ws_client_gives_up_witness:
  "fst (run_state (connect_loop sample_ws_env (replicate 1025
     \<lparr>as_stop_before = False, as_connection = \<lparr>cn_opens = True, cn_reply = None, cn_turns = []\<rparr>,
       as_stop_after = False\<rparr>) 0) (ws_client_init 4 sample_link)) = Crashed OverflowError"
  by (subst ws_client_gives_up) simp_all

theorem backoff_bounded_witness:
  "\<exists>d l'. run_state (next_backoff_delay sample_ws_env 3) sample_link = (Inr d, l') \<and> 0 \<le> d \<and> d \<le> 60 \<and> d \<le> 8"
proof -
  have "(we_reconnect_base_seconds sample_ws_env, we_reconnect_cap_seconds sample_ws_env) = ws_bounds 1 60"
    "0 \<le> fst (we_jitter sample_ws_env n) \<and> fst (we_jitter sample_ws_env n) \<le> 1" "(3::nat) < 1024" for n
    by (simp_all add: sample_ws_env_def ws_bounds_def)
  from backoff_bounded [OF this] show ?thesis by (simp add: sample_ws_env_def)
qed

text \<open>
  An acknowledgement can be lost for good while its publisher counts it as delivered: when the
  connection closes between the check of the publishing thread and that of the sending
  coroutine, nothing is written and the publication is confirmed.
\<close>
theorem ack_confirmed_unsent:
  assumes "lk_open l" and "fst (we_gap env (lk_net l))"
  shows "case publish_command_ack_sync env payload l of (r, l') \<Rightarrow> r = Returned True \<and> lk_sent l' = lk_sent l"
  using assms by (simp add: publish_command_ack_sync_def send_envelope_def on_net_def case_prod_beta)

theorem ack_confirmed_unsent_witness:
  "case publish_command_ack_sync sample_ws_env [] sample_link of (r, l') \<Rightarrow> r = Returned True \<and> lk_sent l' = []"
  using ack_confirmed_unsent [of sample_link sample_ws_env "[]"] by (simp add: sample_link_def sample_ws_env_def)

end
