(* ===== verification/Registration.thy ===== *)
theory Registration
  imports Http
begin

text \<open>
  Browser registration of an engine: the loopback server that receives the approved credential
  (\<open>packet_capture/registration/registration_server.py\<close>) and the flow around it
  (\<open>registration_client.py\<close>). The requests the server gets and the firing of its timer are a
  list of events; the flow waits until the server is done or the list ends, which is the timeout
  of the waiting call. Opening the browser has no effect that the code reads.
\<close>

subsection \<open>The loopback server\<close>

record reg_server =
  rg_registration_id :: string
  rg_result :: "(string, json) pydict option"
  rg_done :: bool
  rg_timer_armed :: bool
  rg_shutdown_started :: bool

definition reg_server_init :: "string \<Rightarrow> reg_server" where
  "reg_server_init registration_id = \<lparr>rg_registration_id = registration_id, rg_result = None,
     rg_done = False, rg_timer_armed = False, rg_shutdown_started = False\<rparr>"

definition reg_start :: "reg_server \<Rightarrow> reg_server" where
  "reg_start srv = srv\<lparr>rg_timer_armed := True\<rparr>"

definition reg_shutdown :: "reg_server \<Rightarrow> reg_server" where
  "reg_shutdown srv =
     (if rg_shutdown_started srv then srv
      else srv\<lparr>rg_shutdown_started := True, rg_timer_armed := False\<rparr>)"

definition on_timeout :: "reg_server \<Rightarrow> reg_server" where
  "on_timeout srv = (if rg_done srv then srv else reg_shutdown (srv\<lparr>rg_done := True\<rparr>))"

text \<open>\<open>po_json n\<close> is what decoding and parsing the first \<open>n\<close> bytes of the body give.\<close>

record post =
  po_path :: string
  po_content_length :: "string option"
  po_json :: "nat \<Rightarrow> json option"

text \<open>\<open>NoReply\<close>: the handler raises, and the connection closes without a response.\<close>

datatype reply = Status int | NoReply

definition completion_path :: "string \<Rightarrow> bool" where
  "completion_path path = (rstrip_char (CHR ''/'') (fst (split_at (CHR ''?'') path)) = ''/complete'')"

definition content_length :: "post \<Rightarrow> int option" where
  "content_length rq =
     (let v = (case po_content_length rq of None \<Rightarrow> ''0'' | Some s \<Rightarrow> s)
      in py_int_of_str (if v = [] then ''0'' else v))"

definition posted :: "post \<Rightarrow> int \<Rightarrow> (string, json) pydict option" where
  "posted rq n =
     (if n \<le> 0 then None
      else case po_json rq (nat n) of Some (JObj d) \<Rightarrow> Some d | _ \<Rightarrow> None)"

definition do_OPTIONS :: "reg_server \<Rightarrow> reply \<times> reg_server" where
  "do_OPTIONS srv = (Status 204, srv)"

definition do_POST :: "post \<Rightarrow> reg_server \<Rightarrow> reply \<times> reg_server" where
  "do_POST rq srv =
     (if \<not> completion_path (po_path rq) then (Status 404, srv)
      else case content_length rq of
        None \<Rightarrow> (NoReply, srv)
      | Some n \<Rightarrow> (case posted rq n of
          None \<Rightarrow> (Status 403, srv)
        | Some payload \<Rightarrow>
            if obj_get payload ''registration_id'' JNull \<noteq> JStr (rg_registration_id srv) then (Status 403, srv)
            else (Status 200, reg_shutdown (srv\<lparr>rg_result := Some payload, rg_done := True\<rparr>))))"

datatype reg_event = Post post | Options | TimerFires

fun reg_step :: "reg_event \<Rightarrow> reg_server \<Rightarrow> reg_server" where
  "reg_step (Post rq) srv = snd (do_POST rq srv)"
| "reg_step Options srv = snd (do_OPTIONS srv)"
| "reg_step TimerFires srv = (if rg_timer_armed srv then on_timeout srv else srv)"

text \<open>The waiting call: it returns at the first event after which the server is done.\<close>

fun wait_for_completion :: "reg_event list \<Rightarrow> reg_server \<Rightarrow> (string, json) pydict option \<times> reg_server" where
  "wait_for_completion [] srv = (rg_result srv, srv)"
| "wait_for_completion (ev # evs) srv =
     (if rg_done srv then (rg_result srv, srv) else wait_for_completion evs (reg_step ev srv))"

subsection \<open>The flow\<close>

definition ENGINE_VERSION :: string where "ENGINE_VERSION = ''0.1.0''"
definition DEFAULT_HEARTBEAT_INTERVAL_SECONDS :: int where "DEFAULT_HEARTBEAT_INTERVAL_SECONDS = 30"
definition DEFAULT_BACKEND_URL :: string where "DEFAULT_BACKEND_URL = ''http://127.0.0.1:3100''"

definition base_url :: "string option \<Rightarrow> string option \<Rightarrow> string \<Rightarrow> string" where
  "base_url given env dflt =
     rstrip_char (CHR ''/'') (strip
       (case given of Some u \<Rightarrow> if u \<noteq> [] then u else (case env of None \<Rightarrow> dflt | Some v \<Rightarrow> v)
        | None \<Rightarrow> (case env of None \<Rightarrow> dflt | Some v \<Rightarrow> v)))"

text \<open>
  What the flow reads: the network, \<open>token_urlsafe\<close>, the host's name and system, whether the
  loopback address can be bound and the configuration file written, and the events at the server.
\<close>

record 'n reg_env =
  re_net :: "'n net"
  re_environ :: environ
  re_token :: "'n \<Rightarrow> string \<times> 'n"
  re_hostname :: string
  re_os_name :: string
  re_binds :: bool
  re_writable :: bool
  re_repr :: "json \<Rightarrow> string"
  re_events :: "string \<Rightarrow> reg_event list"

definition post_register_init :: "'n reg_env \<Rightarrow> string \<Rightarrow> string \<Rightarrow> ('n, py_error + bool) state" where
  "post_register_init env backend_url registration_id =
     post_json (re_net env) (backend_url @ ''/api/v1/engines/register/init'') None
       (JObj [(''registrationId'', JStr registration_id), (''hostname'', JStr (re_hostname env)),
         (''osName'', JStr (re_os_name env)), (''version'', JStr ENGINE_VERSION)])"

definition heartbeat_interval :: "(string, json) pydict \<Rightarrow> py_error + int" where
  "heartbeat_interval result =
     (case py_int (obj_get result ''heartbeat_interval_seconds'' (JInt DEFAULT_HEARTBEAT_INTERVAL_SECONDS)) of
        Inl ValueError \<Rightarrow> Inr DEFAULT_HEARTBEAT_INTERVAL_SECONDS
      | Inl TypeError \<Rightarrow> Inr DEFAULT_HEARTBEAT_INTERVAL_SECONDS
      | r \<Rightarrow> r)"

definition result_text :: "'n reg_env \<Rightarrow> (string, json) pydict \<Rightarrow> string \<Rightarrow> string" where
  "result_text env result k = strip (py_str (re_repr env) (obj_get result k (JStr [])))"

definition resolved_backend_url :: "'n reg_env \<Rightarrow> (string, json) pydict \<Rightarrow> string \<Rightarrow> string" where
  "resolved_backend_url env result fallback_backend_url =
     (let v = obj_get result ''backend_url'' JNull
      in strip (if truthy v then py_str (re_repr env) v else fallback_backend_url))"

text \<open>The outcome with the configuration file after it.\<close>

definition persist_result ::
    "'n reg_env \<Rightarrow> (string, json) pydict \<Rightarrow> string \<Rightarrow> config_file \<Rightarrow>
     (py_error + (string, json) pydict option) \<times> config_file" where
  "persist_result env result fallback_backend_url file =
     (let engine_id = result_text env result ''engine_id'';
          engine_secret = result_text env result ''engine_secret''
      in if engine_id = [] \<or> engine_secret = [] then (Inr None, file)
         else case heartbeat_interval result of
           Inl e \<Rightarrow> (Inl e, file)
         | Inr heartbeat_interval_seconds \<Rightarrow>
             if \<not> re_writable env then (Inl OSError, file)
             else
               (let file' = config_save engine_id engine_secret
                      (resolved_backend_url env result fallback_backend_url) heartbeat_interval_seconds
                in (config_load file', file')))"

text \<open>The constructor of the server binds the address, before the handler for \<open>OSError\<close>.\<close>

definition run_registration ::
    "'n reg_env \<Rightarrow> string option \<Rightarrow> config_file \<Rightarrow>
     ('n, (py_error + (string, json) pydict option) \<times> config_file) state" where
  "run_registration env backend file = do {
     let backend_url = base_url backend (re_environ env ''SMARTIDS_BACKEND_BASE_URL'') DEFAULT_BACKEND_URL;
     registration_id \<leftarrow> State (re_token env);
     if \<not> re_binds env then State_Monad.return (Inl OSError, file)
     else do {
       let srv = reg_start (reg_server_init registration_id);
       ready \<leftarrow> post_register_init env backend_url registration_id;
       State_Monad.return
         (case ready of
            Inl e \<Rightarrow> (Inl e, file)
          | Inr False \<Rightarrow> (Inr None, file)
          | Inr True \<Rightarrow> (case fst (wait_for_completion (re_events env registration_id) srv) of
              None \<Rightarrow> (Inr None, file)
            | Some result \<Rightarrow>
                if result = [] then (Inr None, file)
                else persist_result env result backend_url file))
     }
   }"


subsection \<open>Who can complete a registration\<close>

text \<open>A request that the server \<open>srv\<close> accepts with the given payload.\<close>

definition completes :: "string \<Rightarrow> (string, json) pydict \<Rightarrow> post \<Rightarrow> bool" where
  "completes registration_id payload rq \<longleftrightarrow> completion_path (po_path rq) \<and>
     (\<exists>n. content_length rq = Some n \<and> posted rq n = Some payload) \<and>
     obj_get payload ''registration_id'' JNull = JStr registration_id"

lemma reg_step_id: "rg_registration_id (reg_step ev srv) = rg_registration_id srv"
  by (cases ev) (auto simp: do_POST_def do_OPTIONS_def on_timeout_def reg_shutdown_def split: option.splits)

lemma reg_step_result:
  assumes "rg_result (reg_step ev srv) = Some d"
  shows "rg_result srv = Some d \<or> (\<exists>rq. ev = Post rq \<and> completes (rg_registration_id srv) d rq)"
  using assms
  by (cases ev) (auto simp: do_POST_def do_OPTIONS_def on_timeout_def reg_shutdown_def completes_def
      split: option.splits if_splits)

lemma wait_result:
  assumes "fst (wait_for_completion evs srv) = Some d"
  shows "rg_result srv = Some d \<or> (\<exists>rq. Post rq \<in> set evs \<and> completes (rg_registration_id srv) d rq)"
  using assms
proof (induction evs srv rule: wait_for_completion.induct)
  case (2 ev evs srv)
  show ?case
  proof (cases "rg_done srv")
    case False
    with 2 reg_step_result [of ev srv d] show ?thesis by (auto simp: reg_step_id)
  qed (use 2 in simp)
qed simp

lemma config_round_trip: "config_load (config_save engine_id engine_secret url n) =
    Inr (Some [(''engine_id'', JStr engine_id), (''engine_secret'', JStr engine_secret),
      (''backend_url'', JStr url), (''heartbeat_interval_seconds'', JInt n)])"
  by (simp add: config_load_def config_save_def REQUIRED_FIELDS_def)

lemma persist_cases:
  assumes "persist_result env result url file = (r, file')"
  shows "case r of
      Inr (Some cfg) \<Rightarrow> file' = ConfigJson (JObj cfg) \<and> result_text env result ''engine_id'' \<noteq> [] \<and>
        result_text env result ''engine_secret'' \<noteq> [] \<and>
        obj_get cfg ''engine_id'' JNull = JStr (result_text env result ''engine_id'') \<and>
        obj_get cfg ''engine_secret'' JNull = JStr (result_text env result ''engine_secret'')
    | _ \<Rightarrow> file' = file"
proof -
  have "config_save a b c n = ConfigJson (JObj [(''engine_id'', JStr a), (''engine_secret'', JStr b),
      (''backend_url'', JStr c), (''heartbeat_interval_seconds'', JInt n)])" for a b c n
    by (simp add: config_save_def)
  with assms config_round_trip show ?thesis
    by (auto simp: persist_result_def Let_def obj_get_def split: if_splits sum.splits)
qed

text \<open>
  C5: The saved credential changes only through an approval meant for this registration. Whatever
  requests reach the loopback server: when the flow returns a configuration, some request to
  \<open>/complete\<close> carried the identifier this flow drew, the configuration and the saved file hold
  the engine id and the secret of that very request, neither empty, and the next start reads them
  back; in every other outcome, exceptions included, the file is untouched.
\<close>
theorem registration_authenticated:
  "case fst (run_state (run_registration env backend file) n) of
     (Inr (Some cfg), file') \<Rightarrow> \<exists>rq payload.
        Post rq \<in> set (re_events env (fst (re_token env n))) \<and> completes (fst (re_token env n)) payload rq \<and>
        result_text env payload ''engine_id'' \<noteq> [] \<and> result_text env payload ''engine_secret'' \<noteq> [] \<and>
        obj_get cfg ''engine_id'' JNull = JStr (result_text env payload ''engine_id'') \<and>
        obj_get cfg ''engine_secret'' JNull = JStr (result_text env payload ''engine_secret'') \<and>
        config_load file' = Inr (Some cfg)
   | (_, file') \<Rightarrow> file' = file"
proof -
  obtain tok n1 where tok: "re_token env n = (tok, n1)" by fastforce
  let ?url = "base_url backend (re_environ env ''SMARTIDS_BACKEND_BASE_URL'') DEFAULT_BACKEND_URL"
  obtain ready n2 where ready: "run_state (post_register_init env ?url tok) n1 = (ready, n2)" by fastforce
  let ?w = "fst (wait_for_completion (re_events env tok) (reg_start (reg_server_init tok)))"
  show ?thesis
  proof (cases "re_binds env \<and> ready = Inr True \<and> (\<exists>d. ?w = Some d \<and> d \<noteq> [])")
    case False
    with tok ready show ?thesis
      by (auto simp: run_registration_def Let_def split: sum.splits option.splits bool.splits)
  next
    case True
    then obtain d where d: "?w = Some d" "d \<noteq> []" by blast
    from wait_result [OF d(1)] obtain rq where rq: "Post rq \<in> set (re_events env tok)" "completes tok d rq"
      by (auto simp: reg_start_def reg_server_init_def)
    obtain r file' where p: "persist_result env d ?url file = (r, file')" by fastforce
    have "fst (run_state (run_registration env backend file) n) = (r, file')"
      using True d tok ready p by (simp add: run_registration_def Let_def)
    moreover have "config_load file' = Inr (Some cfg)" if "r = Inr (Some cfg)" for cfg
      using p that by (auto simp: persist_result_def Let_def split: if_splits sum.splits)
    ultimately show ?thesis using persist_cases [OF p] rq tok
      by (auto split: sum.splits option.splits)
  qed
qed

end
