(* ===== verification/Service.thy ===== *)
theory Service
  imports Capture Realtime Registration
begin

text \<open>
  The service that puts the engine together (\<open>packet_capture/sniffer_service.py\<close>): the environment
  file, the choice of the credential, the settings, the way commands are delivered, and the
  bodies of its loops, each as a list of rounds, and at the end the running service, whose threads
  take turns.
\<close>

subsection \<open>The environment\<close>

text \<open>\<open>str.splitlines\<close> on the characters up to 255; a carriage return and line feed are one break.\<close>

definition line_break :: "char \<Rightarrow> bool" where
  "line_break c = ((of_char c :: nat) \<in> {10, 11, 12, 13, 28, 29, 30, 133})"

fun splitlines_from :: "string \<Rightarrow> string \<Rightarrow> string list" where
  "splitlines_from line [] = (if line = [] then [] else [rev line])"
| "splitlines_from line (c # cs) =
     (if c = CHR 0x0D \<and> take 1 cs = [CHR 0x0A] then rev line # splitlines_from [] (drop 1 cs)
      else if line_break c then rev line # splitlines_from [] cs
      else splitlines_from (c # line) cs)"

definition splitlines :: "string \<Rightarrow> string list" where
  "splitlines s = splitlines_from [] s"

definition strip_char :: "char \<Rightarrow> string \<Rightarrow> string" where
  "strip_char c s = rstrip_char c (dropWhile (\<lambda>x. x = c) s)"

definition env_line :: "string \<Rightarrow> (string \<times> string) option" where
  "env_line raw_line =
     (let line = strip raw_line in
      if line = [] \<or> take 1 line = ''#'' \<or> CHR ''='' \<notin> set line then None
      else case split_at (CHR ''='') line of
        (k, v) \<Rightarrow> Some (strip k, strip_char (CHR 0x27) (strip_char (CHR 0x22) (strip v))))"

definition set_missing :: "string \<times> string \<Rightarrow> environ \<Rightarrow> environ" where
  "set_missing kv env = (case kv of (k, v) \<Rightarrow> if k \<noteq> [] \<and> env k = None then env(k \<mapsto> v) else env)"

text \<open>
  The text of \<open>.env\<close>, when the file exists. It is taken to be UTF-8 without null bytes, which
  \<open>os.environ\<close> refuses.
\<close>

definition load_project_env :: "string option \<Rightarrow> environ \<Rightarrow> environ" where
  "load_project_env env_file env =
     (case env_file of
        None \<Rightarrow> env
      | Some text \<Rightarrow> fold set_missing (List.map_filter env_line (splitlines text)) env)"

definition env_text :: "environ \<Rightarrow> string \<Rightarrow> string" where
  "env_text env k = strip (case env k of None \<Rightarrow> [] | Some v \<Rightarrow> v)"

definition env_flag :: "environ \<Rightarrow> string \<Rightarrow> bool" where
  "env_flag env k = (lower (env_text env k) \<in> {''1'', ''true'', ''yes'', ''on''})"

definition csv_env :: "environ \<Rightarrow> string \<Rightarrow> string list option" where
  "csv_env env k =
     (let raw = env_text env k in
      if raw = [] then None
      else Some (filter (\<lambda>item. item \<noteq> []) (map strip (split_on (CHR '','') raw))))"

definition csv_ports :: "environ \<Rightarrow> string \<Rightarrow> json list" where
  "csv_ports env k = map JStr (case csv_env env k of None \<Rightarrow> [] | Some ports \<Rightarrow> ports)"

subsection \<open>Settings\<close>

text \<open>\<open>max(bound, value)\<close> keeps the bound when the value is not greater, a NaN included.\<close>

definition float_at_least :: "real \<Rightarrow> pyfloat \<Rightarrow> pyfloat" where
  "float_at_least bound f = (case f of Fin x \<Rightarrow> Fin (max bound x) | PInf \<Rightarrow> PInf | _ \<Rightarrow> Fin bound)"

definition env_float :: "(string \<Rightarrow> pyfloat option) \<Rightarrow> environ \<Rightarrow> string \<Rightarrow> real \<Rightarrow> py_error + pyfloat" where
  "env_float float_of_str env k dflt =
     (case env k of
        None \<Rightarrow> Inr (Fin dflt)
      | Some s \<Rightarrow> (case float_of_str s of None \<Rightarrow> Inl ValueError | Some f \<Rightarrow> Inr f))"

definition env_int :: "environ \<Rightarrow> string \<Rightarrow> int \<Rightarrow> py_error + int" where
  "env_int env k dflt =
     (case env k of
        None \<Rightarrow> Inr dflt
      | Some s \<Rightarrow> (case py_int_of_str s of None \<Rightarrow> Inl ValueError | Some i \<Rightarrow> Inr i))"

datatype delivery = Websocket | Polling | NoDelivery

record settings =
  st_interface :: string
  st_packet_filter :: string
  st_internal_request_signer :: "signer option"
  st_poll_interval_seconds :: pyfloat
  st_telemetry_interval_seconds :: pyfloat
  st_capture_health_logging :: bool
  st_forwarder_queue_size :: int
  st_forwarder_drop_log_every :: int
  st_disk_spill_enabled :: bool
  st_disk_spill_max_entries :: int
  st_telemetry_forwarder :: "forwarder option"
  st_command_poller :: "poller option"
  st_delivery :: delivery
  st_alert_forwarder :: "forwarder option"
  st_event_forwarder :: "forwarder option"
  st_session_update_forwarder :: "forwarder option"
  st_block_event_forwarder :: "forwarder option"

record 'n boot =
  bt_env_file :: "string option"
  bt_environ :: environ
  bt_windows :: windows_list
  bt_if_list :: "string list"
  bt_repr :: "json \<Rightarrow> string"
  bt_float_of_str :: "string \<Rightarrow> pyfloat option"
  bt_net :: "'n net"
  bt_registration :: "'n reg_env"

datatype boot_error = Error py_error | NoInterface

definition and_then ::
    "('s, 'e + 'a) state \<Rightarrow> ('a \<Rightarrow> ('s, 'e + 'b) state) \<Rightarrow> ('s, 'e + 'b) state" where
  "and_then m f = do {
     r \<leftarrow> m;
     case r of Inl e \<Rightarrow> State_Monad.return (Inl e) | Inr x \<Rightarrow> f x
   }"

fun lift_error :: "py_error + 'a \<Rightarrow> boot_error + 'a" where
  "lift_error (Inl e) = Inl (Error e)"
| "lift_error (Inr x) = Inr x"

text \<open>The state is the network and the saved credential.\<close>

type_synonym ('n, 'a) booting = "('n \<times> config_file, boot_error + 'a) state"

definition load_config :: "('n, (string, json) pydict option) booting" where
  "load_config = gets (\<lambda>(n, file). lift_error (config_load file))"

text \<open>
  A secret that is no string has no \<open>encode\<close>. An engine id that is no string is given as the text
  the header gets.
\<close>

definition signer_of_config :: "(json \<Rightarrow> string) \<Rightarrow> (string, json) pydict \<Rightarrow> boot_error + signer" where
  "signer_of_config rep d =
     (case obj_get d ''engine_secret'' JNull of
        JStr secret \<Rightarrow>
          let v = obj_get d ''engine_id'' JNull
          in Inr \<lparr>sg_secret = secret, sg_engine_id = if truthy v then Some (py_str rep v) else None\<rparr>
      | _ \<Rightarrow> Inl (Error AttributeError))"

definition resolve_internal_request_signer :: "'n boot \<Rightarrow> string \<Rightarrow> ('n, signer option) booting" where
  "resolve_internal_request_signer bt internal_service_token =
     and_then load_config (\<lambda>config.
       case config of
         Some d \<Rightarrow> State_Monad.return (map_sum id Some (signer_of_config (bt_repr bt) d))
       | None \<Rightarrow>
           if internal_service_token \<noteq> [] then
             State_Monad.return (Inr (Some \<lparr>sg_secret = internal_service_token, sg_engine_id = None\<rparr>))
           else if \<not> env_flag (bt_environ bt) ''SMARTIDS_ENGINE_REGISTRATION_ENABLED'' then
             State_Monad.return (Inr None)
           else and_then
             (State (\<lambda>(n, file). case run_state (run_registration (bt_registration bt) None file) n of
                ((r, file'), n') \<Rightarrow> (lift_error r, (n', file'))))
             (\<lambda>registered. case registered of
                None \<Rightarrow> State_Monad.return (Inr None)
              | Some d \<Rightarrow> State_Monad.return (map_sum id Some (signer_of_config (bt_repr bt) d))))"

text \<open>\<open>backend_url.rstrip\<close> needs a string.\<close>

definition resolve_watch_ports :: "'n boot \<Rightarrow> signer option \<Rightarrow> ('n, json list) booting" where
  "resolve_watch_ports bt sg =
     (let watch_ports = csv_ports (bt_environ bt) ''SMARTIDS_CAPTURE_WATCH_PORTS''
      in and_then load_config (\<lambda>config.
        case (config, sg) of
          (Some d, Some s) \<Rightarrow>
            (case obj_get d ''backend_url'' JNull of
               JStr url \<Rightarrow> and_then
                 (State (\<lambda>(n, file). case run_state (fetch_capture_watch_port (bt_net bt) url s) n of
                    (r, n') \<Rightarrow> (lift_error r, (n', file))))
                 (\<lambda>remote_port. State_Monad.return (Inr (case remote_port of
                    None \<Rightarrow> watch_ports
                  | Some port \<Rightarrow> watch_ports @ [JStr (py_str (bt_repr bt) port)])))
             | _ \<Rightarrow> State_Monad.return (Inl (Error AttributeError)))
        | _ \<Rightarrow> State_Monad.return (Inr watch_ports)))"

definition resolve_packet_filter :: "'n boot \<Rightarrow> string option \<Rightarrow> signer option \<Rightarrow> ('n, string) booting" where
  "resolve_packet_filter bt packet_filter sg =
     (if packet_filter \<noteq> None \<and> packet_filter \<noteq> Some [] then State_Monad.return (Inr (the packet_filter))
      else and_then (resolve_watch_ports bt sg) (\<lambda>watch_ports.
        State_Monad.return (lift_error (build_capture_filter
          (csv_env (bt_environ bt) ''SMARTIDS_CAPTURE_WATCH_IPS'') watch_ports
          (csv_env (bt_environ bt) ''SMARTIDS_CAPTURE_EXCLUDE_IPS'')
          (csv_ports (bt_environ bt) ''SMARTIDS_CAPTURE_EXCLUDE_PORTS'')))))"

definition choose_interface :: "'n boot \<Rightarrow> string option \<Rightarrow> boot_error + string" where
  "choose_interface bt interface =
     (if interface \<noteq> None \<and> interface \<noteq> Some [] then Inr (the interface)
      else case resolve_interface (bt_repr bt) (bt_windows bt) (bt_if_list bt)
          (env_text (bt_environ bt) ''SMARTIDS_CAPTURE_INTERFACE'') of
        Inl e \<Rightarrow> Inl (Error e)
      | Inr None \<Rightarrow> Inl NoInterface
      | Inr (Some i) \<Rightarrow> Inr i)"

text \<open>A forwarder, or a poller, where its endpoint is configured.\<close>

definition endpoint_forwarder :: "environ \<Rightarrow> string \<Rightarrow> signer option \<Rightarrow> forwarder option" where
  "endpoint_forwarder env k sg =
     (let url = env_text env k in if url = [] then None else Some \<lparr>fo_endpoint_url = url, fo_signer = sg\<rparr>)"

definition command_delivery :: "bool \<Rightarrow> string \<Rightarrow> signer option \<Rightarrow> poller option \<Rightarrow> delivery" where
  "command_delivery engine_ws_enabled engine_ws_url sg po =
     (if engine_ws_enabled \<and> engine_ws_url \<noteq> [] \<and> sg \<noteq> None \<and> po \<noteq> None then Websocket
      else if po \<noteq> None then Polling else NoDelivery)"

text \<open>The rest of \<open>__init__\<close>, which reads the numbers, and the choice \<open>start\<close> makes between the command threads.\<close>

definition and_ok :: "'e + 'a \<Rightarrow> ('a \<Rightarrow> 'e + 'b) \<Rightarrow> 'e + 'b" where
  "and_ok r f = (case r of Inl e \<Rightarrow> Inl e | Inr x \<Rightarrow> f x)"

definition read_settings ::
    "(string \<Rightarrow> pyfloat option) \<Rightarrow> environ \<Rightarrow> string \<Rightarrow> signer option \<Rightarrow> string \<Rightarrow> py_error + settings" where
  "read_settings float_of_str env interface sg packet_filter =
     and_ok (env_float float_of_str env ''SMARTIDS_COMMANDS_POLL_INTERVAL_SECONDS'' (3 / 2)) (\<lambda>poll.
     and_ok (env_float float_of_str env ''SMARTIDS_ENGINE_TELEMETRY_INTERVAL_SECONDS'' 30) (\<lambda>telemetry_interval.
     and_ok (env_int env ''SMARTIDS_FORWARDER_QUEUE_SIZE'' 1024) (\<lambda>queue_size.
     and_ok (env_int env ''SMARTIDS_FORWARDER_DROP_LOG_EVERY'' 25) (\<lambda>drop_log_every.
     and_ok (env_int env ''SMARTIDS_DISK_SPILL_MAX_ENTRIES'' 2000) (\<lambda>spill_max.
       let url = env_text env ''SMARTIDS_COMMANDS_ENDPOINT'';
           po = (if url = [] then None else Some \<lparr>po_endpoint_url = url, po_signer = sg\<rparr>)
       in Inr \<lparr>st_interface = interface, st_packet_filter = packet_filter,
         st_internal_request_signer = sg,
         st_poll_interval_seconds = float_at_least (1 / 2) poll,
         st_telemetry_interval_seconds = float_at_least 5 telemetry_interval,
         st_capture_health_logging = env_flag env ''SMARTIDS_CAPTURE_HEALTH_LOG'',
         st_forwarder_queue_size = max 32 queue_size,
         st_forwarder_drop_log_every = max 1 drop_log_every,
         st_disk_spill_enabled = env_flag env ''SMARTIDS_DISK_SPILL_ENABLED'',
         st_disk_spill_max_entries = max 1 spill_max,
         st_telemetry_forwarder = endpoint_forwarder env ''SMARTIDS_ENGINE_TELEMETRY_ENDPOINT'' sg,
         st_command_poller = po,
         st_delivery = command_delivery (env_flag env ''SMARTIDS_ENGINE_WS_ENABLED'')
           (env_text env ''SMARTIDS_ENGINE_WS_URL'') sg po,
         st_alert_forwarder = endpoint_forwarder env ''SMARTIDS_ALERT_ENDPOINT'' sg,
         st_event_forwarder = endpoint_forwarder env ''SMARTIDS_IDS_EVENT_ENDPOINT'' sg,
         st_session_update_forwarder = endpoint_forwarder env ''SMARTIDS_SESSION_UPDATE_ENDPOINT'' sg,
         st_block_event_forwarder = endpoint_forwarder env ''SMARTIDS_BLOCK_EVENT_ENDPOINT'' sg\<rparr>)))))"

definition configure :: "'n boot \<Rightarrow> string option \<Rightarrow> string option \<Rightarrow> ('n, settings) booting" where
  "configure bt0 interface packet_filter =
     (let env = load_project_env (bt_env_file bt0) (bt_environ bt0); bt = bt0\<lparr>bt_environ := env\<rparr> in
     and_then (State_Monad.return (choose_interface bt interface)) (\<lambda>chosen.
     and_then (resolve_internal_request_signer bt (env_text env ''SMARTIDS_INTERNAL_SERVICE_TOKEN'')) (\<lambda>sg.
     and_then (resolve_packet_filter bt packet_filter sg) (\<lambda>capture_filter.
     State_Monad.return (lift_error (read_settings (bt_float_of_str bt) env chosen sg capture_filter))))))"

definition build_background_publisher ::
    "settings \<Rightarrow> json spill_line list option \<Rightarrow> 'n \<Rightarrow> (json, 'n) publisher" where
  "build_background_publisher st spill_file n =
     publisher_init (st_forwarder_queue_size st)
       (if st_disk_spill_enabled st then Some (spill_init (st_disk_spill_max_entries st) spill_file) else None) n"

subsection \<open>The loops\<close>

definition consume_packet :: "'w proc_env \<Rightarrow> sniffer \<times> 'w processor \<Rightarrow> sniffer \<times> 'w processor" where
  "consume_packet env sp =
     (case take_packet (fst sp) of
        (None, sn) \<Rightarrow> (sn, snd sp)
      | (Some p, sn) \<Rightarrow> (sn, snd (run_state (process env p) (snd sp))))"

definition poll_command ::
    "'w proc_env \<Rightarrow> 'n net \<Rightarrow> poller \<Rightarrow> string \<Rightarrow> backend_command \<Rightarrow> (('w, 'n) link, py_error + unit) state" where
  "poll_command env net po ack_endpoint c = do {
     r \<leftarrow> apply_command env c;
     case r of
       Inl e \<Rightarrow> State_Monad.return (Inl e)
     | Inr outcome \<Rightarrow> do {
         let command_id = command_text (pe_repr env) c ''command_id'';
         if ack_endpoint = [] \<or> command_id = [] then State_Monad.return (Inr ())
         else do {
           acked \<leftarrow> on_net (run_state (ack_command net po ack_endpoint command_id (ack_status outcome)));
           State_Monad.return (map_sum id (\<lambda>_. ()) acked)
         }
       }
   }"

definition poll_round ::
    "'w proc_env \<Rightarrow> 'n net \<Rightarrow> poller \<Rightarrow> string \<Rightarrow> (('w, 'n) link, py_error + unit) state" where
  "poll_round env net po ack_endpoint = do {
     commands \<leftarrow> on_net (run_state (poll_commands net po));
     case commands of
       Inl e \<Rightarrow> State_Monad.return (Inl e)
     | Inr cs \<Rightarrow> each_ok cs (poll_command env net po ack_endpoint)
   }"

text \<open>The polling thread: nothing catches what a round raises, so that the thread ends with it.\<close>

definition poll_backend_commands ::
    "'w proc_env \<Rightarrow> 'n net \<Rightarrow> poller \<Rightarrow> string \<Rightarrow> nat \<Rightarrow> (('w, 'n) link, py_error + unit) state" where
  "poll_backend_commands env net po ack_endpoint rounds =
     each_ok [0..<rounds] (\<lambda>_. poll_round env net po ack_endpoint)"

definition jint :: "int option \<Rightarrow> json" where
  "jint v = (case v of None \<Rightarrow> JNull | Some i \<Rightarrow> JInt i)"

definition exchange_json :: "session_exchange \<Rightarrow> json" where
  "exchange_json ex = JObj [(''source_ip'', JStr (ex_source_ip ex)), (''destination_ip'', JStr (ex_destination_ip ex)),
     (''source_port'', jint (ex_source_port ex)), (''destination_port'', jint (ex_destination_port ex)),
     (''protocol'', JInt (ex_protocol ex)), (''packet_count'', JInt (int (ex_packet_count ex))),
     (''byte_count'', JInt (ex_byte_count ex)), (''duration'', JFloat (Fin (ex_duration ex)))]"

definition attribution_note :: string where
  "attribution_note = ''Passive packet capture cannot reliably map flows to local process '' @
     ''or application names cross-platform; active network exchanges are '' @ ''reported as endpoint pairs.''"

text \<open>The snapshot as a dictionary, and the fields the processor adds; \<open>iso_text\<close> prints a time.\<close>

definition snapshot_dict :: "(int \<Rightarrow> string) \<Rightarrow> telemetry_snapshot \<Rightarrow> (string, json) pydict" where
  "snapshot_dict iso_text sn = [
     (''ts'', JStr (iso_text (sn_ts sn))),
     (''packets_received_total'', JInt (int (sn_packets_received_total sn))),
     (''packets_received_per_30s'', JInt (int (sn_packets_received_per_30s sn))),
     (''packets_processed_total'', JInt (int (sn_packets_processed_total sn))),
     (''packets_dropped_total'', JInt (int (sn_packets_dropped_total sn))),
     (''packets_lost_total'', JInt (int (sn_packets_lost_total sn))),
     (''packet_loss_detected'', JBool (sn_packet_loss_detected sn)),
     (''packet_queue_size'', JInt (sn_packet_queue_size sn)),
     (''packet_queue_maxsize'', JInt (sn_packet_queue_maxsize sn)),
     (''packet_queue_usage_percent'', JFloat (Fin (sn_packet_queue_usage_percent sn))),
     (''active_sessions'', JInt (int (sn_active_sessions sn))),
     (''ml_predictions_total'', JInt (int (sn_ml_predictions_total sn))),
     (''ml_predictions_per_30s'', JInt (int (sn_ml_predictions_per_30s sn))),
     (''ml_processing_rate_per_30s'', JInt (int (sn_ml_processing_rate_per_30s sn))),
     (''last_ml_prediction_latency_ms'', JFloat (Fin (sn_last_ml_prediction_latency_ms sn))),
     (''secondary_model_predictions_total'', JInt (int (sn_secondary_model_predictions_total sn))),
     (''secondary_model_predictions_per_30s'', JInt (int (sn_secondary_model_predictions_per_30s sn))),
     (''application_attribution_available'', JBool False),
     (''application_attribution_note'', JStr attribution_note),
     (''active_network_exchanges'', JList (map exchange_json (sn_active_network_exchanges sn)))]"

definition extras_dict :: "nat \<times> nat \<times> real \<times> nat \<Rightarrow> (string, json) pydict" where
  "extras_dict x = (case x of (queue_size, queue_maxsize, percent, dropped_total) \<Rightarrow>
     [(''secondary_model_queue_size'', JInt (int queue_size)),
      (''secondary_model_queue_maxsize'', JInt (int queue_maxsize)),
      (''secondary_model_queue_usage_percent'', JFloat (Fin percent)),
      (''secondary_model_predictions_dropped_total'', JInt (int dropped_total))])"

datatype telemetry_report = ForwardingFailed | LossDetected | Forwarded

text \<open>
  One round of the telemetry thread, on the collector the service shares with the sniffer and the
  processor, which is kept in the processor. Its result is the warning it logs, if any.
\<close>

definition telemetry_round ::
    "'n net \<Rightarrow> (int \<Rightarrow> string) \<Rightarrow> forwarder \<Rightarrow> real \<Rightarrow> sniffer \<Rightarrow>
     (('w, 'n) link, py_error + telemetry_report) state" where
  "telemetry_round net iso_text fo now sniffer = do {
     p \<leftarrow> gets lk_processor;
     case pp_telemetry_collector p of
       None \<Rightarrow> State_Monad.return (Inl AttributeError)
     | Some tel \<Rightarrow> (case telemetry_snapshot now (Some (int (length (sn_packet_queue sniffer))))
           (int (sn_maxsize sniffer)) (pp_session_builder p) tel of (snapshot, tel') \<Rightarrow> do {
         on_processor (modify (\<lambda>q. q\<lparr>pp_telemetry_collector := Some tel'\<rparr>));
         ok \<leftarrow> on_net (run_state (forward_telemetry net fo
           (JObj (snapshot_dict iso_text snapshot @ extras_dict (telemetry_extras p)))));
         State_Monad.return (map_sum id (\<lambda>ok.
           if \<not> ok then ForwardingFailed
           else if sn_packet_loss_detected snapshot then LossDetected else Forwarded) ok)
       })
   }"


subsection \<open>Facts\<close>

lemma fold_set_missing: "fold set_missing kvs env k =
   (case env k of Some v \<Rightarrow> Some v | None \<Rightarrow> if k = [] then None else map_of kvs k)"
proof (induction kvs arbitrary: env)
  case (Cons kv kvs)
  then show ?case by (cases kv) (auto simp: set_missing_def split: option.splits)
qed (simp split: option.split)

interpretation polled: drives_engine env lk_processor "poll_command env net po ack" "\<lambda>c. [CommandIn c]"
  for env net po ack
proof
  fix c and l :: "('a, 'b) link"
  obtain r l1 where r: "run_state (apply_command env c) l = (r, l1)" by fastforce
  have e1: "lk_processor l1 = engine_run env [CommandIn c] (lk_processor l)"
    using apply_command_engine [of env c l] r by simp
  have "keeps (same_engine (lk_processor l1)) (on_net f)" for f :: "'b \<Rightarrow> (py_error + bool) \<times> 'b"
    by (intro keeps_intros)
  from keeps_engine_eq [OF this] show "lk_processor (snd (run_state (poll_command env net po ack c) l)) =
      engine_run env [CommandIn c] (lk_processor l)"
    by (simp add: poll_command_def r e1 Let_def case_prod_beta split: sum.splits)
qed

lemma concat_singles: "concat (map (\<lambda>c. [CommandIn c]) cs) = map CommandIn cs"
  by (induction cs) simp_all

lemma poll_round_engine:
  assumes "run_state (poll_commands net po) (lk_net l) = (Inr cs, n)"
    and "fst (run_state (poll_round env net po ack) l) = Inr ()"
  shows "lk_processor (snd (run_state (poll_round env net po ack) l)) = engine_run env (map CommandIn cs) (lk_processor l)"
proof -
  have "run_state (poll_round env net po ack) l = run_state (each_ok cs (poll_command env net po ack)) (l\<lparr>lk_net := n\<rparr>)"
    using assms(1) by (simp add: poll_round_def on_net_def)
  with polled.each [of cs env net po ack "l\<lparr>lk_net := n\<rparr>"] assms(2) show ?thesis by (auto simp: concat_singles)
qed

lemma command_frame_inputs: "turn_inputs (command_frame c) = [CommandIn c]"
  by (simp add: command_frame_def obj_get_def frame_payload_def)

text \<open>
  C13: Polling and pushing agree. A polling round that is answered with some commands and a
  connection that receives the same commands as frames leave the processor in the same state,
  when neither ends in an error: which transport is configured makes no difference to what the
  engine does.
\<close>
theorem poll_push_agree:
  fixes c :: "('w, 'm) ws_client" and l :: "('w, 'n) link"
  assumes "run_state (poll_commands net po) (lk_net l) = (Inr cs, n)"
    and "fst (run_state (poll_round (we_proc env) net po ack) l) = Inr ()"
    and "fst (run_state (each_ok (map command_frame cs) (take_turn env)) c) = Inr ()"
    and "engine_of c = lk_processor l"
  shows "engine_of (snd (run_state (each_ok (map command_frame cs) (take_turn env)) c)) =
    lk_processor (snd (run_state (poll_round (we_proc env) net po ack) l))"
proof -
  have inputs: "concat (map (turn_inputs \<circ> command_frame) cs) = map CommandIn cs"
    by (induction cs) (simp_all add: command_frame_inputs)
  show ?thesis
    using turns.each [of "map command_frame cs" env c] assms(3,4) poll_round_engine [OF assms(1,2)]
    by (auto simp: inputs)
qed

text \<open>
  One malformed command ends the delivery of commands. When a round brings a command whose
  \<open>duration_seconds\<close> \<open>int\<close> refuses, the polling thread ends with that error: it is not
  acknowledged, the commands after it are not applied, and no later round is made.
\<close>
theorem malformed_command_ends_polling:
  fixes l :: "('w, 'n) link"
  assumes "run_state (poll_commands net po) (lk_net l) = (Inr (c # cs), n)"
    and "command_duration c = Inl e" and "0 < rounds"
  shows "run_state (poll_backend_commands env net po ack rounds) l = (Inl e, l\<lparr>lk_net := n\<rparr>)"
proof -
  have "run_state (poll_round env net po ack) l = (Inl e, l\<lparr>lk_net := n\<rparr>)"
    using assms(1,2)
    by (simp add: poll_round_def on_net_def poll_command_def apply_command_def on_processor_def
        apply_backend_command_def Let_def)
  then show ?thesis using assms(3)
    by (simp add: poll_backend_commands_def upt_conv_Cons)
qed

text \<open>
  The environment file only fills gaps. A variable that is set keeps its value; any other gets
  the value of the first line of the file that assigns it, and stays unset when none does.
\<close>
theorem env_file_fills_gaps:
  "load_project_env env_file env k =
     (case env k of
        Some v \<Rightarrow> Some v
      | None \<Rightarrow> if k = [] then None
          else (case env_file of None \<Rightarrow> None | Some t \<Rightarrow> map_of (List.map_filter env_line (splitlines t)) k))"
  by (simp add: load_project_env_def fold_set_missing split: option.split)

text \<open>
  The credential of the engine. A saved configuration always wins; without one, the service
  token is used, with no engine id; without either, and with registration not enabled, there is
  no credential. In these cases neither the network nor the file is touched.
\<close>
theorem signer_priority:
  assumes "config_load file = Inr config"
  shows "case config of
     Some d \<Rightarrow> run_state (resolve_internal_request_signer bt token) (n, file) =
       (map_sum id Some (signer_of_config (bt_repr bt) d), (n, file))
   | None \<Rightarrow>
       (token \<noteq> [] \<longrightarrow> run_state (resolve_internal_request_signer bt token) (n, file) =
          (Inr (Some \<lparr>sg_secret = token, sg_engine_id = None\<rparr>), (n, file))) \<and>
       (token = [] \<and> \<not> env_flag (bt_environ bt) ''SMARTIDS_ENGINE_REGISTRATION_ENABLED'' \<longrightarrow>
          run_state (resolve_internal_request_signer bt token) (n, file) = (Inr None, (n, file)))"
  using assms by (auto simp: resolve_internal_request_signer_def and_then_def load_config_def split: option.split)


definition bounded_below :: "real \<Rightarrow> pyfloat \<Rightarrow> bool" where
  "bounded_below b f = (case f of Fin x \<Rightarrow> b \<le> x | PInf \<Rightarrow> True | _ \<Rightarrow> False)"

lemma float_at_least_bounded: "bounded_below b (float_at_least b f)"
  by (cases f) (simp_all add: bounded_below_def float_at_least_def)

lemma and_then_Inr: "fst (run_state (and_then m f) s) = Inr y \<longleftrightarrow>
    (\<exists>x s'. run_state m s = (Inr x, s') \<and> fst (run_state (f x) s') = Inr y)"
  by (auto simp: and_then_def split: sum.splits prod.splits)

lemma delivery_facts:
  "command_delivery b u sg po = Websocket \<Longrightarrow> sg \<noteq> None \<and> po \<noteq> None"
  "command_delivery b u sg po = NoDelivery \<longleftrightarrow> po = None"
  by (auto simp: command_delivery_def split: if_splits)

lemma and_ok_Inr: "and_ok r f = Inr y \<longleftrightarrow> (\<exists>x. r = Inr x \<and> f x = Inr y)"
  by (cases r) (simp_all add: and_ok_def)

lemma lift_error_Inr: "lift_error r = Inr y \<longleftrightarrow> r = Inr y"
  by (cases r) auto

text \<open>
  Whatever the environment says, a service that starts polls at intervals of at least half a
  second, reports telemetry every five seconds at most often, keeps at least 32 payloads per
  forwarder and at least one on disk; commands arrive by WebSocket only where there are a
  credential and a poller for the catch-up, by polling otherwise, and by neither exactly when no
  commands endpoint is set.
\<close>
theorem settings_sound:
  assumes "fst (run_state (configure bt interface packet_filter) s) = Inr st"
  shows "bounded_below (1 / 2) (st_poll_interval_seconds st) \<and> bounded_below 5 (st_telemetry_interval_seconds st) \<and>
    32 \<le> st_forwarder_queue_size st \<and> 1 \<le> st_forwarder_drop_log_every st \<and> 1 \<le> st_disk_spill_max_entries st \<and>
    (st_delivery st = Websocket \<longrightarrow> st_internal_request_signer st \<noteq> None \<and> st_command_poller st \<noteq> None) \<and>
    (st_delivery st = NoDelivery \<longleftrightarrow> st_command_poller st = None)"
  using assms
  by (auto simp: configure_def and_then_Inr lift_error_Inr read_settings_def and_ok_Inr Let_def
      float_at_least_bounded delivery_facts dest!: delivery_facts(1) split: if_splits)

lemma apply_no_raise:
  assumes "command_duration c = Inr d"
  shows "\<exists>r. fst (run_state (apply_backend_command env c) s) = Inr r"
  using assms by (auto simp: apply_backend_command_def Let_def case_prod_beta)

definition sample_poll_net :: "unit net" where
  "sample_poll_net = sample_net\<lparr>net_send := \<lambda>_. Pair (Response 200 (Some (JList [JObj watch_command])))\<rparr>"

definition sample_poller :: poller where
  "sample_poller = \<lparr>po_endpoint_url = ''http://b/c'', po_signer = None\<rparr>"

lemma sample_poll: "run_state (poll_commands sample_poll_net sample_poller) n = (Inr [watch_command], n)"
proof -
  have "url_typed ''http://b/c''"
    by (simp add: url_typed_def strip_def lstrip_def rstrip_def py_space_def split_at_def)
  then show ?thesis
    by (simp add: poll_commands_def get_json_def signed_headers_def sample_poller_def sample_poll_net_def
        ok_status_def commands_of_def dict_items_def List.map_filter_simps)
qed

theorem poll_push_agree_witness:
  "engine_of (snd (run_state (each_ok [command_frame watch_command] (take_turn sample_ws_env)) (ws_client_init 4 sample_link))) =
   lk_processor (snd (run_state (poll_round sample_env sample_poll_net sample_poller []) sample_link))"
proof -
  obtain r where r: "fst (run_state (apply_backend_command sample_env watch_command) sample_processor) = Inr r"
    using apply_no_raise [OF watch_command_texts(4)] by blast
  have poll: "fst (run_state (poll_round (we_proc sample_ws_env) sample_poll_net sample_poller []) sample_link) = Inr ()"
    using r sample_poll [of "()"]
    by (simp add: poll_round_def on_net_def sample_link_def poll_command_def apply_command_def on_processor_def
        sample_ws_env_def Let_def case_prod_beta)
  have push: "fst (run_state (each_ok (map command_frame [watch_command]) (take_turn sample_ws_env)) (ws_client_init 4 sample_link)) = Inr ()"
    using r
    by (simp add: command_frame_def handle_incoming_def obj_get_def frame_payload_def handle_command_def
        on_link_def apply_command_def on_processor_def ws_client_init_def publisher_init_def sample_link_def
        sample_ws_env_def Let_def case_prod_beta)
  from poll_push_agree [OF sample_poll poll push] show ?thesis
    by (simp add: ws_client_init_def publisher_init_def sample_ws_env_def)
qed

theorem malformed_command_ends_polling_witness:
  "run_state (poll_backend_commands sample_env (sample_net\<lparr>net_send := \<lambda>_. Pair (Response 200
       (Some (JList [JObj [(''duration_seconds'', JList [JNull])], JObj watch_command])))\<rparr>) sample_poller [] 3) sample_link =
     (Inl TypeError, sample_link)"
proof -
  let ?c = "[(''duration_seconds'', JList [JNull])]"
  let ?net = "sample_net\<lparr>net_send := \<lambda>_. Pair (Response 200 (Some (JList [JObj ?c, JObj watch_command])))\<rparr>"
  have "url_typed ''http://b/c''"
    by (simp add: url_typed_def strip_def lstrip_def rstrip_def py_space_def split_at_def)
  then have "run_state (poll_commands ?net sample_poller) (lk_net sample_link) = (Inr [?c, watch_command], ())"
    by (simp add: poll_commands_def get_json_def signed_headers_def sample_poller_def
        ok_status_def commands_of_def dict_items_def List.map_filter_simps)
  moreover have "command_duration ?c = Inl TypeError" by (simp add: command_duration_def obj_get_def)
  ultimately show ?thesis
    using malformed_command_ends_polling [of ?net sample_poller sample_link ?c "[watch_command]" "()" TypeError 3 sample_env "[]"]
    by simp
qed

definition sample_boot :: "unit boot" where
  "sample_boot = \<lparr>bt_env_file = None, bt_environ = Map.empty, bt_windows = Absent, bt_if_list = [''eth0''], bt_repr = (\<lambda>_. []),
     bt_float_of_str = (\<lambda>_. None), bt_net = sample_net,
     bt_registration = \<lparr>re_net = sample_net, re_environ = Map.empty, re_token = Pair ''t'', re_hostname = ''h'',
       re_os_name = ''o'', re_binds = True, re_writable = True, re_repr = (\<lambda>_. []), re_events = (\<lambda>_. [])\<rparr>\<rparr>"

theorem signer_priority_witness:
  "run_state (resolve_internal_request_signer sample_boot ''tok'') ((), NoFile) =
     (Inr (Some \<lparr>sg_secret = ''tok'', sg_engine_id = None\<rparr>), ((), NoFile))"
proof -
  have "config_load NoFile = Inr None" by (simp add: config_load_def)
  from signer_priority [OF this, of "''tok''" sample_boot "()"] show ?thesis by simp
qed

theorem settings_sound_witness:
  "\<exists>st. fst (run_state (configure sample_boot (Some ''eth0'') (Some ''ip'')) ((), NoFile)) = Inr st \<and>
     32 \<le> st_forwarder_queue_size st"
proof -
  have "fst (run_state (configure sample_boot (Some ''eth0'') (Some ''ip'')) ((), NoFile)) \<in> range Inr"
    by (simp add: configure_def load_project_env_def Let_def and_then_def choose_interface_def resolve_internal_request_signer_def
        load_config_def config_load_def env_text_def strip_def lstrip_def rstrip_def env_flag_def lower_def
        sample_boot_def resolve_packet_filter_def read_settings_def
        and_ok_def env_float_def env_int_def)
  then obtain st where st: "fst (run_state (configure sample_boot (Some ''eth0'') (Some ''ip'')) ((), NoFile)) = Inr st"
    by blast
  with settings_sound [OF st] show ?thesis by blast
qed


subsection \<open>The running service\<close>

text \<open>
  The threads of a service as turns. Of the sniffer, the consumer, the telemetry thread and the
  secondary workers a turn is one round; of the polling thread it is the request or one of the commands it
  brought; of the thread of the WebSocket client it is the handshake with the request for the commands
  that wait, one of these commands, or a frame; \<open>AckWorkerTurn\<close> is the worker that sends the
  acknowledgements. \<open>start\<close> runs either thread of commands or neither. \<open>sv_commands\<close> are the commands that were
  fetched and are not applied yet. One telemetry collector is shared by the sniffer, the processor and
  the telemetry thread; it is kept in the processor. A turn is not atomic in the code, which has no locks
  around the processor and the blocker: what two calls at once can do to a block is
  \<open>lost_block_race\<close> of theory \<open>AutoBlocker\<close>.
\<close>

record ('w, 'n) service =
  sv_sniffer :: sniffer
  sv_client :: "('w, 'n) ws_client"
  sv_commands :: "backend_command list"
  sv_polling :: bool

datatype service_turn =
  FrameTurn real real real frame_view | ConsumerTurn | TelemetryTurn real | SecondaryWorker which_predictor
| PollTurn | ConnectTurn "ws_message option" | CatchupTurn | SocketFrame ws_message | DisconnectTurn | AckWorkerTurn

record ('w, 'n) service_env =
  ve_ws :: "('w, 'n) ws_env"
  ve_delivery :: delivery
  ve_poller :: poller
  ve_ack_endpoint :: string
  ve_telemetry_forwarder :: forwarder
  ve_iso_text :: "int \<Rightarrow> string"

abbreviation ve_proc :: "('w, 'n) service_env \<Rightarrow> 'w proc_env" where "ve_proc ve \<equiv> we_proc (ve_ws ve)"

abbreviation ve_net :: "('w, 'n) service_env \<Rightarrow> 'n net" where "ve_net ve \<equiv> we_net (ve_ws ve)"

abbreviation sv_link :: "('w, 'n) service \<Rightarrow> ('w, 'n) link" where "sv_link sv \<equiv> pb_world (sv_client sv)"

abbreviation sv_processor :: "('w, 'n) service \<Rightarrow> 'w processor" where "sv_processor sv \<equiv> lk_processor (sv_link sv)"

definition set_link :: "('w, 'n) link \<Rightarrow> ('w, 'n) service \<Rightarrow> ('w, 'n) service" where
  "set_link l sv = sv\<lparr>sv_client := (sv_client sv)\<lparr>pb_world := l\<rparr>\<rparr>"

definition on_collector :: "(sniffer \<Rightarrow> sniffer) \<Rightarrow> ('w, 'n) service \<Rightarrow> ('w, 'n) service" where
  "on_collector f sv =
     (let l = sv_link sv;
          sn = f ((sv_sniffer sv)\<lparr>sn_telemetry_collector := pp_telemetry_collector (lk_processor l)\<rparr>)
      in set_link (l\<lparr>lk_processor := (lk_processor l)\<lparr>pp_telemetry_collector := sn_telemetry_collector sn\<rparr>\<rparr>)
        (sv\<lparr>sv_sniffer := sn\<rparr>))"

text \<open>The next of the commands that were fetched; none is left when it raises.\<close>

definition apply_next ::
    "(backend_command \<Rightarrow> (('w, 'n) link, 'e + unit) state) \<Rightarrow> ('w, 'n) service \<Rightarrow> bool \<times> ('w, 'n) service" where
  "apply_next act sv =
     (case sv_commands sv of
        [] \<Rightarrow> (True, sv)
      | c # cs \<Rightarrow> (case run_state (act c) (sv_link sv) of
          (Inl _, l) \<Rightarrow> (False, set_link l (sv\<lparr>sv_commands := []\<rparr>))
        | (Inr _, l) \<Rightarrow> (True, set_link l (sv\<lparr>sv_commands := cs\<rparr>))))"

text \<open>The request for commands: whether it returned.\<close>

definition fetch_commands :: "'n net \<Rightarrow> poller \<Rightarrow> ('w, 'n) service \<Rightarrow> bool \<times> ('w, 'n) service" where
  "fetch_commands net po sv =
     (case run_state (on_net (run_state (poll_commands net po))) (sv_link sv) of
        (Inl _, l) \<Rightarrow> (False, set_link l sv)
      | (Inr cs, l) \<Rightarrow> (True, set_link l (sv\<lparr>sv_commands := cs\<rparr>)))"

definition poll_turn :: "('w, 'n) service_env \<Rightarrow> ('w, 'n) service \<Rightarrow> ('w, 'n) service" where
  "poll_turn ve sv =
     (if ve_delivery ve \<noteq> Polling \<or> \<not> sv_polling sv then sv
      else case (if sv_commands sv = [] then fetch_commands (ve_net ve) (ve_poller ve) sv
          else apply_next (poll_command (ve_proc ve) (ve_net ve) (ve_poller ve) (ve_ack_endpoint ve)) sv) of
        (ok, sv1) \<Rightarrow> sv1\<lparr>sv_polling := ok\<rparr>)"

text \<open>An error closes the connection, which drops the commands still to apply.\<close>

definition disconnect :: "('w, 'n) service \<Rightarrow> ('w, 'n) service" where
  "disconnect sv = set_link ((sv_link sv)\<lparr>lk_open := False\<rparr>) (sv\<lparr>sv_commands := []\<rparr>)"

definition or_disconnect :: "bool \<times> ('w, 'n) service \<Rightarrow> ('w, 'n) service" where
  "or_disconnect r = (if fst r then snd r else disconnect (snd r))"

definition connect_turn ::
    "('w, 'n) service_env \<Rightarrow> ws_message option \<Rightarrow> ('w, 'n) service \<Rightarrow> ('w, 'n) service" where
  "connect_turn ve reply sv =
     (case run_state (authenticate (ve_ws ve) reply) ((sv_link sv)\<lparr>lk_open := True\<rparr>) of
        (Inl _, l) \<Rightarrow> disconnect (set_link l sv)
      | (Inr _, l) \<Rightarrow> (case we_catchup_poller (ve_ws ve) of
          None \<Rightarrow> set_link l (sv\<lparr>sv_commands := []\<rparr>)
        | Some po \<Rightarrow> or_disconnect (fetch_commands (ve_net ve) po (set_link l (sv\<lparr>sv_commands := []\<rparr>)))))"

definition socket_frame :: "('w, 'n) service_env \<Rightarrow> ws_message \<Rightarrow> ('w, 'n) service \<Rightarrow> ('w, 'n) service" where
  "socket_frame ve raw sv =
     (case run_state (take_turn (ve_ws ve) (Frame raw)) (sv_client sv) of
        (Inl _, c) \<Rightarrow> disconnect (sv\<lparr>sv_client := c\<rparr>)
      | (Inr _, c) \<Rightarrow> sv\<lparr>sv_client := c\<rparr>)"

text \<open>A turn of the client, where there is one and its connection is open or closed as the turn needs.\<close>

definition ws_turn_of ::
    "('w, 'n) service_env \<Rightarrow> bool \<Rightarrow> (('w, 'n) service \<Rightarrow> ('w, 'n) service) \<Rightarrow> ('w, 'n) service \<Rightarrow> ('w, 'n) service" where
  "ws_turn_of ve opened f sv =
     (if ve_delivery ve = Websocket \<and> lk_open (sv_link sv) = opened then f sv else sv)"

fun service_step :: "('w, 'n) service_env \<Rightarrow> service_turn \<Rightarrow> ('w, 'n) service \<Rightarrow> ('w, 'n) service" where
  "service_step ve (FrameTurn t1 t2 t3 fr) sv = on_collector (handle_packet t1 t2 t3 fr) sv"
| "service_step ve ConsumerTurn sv =
     (case consume_packet (ve_proc ve) (sv_sniffer sv, sv_processor sv) of
        (sn, p) \<Rightarrow> set_link ((sv_link sv)\<lparr>lk_processor := p\<rparr>) (sv\<lparr>sv_sniffer := sn\<rparr>))"
| "service_step ve (TelemetryTurn now) sv =
     set_link (snd (run_state (telemetry_round (ve_net ve) (ve_iso_text ve) (ve_telemetry_forwarder ve)
       now (sv_sniffer sv)) (sv_link sv))) sv"
| "service_step ve (SecondaryWorker sel) sv =
     set_link ((sv_link sv)\<lparr>lk_processor := engine_step (ve_proc ve) (SecondaryTurn sel) (sv_processor sv)\<rparr>) sv"
| "service_step ve PollTurn sv = poll_turn ve sv"
| "service_step ve (ConnectTurn reply) sv = ws_turn_of ve False (connect_turn ve reply) sv"
| "service_step ve CatchupTurn sv =
     ws_turn_of ve True (\<lambda>sv. or_disconnect (apply_next (apply_and_ack_via_rest (ve_ws ve)) sv)) sv"
| "service_step ve (SocketFrame raw) sv =
     ws_turn_of ve True (\<lambda>sv. if sv_commands sv = [] then socket_frame ve raw sv else sv) sv"
| "service_step ve DisconnectTurn sv = ws_turn_of ve True disconnect sv"
| "service_step ve AckWorkerTurn sv =
     (if ve_delivery ve = Websocket
      then sv\<lparr>sv_client := snd (run_state (take_turn (ve_ws ve) AckWorker) (sv_client sv))\<rparr> else sv)"

definition service_run :: "('w, 'n) service_env \<Rightarrow> service_turn list \<Rightarrow> ('w, 'n) service \<Rightarrow> ('w, 'n) service" where
  "service_run ve ts sv = fold (service_step ve) ts sv"

definition service_init :: "'w processor \<Rightarrow> 'n \<Rightarrow> int \<Rightarrow> ('w, 'n) service" where
  "service_init p n ack_queue_size = \<lparr>sv_sniffer = sniffer_init 10000 (pp_telemetry_collector p),
     sv_client = ws_client_init ack_queue_size \<lparr>lk_processor = p, lk_net = n, lk_open = False, lk_sent = []\<rparr>,
     sv_commands = [], sv_polling = True\<rparr>"

subsection \<open>The turns of one thread in a row\<close>

lemma set_link_fields [simp]: "sv_link (set_link l sv) = l" "sv_commands (set_link l sv) = sv_commands sv"
  "sv_polling (set_link l sv) = sv_polling sv"
  by (simp_all add: set_link_def)

lemma service_run_replicate: "service_run ve (replicate (Suc n) t) sv = service_run ve (replicate n t) (service_step ve t sv)"
  by (simp add: service_run_def)

lemma poll_ended: "\<not> sv_polling sv \<Longrightarrow> service_run ve (replicate n PollTurn) sv = sv"
  by (induction n) (simp_all add: service_run_def poll_turn_def)

lemma poll_commands_run:
  assumes "ve_delivery ve = Polling" and "sv_polling sv"
    and "run_state (each_ok (sv_commands sv)
      (poll_command (ve_proc ve) (ve_net ve) (ve_poller ve) (ve_ack_endpoint ve))) (sv_link sv) = (r, l)"
  shows "sv_link (service_run ve (replicate (length (sv_commands sv)) PollTurn) sv) = l \<and>
    sv_polling (service_run ve (replicate (length (sv_commands sv)) PollTurn) sv) = (r = Inr ())"
  using assms(2,3)
proof (induction "sv_commands sv" arbitrary: sv)
  case Nil
  then show ?case by (auto simp: service_run_def)
next
  case (Cons c cs)
  let ?act = "poll_command (ve_proc ve) (ve_net ve) (ve_poller ve) (ve_ack_endpoint ve)"
  let ?sv1 = "service_step ve PollTurn sv"
  note cs = Cons.hyps(2) [symmetric]
  obtain r1 l1 where act: "run_state (?act c) (sv_link sv) = (r1, l1)" by fastforce
  show ?case
  proof (cases r1)
    case (Inl e)
    have e1: "sv_link ?sv1 = l1" "\<not> sv_polling ?sv1"
      using assms(1) Cons.prems(1) by (simp_all add: poll_turn_def cs apply_next_def act Inl)
    have e2: "r = Inl e" "l = l1" using Cons.prems(2) by (simp_all add: cs act Inl)
    show ?thesis
      by (simp only: cs list.size service_run_replicate add_Suc_right add_0_right poll_ended [OF e1(2)] e1 e2) simp
  next
    case (Inr u)
    have sv1: "sv_link ?sv1 = l1" "sv_polling ?sv1" "sv_commands ?sv1 = cs"
      using assms(1) Cons.prems(1) by (simp_all add: poll_turn_def cs apply_next_def act Inr)
    have "run_state (each_ok cs ?act) l1 = (r, l)" using Cons.prems(2) by (simp add: cs act Inr)
    with Cons.hyps(1) [of ?sv1] sv1 show ?thesis
      by (simp only: cs list.size service_run_replicate add_Suc_right add_0_right)
  qed
qed

text \<open>
  The turns of the polling thread in a row make one round of it, when no other thread takes a turn
  between: the request and then each of its commands.
\<close>
lemma poll_turns_round:
  assumes "ve_delivery ve = Polling" and "sv_polling sv" and "sv_commands sv = []"
    and cs: "fst (run_state (poll_commands (ve_net ve) (ve_poller ve)) (lk_net (sv_link sv))) = Inr cs"
    and r: "run_state (poll_round (ve_proc ve) (ve_net ve) (ve_poller ve) (ve_ack_endpoint ve)) (sv_link sv) = (r, l)"
  shows "sv_link (service_run ve (replicate (Suc (length cs)) PollTurn) sv) = l \<and>
    sv_polling (service_run ve (replicate (Suc (length cs)) PollTurn) sv) = (r = Inr ())"
proof -
  let ?sv1 = "service_step ve PollTurn sv"
  obtain n where f: "run_state (poll_commands (ve_net ve) (ve_poller ve)) (lk_net (sv_link sv)) = (Inr cs, n)"
    using cs by (cases "run_state (poll_commands (ve_net ve) (ve_poller ve)) (lk_net (sv_link sv))") simp
  have sv1: "sv_link ?sv1 = (sv_link sv)\<lparr>lk_net := n\<rparr>" "sv_polling ?sv1" "sv_commands ?sv1 = cs"
    using assms(1-3) f by (simp_all add: poll_turn_def fetch_commands_def on_net_def)
  have "run_state (each_ok (sv_commands ?sv1) (poll_command (ve_proc ve) (ve_net ve) (ve_poller ve) (ve_ack_endpoint ve)))
      (sv_link ?sv1) = (r, l)"
    using r f by (simp only: sv1) (simp add: poll_round_def on_net_def)
  from poll_commands_run [OF assms(1) sv1(2) this] show ?thesis
    by (simp only: sv1 service_run_replicate)
qed

subsection \<open>What the turns keep\<close>

lemma keeps_on_processor [keeps_intros]:
  "keeps I m \<Longrightarrow> keeps (\<lambda>l. I (lk_processor l)) (on_processor m)"
  by (auto simp: keeps_def on_processor_def on_field_def split: prod.splits)

lemma fetch_engine: "sv_processor (snd (fetch_commands net po sv)) = sv_processor sv"
proof -
  have "keeps (same_engine (sv_processor sv)) (on_net (run_state (poll_commands net po)))" by (intro keeps_intros)
  from keeps_engine_eq [OF this] show ?thesis by (auto simp: fetch_commands_def split: prod.split sum.split)
qed

lemma disconnect_engine [simp]: "sv_processor (disconnect sv) = sv_processor sv"
  by (simp add: disconnect_def)

lemma or_disconnect_engine: "sv_processor (or_disconnect r) = sv_processor (snd r)"
  by (simp add: or_disconnect_def)

lemma connect_engine: "sv_processor (connect_turn ve reply sv) = sv_processor sv"
proof -
  have "sv_processor (connect_turn ve reply sv) =
      lk_processor (snd (run_state (authenticate (ve_ws ve) reply) ((sv_link sv)\<lparr>lk_open := True\<rparr>)))"
    by (simp add: connect_turn_def or_disconnect_engine fetch_engine split: prod.split sum.split option.split)
  also have "\<dots> = sv_processor sv" by (simp only: authenticate_engine) simp
  finally show ?thesis .
qed

lemma next_engine:
  assumes "\<And>c l. lk_processor (snd (run_state (act c) l)) = engine_run env [CommandIn c] (lk_processor l)"
  shows "\<exists>cs. sv_processor (snd (apply_next act sv)) = engine_run env (map CommandIn cs) (sv_processor sv)"
proof (cases "sv_commands sv")
  case Nil
  then show ?thesis by (intro exI [of _ "[]"]) (simp add: apply_next_def engine_run_def)
next
  case (Cons c cs)
  then show ?thesis using assms [of c "sv_link sv"]
    by (intro exI [of _ "[c]"]) (auto simp: apply_next_def split: prod.split sum.split)
qed

lemma poll_turn_engine: "\<exists>cs. sv_processor (poll_turn ve sv) = engine_run (ve_proc ve) (map CommandIn cs) (sv_processor sv)"
proof -
  let ?act = "poll_command (ve_proc ve) (ve_net ve) (ve_poller ve) (ve_ack_endpoint ve)"
  obtain cs where cs: "sv_processor (snd (apply_next ?act sv)) = engine_run (ve_proc ve) (map CommandIn cs) (sv_processor sv)"
    using next_engine [of ?act "ve_proc ve" sv, OF polled.drives] by blast
  have "engine_run (ve_proc ve) (map CommandIn []) p = p" for p by (simp add: engine_run_def)
  with cs fetch_engine [of "ve_net ve" "ve_poller ve" sv] show ?thesis
    by (auto simp: poll_turn_def case_prod_beta intro: exI [of _ cs] exI [of _ "[]"])
qed

lemma frame_engine: "sv_processor (socket_frame ve raw sv) = engine_run (ve_proc ve) (turn_inputs (Frame raw)) (sv_processor sv)"
  using turns.drives [of "ve_ws ve" "Frame raw" "sv_client sv"]
  by (auto simp: socket_frame_def simp del: take_turn.simps split: prod.split sum.split)

context engine_invariant
begin

lemma net_kept: "keeps (\<lambda>l. I (lk_processor l)) (on_net f)"
  unfolding on_net_def by (intro keeps_intros) simp

lemma telemetry_kept: "keeps (\<lambda>l. I (lk_processor l)) (telemetry_round net iso_text fo now sn)"
  unfolding telemetry_round_def by (intro keeps_intros net_kept at_fields)

lemma run_kept: "I p \<Longrightarrow> q = engine_run env inputs p \<Longrightarrow> I q"
  by (simp add: run)

lemma service_step_kept:
  assumes "I (sv_processor sv)" and "ve_proc ve = env"
  shows "I (sv_processor (service_step ve turn sv))"
proof (cases turn)
  case (FrameTurn t1 t2 t3 fr)
  with assms(1) show ?thesis by (simp add: on_collector_def Let_def at_fields)
next
  case ConsumerTurn
  with assms step [of "sv_processor sv" "PacketIn p" for p] show ?thesis
    by (simp add: consume_packet_def split: prod.split option.split)
next
  case (TelemetryTurn now)
  with assms(1) keepsD [OF telemetry_kept] show ?thesis by simp
next
  case (SecondaryWorker sel)
  with assms step [of "sv_processor sv" "SecondaryTurn sel"] show ?thesis by simp
next
  case PollTurn
  with poll_turn_engine [of ve sv] assms show ?thesis by (auto intro: run_kept)
next
  case (ConnectTurn reply)
  with assms show ?thesis by (simp add: ws_turn_of_def connect_engine)
next
  case CatchupTurn
  obtain cs where "sv_processor (snd (apply_next (apply_and_ack_via_rest (ve_ws ve)) sv)) =
      engine_run (ve_proc ve) (map CommandIn cs) (sv_processor sv)"
    using next_engine [OF rest.drives] by blast
  with CatchupTurn assms show ?thesis by (simp add: ws_turn_of_def or_disconnect_engine run)
next
  case (SocketFrame raw)
  with assms show ?thesis by (simp add: ws_turn_of_def frame_engine run)
next
  case DisconnectTurn
  with assms show ?thesis by (simp add: ws_turn_of_def)
next
  case AckWorkerTurn
  with assms turns.drives [of "ve_ws ve" AckWorker "sv_client sv"] show ?thesis
    by (simp add: engine_run_def del: take_turn.simps)
qed

lemma service_run_kept:
  "I (sv_processor sv) \<Longrightarrow> ve_proc ve = env \<Longrightarrow> I (sv_processor (service_run ve turns sv))"
  unfolding service_run_def by (induction turns arbitrary: sv) (simp_all add: service_step_kept)

end

text \<open>
  The running service blocks exactly what it has pending, as long as its threads do not enter the
  processor or the blocker at once. In whatever order the threads take their turns, commands being polled
  or pushed, and whatever the network answers: on a host whose firewall program behaves as
  documented every address with a pending block is valid and blocked, and every blocked address was
  blocked before or has a pending block.
\<close>
theorem service_enforces_blocks:
  assumes "documented_host a (pe_host (ve_proc ve)) rules" and "create_firewall_adapter system = Some a"
    and "rules_ok a rules w"
    and s: "s = sv_processor (service_run ve turns (service_init (processor_init
      (blocker_init system tracker records w) publishers tel det k live completed policy commands) n q))"
  shows "(\<forall>ip\<in>fst ` set (ab_blocked_until s).
      ip \<in> blocked_ips a rules (ab_world s) \<and> is_valid_routable_ip ip) \<and>
    (\<forall>ip\<in>blocked_ips a rules (ab_world s).
      ip \<in> blocked_ips a rules w \<or> map_of (ab_blocked_until s) ip \<noteq> None)"
proof -
  let ?p = "processor_init (blocker_init system tracker records w) publishers tel det k live completed policy commands"
  have "enforced a rules (blocked_ips a rules w) ?p"
    using assms(2,3)
    by (cases publishers) (simp add: enforced_def blocker_init_def processor_init_def processor.defs blocker.defs)
  then have "enforced a rules (blocked_ips a rules w) (sv_processor (service_init ?p n q))"
    by (simp add: service_init_def ws_client_init_def publisher_init_def)
  from engine_invariant.service_run_kept [OF enforced_engine [OF assms(1)] this refl, of turns]
  have "enforced a rules (blocked_ips a rules w) s" by (simp only: s)
  then show ?thesis unfolding enforced_def dget_None_iff by blast
qed

theorem service_enforces_blocks_witness:
  "\<exists>s. s = sv_processor (service_run \<lparr>ve_ws = sample_ws_env, ve_delivery = Websocket, ve_poller = sample_poller,
       ve_ack_endpoint = [], ve_telemetry_forwarder = \<lparr>fo_endpoint_url = [], fo_signer = None\<rparr>, ve_iso_text = (\<lambda>_. [])\<rparr>
       [ConnectTurn None, ConsumerTurn, TelemetryTurn 5, AckWorkerTurn] (service_init sample_processor () 4)) \<and>
    (\<forall>ip\<in>fst ` set (ab_blocked_until s).
      ip \<in> blocked_ips LinuxFirewallAdapter sw_rules (ab_world s) \<and> is_valid_routable_ip ip)"
proof -
  let ?ve = "\<lparr>ve_ws = sample_ws_env, ve_delivery = Websocket, ve_poller = sample_poller,
       ve_ack_endpoint = [], ve_telemetry_forwarder = \<lparr>fo_endpoint_url = [], fo_signer = None\<rparr>, ve_iso_text = (\<lambda>_. [])\<rparr>"
  have h: "documented_host LinuxFirewallAdapter (pe_host (ve_proc ?ve)) sw_rules"
    using sample_host by (simp add: sample_env_def sample_ws_env_def)
  have ok: "rules_ok LinuxFirewallAdapter sw_rules \<lparr>sw_rules = [], sw_clock = 1000\<rparr>" by simp
  show ?thesis
    unfolding sample_processor_def sample_blocker_def
    by (rule exI, rule conjI, rule refl) (rule conjunct1 [OF service_enforces_blocks [OF h sample_adapter ok refl]])
qed

end
