(* ===== verification/Datasets.thy ===== *)
theory Datasets
  imports Features Capture
begin

text \<open>
  The preparation of the CIC IDS 2018 data (\<open>ml/datasets/prepared_cicids2018_common.py\<close>,
  \<open>split_prepared_cicids2018.py\<close>, \<open>ml/features/cicids2018_mapping.py\<close> and
  \<open>cicids2018_validation.py\<close>): the cleaning of rows, the stratified split in one pass and the
  mapping of the raw columns and labels. The column operations of pandas all act row by row, so
  that a frame is its header and its list of rows. Parsing a number, printing one and casting to
  \<open>int64\<close> are arguments.
\<close>

subsection \<open>Tables\<close>

datatype cell = Missing | Text string | Num pyfloat

type_synonym row = "(string, cell) pydict"

datatype dataset_error = BadValue | FileNotFound | FileExists | BadIndex

definition to_numeric :: "(string \<Rightarrow> pyfloat option) \<Rightarrow> cell \<Rightarrow> pyfloat" where
  "to_numeric number c =
     (case c of
        Missing \<Rightarrow> NaN
      | Num f \<Rightarrow> f
      | Text s \<Rightarrow> (case number s of None \<Rightarrow> NaN | Some f \<Rightarrow> f))"

definition cell_of :: "row \<Rightarrow> string \<Rightarrow> cell" where
  "cell_of r c = (case map_of r c of None \<Rightarrow> Missing | Some v \<Rightarrow> v)"

subsection \<open>Prepared files\<close>

definition EXPECTED_PREPARED_FILES :: "string list" where
  "EXPECTED_PREPARED_FILES = [
     ''prepared_02-14-2018.csv'', ''prepared_02-15-2018.csv'', ''prepared_02-16-2018.csv'',
     ''prepared_02-20-2018.csv'', ''prepared_02-21-2018.csv'', ''prepared_02-22-2018.csv'',
     ''prepared_02-23-2018.csv'', ''prepared_02-28-2018.csv'', ''prepared_03-01-2018.csv'',
     ''prepared_03-02-2018.csv'']"

definition BAD_LABELS :: "string list" where
  "BAD_LABELS = [[], ''nan'', ''none'', ''null'', ''label'', ''attack type'']"

definition VALID_PROTOCOLS :: "int list" where "VALID_PROTOCOLS = [0, 1, 6, 17]"

definition INT_COLUMNS :: "string list" where
  "INT_COLUMNS = [''dst_port'', ''protocol'', ''total_fwd_packets'', ''total_fwd_bytes'',
     ''fin_flag_count'', ''syn_flag_count'', ''rst_flag_count'', ''psh_flag_count'',
     ''ack_flag_count'', ''urg_flag_count'', ''fwd_header_length'', ''init_win_bytes_forward'',
     ''act_data_pkt_fwd'', ''min_seg_size_forward'']"

definition CANONICAL_COLUMNS :: "string list" where
  "CANONICAL_COLUMNS = FEATURE_COLUMNS @ [LABEL_COLUMN]"

text \<open>A path is its directory and its name.\<close>

type_synonym path = "string \<times> string"

record file_system =
  fs_is_dir :: "string \<Rightarrow> bool"
  fs_exists :: "path \<Rightarrow> bool"

definition resolve_prepared_source_files ::
    "file_system \<Rightarrow> string option \<Rightarrow> path list \<Rightarrow> dataset_error + path list" where
  "resolve_prepared_source_files fs source files =
     (let resolved = (if files \<noteq> [] then Inr files
            else case source of
              None \<Rightarrow> Inl BadValue
            | Some d \<Rightarrow> if fs_is_dir fs d then Inr (map (Pair d) EXPECTED_PREPARED_FILES) else Inl FileNotFound)
      in case resolved of
        Inl e \<Rightarrow> Inl e
      | Inr paths \<Rightarrow>
          let names = map snd paths;
              ordered = map (\<lambda>n. (the (find (\<lambda>p. snd p = n) (rev paths)))) EXPECTED_PREPARED_FILES
          in if \<not> set EXPECTED_PREPARED_FILES \<subseteq> set names then Inl FileNotFound
             else if \<not> set names \<subseteq> set EXPECTED_PREPARED_FILES then Inl BadValue
             else if list_all (fs_exists fs) ordered then Inr ordered else Inl FileNotFound)"

definition validate_prepared_header :: "string list \<Rightarrow> bool" where
  "validate_prepared_header columns =
     (let normalized = map strip columns in list_all (\<lambda>c. c \<in> set normalized) CANONICAL_COLUMNS)"

subsection \<open>Cleaning\<close>

datatype feature = FInt int | FFloat real

record clean_row =
  cl_features :: "(string \<times> feature) list"
  cl_label :: string

text \<open>Infinities and what is no number become 0, and so does what is negative.\<close>

definition clipped :: "pyfloat \<Rightarrow> real" where
  "clipped f = (case f of Fin x \<Rightarrow> max 0 x | _ \<Rightarrow> 0)"

definition clean_value :: "(int \<Rightarrow> int) \<Rightarrow> string \<Rightarrow> real \<Rightarrow> feature" where
  "clean_value to_int64 column x =
     (if column = ''protocol'' then
        let i = to_int64 (round_half_even x) in FInt (if i \<in> set VALID_PROTOCOLS then i else 0)
      else if column = ''dst_port'' then
        let r = round_half_even x in FInt (to_int64 (if r < 0 \<or> 65535 < r then 0 else r))
      else if column \<in> set INT_COLUMNS then FInt (to_int64 (round_half_even x))
      else FFloat x)"

definition clean_label :: "(pyfloat \<Rightarrow> string) \<Rightarrow> cell \<Rightarrow> string option" where
  "clean_label rep c =
     (let text = (case c of
            Missing \<Rightarrow> None
          | Num f \<Rightarrow> if f = NaN then None else Some (rep f)
          | Text s \<Rightarrow> Some s)
      in case text of
        None \<Rightarrow> None
      | Some t \<Rightarrow> if lower (strip t) \<in> set BAD_LABELS then None else Some (strip t))"

record coercion =
  co_parse :: "string \<Rightarrow> pyfloat option"
  co_repr :: "pyfloat \<Rightarrow> string"
  co_int64 :: "int \<Rightarrow> int"

definition sanitize_row :: "coercion \<Rightarrow> row \<Rightarrow> clean_row option" where
  "sanitize_row co r =
     map_option (\<lambda>label. \<lparr>cl_features = map (\<lambda>c.
         (c, clean_value (co_int64 co) c (clipped (to_numeric (co_parse co) (cell_of r c))))) FEATURE_COLUMNS,
       cl_label = label\<rparr>) (clean_label (co_repr co) (cell_of r LABEL_COLUMN))"

definition sanitize_prepared_chunk ::
    "coercion \<Rightarrow> string list \<Rightarrow> row list \<Rightarrow> dataset_error + clean_row list" where
  "sanitize_prepared_chunk co columns rows =
     (if \<not> validate_prepared_header columns then Inl BadValue
      else Inr (List.map_filter (\<lambda>r. sanitize_row co (map (\<lambda>(c, v). (strip c, v)) r)) rows))"

subsection \<open>The split\<close>

text \<open>\<open>Counter\<close>: a table of counts, 0 for what it lacks.\<close>

type_synonym counter = "(string, nat) pydict"

definition counted :: "counter \<Rightarrow> string \<Rightarrow> nat" where
  "counted c k = (case map_of c k of None \<Rightarrow> 0 | Some n \<Rightarrow> n)"

definition tick :: "string \<Rightarrow> counter \<Rightarrow> counter" where
  "tick k c = AList.update k (counted c k + 1) c"

text \<open>The items in the order of their keys.\<close>

definition sorted_counts :: "counter \<Rightarrow> counter" where
  "sorted_counts counts = map (\<lambda>k. (k, counted counts k)) (sort (map fst counts))"

definition count_labels :: "clean_row list \<Rightarrow> counter" where
  "count_labels rows = fold (\<lambda>r. tick (cl_label r)) rows []"

definition test_target :: "real \<Rightarrow> nat \<Rightarrow> nat" where
  "test_target test_size cnt =
     (let target = round_half_even (real cnt * test_size);
          target1 = (if 1 < cnt \<and> int cnt \<le> target then int cnt - 1 else target)
      in nat (if target1 < 0 then 0 else target1))"

definition compute_test_targets :: "real \<Rightarrow> counter \<Rightarrow> counter" where
  "compute_test_targets test_size label_totals = map (\<lambda>(l, n). (l, test_target test_size n)) label_totals"

record 'r splitter =
  sp_rng :: 'r
  sp_seen_counts :: counter
  sp_train_counts :: counter
  sp_test_counts :: counter
  sp_train :: "clean_row list"
  sp_test :: "clean_row list"

definition splitter_init :: "'r \<Rightarrow> 'r splitter" where
  "splitter_init rng = \<lparr>sp_rng = rng, sp_seen_counts = [], sp_train_counts = [], sp_test_counts = [],
     sp_train = [], sp_test = []\<rparr>"

text \<open>The remaining counts are integers of Python: they are compared and divided as such.\<close>

definition choose_test :: "('r \<Rightarrow> real \<times> 'r) \<Rightarrow> int \<Rightarrow> int \<Rightarrow> 'r \<Rightarrow> bool \<times> 'r" where
  "choose_test draw remaining_test remaining_total rng =
     (if 0 < remaining_test then
        if remaining_total = remaining_test then (True, rng)
        else (case draw rng of (u, rng') \<Rightarrow> (u < of_int remaining_test / of_int remaining_total, rng'))
      else (False, rng))"

definition split_row ::
    "('r \<Rightarrow> real \<times> 'r) \<Rightarrow> counter \<Rightarrow> counter \<Rightarrow> clean_row \<Rightarrow> 'r splitter \<Rightarrow> 'r splitter" where
  "split_row draw label_totals test_targets r sp =
     (let label = cl_label r;
          seen = tick label (sp_seen_counts sp);
          remaining_total = int (counted label_totals label) - (int (counted seen label) - 1);
          remaining_test = int (counted test_targets label) - int (counted (sp_test_counts sp) label)
      in case choose_test draw remaining_test remaining_total (sp_rng sp) of
        (True, rng) \<Rightarrow> sp\<lparr>sp_rng := rng, sp_seen_counts := seen,
           sp_test_counts := tick label (sp_test_counts sp), sp_test := sp_test sp @ [r]\<rparr>
      | (False, rng) \<Rightarrow> sp\<lparr>sp_rng := rng, sp_seen_counts := seen,
           sp_train_counts := tick label (sp_train_counts sp), sp_train := sp_train sp @ [r]\<rparr>)"

definition split_rows ::
    "('r \<Rightarrow> real \<times> 'r) \<Rightarrow> 'r \<Rightarrow> real \<Rightarrow> clean_row list \<Rightarrow> 'r splitter" where
  "split_rows draw rng test_size rows =
     (let totals = count_labels rows
      in fold (split_row draw totals (compute_test_targets test_size totals)) rows (splitter_init rng))"

text \<open>The chunks of the source files, in their order, are their headers and rows.\<close>

fun clean_chunks :: "coercion \<Rightarrow> (string list \<times> row list) list \<Rightarrow> dataset_error + clean_row list" where
  "clean_chunks co [] = Inr []"
| "clean_chunks co ((columns, rows) # chunks) =
     (case sanitize_prepared_chunk co columns rows of
        Inl e \<Rightarrow> Inl e
      | Inr cleaned \<Rightarrow> (case clean_chunks co chunks of Inl e \<Rightarrow> Inl e | Inr rest \<Rightarrow> Inr (cleaned @ rest)))"

text \<open>An output that got no row is never created, and its digest raises.\<close>

definition split_prepared_dataset ::
    "file_system \<Rightarrow> coercion \<Rightarrow> ('r \<Rightarrow> real \<times> 'r) \<Rightarrow> 'r \<Rightarrow> (path \<Rightarrow> (string list \<times> row list) list) \<Rightarrow>
     string option \<Rightarrow> path list \<Rightarrow> path list \<Rightarrow> real \<Rightarrow> int \<Rightarrow> int \<Rightarrow> bool \<Rightarrow> dataset_error + 'r splitter" where
  "split_prepared_dataset fs co draw rng chunks source files outputs test_size chunk_size progress_every force =
     (if \<not> (0 < test_size \<and> test_size < 1) \<or> chunk_size \<le> 0 \<or> progress_every \<le> 0 then Inl BadValue
      else case resolve_prepared_source_files fs source files of
        Inl e \<Rightarrow> Inl e
      | Inr source_files \<Rightarrow>
          if list_ex (fs_exists fs) outputs \<and> \<not> force then Inl FileExists
          else (case clean_chunks co (concat (map chunks source_files)) of
              Inl e \<Rightarrow> Inl e
            | Inr rows \<Rightarrow>
                if rows = [] then Inl BadValue
                else let sp = split_rows draw rng test_size rows
                     in if sp_train sp = [] \<or> sp_test sp = [] then Inl FileNotFound else Inr sp))"

subsection \<open>Raw labels and columns\<close>

definition normalize_cicids2018_label :: "string \<Rightarrow> string" where
  "normalize_cicids2018_label label =
     (let v = lower (strip label); has = (\<lambda>w. contains_str w v) in
      if v \<in> {''benign'', ''normal'', ''normal traffic''} then ''Normal Traffic''
      else if prefix ''ddos'' v \<or> has ''ddos'' \<or> has ''hoic'' \<or> has ''loic'' then ''DDoS''
      else if prefix ''dos'' v \<or> has '' dos'' \<or> has ''hulk'' \<or> has ''goldeneye'' \<or>
        has ''slowhttptest'' \<or> has ''slowloris'' then ''DoS''
      else if has ''bruteforce'' \<or> has ''brute force'' then ''Brute Force''
      else if v = ''bot'' \<or> v = ''bots'' then ''Bots''
      else if has ''web attack'' \<or> has ''sql injection'' \<or> v = ''xss'' then ''Web Attacks''
      else if has ''infilteration'' \<or> has ''infiltration'' then ''Infiltration''
      else if has ''heartbleed'' then ''Heartbleed''
      else strip label)"

definition CICIDS2018_TO_INTERNAL :: "(string \<times> string) list" where
  "CICIDS2018_TO_INTERNAL = [
    (''Dst Port'', ''dst_port''), (''Protocol'', ''protocol''), (''Flow Duration'', ''flow_duration''),
    (''Tot Fwd Pkts'', ''total_fwd_packets''), (''TotLen Fwd Pkts'', ''total_fwd_bytes''),
    (''Flow Byts/s'', ''flow_bytes_per_sec''), (''Flow Pkts/s'', ''flow_packets_per_sec''),
    (''Pkt Len Min'', ''packet_len_min''), (''Pkt Len Max'', ''packet_len_max''),
    (''Pkt Len Mean'', ''packet_len_mean''), (''Pkt Len Std'', ''packet_len_std''),
    (''Pkt Len Var'', ''packet_len_variance''), (''Pkt Size Avg'', ''avg_packet_size''),
    (''Fwd Pkt Len Min'', ''fwd_packet_len_min''), (''Fwd Pkt Len Max'', ''fwd_packet_len_max''),
    (''Fwd Pkt Len Mean'', ''fwd_packet_len_mean''), (''Fwd Pkt Len Std'', ''fwd_packet_len_std''),
    (''Flow IAT Min'', ''flow_iat_min''), (''Flow IAT Max'', ''flow_iat_max''),
    (''Flow IAT Mean'', ''flow_iat_mean''), (''Flow IAT Std'', ''flow_iat_std''),
    (''Fwd IAT Min'', ''fwd_iat_min''), (''Fwd IAT Max'', ''fwd_iat_max''),
    (''Fwd IAT Mean'', ''fwd_iat_mean''), (''Fwd IAT Std'', ''fwd_iat_std''),
    (''Fwd IAT Tot'', ''fwd_iat_total''), (''Fwd Pkts/s'', ''fwd_packets_per_sec''),
    (''FIN Flag Cnt'', ''fin_flag_count''), (''SYN Flag Cnt'', ''syn_flag_count''),
    (''RST Flag Cnt'', ''rst_flag_count''), (''PSH Flag Cnt'', ''psh_flag_count''),
    (''ACK Flag Cnt'', ''ack_flag_count''), (''URG Flag Cnt'', ''urg_flag_count''),
    (''Fwd Header Len'', ''fwd_header_length''), (''Init Fwd Win Byts'', ''init_win_bytes_forward''),
    (''Fwd Act Data Pkts'', ''act_data_pkt_fwd''), (''Fwd Seg Size Min'', ''min_seg_size_forward'')]"

definition RAW_MICROSECOND_COLUMNS :: "string list" where
  "RAW_MICROSECOND_COLUMNS = [''Flow Duration'', ''Flow IAT Min'', ''Flow IAT Max'', ''Flow IAT Mean'',
     ''Flow IAT Std'', ''Fwd IAT Min'', ''Fwd IAT Max'', ''Fwd IAT Mean'', ''Fwd IAT Std'', ''Fwd IAT Tot'']"

definition renamed :: "string \<Rightarrow> string" where
  "renamed c = (case map_of CICIDS2018_TO_INTERNAL c of None \<Rightarrow> c | Some k \<Rightarrow> k)"

fun pyfloat_scale :: "real \<Rightarrow> pyfloat \<Rightarrow> pyfloat" where
  "pyfloat_scale k (Fin x) = Fin (x / k)"
| "pyfloat_scale k f = f"

definition coerce_raw_cell :: "coercion \<Rightarrow> string \<Rightarrow> cell \<Rightarrow> pyfloat" where
  "coerce_raw_cell co column c =
     (let f = to_numeric (co_parse co) c
      in if column \<in> set RAW_MICROSECOND_COLUMNS then pyfloat_scale 1000000 f else f)"

text \<open>A file is taken to have no two columns with the same canonical name; pandas would keep both.\<close>

definition coerce_row :: "coercion \<Rightarrow> row \<Rightarrow> (string \<times> pyfloat) list" where
  "coerce_row co r =
     (let mapped = map (\<lambda>(c, v). (renamed (strip c), coerce_raw_cell co (strip c) v)) r
      in map (\<lambda>c. (c, case map_of mapped c of None \<Rightarrow> NaN | Some f \<Rightarrow> f)) FEATURE_COLUMNS)"

definition coerce_cicids2018_features ::
    "coercion \<Rightarrow> string list \<Rightarrow> row list \<Rightarrow> dataset_error + (string \<times> pyfloat) list list" where
  "coerce_cicids2018_features co columns rows =
     (let mapped = map (renamed \<circ> strip) columns in
      if list_all (\<lambda>f. f \<in> set mapped) FEATURE_COLUMNS then Inr (map (coerce_row co) rows) else Inl BadValue)"

definition is_finite :: "pyfloat \<Rightarrow> bool" where
  "is_finite f = (case f of Fin _ \<Rightarrow> True | _ \<Rightarrow> False)"

definition prepare_cicids2018_features ::
    "coercion \<Rightarrow> string list \<Rightarrow> row list \<Rightarrow> dataset_error + (string \<times> pyfloat) list list" where
  "prepare_cicids2018_features co columns rows =
     (case coerce_cicids2018_features co columns rows of
        Inl e \<Rightarrow> Inl e
      | Inr features \<Rightarrow>
          if list_all (list_all (is_finite \<circ> snd)) features then Inr features else Inl BadValue)"

subsection \<open>Facts\<close>

lemma counted_tick: "counted (tick k c) l = counted c l + (if l = k then 1 else 0)"
  by (simp add: tick_def counted_def)

lemma counted_sorted [simp]: "counted (sorted_counts c) l = counted c l"
proof -
  have "map_of (map (\<lambda>k. (k, f k)) ks) l = (if l \<in> set ks then Some (f l) else None)" for f :: "string \<Rightarrow> nat" and ks
    by (induction ks) auto
  then show ?thesis by (simp add: sorted_counts_def counted_def dget_None_iff [symmetric] split: option.splits)
qed

lemma wf_tick [simp]: "wf_dict c \<Longrightarrow> wf_dict (tick k c)"
  by (simp add: tick_def)

lemma sum_tick: "wf_dict c \<Longrightarrow> sum_list (map snd (tick k c)) = Suc (sum_list (map snd c))"
  by (induction c) (auto simp: tick_def counted_def)

lemma sum_ticks: "wf_dict c \<Longrightarrow> sum_list (map snd (fold (\<lambda>x. tick (f x)) xs c)) = sum_list (map snd c) + length xs \<and>
    wf_dict (fold (\<lambda>x. tick (f x)) xs c)"
  by (induction xs arbitrary: c) (simp_all add: sum_tick)

definition labelled :: "string \<Rightarrow> clean_row list \<Rightarrow> nat" where
  "labelled l rows = length (filter (\<lambda>r. cl_label r = l) rows)"

lemma labelled_simps [simp]:
  "labelled l [] = 0" "labelled l (r # rows) = (if cl_label r = l then 1 else 0) + labelled l rows"
  "labelled l (xs @ ys) = labelled l xs + labelled l ys"
  by (simp_all add: labelled_def)

lemma counted_fold: "counted (fold (\<lambda>r. tick (cl_label r)) rows c) l = counted c l + labelled l rows"
  by (induction rows arbitrary: c) (simp_all add: counted_tick)

lemma counted_labels: "counted (count_labels rows) l = labelled l rows"
  by (simp add: count_labels_def counted_fold) (simp add: counted_def)

lemma counted_targets: "counted (compute_test_targets ts c) l =
    (case map_of c l of None \<Rightarrow> 0 | Some n \<Rightarrow> test_target ts n)"
  by (induction c) (auto simp: compute_test_targets_def counted_def)

lemma test_target_le: "ts < 1 \<Longrightarrow> test_target ts n \<le> n"
proof -
  assume ts: "ts < 1"
  have "round_half_even (real n * ts) \<le> round_half_even (of_int (int n))"
    using ts by (intro round_half_even_mono) (simp add: mult_left_le)
  then have "round_half_even (real n * ts) \<le> int n" by (simp only: round_half_even_of_int)
  then show ?thesis unfolding test_target_def Let_def by (auto simp: nat_le_iff)
qed

lemma test_target_0: "test_target ts 0 = 0"
  using round_half_even_of_int [of 0] by (simp add: test_target_def)

lemma targets_of_labels: "counted (compute_test_targets ts (count_labels rows)) l = test_target ts (labelled l rows)"
  using counted_labels [of rows l] unfolding counted_targets
  by (auto simp: counted_def test_target_0 split: option.splits)


definition split_ok :: "counter \<Rightarrow> counter \<Rightarrow> clean_row list \<Rightarrow> 'r splitter \<Rightarrow> bool" where
  "split_ok totals targets past sp \<longleftrightarrow>
     mset (sp_train sp) + mset (sp_test sp) = mset past \<and> subseq (sp_train sp) past \<and> subseq (sp_test sp) past \<and>
     (\<forall>l. counted (sp_seen_counts sp) l = labelled l past \<and> counted (sp_test_counts sp) l = labelled l (sp_test sp) \<and>
       counted (sp_train_counts sp) l = labelled l (sp_train sp) \<and>
       labelled l (sp_test sp) \<le> counted targets l \<and>
       counted targets l - labelled l (sp_test sp) \<le> counted totals l - labelled l past)"

lemma split_row_ok:
  assumes ok: "split_ok totals targets past sp" and more: "labelled (cl_label r) past < counted totals (cl_label r)"
  shows "split_ok totals targets (past @ [r]) (split_row draw totals targets r sp)"
proof -
  let ?l = "cl_label r"
  let ?total = "int (counted totals ?l) - int (labelled ?l past)"
  let ?test = "int (counted targets ?l) - int (labelled ?l (sp_test sp))"
  have seen: "counted (sp_seen_counts sp) l = labelled l past"
    and test: "counted (sp_test_counts sp) l = labelled l (sp_test sp)"
    and train: "counted (sp_train_counts sp) l = labelled l (sp_train sp)"
    and le: "labelled l (sp_test sp) \<le> counted targets l"
      "counted targets l - labelled l (sp_test sp) \<le> counted totals l - labelled l past" for l
    using ok by (auto simp: split_ok_def)
  obtain chosen rng where c: "choose_test draw ?test ?total (sp_rng sp) = (chosen, rng)" by fastforce
  have yes: "chosen \<Longrightarrow> 0 < ?test" and no: "\<not> chosen \<Longrightarrow> ?test < ?total \<or> ?test \<le> 0"
    using c le [of ?l] by (auto simp: choose_test_def split: if_splits prod.splits)
  have e: "split_row draw totals targets r sp =
    (if chosen then sp\<lparr>sp_rng := rng, sp_seen_counts := tick ?l (sp_seen_counts sp),
        sp_test_counts := tick ?l (sp_test_counts sp), sp_test := sp_test sp @ [r]\<rparr>
     else sp\<lparr>sp_rng := rng, sp_seen_counts := tick ?l (sp_seen_counts sp),
        sp_train_counts := tick ?l (sp_train_counts sp), sp_train := sp_train sp @ [r]\<rparr>)"
    using c by (simp add: split_row_def Let_def counted_tick seen test split: bool.splits)
  show ?thesis
  proof (cases chosen)
    case True
    with yes le [of ?l] more have "labelled ?l (sp_test sp) < counted targets ?l" by linarith
    moreover have "counted targets ?l - Suc (labelled ?l (sp_test sp)) \<le> counted totals ?l - Suc (labelled ?l past)"
      using le(2) [of ?l] by linarith
    ultimately show ?thesis using True e ok le more
      by (auto simp: split_ok_def counted_tick intro: subseq_order.trans)
  next
    case False
    with no le [of ?l] more have "counted targets ?l - labelled ?l (sp_test sp) \<le> counted totals ?l - labelled ?l past - 1"
      by linarith
    then show ?thesis using False e ok le more
      by (auto simp: split_ok_def counted_tick intro: subseq_order.trans)
  qed
qed


lemma split_rows_ok:
  assumes "split_ok totals targets past sp" and "\<And>l. labelled l (past @ rows) \<le> counted totals l"
  shows "split_ok totals targets (past @ rows) (fold (split_row draw totals targets) rows sp)"
  using assms
proof (induction rows arbitrary: past sp)
  case (Cons r rows)
  have "labelled (cl_label r) past < counted totals (cl_label r)"
    using Cons.prems(2) [of "cl_label r"] by simp
  from split_row_ok [OF Cons.prems(1) this] Cons.IH [of "past @ [r]"] Cons.prems(2) show ?case by simp
qed simp

text \<open>
  C14: The split is exact whatever the random numbers are. Every cleaned row lands in exactly one of
  the two outputs, in its order, and the test output gets of each label exactly its target, the
  rounded share of that label's rows; the counters of the metadata are those of the outputs.
\<close>
theorem split_meets_targets:
  assumes "test_size < 1"
  shows "let sp = split_rows draw rng test_size rows in
    mset (sp_train sp) + mset (sp_test sp) = mset rows \<and> subseq (sp_train sp) rows \<and> subseq (sp_test sp) rows \<and>
    labelled l (sp_test sp) = test_target test_size (labelled l rows) \<and>
    counted (sp_train_counts sp) l = labelled l (sp_train sp) \<and> counted (sp_test_counts sp) l = labelled l (sp_test sp)"
proof -
  let ?totals = "count_labels rows"
  let ?targets = "compute_test_targets test_size ?totals"
  let ?sp = "split_rows draw rng test_size rows"
  have "split_ok ?totals ?targets [] (splitter_init rng)"
    using test_target_le [OF assms]
    by (simp add: split_ok_def splitter_init_def targets_of_labels counted_labels) (simp add: counted_def)
  then have "split_ok ?totals ?targets ([] @ rows) (fold (split_row draw ?totals ?targets) rows (splitter_init rng))"
    by (rule split_rows_ok) (simp add: counted_labels)
  then have ok: "split_ok ?totals ?targets rows ?sp" by (simp add: split_rows_def Let_def)
  then have "labelled l (sp_test ?sp) = test_target test_size (labelled l rows)"
    by (auto simp: split_ok_def targets_of_labels counted_labels intro!: antisym)
  with ok show ?thesis by (simp add: split_ok_def Let_def)
qed

theorem split_meets_targets_witness:
  "labelled ''a'' (sp_test (split_rows (Pair 0) () (1 / 2) (replicate 4 \<lparr>cl_features = [], cl_label = ''a''\<rparr>))) = 2"
proof -
  have rows: "labelled ''a'' (replicate 4 \<lparr>cl_features = [], cl_label = ''a''\<rparr>) = 4" by (simp add: labelled_def)
  have "round_half_even (real 4 * (1 / 2)) = 2" using round_half_even_of_int [of 2] by simp
  then have target: "test_target (1 / 2) 4 = 2" by (simp add: test_target_def)
  have "(1 / 2 :: real) < 1" by simp
  from split_meets_targets [OF this, of "Pair 0" "()" "replicate 4 \<lparr>cl_features = [], cl_label = ''a''\<rparr>" "''a''"]
  show ?thesis unfolding Let_def rows target by blast
qed

definition fits_schema :: "string \<Rightarrow> feature \<Rightarrow> bool" where
  "fits_schema c v = (case v of
       FInt i \<Rightarrow> c \<in> set INT_COLUMNS \<and> 0 \<le> i \<and> (c = ''protocol'' \<longrightarrow> i \<in> {0, 1, 6, 17}) \<and>
         (c = ''dst_port'' \<longrightarrow> i \<le> 65535)
     | FFloat x \<Rightarrow> c \<notin> set INT_COLUMNS \<and> 0 \<le> x)"

text \<open>
  A cleaned row fits the schema: its columns are the feature columns in their order, none is
  negative, exactly the integer columns hold integers, the protocol is one the model knows, the
  port is one, and the label is stripped and no placeholder.
\<close>
theorem sanitized_row_valid:
  assumes "\<And>i. 0 \<le> i \<Longrightarrow> i \<le> 65535 \<Longrightarrow> co_int64 co i = i" and "\<And>i. 0 \<le> i \<Longrightarrow> 0 \<le> co_int64 co i"
    and "sanitize_row co r = Some row"
  shows "map fst (cl_features row) = FEATURE_COLUMNS \<and>
    (\<forall>(c, v) \<in> set (cl_features row). fits_schema c v) \<and>
    strip (cl_label row) = cl_label row \<and> lower (cl_label row) \<notin> set BAD_LABELS"
proof -
  obtain label where label: "clean_label (co_repr co) (cell_of r LABEL_COLUMN) = Some label"
    and row: "row = \<lparr>cl_features = map (\<lambda>c. (c, clean_value (co_int64 co) c
      (clipped (to_numeric (co_parse co) (cell_of r c))))) FEATURE_COLUMNS, cl_label = label\<rparr>"
    using assms(3) by (auto simp: sanitize_row_def)
  have pos: "0 \<le> clipped f" for f by (auto simp: clipped_def split: pyfloat.split)
  have round: "0 \<le> round_half_even x" if "0 \<le> x" for x
    using round_half_even_mono [of 0 x] round_half_even_of_int [of 0] that by simp
  have special: "''protocol'' \<in> set INT_COLUMNS" "''dst_port'' \<in> set INT_COLUMNS" by (simp_all add: INT_COLUMNS_def)
  have entry: "fits_schema c (clean_value (co_int64 co) c x)" if "0 \<le> x" for c x
  proof (cases "c = ''protocol'' \<or> c = ''dst_port''")
    case True
    with special round [OF that] assms(1,2) show ?thesis
      by (auto simp: fits_schema_def clean_value_def VALID_PROTOCOLS_def Let_def)
  next
    case False
    with round [OF that] assms(2) that show ?thesis by (auto simp: fits_schema_def clean_value_def)
  qed
  have "strip label = label \<and> lower label \<notin> set BAD_LABELS"
    using label by (auto simp: clean_label_def Let_def split: option.splits cell.splits if_splits)
  with row entry [OF pos] show ?thesis by (auto simp: comp_def)
qed

theorem sanitized_row_valid_witness:
  "\<exists>row. sanitize_row \<lparr>co_parse = (\<lambda>_. None), co_repr = (\<lambda>_. []), co_int64 = id\<rparr> [(LABEL_COLUMN, Text ''x'')] = Some row \<and>
     map fst (cl_features row) = FEATURE_COLUMNS \<and> lower (cl_label row) \<notin> set BAD_LABELS"
proof -
  let ?co = "\<lparr>co_parse = (\<lambda>_. None), co_repr = (\<lambda>_. []), co_int64 = id\<rparr>"
  have "clean_label (co_repr ?co) (cell_of [(LABEL_COLUMN, Text ''x'')] LABEL_COLUMN) = Some ''x''"
    by (simp add: clean_label_def cell_of_def BAD_LABELS_def strip_def lstrip_def rstrip_def py_space_def
        lower_def lower_char_def)
  then obtain row where row: "sanitize_row ?co [(LABEL_COLUMN, Text ''x'')] = Some row"
    by (simp add: sanitize_row_def)
  have "0 \<le> i \<Longrightarrow> i \<le> 65535 \<Longrightarrow> co_int64 ?co i = i" "0 \<le> i \<Longrightarrow> 0 \<le> co_int64 ?co i" for i by simp_all
  from sanitized_row_valid [OF this row] row show ?thesis by blast
qed

text \<open>
  The label mapping is stable: normalising a normalised label changes nothing, so that data
  prepared twice carries the same classes.
\<close>
theorem normalize_label_idempotent:
  "normalize_cicids2018_label (normalize_cicids2018_label label) = normalize_cicids2018_label label"
proof -
  let ?n = normalize_cicids2018_label
  note ev = normalize_cicids2018_label_def contains_str_def strip_def lstrip_def rstrip_def py_space_def
    lower_def lower_char_def Let_def
  have fixed: "?n ''Normal Traffic'' = ''Normal Traffic''" "?n ''DDoS'' = ''DDoS''" "?n ''DoS'' = ''DoS''"
    "?n ''Brute Force'' = ''Brute Force''" "?n ''Bots'' = ''Bots''" "?n ''Web Attacks'' = ''Web Attacks''"
    "?n ''Infiltration'' = ''Infiltration''" "?n ''Heartbleed'' = ''Heartbleed''"
    by (simp_all add: ev char_of_def)
  have "?n label \<in> {''Normal Traffic'', ''DDoS'', ''DoS'', ''Brute Force'', ''Bots'', ''Web Attacks'',
      ''Infiltration'', ''Heartbleed''} \<or> ?n label = strip label \<and> ?n (strip label) = ?n label"
    unfolding normalize_cicids2018_label_def Let_def by (simp add: strip_strip)
  with fixed show ?thesis by (elim disjE insertE) simp_all
qed

text \<open>A coercion that parses no text, for the examples.\<close>

definition plain_coercion :: coercion where
  "plain_coercion = \<lparr>co_parse = (\<lambda>_. None), co_repr = (\<lambda>_. []), co_int64 = id\<rparr>"

end
