(* ===== verification/Metrics.thy ===== *)
theory Metrics
  imports Datasets
begin

text \<open>
  The confusion matrix and the metrics of the trained models (\<open>_metrics_from_confusion_matrix\<close> of
  \<open>ml/training/train_xgboost_cicids2018.py\<close>, shared by its evaluation): precision, recall, F1 and
  support per class, their weighted means and the accuracy, with what the cells of a matrix count.
\<close>

subsection \<open>Confusion matrices\<close>

text \<open>A row for each class that occurs, a column for each class that is predicted.\<close>

type_synonym matrix = "nat list list"

definition zero_matrix :: "nat \<Rightarrow> matrix" where
  "zero_matrix n = replicate n (replicate n 0)"

definition bump :: "nat \<times> nat \<Rightarrow> matrix \<Rightarrow> dataset_error + matrix" where
  "bump = (\<lambda>(actual, predicted) m.
     if actual < length m \<and> predicted < length (m ! actual)
     then Inr (m[actual := (m ! actual)[predicted := m ! actual ! predicted + 1]]) else Inl BadIndex)"

definition row_sums :: "matrix \<Rightarrow> nat list" where "row_sums m = map sum_list m"

definition column_sums :: "matrix \<Rightarrow> nat list" where
  "column_sums m = map (\<lambda>j. sum_list (map (\<lambda>r. r ! j) m)) [0..<length m]"

definition diagonal :: "matrix \<Rightarrow> nat list" where
  "diagonal m = map (\<lambda>i. m ! i ! i) [0..<length m]"

definition matrix_total :: "matrix \<Rightarrow> nat" where "matrix_total m = sum_list (row_sums m)"

definition square :: "nat \<Rightarrow> matrix \<Rightarrow> bool" where
  "square n m \<longleftrightarrow> length m = n \<and> list_all (\<lambda>r. length r = n) m"

subsection \<open>Metrics\<close>

text \<open>\<open>np.divide(a, b, out=zeros, where=b > 0)\<close>, entry by entry.\<close>

definition divide_where :: "real list \<Rightarrow> real list \<Rightarrow> real list" where
  "divide_where = map2 (\<lambda>a b. if 0 < b then a / b else 0)"

definition dot :: "real list \<Rightarrow> real list \<Rightarrow> real" where
  "dot xs ys = sum_list (map2 (*) xs ys)"

record averages =
  av_precision :: real
  av_recall :: real
  av_f1 :: real
  av_support :: real

datatype report_entry = Averages averages | Score real

record metrics =
  me_accuracy :: real
  me_precision_weighted :: real
  me_recall_weighted :: real
  me_f1_weighted :: real
  me_confusion :: matrix
  me_report :: "(string, report_entry) pydict"

definition class_support :: "matrix \<Rightarrow> real list" where
  "class_support m = map real (row_sums m)"

definition class_precision :: "matrix \<Rightarrow> real list" where
  "class_precision m = divide_where (map real (diagonal m)) (map real (column_sums m))"

definition class_recall :: "matrix \<Rightarrow> real list" where
  "class_recall m = divide_where (map real (diagonal m)) (class_support m)"

definition class_f1 :: "matrix \<Rightarrow> real list" where
  "class_f1 m = divide_where (map2 (\<lambda>p r. 2 * p * r) (class_precision m) (class_recall m))
     (map2 (+) (class_precision m) (class_recall m))"

definition weighted_divisor :: "matrix \<Rightarrow> real" where
  "weighted_divisor m = (if 0 < sum_list (class_support m) then sum_list (class_support m) else 1)"

definition class_averages :: "matrix \<Rightarrow> nat \<Rightarrow> averages" where
  "class_averages m i = \<lparr>av_precision = class_precision m ! i, av_recall = class_recall m ! i,
     av_f1 = class_f1 m ! i, av_support = class_support m ! i\<rparr>"

definition metrics_from_confusion_matrix :: "matrix \<Rightarrow> string list \<Rightarrow> dataset_error + metrics" where
  "metrics_from_confusion_matrix confusion label_names =
     (let support = class_support confusion; divisor = weighted_divisor confusion;
          weighted_precision = dot (class_precision confusion) support / divisor;
          weighted_recall = dot (class_recall confusion) support / divisor;
          weighted_f1 = dot (class_f1 confusion) support / divisor;
          accuracy = (if matrix_total confusion \<noteq> 0
            then sum_list (map real (diagonal confusion)) / real (matrix_total confusion) else 0);
          classes = fold (\<lambda>(i, name). AList.update name (Averages (class_averages confusion i)))
            (enumerate 0 label_names) [];
          report = AList.update ''weighted avg'' (Averages \<lparr>av_precision = weighted_precision,
              av_recall = weighted_recall, av_f1 = weighted_f1, av_support = divisor\<rparr>)
            (AList.update ''accuracy'' (Score accuracy) classes)
      in if length confusion < length label_names then Inl BadIndex
         else Inr \<lparr>me_accuracy = accuracy, me_precision_weighted = weighted_precision,
           me_recall_weighted = weighted_recall, me_f1_weighted = weighted_f1,
           me_confusion = confusion, me_report = report\<rparr>)"

subsection \<open>Facts about matrices and metrics\<close>

lemma square_zero [simp]: "square n (zero_matrix n)"
  by (simp add: square_def zero_matrix_def list_all_length)

lemma square_iff: "square n m \<longleftrightarrow> length m = n \<and> (\<forall>i<n. length (m ! i) = n)"
  by (auto simp: square_def list_all_length)

lemma square_row: "square n m \<Longrightarrow> i < n \<Longrightarrow> length (m ! i) = n"
  by (simp add: square_iff)

lemma square_bump: "square n m \<Longrightarrow> bump (a, p) m = (if a < n \<and> p < n
    then Inr (m[a := (m ! a)[p := m ! a ! p + 1]]) else Inl BadIndex)"
  using square_row [of n m a] by (auto simp: bump_def square_def)

lemma bump_square: "square n m \<Longrightarrow> bump (a, p) m = Inr m' \<Longrightarrow> square n m'"
proof -
  assume sq: "square n m" and "bump (a, p) m = Inr m'"
  then have "m' = m[a := (m ! a)[p := m ! a ! p + 1]]" "a < n" by (simp_all add: square_bump split: if_splits)
  with sq show "square n m'" by (auto simp add: square_iff nth_list_update)
qed

lemma bump_nth:
  assumes "square n m" and "bump (a, p) m = Inr m'" and "i < n" and "j < n"
  shows "m' ! i ! j = m ! i ! j + (if i = a \<and> j = p then 1 else 0)"
proof -
  from assms have "a < n" "p < n" "m' = m[a := (m ! a)[p := m ! a ! p + 1]]"
    by (simp_all add: square_bump split: if_splits)
  with assms show ?thesis by (simp add: square_iff nth_list_update)
qed

lemma row_sums_nth: "square n m \<Longrightarrow> i < n \<Longrightarrow> row_sums m ! i = (\<Sum>j<n. m ! i ! j)"
  using square_row [of n m i] by (simp add: row_sums_def square_def sum_list_sum_nth atLeast0LessThan)

lemma column_sums_nth: "square n m \<Longrightarrow> j < n \<Longrightarrow> column_sums m ! j = (\<Sum>i<n. m ! i ! j)"
  by (simp add: column_sums_def square_def sum_list_sum_nth atLeast0LessThan)

lemma matrix_total_eq: "square n m \<Longrightarrow> matrix_total m = (\<Sum>i<n. \<Sum>j<n. m ! i ! j)"
proof -
  assume sq: "square n m"
  then have "matrix_total m = (\<Sum>i<n. row_sums m ! i)"
    by (simp add: matrix_total_def sum_list_sum_nth atLeast0LessThan row_sums_def square_def)
  with sq show ?thesis by (simp add: row_sums_nth)
qed

lemma length_sums [simp]:
  "length (row_sums m) = length m" "length (column_sums m) = length m" "length (diagonal m) = length m"
  "length (divide_where xs ys) = min (length xs) (length ys)"
  by (simp_all add: row_sums_def column_sums_def diagonal_def divide_where_def)

lemma diagonal_le:
  assumes "square n m" and "i < n"
  shows "diagonal m ! i \<le> row_sums m ! i" and "diagonal m ! i \<le> column_sums m ! i"
proof -
  have d: "diagonal m ! i = m ! i ! i" using assms by (simp add: diagonal_def square_def)
  have "m ! i ! i \<le> (\<Sum>j<n. m ! i ! j)" "m ! i ! i \<le> (\<Sum>k<n. m ! k ! i)"
    using assms(2) member_le_sum [of i "{..<n}" "\<lambda>j. m ! i ! j"] member_le_sum [of i "{..<n}" "\<lambda>k. m ! k ! i"]
    by simp_all
  then show "diagonal m ! i \<le> row_sums m ! i" "diagonal m ! i \<le> column_sums m ! i"
    by (simp_all add: d row_sums_nth [OF assms] column_sums_nth [OF assms])
qed

lemma divide_where_nth:
  "i < length xs \<Longrightarrow> i < length ys \<Longrightarrow> divide_where xs ys ! i = (if 0 < ys ! i then xs ! i / ys ! i else 0)"
  by (simp add: divide_where_def)

lemma dot_sum: "length xs = n \<Longrightarrow> length ys = n \<Longrightarrow> dot xs ys = (\<Sum>i<n. xs ! i * ys ! i)"
  by (simp add: dot_def sum_list_sum_nth atLeast0LessThan)

text \<open>A weighted mean of numbers between 0 and 1 is between 0 and 1.\<close>

lemma weighted_unit:
  assumes "length xs = length ws" and "\<And>i. i < length ws \<Longrightarrow> 0 \<le> xs ! i \<and> xs ! i \<le> 1 \<and> 0 \<le> ws ! i"
  shows "0 \<le> dot xs ws / (if 0 < sum_list ws then sum_list ws else 1) \<and>
    dot xs ws / (if 0 < sum_list ws then sum_list ws else 1) \<le> (1 :: real)"
proof -
  have d: "dot xs ws = (\<Sum>i<length ws. xs ! i * ws ! i)" by (rule dot_sum) (simp_all add: assms(1))
  have s: "sum_list ws = (\<Sum>i<length ws. ws ! i)" by (simp add: sum_list_sum_nth atLeast0LessThan)
  have "0 \<le> dot xs ws" unfolding d using assms(2) by (intro sum_nonneg) simp
  moreover have "dot xs ws \<le> sum_list ws"
    unfolding d s using assms(2) by (intro sum_mono) (simp add: mult_left_le_one_le)
  ultimately show ?thesis by (auto simp: divide_simps)
qed

lemma f1_between:
  fixes p r :: real
  assumes "0 \<le> p" "0 \<le> r" "0 < p + r"
  shows "min p r \<le> 2 * p * r / (p + r)" and "2 * p * r / (p + r) \<le> max p r"
proof -
  have "min p r * (p + r) \<le> 2 * p * r"
  proof (cases "p \<le> r")
    case True
    then have "p * p \<le> p * r" using assms(1) by (intro mult_left_mono)
    then show ?thesis using True by (simp add: algebra_simps)
  next
    case False
    then have "r * r \<le> p * r" using assms(2) by (intro mult_right_mono) simp_all
    then show ?thesis using False by (simp add: algebra_simps)
  qed
  moreover have "2 * p * r \<le> max p r * (p + r)"
  proof (cases "p \<le> r")
    case True
    then have "p * r \<le> r * r" using assms(2) by (intro mult_right_mono)
    then show ?thesis using True by (simp add: algebra_simps)
  next
    case False
    then have "p * r \<le> p * p" using assms(1) by (intro mult_left_mono) simp_all
    then show ?thesis using False by (simp add: algebra_simps)
  qed
  ultimately show "min p r \<le> 2 * p * r / (p + r)" "2 * p * r / (p + r) \<le> max p r"
    using assms(3) by (simp_all add: pos_le_divide_eq pos_divide_le_eq)
qed

lemma class_bounds:
  assumes "square n m" and "i < n"
  shows "0 \<le> class_precision m ! i \<and> class_precision m ! i \<le> 1"
    and "0 \<le> class_recall m ! i \<and> class_recall m ! i \<le> 1"
    and "min (class_precision m ! i) (class_recall m ! i) \<le> class_f1 m ! i \<and>
      class_f1 m ! i \<le> max (class_precision m ! i) (class_recall m ! i)"
proof -
  have n: "length m = n" using assms(1) by (simp add: square_def)
  show p: "0 \<le> class_precision m ! i \<and> class_precision m ! i \<le> 1"
    using diagonal_le [OF assms] assms(2) n by (simp add: class_precision_def divide_where_nth divide_le_eq)
  show r: "0 \<le> class_recall m ! i \<and> class_recall m ! i \<le> 1"
    using diagonal_le [OF assms] assms(2) n by (simp add: class_recall_def class_support_def divide_where_nth divide_le_eq)
  have "class_f1 m ! i = (if 0 < class_precision m ! i + class_recall m ! i
      then 2 * class_precision m ! i * class_recall m ! i / (class_precision m ! i + class_recall m ! i) else 0)"
    using assms(2) n by (simp add: class_f1_def divide_where_nth class_precision_def class_recall_def class_support_def)
  then show "min (class_precision m ! i) (class_recall m ! i) \<le> class_f1 m ! i \<and>
      class_f1 m ! i \<le> max (class_precision m ! i) (class_recall m ! i)"
    using p r f1_between [of "class_precision m ! i" "class_recall m ! i"] by auto
qed

lemma length_class [simp]:
  "length (class_precision m) = length m" "length (class_recall m) = length m"
  "length (class_f1 m) = length m" "length (class_support m) = length m"
  by (simp_all add: class_precision_def class_recall_def class_f1_def class_support_def)

lemma total_support: "sum_list (class_support m) = real (matrix_total m)"
  by (induction m) (simp_all add: class_support_def matrix_total_def row_sums_def)

lemma class_cells:
  assumes "square n m" and "i < n"
  shows "class_support m ! i = (\<Sum>j<n. real (m ! i ! j))"
    and "class_recall m ! i * class_support m ! i = real (m ! i ! i)"
    and "class_precision m ! i * (\<Sum>k<n. real (m ! k ! i)) = real (m ! i ! i)"
proof -
  have n: "length m = n" using assms(1) by (simp add: square_def)
  have d: "diagonal m ! i = m ! i ! i" using assms(2) n by (simp add: diagonal_def)
  have s: "class_support m ! i = real (row_sums m ! i)" using assms(2) n by (simp add: class_support_def)
  then show "class_support m ! i = (\<Sum>j<n. real (m ! i ! j))" by (simp add: row_sums_nth [OF assms])
  show "class_recall m ! i * class_support m ! i = real (m ! i ! i)"
    using diagonal_le [OF assms] assms(2) n s d by (auto simp: class_recall_def divide_where_nth)
  have "class_precision m ! i * real (column_sums m ! i) = real (m ! i ! i)"
    using diagonal_le [OF assms] assms(2) n d by (auto simp: class_precision_def divide_where_nth)
  then show "class_precision m ! i * (\<Sum>k<n. real (m ! k ! i)) = real (m ! i ! i)"
    by (simp add: column_sums_nth [OF assms])
qed

lemma dot_recall:
  assumes "square n m"
  shows "dot (class_recall m) (class_support m) = sum_list (map real (diagonal m))"
proof -
  have n: "length m = n" using assms by (simp add: square_def)
  then show ?thesis
    using class_cells(2) [OF assms] by (simp add: dot_sum sum_list_sum_nth atLeast0LessThan diagonal_def)
qed

lemma diagonal_total:
  assumes "square n m"
  shows "sum_list (map real (diagonal m)) \<le> real (matrix_total m)" and "0 \<le> sum_list (map real (diagonal m))"
proof -
  show "0 \<le> sum_list (map real (diagonal m))" by (rule sum_list_nonneg) auto
  have n: "length m = n" using assms by (simp add: square_def)
  have "(\<Sum>i<n. real (diagonal m ! i)) \<le> (\<Sum>i<n. real (row_sums m ! i))"
    using diagonal_le [OF assms] by (intro sum_mono) simp
  then show "sum_list (map real (diagonal m)) \<le> real (matrix_total m)"
    by (simp add: matrix_total_def sum_list_sum_nth atLeast0LessThan n)
qed

lemma fold_update_other: "y \<notin> set xs \<Longrightarrow>
    map_of (fold (\<lambda>(i, x). AList.update x (f i)) (enumerate k xs) d) y = map_of d y"
  by (induction xs arbitrary: k d) auto

lemma fold_update_enumerate: "distinct xs \<Longrightarrow> i < length xs \<Longrightarrow>
    map_of (fold (\<lambda>(i, x). AList.update x (f i)) (enumerate k xs) d) (xs ! i) = Some (f (k + i))"
  by (induction xs arbitrary: k d i) (auto simp: fold_update_other nth_Cons split: nat.splits)

subsection \<open>What the matrix counts\<close>

lemma foldE_bump:
  assumes "square n m" and "set ps \<subseteq> {..<n} \<times> {..<n}"
  shows "\<exists>m'. foldE bump ps m = Inr m' \<and> square n m' \<and> (\<forall>i<n. \<forall>j<n. m' ! i ! j = m ! i ! j + count_list ps (i, j))"
  using assms
proof (induction ps arbitrary: m)
  case (Cons p ps)
  obtain a b where p: "p = (a, b)" by (cases p)
  with Cons.prems have "a < n" "b < n" by auto
  then obtain m1 where m1: "bump (a, b) m = Inr m1" using Cons.prems(1) by (simp add: square_bump)
  note b = bump_nth [OF Cons.prems(1) m1]
  from Cons.IH [OF bump_square [OF Cons.prems(1) m1]] Cons.prems(2) p obtain m' where
    "foldE bump ps m1 = Inr m'" "square n m'" "\<forall>i<n. \<forall>j<n. m' ! i ! j = m1 ! i ! j + count_list ps (i, j)" by auto
  with b m1 p show ?case by auto
qed simp

lemma sum_count: "finite A \<Longrightarrow> (\<Sum>x\<in>A. count_list ps x) = length (filter (\<lambda>p. p \<in> A) ps)"
proof (induction ps)
  case (Cons p ps)
  have "(\<Sum>x\<in>A. count_list (p # ps) x) = (\<Sum>x\<in>A. count_list ps x + (if p = x then 1 else 0))"
    by (rule sum.cong) simp_all
  with Cons show ?case by (simp add: sum.distrib del: count_list.simps)
qed simp

lemma count_cells:
  fixes n :: nat
  assumes "set ps \<subseteq> {..<n} \<times> {..<n}"
  shows "(\<Sum>j<n. count_list ps (i, j)) = length (filter (\<lambda>p. fst p = i) ps)"
    and "(\<Sum>k<n. count_list ps (k, j)) = length (filter (\<lambda>p. snd p = j) ps)"
    and "(\<Sum>k<n. count_list ps (k, k)) = length (filter (\<lambda>p. fst p = snd p) ps)"
    and "(\<Sum>k<n. \<Sum>j<n. count_list ps (k, j)) = length ps"
proof -
  have along: "(\<Sum>k<n. count_list ps (f k)) = length (filter P ps)"
    if "inj f" "\<And>p. p \<in> set ps \<Longrightarrow> p \<in> f ` {..<n} \<longleftrightarrow> P p" for f P
  proof -
    have "(\<Sum>k<n. count_list ps (f k)) = (\<Sum>x\<in>f ` {..<n}. count_list ps x)"
      using that(1) by (simp add: sum.reindex inj_on_subset)
    also have "\<dots> = length (filter (\<lambda>p. p \<in> f ` {..<n}) ps)" by (rule sum_count) simp
    also have "filter (\<lambda>p. p \<in> f ` {..<n}) ps = filter P ps" using that(2) by (rule filter_cong [OF refl])
    finally show ?thesis .
  qed
  show "(\<Sum>j<n. count_list ps (i, j)) = length (filter (\<lambda>p. fst p = i) ps)"
    using assms by (intro along) (auto simp: inj_def)
  show "(\<Sum>k<n. count_list ps (k, j)) = length (filter (\<lambda>p. snd p = j) ps)"
    using assms by (intro along) (auto simp: inj_def)
  show "(\<Sum>k<n. count_list ps (k, k)) = length (filter (\<lambda>p. fst p = snd p) ps)"
    using assms by (intro along) (auto simp: inj_def)
  have "(\<Sum>k<n. \<Sum>j<n. count_list ps (k, j)) = (\<Sum>x\<in>{..<n} \<times> {..<n}. count_list ps x)"
    by (simp add: sum.cartesian_product)
  moreover have "filter (\<lambda>p. p \<in> {..<n} \<times> {..<n}) ps = ps"
    using assms by (intro filter_True) blast
  ultimately show "(\<Sum>k<n. \<Sum>j<n. count_list ps (k, j)) = length ps" by (simp only: sum_count finite_lessThan finite_SigmaI)
qed

text \<open>The matrix of a list of outcomes.\<close>

definition counts_outcomes :: "nat \<Rightarrow> (nat \<times> nat) list \<Rightarrow> matrix \<Rightarrow> bool" where
  "counts_outcomes n ps m \<longleftrightarrow> square n m \<and> set ps \<subseteq> {..<n} \<times> {..<n} \<and> (\<forall>i<n. \<forall>j<n. m ! i ! j = count_list ps (i, j))"

lemma outcomes_counted:
  assumes "set ps \<subseteq> {..<n} \<times> {..<n}"
  obtains m where "foldE bump ps (zero_matrix n) = Inr m" and "counts_outcomes n ps m"
  using foldE_bump [OF square_zero assms] assms by (auto simp: counts_outcomes_def zero_matrix_def)

lemma counted_sums:
  assumes "counts_outcomes n ps m"
  shows "i < n \<Longrightarrow> row_sums m ! i = length (filter (\<lambda>p. fst p = i) ps)"
    and "i < n \<Longrightarrow> column_sums m ! i = length (filter (\<lambda>p. snd p = i) ps)"
    and "matrix_total m = length ps"
    and "sum_list (diagonal m) = length (filter (\<lambda>p. fst p = snd p) ps)"
proof -
  have sq: "square n m" and sub: "set ps \<subseteq> {..<n} \<times> {..<n}" and cell: "\<And>i j. i < n \<Longrightarrow> j < n \<Longrightarrow> m ! i ! j = count_list ps (i, j)"
    using assms by (auto simp: counts_outcomes_def)
  have n: "length m = n" using sq by (simp add: square_def)
  show "i < n \<Longrightarrow> row_sums m ! i = length (filter (\<lambda>p. fst p = i) ps)"
    using cell by (simp add: row_sums_nth [OF sq] count_cells [OF sub, symmetric])
  show "i < n \<Longrightarrow> column_sums m ! i = length (filter (\<lambda>p. snd p = i) ps)"
    using cell by (simp add: column_sums_nth [OF sq] count_cells [OF sub, symmetric])
  show "matrix_total m = length ps"
    using cell by (simp add: matrix_total_eq [OF sq] count_cells [OF sub, symmetric])
  show "sum_list (diagonal m) = length (filter (\<lambda>p. fst p = snd p) ps)"
    using cell by (simp add: diagonal_def n sum_list_sum_nth atLeast0LessThan count_cells [OF sub, symmetric])
qed

text \<open>
  The metrics are what their names say, for every confusion matrix with a row and a column per
  class: recall and precision of a class are the hits over its row and over its column, F1 lies
  between them, everything is between 0 and 1 also where a class never occurs or is never
  predicted, and the weighted recall is the accuracy.
\<close>
theorem metrics_sound:
  assumes "square (length names) m" and "distinct names" and "''accuracy'' \<notin> set names" and "''weighted avg'' \<notin> set names"
  shows "\<exists>me. metrics_from_confusion_matrix m names = Inr me \<and> 0 \<le> me_accuracy me \<and> me_accuracy me \<le> 1 \<and>
    me_recall_weighted me = me_accuracy me \<and> 0 \<le> me_precision_weighted me \<and> me_precision_weighted me \<le> 1 \<and>
    0 \<le> me_f1_weighted me \<and> me_f1_weighted me \<le> 1 \<and>
    (\<forall>i < length names. \<exists>a. map_of (me_report me) (names ! i) = Some (Averages a) \<and>
       av_support a = (\<Sum>j < length names. real (m ! i ! j)) \<and>
       av_recall a * av_support a = real (m ! i ! i) \<and>
       av_precision a * (\<Sum>k < length names. real (m ! k ! i)) = real (m ! i ! i) \<and>
       0 \<le> av_precision a \<and> av_precision a \<le> 1 \<and> 0 \<le> av_recall a \<and> av_recall a \<le> 1 \<and>
       min (av_precision a) (av_recall a) \<le> av_f1 a \<and> av_f1 a \<le> max (av_precision a) (av_recall a))"
proof -
  let ?n = "length names"
  have n: "length m = ?n" using assms(1) by (simp add: square_def)
  obtain me where me: "metrics_from_confusion_matrix m names = Inr me"
    by (simp add: metrics_from_confusion_matrix_def Let_def n)
  have unit: "0 \<le> dot xs (class_support m) / weighted_divisor m \<and> dot xs (class_support m) / weighted_divisor m \<le> 1"
    if "length xs = ?n" "\<And>i. i < ?n \<Longrightarrow> 0 \<le> xs ! i \<and> xs ! i \<le> 1" for xs
    unfolding weighted_divisor_def using that n by (intro weighted_unit) (simp_all add: class_support_def)
  have recall: "me_recall_weighted me = me_accuracy me"
    using me diagonal_total [OF assms(1)]
    by (auto simp: metrics_from_confusion_matrix_def Let_def n dot_recall [OF assms(1)] weighted_divisor_def
        total_support)
  have weighted: "me_recall_weighted me = dot (class_recall m) (class_support m) / weighted_divisor m"
    "me_precision_weighted me = dot (class_precision m) (class_support m) / weighted_divisor m"
    "me_f1_weighted me = dot (class_f1 m) (class_support m) / weighted_divisor m"
    using me by (auto simp: metrics_from_confusion_matrix_def Let_def n)
  note b = class_bounds [OF assms(1)]
  have entry: "map_of (me_report me) (names ! i) = Some (Averages (class_averages m i))" if "i < ?n" for i
  proof -
    have "names ! i \<in> set names" using that by simp
    with assms(3,4) have "names ! i \<noteq> ''accuracy''" "names ! i \<noteq> ''weighted avg''" by auto
    with fold_update_enumerate [OF assms(2) that, of "\<lambda>i. Averages (class_averages m i)" 0 "[]"] me show ?thesis
      by (auto simp: metrics_from_confusion_matrix_def Let_def n)
  qed
  note cells = class_cells [OF assms(1)]
  show ?thesis
    using me recall weighted unit [of "class_recall m"] unit [of "class_precision m"] unit [of "class_f1 m"] entry cells b n
    by (intro exI [of _ me]) (force simp: class_averages_def)
qed

theorem metrics_sound_witness:
  "\<exists>me. metrics_from_confusion_matrix [[1, 1], [0, 2]] [''a'', ''b''] = Inr me \<and> me_recall_weighted me = me_accuracy me \<and>
     me_accuracy me \<le> 1"
  using metrics_sound [of "[''a'', ''b'']" "[[1, 1], [0, 2]]"] by (auto simp: square_def)

end
