(* ===== verification/Training.thy ===== *)
theory Training
  imports Metrics
begin

text \<open>
  Training and evaluation of the XGBoost model (\<open>ml/training/train_xgboost_cicids2018.py\<close>,
  \<open>ml/evaluation/test_xgboost_cicids2018.py\<close>): the batches the trainer hands to XGBoost, the
  confusion matrix it streams and the files of a model directory. The label encoder and the
  booster of the libraries are arguments, with their documented behaviour as \<open>encoder_law\<close>,
  \<open>float32_law\<close> and \<open>booster_law\<close>. Their errors are values: the \<open>XGBoostError\<close> of XGBoost and
  the \<open>AxisError\<close> of numpy are both a \<open>ValueError\<close>, the \<open>BadValue\<close> of the model.
\<close>

subsection \<open>The libraries\<close>

text \<open>
  \<open>LabelEncoder\<close>, the conversion of numpy to \<open>float32\<close>, whose overflow is an infinity, and XGBoost,
  as far as the code uses them: training and the prediction of a matrix may both raise, and a
  prediction is an array of one row of numbers per row of the matrix, or of one number. A chunk of a
  CSV file is its header and its rows.
\<close>

datatype prediction_array = Rows "real list list" | Flat "real list"

record train_options =
  to_n_estimators :: int
  to_max_depth :: int
  to_learning_rate :: real
  to_subsample :: real
  to_colsample_bytree :: real
  to_n_jobs :: int
  to_random_state :: int
  to_create_zip :: bool
  to_chunk_size :: int
  to_max_bin :: int
  to_progress_every :: int

record ('e, 'm) ml_library =
  ml_fit :: "string list \<Rightarrow> 'e"
  ml_classes :: "'e \<Rightarrow> string list"
  ml_transform :: "'e \<Rightarrow> string list \<Rightarrow> dataset_error + nat list"
  ml_float32 :: "real \<Rightarrow> pyfloat"
  ml_train :: "train_options \<Rightarrow> nat \<Rightarrow> (pyfloat list list \<times> nat list) list \<Rightarrow> dataset_error + 'm"
  ml_predict :: "'m \<Rightarrow> pyfloat list list \<Rightarrow> dataset_error + prediction_array"

type_synonym chunk = "string list \<times> row list"

definition feature_real :: "feature \<Rightarrow> real" where
  "feature_real v = (case v of FInt i \<Rightarrow> of_int i | FFloat x \<Rightarrow> x)"

definition clean_values :: "('e, 'm) ml_library \<Rightarrow> clean_row \<Rightarrow> pyfloat list" where
  "clean_values lib r = map (\<lambda>(c, v). ml_float32 lib (feature_real v)) (cl_features r)"

definition clean_chunk :: "coercion \<Rightarrow> chunk \<Rightarrow> dataset_error + clean_row list" where
  "clean_chunk co c = sanitize_prepared_chunk co (fst c) (snd c)"

text \<open>\<open>argmax(axis=1)\<close> of a row of probabilities: the first of the largest.\<close>

definition argmax :: "real list \<Rightarrow> nat" where
  "argmax xs = length (takeWhile (\<lambda>x. x \<noteq> Max (set xs)) xs)"

definition count_file_labels :: "coercion \<Rightarrow> chunk list \<Rightarrow> dataset_error + counter" where
  "count_file_labels co chunks =
     foldE (\<lambda>c counts. bindE (clean_chunk co c) (\<lambda>cleaned. Inr (fold (\<lambda>r. tick (cl_label r)) cleaned counts))) chunks []"

subsection \<open>The training iterator\<close>

text \<open>
  \<open>_reader\<close> and \<open>_iterator\<close> are set and cleared together: they are the chunks not read yet. A call of
  \<open>next\<close> hands out a batch, its features and encoded labels, or nothing when it returns \<open>False\<close>.
\<close>

type_synonym batch = "pyfloat list list \<times> nat list"

record training_iterator =
  it_reader :: "chunk list option"
  it_chunk_counter :: nat

definition close_reader :: "training_iterator \<Rightarrow> training_iterator" where
  "close_reader it = it\<lparr>it_reader := None\<rparr>"

definition iterator_reset :: "chunk list \<Rightarrow> training_iterator \<Rightarrow> training_iterator" where
  "iterator_reset file it = (close_reader it)\<lparr>it_reader := Some file, it_chunk_counter := 0\<rparr>"

fun seek_batch :: "coercion \<Rightarrow> chunk list \<Rightarrow> (dataset_error + clean_row list option) \<times> chunk list" where
  "seek_batch co [] = (Inr None, [])"
| "seek_batch co (c # cs) =
     (case clean_chunk co c of
        Inl e \<Rightarrow> (Inl e, cs)
      | Inr cleaned \<Rightarrow> if cleaned = [] then seek_batch co cs else (Inr (Some cleaned), cs))"

definition iterator_next :: "('e, 'm) ml_library \<Rightarrow> coercion \<Rightarrow> 'e \<Rightarrow> chunk list \<Rightarrow> training_iterator \<Rightarrow>
    (dataset_error + batch option) \<times> training_iterator" where
  "iterator_next lib co enc file it =
     (let it1 = (case it_reader it of None \<Rightarrow> iterator_reset file it | Some _ \<Rightarrow> it)
      in case seek_batch co (the (it_reader it1)) of
           (Inl e, rest) \<Rightarrow> (Inl e, it1\<lparr>it_reader := Some rest\<rparr>)
         | (Inr None, rest) \<Rightarrow> (Inr None, close_reader it1)
         | (Inr (Some cleaned), rest) \<Rightarrow>
             let it2 = it1\<lparr>it_reader := Some rest, it_chunk_counter := it_chunk_counter it1 + 1\<rparr>
             in (bindE (ml_transform lib enc (map cl_label cleaned))
                   (\<lambda>labels. Inr (Some (map (clean_values lib) cleaned, labels))), it2))"

definition unread :: "chunk list \<Rightarrow> training_iterator \<Rightarrow> nat" where
  "unread file it = (case it_reader it of None \<Rightarrow> Suc (length file) | Some cs \<Rightarrow> length cs)"

lemma seek_shorter: "seek_batch co cs = (Inr (Some cleaned), rest) \<Longrightarrow> length rest < length cs"
  by (induction co cs rule: seek_batch.induct) (auto split: sum.splits if_splits)

lemma next_unread: "iterator_next lib co enc file it = (Inr (Some b), it') \<Longrightarrow> unread file it' < unread file it"
  using seek_shorter [of co "the (it_reader (case it_reader it of None \<Rightarrow> iterator_reset file it | Some _ \<Rightarrow> it))"]
  by (auto simp: iterator_next_def unread_def iterator_reset_def close_reader_def Let_def
      split: option.splits sum.splits prod.splits dest: less_SucI)

text \<open>XGBoost calls \<open>next\<close> until it returns \<open>False\<close>.\<close>

function drain :: "('e, 'm) ml_library \<Rightarrow> coercion \<Rightarrow> 'e \<Rightarrow> chunk list \<Rightarrow> training_iterator \<Rightarrow>
    dataset_error + batch list" where
  "drain lib co enc file it =
     (case iterator_next lib co enc file it of
        (Inl e, it') \<Rightarrow> Inl e
      | (Inr None, it') \<Rightarrow> Inr []
      | (Inr (Some b), it') \<Rightarrow> bindE (drain lib co enc file it') (\<lambda>bs. Inr (b # bs)))"
  by pat_completeness auto
termination
  by (relation "measure (\<lambda>(lib, co, enc, file, it). unread file it)") (auto intro: next_unread [OF sym])

declare drain.simps [simp del]

subsection \<open>The streamed confusion matrix\<close>

text \<open>\<open>argmax(axis=1)\<close> raises on an array of one dimension.\<close>

definition argmax_rows :: "prediction_array \<Rightarrow> dataset_error + nat list" where
  "argmax_rows a = (case a of Rows ps \<Rightarrow> Inr (map argmax ps) | Flat ps \<Rightarrow> Inl BadValue)"

definition predictions :: "('e, 'm) ml_library \<Rightarrow> 'm \<Rightarrow> clean_row list \<Rightarrow> dataset_error + nat list" where
  "predictions lib booster rows = bindE (ml_predict lib booster (map (clean_values lib) rows)) argmax_rows"

definition stream_chunk :: "('e, 'm) ml_library \<Rightarrow> coercion \<Rightarrow> 'e \<Rightarrow> 'm \<Rightarrow> chunk \<Rightarrow> matrix \<Rightarrow> dataset_error + matrix" where
  "stream_chunk lib co enc booster c confusion =
     bindE (clean_chunk co c) (\<lambda>cleaned.
       if cleaned = [] then Inr confusion
       else bindE (ml_transform lib enc (map cl_label cleaned)) (\<lambda>labels.
         bindE (predictions lib booster cleaned) (\<lambda>predicted.
           foldE bump (zip labels predicted) confusion)))"

definition stream_confusion_matrix ::
    "('e, 'm) ml_library \<Rightarrow> coercion \<Rightarrow> 'e \<Rightarrow> 'm \<Rightarrow> chunk list \<Rightarrow> dataset_error + matrix" where
  "stream_confusion_matrix lib co enc booster chunks =
     foldE (stream_chunk lib co enc booster) chunks (zero_matrix (length (ml_classes lib enc)))"

subsection \<open>Training\<close>

definition MODEL_FILENAME :: string where "MODEL_FILENAME = ''cicids2018_xgboost_model.pkl''"
definition LABEL_ENCODER_FILENAME :: string where
  "LABEL_ENCODER_FILENAME = ''cicids2018_xgboost_label_encoder.pkl''"
definition FEATURE_COLUMNS_FILENAME :: string where
  "FEATURE_COLUMNS_FILENAME = ''cicids2018_xgboost_feature_columns.json''"
definition TRAINING_METADATA_FILENAME :: string where
  "TRAINING_METADATA_FILENAME = ''cicids2018_xgboost_training_metadata.json''"
definition TRAINING_REPORT_FILENAME :: string where
  "TRAINING_REPORT_FILENAME = ''cicids2018_xgboost_training_report.json''"
definition MANIFEST_FILENAME :: string where "MANIFEST_FILENAME = ''cicids2018_xgboost_manifest.json''"
definition ZIP_FILENAME :: string where "ZIP_FILENAME = ''cicids2018_xgboost_runtime.zip''"

record training_metadata =
  md_model_type :: string
  md_objective :: string
  md_num_class :: nat
  md_train_csv :: string
  md_label_classes :: "string list"
  md_feature_columns :: "string list"
  md_label_column :: string
  md_chunk_size :: int
  md_protocol_encoding :: "(string \<times> int) list"
  md_trained_at :: real
  md_parameters :: train_options

record benchmark =
  be_metrics :: metrics
  be_rows_evaluated :: nat
  be_unknown_labels_filtered :: nat
  be_labels :: "string list"
  be_normal_traffic_fpr :: real
  be_chunk_size :: int

text \<open>The files of a model directory.\<close>

datatype ('e, 'm) model_file =
  ModelPickle 'm | EncoderPickle 'e | ColumnsJson "string list" | TrainingReport metrics nat counter
| TrainingMetadata training_metadata | Manifest "(string \<times> string) list"
| Archive "(string \<times> ('e, 'm) model_file) list" | BenchmarkReport benchmark
| ConfusionJson "string list" matrix | MarkdownReport string benchmark

type_synonym ('e, 'm) model_dir = "(string, ('e, 'm) model_file) pydict"

record artifacts =
  ar_model :: string
  ar_label_encoder :: string
  ar_feature_columns :: string
  ar_training_metadata :: string
  ar_training_report :: string
  ar_manifest :: string
  ar_zip :: "string option"

definition manifest_of :: "(string \<times> string) list" where
  "manifest_of = [(''model'', MODEL_FILENAME), (''label_encoder'', LABEL_ENCODER_FILENAME),
     (''feature_columns'', FEATURE_COLUMNS_FILENAME), (''training_metadata'', TRAINING_METADATA_FILENAME),
     (''training_report'', TRAINING_REPORT_FILENAME)]"

definition archived_names :: "string list" where
  "archived_names = [MODEL_FILENAME, LABEL_ENCODER_FILENAME, FEATURE_COLUMNS_FILENAME, TRAINING_METADATA_FILENAME,
     TRAINING_REPORT_FILENAME, MANIFEST_FILENAME]"

definition archive_of :: "('e, 'm) model_dir \<Rightarrow> ('e, 'm) model_file" where
  "archive_of dir = Archive (List.map_filter (\<lambda>n. map_option (Pair n) (map_of dir n)) archived_names)"

text \<open>
  What the run writes after the report: the metadata, the manifest and the archive.
\<close>

definition finish_training :: "('e, 'm) ml_library \<Rightarrow> real \<Rightarrow> string \<Rightarrow> train_options \<Rightarrow> 'e \<Rightarrow>
    ('e, 'm) model_dir \<Rightarrow> artifacts \<times> ('e, 'm) model_dir" where
  "finish_training lib now train_csv opts enc dir =
     (let metadata = \<lparr>md_model_type = ''Booster'', md_objective = ''multi:softprob'',
            md_num_class = length (ml_classes lib enc), md_train_csv = train_csv,
            md_label_classes = ml_classes lib enc, md_feature_columns = FEATURE_COLUMNS,
            md_label_column = LABEL_COLUMN, md_chunk_size = to_chunk_size opts,
            md_protocol_encoding = [(''TCP'', 6), (''UDP'', 17), (''ICMP'', 1), (''UNKNOWN'', 0)],
            md_trained_at = now, md_parameters = opts\<rparr>;
          dir = AList.update TRAINING_METADATA_FILENAME (TrainingMetadata metadata) dir;
          dir = AList.update MANIFEST_FILENAME (Manifest manifest_of) dir;
          dir = (if to_create_zip opts then AList.update ZIP_FILENAME (archive_of dir) dir else dir)
      in (\<lparr>ar_model = MODEL_FILENAME, ar_label_encoder = LABEL_ENCODER_FILENAME,
            ar_feature_columns = FEATURE_COLUMNS_FILENAME, ar_training_metadata = TRAINING_METADATA_FILENAME,
            ar_training_report = TRAINING_REPORT_FILENAME, ar_manifest = MANIFEST_FILENAME,
            ar_zip = (if to_create_zip opts then Some ZIP_FILENAME else None)\<rparr>, dir))"

definition fit_booster :: "('e, 'm) ml_library \<Rightarrow> coercion \<Rightarrow> train_options \<Rightarrow> 'e \<Rightarrow> chunk list \<Rightarrow> dataset_error + 'm" where
  "fit_booster lib co opts enc file =
     bindE (drain lib co enc file (iterator_reset file \<lparr>it_reader = None, it_chunk_counter = 0\<rparr>))
       (\<lambda>batches. ml_train lib opts (length (ml_classes lib enc)) batches)"

text \<open>The result, and the model directory; a failure leaves what was written before it.\<close>

definition train_model :: "('e, 'm) ml_library \<Rightarrow> coercion \<Rightarrow> real \<Rightarrow> (string \<Rightarrow> (int \<Rightarrow> chunk list) option) \<Rightarrow>
    string \<Rightarrow> train_options \<Rightarrow> ('e, 'm) model_dir \<Rightarrow> (dataset_error + artifacts) \<times> ('e, 'm) model_dir" where
  "train_model lib co now read_csv train_csv opts dir =
     (case read_csv train_csv of
        None \<Rightarrow> (Inl FileNotFound, dir)
      | Some chunks \<Rightarrow>
        if to_chunk_size opts \<le> 0 \<or> to_progress_every opts \<le> 0 then (Inl BadValue, dir)
        else let file = chunks (to_chunk_size opts) in
        case count_file_labels co file of
          Inl e \<Rightarrow> (Inl e, dir)
        | Inr label_counts \<Rightarrow>
          if label_counts = [] then (Inl BadValue, dir)
          else let enc = ml_fit lib (sort (map fst label_counts)) in
          case fit_booster lib co opts enc file of
            Inl e \<Rightarrow> (Inl e, dir)
          | Inr booster \<Rightarrow>
            let dir = AList.update MODEL_FILENAME (ModelPickle booster) dir;
                dir = AList.update LABEL_ENCODER_FILENAME (EncoderPickle enc) dir;
                dir = AList.update FEATURE_COLUMNS_FILENAME (ColumnsJson FEATURE_COLUMNS) dir in
            case bindE (stream_confusion_matrix lib co enc booster file)
                (\<lambda>confusion. metrics_from_confusion_matrix confusion (ml_classes lib enc)) of
              Inl e \<Rightarrow> (Inl e, dir)
            | Inr report \<Rightarrow>
              let dir = AList.update TRAINING_REPORT_FILENAME
                    (TrainingReport report (sum_list (map snd label_counts)) (sorted_counts label_counts)) dir;
                  (result, dir) = finish_training lib now train_csv opts enc dir
              in (Inr result, dir))"

subsection \<open>Evaluation\<close>

definition BENCHMARK_REPORT_FILENAME :: string where
  "BENCHMARK_REPORT_FILENAME = ''cicids2018_xgboost_benchmark_report.json''"
definition MARKDOWN_REPORT_FILENAME :: string where
  "MARKDOWN_REPORT_FILENAME = ''cicids2018_xgboost_evaluation_report.md''"
definition CONFUSION_MATRIX_FILENAME :: string where
  "CONFUSION_MATRIX_FILENAME = ''cicids2018_xgboost_confusion_matrix.json''"

text \<open>The matrix, the rows evaluated and the rows left out for a label the encoder does not know.\<close>

definition bump_counting :: "nat \<times> nat \<Rightarrow> matrix \<times> nat \<Rightarrow> dataset_error + matrix \<times> nat" where
  "bump_counting ap = (\<lambda>(m, n). bindE (bump ap m) (\<lambda>m'. Inr (m', n + 1)))"

definition evaluate_chunk :: "('e, 'm) ml_library \<Rightarrow> coercion \<Rightarrow> 'e \<Rightarrow> 'm \<Rightarrow> chunk \<Rightarrow>
    matrix \<times> nat \<times> nat \<Rightarrow> dataset_error + matrix \<times> nat \<times> nat" where
  "evaluate_chunk lib co enc booster c = (\<lambda>(confusion, evaluated, unknown).
     bindE (clean_chunk co c) (\<lambda>cleaned.
       if cleaned = [] then Inr (confusion, evaluated, unknown)
       else let keep = (\<lambda>r. cl_label r \<in> set (ml_classes lib enc));
                unknown' = unknown + length (filter (\<lambda>r. \<not> keep r) cleaned);
                kept = filter keep cleaned
            in if kept = [] then Inr (confusion, evaluated, unknown')
               else bindE (ml_transform lib enc (map cl_label kept)) (\<lambda>labels.
                 bindE (predictions lib booster kept) (\<lambda>predicted.
                   bindE (foldE bump_counting (zip labels predicted) (confusion, evaluated))
                     (\<lambda>(confusion', evaluated'). Inr (confusion', evaluated', unknown'))))))"

definition stream_evaluation_confusion :: "('e, 'm) ml_library \<Rightarrow> coercion \<Rightarrow> 'e \<Rightarrow> 'm \<Rightarrow> chunk list \<Rightarrow>
    dataset_error + matrix \<times> nat \<times> nat" where
  "stream_evaluation_confusion lib co enc booster chunks =
     foldE (evaluate_chunk lib co enc booster) chunks (zero_matrix (length (ml_classes lib enc)), 0, 0)"

definition index_of :: "'a list \<Rightarrow> 'a \<Rightarrow> nat" where
  "index_of xs x = length (takeWhile (\<lambda>y. y \<noteq> x) xs)"

definition normal_traffic_fpr :: "matrix \<Rightarrow> string list \<Rightarrow> real" where
  "normal_traffic_fpr confusion classes =
     (if ''Normal Traffic'' \<notin> set classes then 0
      else let i = index_of classes ''Normal Traffic'';
               fp = int (column_sums confusion ! i) - int (confusion ! i ! i);
               tn = int (matrix_total confusion) - int (row_sums confusion ! i) - fp
           in if 0 < fp + tn then of_int fp / of_int (fp + tn) else 0)"

text \<open>A file that is missing, or holds something else, does not load.\<close>

definition saved_columns :: "('e, 'm) model_dir \<Rightarrow> dataset_error + string list" where
  "saved_columns dir = (case map_of dir FEATURE_COLUMNS_FILENAME of Some (ColumnsJson cs) \<Rightarrow> Inr cs | _ \<Rightarrow> Inl FileNotFound)"

definition saved_model :: "('e, 'm) model_dir \<Rightarrow> dataset_error + 'm" where
  "saved_model dir = (case map_of dir MODEL_FILENAME of Some (ModelPickle b) \<Rightarrow> Inr b | _ \<Rightarrow> Inl FileNotFound)"

definition saved_encoder :: "('e, 'm) model_dir \<Rightarrow> dataset_error + 'e" where
  "saved_encoder dir = (case map_of dir LABEL_ENCODER_FILENAME of Some (EncoderPickle e) \<Rightarrow> Inr e | _ \<Rightarrow> Inl FileNotFound)"

definition evaluation_benchmark :: "('e, 'm) ml_library \<Rightarrow> coercion \<Rightarrow> int \<Rightarrow> chunk list \<Rightarrow> 'e \<Rightarrow> 'm \<Rightarrow>
    dataset_error + benchmark" where
  "evaluation_benchmark lib co chunk_size file enc booster =
     bindE (stream_evaluation_confusion lib co enc booster file) (\<lambda>(matrix, rows_evaluated, unknown).
       if rows_evaluated = 0 then Inl BadValue
       else bindE (metrics_from_confusion_matrix matrix (ml_classes lib enc)) (\<lambda>metrics.
         Inr \<lparr>be_metrics = metrics, be_rows_evaluated = rows_evaluated, be_unknown_labels_filtered = unknown,
           be_labels = ml_classes lib enc,
           be_normal_traffic_fpr = normal_traffic_fpr matrix (ml_classes lib enc), be_chunk_size = chunk_size\<rparr>))"

definition write_evaluation :: "string \<Rightarrow> benchmark \<Rightarrow> ('e, 'm) model_dir \<Rightarrow> ('e, 'm) model_dir" where
  "write_evaluation test_csv b dir =
     (let dir = AList.update BENCHMARK_REPORT_FILENAME (BenchmarkReport b) dir;
          dir = AList.update CONFUSION_MATRIX_FILENAME (ConfusionJson (be_labels b) (me_confusion (be_metrics b))) dir
      in AList.update MARKDOWN_REPORT_FILENAME (MarkdownReport test_csv b) dir)"

record evaluation_artifacts =
  ea_benchmark_report :: string
  ea_markdown_report :: string
  ea_confusion_matrix :: string

definition evaluate_model :: "('e, 'm) ml_library \<Rightarrow> coercion \<Rightarrow> (string \<Rightarrow> (int \<Rightarrow> chunk list) option) \<Rightarrow> string \<Rightarrow>
    int \<Rightarrow> int \<Rightarrow> ('e, 'm) model_dir \<Rightarrow> dataset_error + evaluation_artifacts \<times> ('e, 'm) model_dir" where
  "evaluate_model lib co read_csv test_csv chunk_size progress_every dir =
     (case read_csv test_csv of
        None \<Rightarrow> Inl FileNotFound
      | Some chunks \<Rightarrow>
        if chunk_size \<le> 0 \<or> progress_every \<le> 0 then Inl BadValue
        else bindE (saved_columns dir) (\<lambda>columns.
          if columns \<noteq> FEATURE_COLUMNS then Inl BadValue
          else bindE (saved_model dir) (\<lambda>booster. bindE (saved_encoder dir) (\<lambda>enc.
            bindE (evaluation_benchmark lib co chunk_size (chunks chunk_size) enc booster) (\<lambda>b.
              Inr (\<lparr>ea_benchmark_report = BENCHMARK_REPORT_FILENAME,
                ea_markdown_report = MARKDOWN_REPORT_FILENAME, ea_confusion_matrix = CONFUSION_MATRIX_FILENAME\<rparr>,
                write_evaluation test_csv b dir))))))"

subsection \<open>Facts about the stream\<close>

text \<open>What scikit-learn documents of \<open>LabelEncoder\<close>.\<close>

definition encoder_law :: "('e, 'm) ml_library \<Rightarrow> bool" where
  "encoder_law lib \<longleftrightarrow> (\<forall>ls. ml_classes lib (ml_fit lib ls) = sorted_list_of_set (set ls)) \<and>
     (\<forall>e ls. ml_transform lib e ls = mapE (\<lambda>l. if l \<in> set (ml_classes lib e)
        then Inr (index_of (ml_classes lib e) l) else Inl BadValue) ls)"

text \<open>
  What IEEE 754 says of the conversion to \<open>float32\<close>: a number below the largest one by more than
  half a step stays finite.
\<close>

definition float32_law :: "('e, 'm) ml_library \<Rightarrow> bool" where
  "float32_law lib \<longleftrightarrow> (\<forall>x. \<bar>x\<bar> < 2 ^ 128 - 2 ^ 103 \<longrightarrow> is_finite (ml_float32 lib x))"

definition in_float32 :: "clean_row \<Rightarrow> bool" where
  "in_float32 r \<longleftrightarrow> list_all (\<lambda>(c, v). \<bar>feature_real v\<bar> < 2 ^ 128 - 2 ^ 103) (cl_features r)"

lemma finite_values: "float32_law lib \<Longrightarrow> in_float32 r \<Longrightarrow> list_all is_finite (clean_values lib r)"
  by (auto simp: float32_law_def in_float32_def clean_values_def list_all_iff)

text \<open>
  What XGBoost documents of \<open>multi:softprob\<close>: the rows of a matrix of numbers without infinities are
  predicted one by one, each as one probability per class, and the array has one dimension when
  there is one class. Training takes such batches with labels below the number of classes; of a
  single class nothing is known but the shape of the predictions, should it train.
\<close>

definition row_probabilities :: "('e, 'm) ml_library \<Rightarrow> 'm \<Rightarrow> pyfloat list \<Rightarrow> real list" where
  "row_probabilities lib booster x = (case ml_predict lib booster [x] of Inr (Rows [p]) \<Rightarrow> p | _ \<Rightarrow> [])"

definition softprob :: "('e, 'm) ml_library \<Rightarrow> 'm \<Rightarrow> nat \<Rightarrow> bool" where
  "softprob lib booster n \<longleftrightarrow> (\<forall>X. X \<noteq> [] \<longrightarrow> list_all (list_all is_finite) X \<longrightarrow>
     (if 2 \<le> n then ml_predict lib booster X = Inr (Rows (map (row_probabilities lib booster) X)) \<and>
        list_all (\<lambda>x. length (row_probabilities lib booster x) = n) X
      else \<exists>ps. ml_predict lib booster X = Inr (Flat ps)))"

definition booster_law :: "('e, 'm) ml_library \<Rightarrow> train_options \<Rightarrow> bool" where
  "booster_law lib opts \<longleftrightarrow>
     (\<forall>n bs booster. ml_train lib opts n bs = Inr booster \<longrightarrow> softprob lib booster n) \<and>
     (\<forall>n bs. 2 \<le> n \<longrightarrow> bs \<noteq> [] \<longrightarrow> list_all (list_all (list_all is_finite) \<circ> fst) bs \<longrightarrow>
        list_all (list_all (\<lambda>l. l < n) \<circ> snd) bs \<longrightarrow> (\<exists>booster. ml_train lib opts n bs = Inr booster))"

text \<open>The class a row is predicted to have, and rows as the pair of their class and that one.\<close>

definition class_of :: "('e, 'm) ml_library \<Rightarrow> 'm \<Rightarrow> clean_row \<Rightarrow> nat" where
  "class_of lib booster r = argmax (row_probabilities lib booster (clean_values lib r))"

definition outcomes :: "('e, 'm) ml_library \<Rightarrow> 'e \<Rightarrow> 'm \<Rightarrow> clean_row list \<Rightarrow> (nat \<times> nat) list" where
  "outcomes lib enc booster rows =
     map (\<lambda>r. (index_of (ml_classes lib enc) (cl_label r), class_of lib booster r)) rows"

definition known_rows :: "('e, 'm) ml_library \<Rightarrow> 'e \<Rightarrow> clean_row list \<Rightarrow> clean_row list" where
  "known_rows lib enc = filter (\<lambda>r. cl_label r \<in> set (ml_classes lib enc))"

definition unknown_rows :: "('e, 'm) ml_library \<Rightarrow> 'e \<Rightarrow> clean_row list \<Rightarrow> clean_row list" where
  "unknown_rows lib enc = filter (\<lambda>r. cl_label r \<notin> set (ml_classes lib enc))"

lemma known_append [simp]:
  "known_rows lib enc (xs @ ys) = known_rows lib enc xs @ known_rows lib enc ys"
  "unknown_rows lib enc (xs @ ys) = unknown_rows lib enc xs @ unknown_rows lib enc ys"
  by (simp_all add: known_rows_def unknown_rows_def)

lemma known_unknown: "length (known_rows lib enc rows) + length (unknown_rows lib enc rows) = length rows"
  by (simp add: known_rows_def unknown_rows_def sum_length_filter_compl)

lemma transform_known: "encoder_law lib \<Longrightarrow> cl_label ` set rows \<subseteq> set (ml_classes lib enc) \<Longrightarrow>
    ml_transform lib enc (map cl_label rows) = Inr (map (index_of (ml_classes lib enc) \<circ> cl_label) rows)"
proof -
  assume law: "encoder_law lib" and sub: "cl_label ` set rows \<subseteq> set (ml_classes lib enc)"
  have "mapE (\<lambda>l. if l \<in> set (ml_classes lib enc) then Inr (index_of (ml_classes lib enc) l) else Inl BadValue)
      (map cl_label rows) = Inr (map (index_of (ml_classes lib enc)) (map cl_label rows))"
    using sub by (intro mapE_total) auto
  with law show ?thesis by (simp add: encoder_law_def)
qed

lemma clean_chunks_Cons:
  "clean_chunks co (c # cs) = bindE (clean_chunk co c) (\<lambda>x. bindE (clean_chunks co cs) (\<lambda>r. Inr (x @ r)))"
  by (cases c) (auto simp: clean_chunk_def bindE_def split: sum.split)

lemma clean_chunks_ConsE:
  assumes "clean_chunks co (c # cs) = Inr rows"
  obtains cleaned rest where "clean_chunk co c = Inr cleaned" "clean_chunks co cs = Inr rest" "rows = cleaned @ rest"
  using assms by (auto simp: clean_chunks_Cons bindE_Inr_iff)

lemma count_file_labels_eq: "clean_chunks co chunks = Inr rows \<Longrightarrow> count_file_labels co chunks = Inr (count_labels rows)"
proof -
  have "foldE (\<lambda>c counts. bindE (clean_chunk co c) (\<lambda>cleaned. Inr (fold (\<lambda>r. tick (cl_label r)) cleaned counts)))
      chunks counts = Inr (fold (\<lambda>r. tick (cl_label r)) rows counts)"
    if "clean_chunks co chunks = Inr rows" for chunks rows counts
    using that by (induction chunks arbitrary: rows counts) (auto elim!: clean_chunks_ConsE)
  then show "clean_chunks co chunks = Inr rows \<Longrightarrow> ?thesis" by (simp add: count_file_labels_def count_labels_def)
qed

lemma zip_outcomes: "zip (map (index_of (ml_classes lib enc) \<circ> cl_label) rows) (map (class_of lib booster) rows) =
    outcomes lib enc booster rows"
  by (simp add: outcomes_def zip_map_map zip_same_conv_map)

text \<open>Rows of numbers that fit, and a booster for two classes or for one.\<close>

lemma finite_matrix: "float32_law lib \<Longrightarrow> list_all in_float32 rows \<Longrightarrow>
    list_all (list_all is_finite) (map (clean_values lib) rows)"
  by (simp add: list_all_iff [of _ rows] list.pred_map comp_def) (simp add: list_all_iff [of _ rows] finite_values)

lemma predictions_rows:
  assumes "float32_law lib" and "softprob lib booster n" and "2 \<le> n" and "list_all in_float32 rows" and "rows \<noteq> []"
  shows "predictions lib booster rows = Inr (map (class_of lib booster) rows)"
proof -
  let ?X = "map (clean_values lib) rows"
  have "list_all (list_all is_finite) ?X" by (rule finite_matrix [OF assms(1,4)])
  then have "ml_predict lib booster ?X = Inr (Rows (map (row_probabilities lib booster) ?X))"
    using assms(2,3,5) by (simp add: softprob_def)
  then show ?thesis by (simp add: predictions_def argmax_rows_def class_of_def comp_def)
qed

lemma predictions_single:
  assumes "float32_law lib" and "softprob lib booster n" and "\<not> 2 \<le> n" and "list_all in_float32 rows" and "rows \<noteq> []"
  shows "predictions lib booster rows = Inl BadValue"
proof -
  let ?X = "map (clean_values lib) rows"
  have "list_all (list_all is_finite) ?X" by (rule finite_matrix [OF assms(1,4)])
  then obtain ps where "ml_predict lib booster ?X = Inr (Flat ps)" using assms(2,3,5) by (auto simp: softprob_def)
  then show ?thesis by (simp add: predictions_def argmax_rows_def)
qed

lemma outcomes_append [simp]:
  "outcomes lib enc booster (xs @ ys) = outcomes lib enc booster xs @ outcomes lib enc booster ys"
  by (simp add: outcomes_def)

text \<open>What a saved booster has to do with the encoder beside it.\<close>

definition usable :: "('e, 'm) ml_library \<Rightarrow> 'e \<Rightarrow> 'm \<Rightarrow> bool" where
  "usable lib enc booster \<longleftrightarrow> encoder_law lib \<and> float32_law lib \<and> softprob lib booster (length (ml_classes lib enc))"

lemma usable_predictions:
  assumes "usable lib enc booster" and "list_all in_float32 rows" and "rows \<noteq> []"
  shows "predictions lib booster rows =
    (if 2 \<le> length (ml_classes lib enc) then Inr (map (class_of lib booster) rows) else Inl BadValue)"
  using assms by (cases "2 \<le> length (ml_classes lib enc)") (auto simp: usable_def predictions_rows predictions_single)

lemma stream_rows:
  assumes "usable lib enc booster" and "2 \<le> length (ml_classes lib enc)"
    and "clean_chunks co chunks = Inr rows" and "cl_label ` set rows \<subseteq> set (ml_classes lib enc)" and "list_all in_float32 rows"
  shows "foldE (stream_chunk lib co enc booster) chunks m = foldE bump (outcomes lib enc booster rows) m"
  using assms(3-)
proof (induction chunks arbitrary: rows m)
  case Nil
  then show ?case by (simp add: outcomes_def)
next
  case (Cons c cs)
  obtain cleaned rest where c: "clean_chunk co c = Inr cleaned" "clean_chunks co cs = Inr rest" "rows = cleaned @ rest"
    by (rule clean_chunks_ConsE [OF Cons.prems(1)])
  have sub: "cl_label ` set cleaned \<subseteq> set (ml_classes lib enc)" "cl_label ` set rest \<subseteq> set (ml_classes lib enc)"
    using Cons.prems(2) c(3) by auto
  have fits: "list_all in_float32 cleaned" "list_all in_float32 rest" using Cons.prems(3) c(3) by simp_all
  have law: "encoder_law lib" using assms(1) by (simp add: usable_def)
  have "stream_chunk lib co enc booster c m = foldE bump (outcomes lib enc booster cleaned) m" for m
  proof (cases "cleaned = []")
    case True
    with c(1) show ?thesis by (simp add: stream_chunk_def outcomes_def)
  next
    case False
    with c(1) transform_known [OF law sub(1)] usable_predictions [OF assms(1) fits(1) False] assms(2) show ?thesis
      by (simp add: stream_chunk_def zip_outcomes)
  qed
  with c(2,3) Cons.IH [OF c(2) sub(2) fits(2)] show ?case by (simp add: bindE_def split: sum.split)
qed

text \<open>With a single class, the first batch raises.\<close>

lemma stream_single:
  assumes "usable lib enc booster" and "\<not> 2 \<le> length (ml_classes lib enc)"
    and "clean_chunks co chunks = Inr rows" and "cl_label ` set rows \<subseteq> set (ml_classes lib enc)"
    and "list_all in_float32 rows" and "rows \<noteq> []"
  shows "foldE (stream_chunk lib co enc booster) chunks m = Inl BadValue"
  using assms(3-)
proof (induction chunks arbitrary: rows)
  case (Cons c cs)
  obtain cleaned rest where c: "clean_chunk co c = Inr cleaned" "clean_chunks co cs = Inr rest" "rows = cleaned @ rest"
    by (rule clean_chunks_ConsE [OF Cons.prems(1)])
  have sub: "cl_label ` set cleaned \<subseteq> set (ml_classes lib enc)" "cl_label ` set rest \<subseteq> set (ml_classes lib enc)"
    and fits: "list_all in_float32 cleaned" "list_all in_float32 rest"
    using Cons.prems(2,3) c(3) by auto
  have law: "encoder_law lib" using assms(1) by (simp add: usable_def)
  show ?case
  proof (cases "cleaned = []")
    case True
    with c Cons.IH [OF c(2) sub(2) fits(2)] Cons.prems(4) show ?thesis by (simp add: stream_chunk_def)
  next
    case False
    with c(1) transform_known [OF law sub(1)] usable_predictions [OF assms(1) fits(1) False] assms(2) show ?thesis
      by (simp add: stream_chunk_def)
  qed
qed simp

lemma foldE_counting: "foldE bump_counting ps (m, n) = bindE (foldE bump ps m) (\<lambda>m'. Inr (m', n + length ps))"
proof (induction ps arbitrary: m n)
  case (Cons p ps)
  then show ?case by (cases "bump p m") (simp_all add: bump_counting_def)
qed simp

lemma evaluate_chunk_split:
  assumes "clean_chunk co c = Inr cleaned"
  shows "evaluate_chunk lib co enc booster c (m, n, u) =
    (if known_rows lib enc cleaned = [] then Inr (m, n, u + length (unknown_rows lib enc cleaned))
     else bindE (ml_transform lib enc (map cl_label (known_rows lib enc cleaned))) (\<lambda>labels.
       bindE (predictions lib booster (known_rows lib enc cleaned)) (\<lambda>predicted.
         bindE (foldE bump_counting (zip labels predicted) (m, n))
           (\<lambda>(m', n'). Inr (m', n', u + length (unknown_rows lib enc cleaned))))))"
  using assms by (cases "cleaned = []") (simp_all add: evaluate_chunk_def known_rows_def unknown_rows_def Let_def)

lemma evaluate_chunk_eq:
  assumes "usable lib enc booster" and "clean_chunk co c = Inr cleaned" and "list_all in_float32 (known_rows lib enc cleaned)"
  shows "evaluate_chunk lib co enc booster c (m, n, u) =
    (if 2 \<le> length (ml_classes lib enc) \<or> known_rows lib enc cleaned = []
     then bindE (foldE bump (outcomes lib enc booster (known_rows lib enc cleaned)) m)
       (\<lambda>m'. Inr (m', n + length (known_rows lib enc cleaned), u + length (unknown_rows lib enc cleaned)))
     else Inl BadValue)"
proof (cases "known_rows lib enc cleaned = []")
  case True
  then show ?thesis by (simp add: evaluate_chunk_split [OF assms(2)] outcomes_def)
next
  case False
  let ?k = "known_rows lib enc cleaned"
  have law: "encoder_law lib" using assms(1) by (simp add: usable_def)
  have "cl_label ` set ?k \<subseteq> set (ml_classes lib enc)" by (auto simp: known_rows_def)
  from transform_known [OF law this] usable_predictions [OF assms(1,3) False] False show ?thesis
    by (simp add: evaluate_chunk_split [OF assms(2)] zip_outcomes foldE_counting bindE_def outcomes_def split: sum.split)
qed

lemma evaluation_rows:
  assumes "usable lib enc booster" and "2 \<le> length (ml_classes lib enc)" and "clean_chunks co chunks = Inr rows"
    and "list_all in_float32 (known_rows lib enc rows)"
  shows "foldE (evaluate_chunk lib co enc booster) chunks (m, n, u) =
    bindE (foldE bump (outcomes lib enc booster (known_rows lib enc rows)) m)
      (\<lambda>m'. Inr (m', n + length (known_rows lib enc rows), u + length (unknown_rows lib enc rows)))"
  using assms(3-)
proof (induction chunks arbitrary: rows m n u)
  case Nil
  then show ?case by (simp add: outcomes_def known_rows_def unknown_rows_def)
next
  case (Cons c cs)
  obtain cleaned rest where c: "clean_chunk co c = Inr cleaned" "clean_chunks co cs = Inr rest" "rows = cleaned @ rest"
    by (rule clean_chunks_ConsE [OF Cons.prems(1)])
  have fits: "list_all in_float32 (known_rows lib enc cleaned)" "list_all in_float32 (known_rows lib enc rest)"
    using Cons.prems(2) c(3) by simp_all
  from c(3) evaluate_chunk_eq [OF assms(1) c(1) fits(1)] assms(2) Cons.IH [OF c(2) fits(2)] show ?case
    by (cases "foldE bump (outcomes lib enc booster (known_rows lib enc cleaned)) m") (simp_all add: add.assoc)
qed

lemma evaluation_single:
  assumes "usable lib enc booster" and "\<not> 2 \<le> length (ml_classes lib enc)" and "clean_chunks co chunks = Inr rows"
    and "list_all in_float32 (known_rows lib enc rows)"
  shows "foldE (evaluate_chunk lib co enc booster) chunks (m, n, u) =
    (if known_rows lib enc rows = [] then Inr (m, n, u + length rows) else Inl BadValue)"
  using assms(3-)
proof (induction chunks arbitrary: rows m n u)
  case (Cons c cs)
  obtain cleaned rest where c: "clean_chunk co c = Inr cleaned" "clean_chunks co cs = Inr rest" "rows = cleaned @ rest"
    by (rule clean_chunks_ConsE [OF Cons.prems(1)])
  have fits: "list_all in_float32 (known_rows lib enc cleaned)" "list_all in_float32 (known_rows lib enc rest)"
    using Cons.prems(2) c(3) by simp_all
  have "length (unknown_rows lib enc cleaned) = length cleaned" if "known_rows lib enc cleaned = []"
    using known_unknown [of lib enc cleaned] that by simp
  with c(3) evaluate_chunk_eq [OF assms(1) c(1) fits(1)] assms(2) Cons.IH [OF c(2) fits(2)] show ?case
    by (auto simp: outcomes_def)
qed (simp add: known_rows_def)

subsection \<open>Batches\<close>

fun batches :: "('e, 'm) ml_library \<Rightarrow> coercion \<Rightarrow> 'e \<Rightarrow> chunk list \<Rightarrow> dataset_error + batch list" where
  "batches lib co enc [] = Inr []"
| "batches lib co enc (c # cs) = bindE (clean_chunk co c) (\<lambda>cleaned.
     if cleaned = [] then batches lib co enc cs
     else bindE (ml_transform lib enc (map cl_label cleaned)) (\<lambda>labels.
       bindE (batches lib co enc cs) (\<lambda>bs. Inr ((map (clean_values lib) cleaned, labels) # bs))))"

lemma batches_seek:
  "batches lib co enc cs = (case seek_batch co cs of
     (Inl e, rest) \<Rightarrow> Inl e
   | (Inr None, rest) \<Rightarrow> Inr []
   | (Inr (Some cleaned), rest) \<Rightarrow> bindE (ml_transform lib enc (map cl_label cleaned)) (\<lambda>labels.
       bindE (batches lib co enc rest) (\<lambda>bs. Inr ((map (clean_values lib) cleaned, labels) # bs))))"
  by (induction cs) (auto simp: bindE_def split: sum.split)

lemma drain_batches: "it_reader it = Some cs \<Longrightarrow> drain lib co enc file it = batches lib co enc cs"
proof (induction cs arbitrary: it rule: length_induct)
  case (1 cs)
  obtain r rest where seek: "seek_batch co cs = (r, rest)" by fastforce
  show ?case
  proof (cases "\<exists>cleaned. r = Inr (Some cleaned)")
    case True
    then obtain cleaned where r: "r = Inr (Some cleaned)" by blast
    have "length rest < length cs" using seek r seek_shorter by simp
    with 1 have "drain lib co enc file (it\<lparr>it_reader := Some rest, it_chunk_counter := it_chunk_counter it + 1\<rparr>) =
      batches lib co enc rest" by auto
    with 1(2) seek r show ?thesis
      by (subst drain.simps, subst batches_seek) (simp add: iterator_next_def Let_def bindE_def split: sum.split)
  next
    case False
    with 1(2) seek show ?thesis
      by (subst drain.simps, subst batches_seek) (auto simp: iterator_next_def Let_def split: sum.split option.split)
  qed
qed

lemma batches_rows:
  assumes "encoder_law lib" and "clean_chunks co cs = Inr rows" and "cl_label ` set rows \<subseteq> set (ml_classes lib enc)"
  shows "\<exists>bs. batches lib co enc cs = Inr bs \<and> concat (map fst bs) = map (clean_values lib) rows \<and>
    concat (map snd bs) = map (index_of (ml_classes lib enc) \<circ> cl_label) rows \<and> [] \<notin> fst ` set bs"
  using assms(2,3)
proof (induction cs arbitrary: rows)
  case (Cons c cs)
  obtain cleaned rest where c: "clean_chunk co c = Inr cleaned" "clean_chunks co cs = Inr rest" "rows = cleaned @ rest"
    by (rule clean_chunks_ConsE [OF Cons.prems(1)])
  have sub: "cl_label ` set cleaned \<subseteq> set (ml_classes lib enc)" "cl_label ` set rest \<subseteq> set (ml_classes lib enc)"
    using Cons.prems(2) c(3) by auto
  from Cons.IH [OF c(2) sub(2)] transform_known [OF assms(1) sub(1)] c show ?case by auto
qed simp

text \<open>
  The iterator hands XGBoost every cleaned row of the file exactly once, in order, with its
  encoded label, in batches none of which is empty, and then reports the end; after the end it
  starts over by itself, and a reset starts it over wherever it was.
\<close>
theorem iterator_delivers:
  assumes "encoder_law lib" and "clean_chunks co file = Inr rows" and "cl_label ` set rows \<subseteq> set (ml_classes lib enc)"
  shows "\<exists>bs. drain lib co enc file (iterator_reset file it) = Inr bs \<and> drain lib co enc file (close_reader it) = Inr bs \<and>
    concat (map fst bs) = map (clean_values lib) rows \<and>
    concat (map snd bs) = map (index_of (ml_classes lib enc) \<circ> cl_label) rows \<and> [] \<notin> fst ` set bs"
proof -
  have "drain lib co enc file (close_reader it) = drain lib co enc file (iterator_reset file (close_reader it))"
    by (subst (1 2) drain.simps) (simp add: iterator_next_def close_reader_def iterator_reset_def)
  moreover have "drain lib co enc file (iterator_reset file it) = batches lib co enc file" for it
    by (rule drain_batches) (simp add: iterator_reset_def)
  ultimately show ?thesis using batches_rows [OF assms] by simp
qed

subsection \<open>Reports\<close>

lemma index_of_less: "x \<in> set xs \<Longrightarrow> index_of xs x < length xs"
  by (induction xs) (auto simp: index_of_def)

lemma nth_index_of: "x \<in> set xs \<Longrightarrow> xs ! index_of xs x = x"
  by (induction xs) (auto simp: index_of_def)

lemma index_of_eq_iff: "x \<in> set xs \<Longrightarrow> y \<in> set xs \<Longrightarrow> index_of xs x = index_of xs y \<longleftrightarrow> x = y"
  using nth_index_of by metis

lemma argmax_less: "xs \<noteq> [] \<Longrightarrow> argmax xs < length xs"
  using Max_in [of "set xs"] index_of_less [of "Max (set xs)" xs] by (auto simp: argmax_def index_of_def)

lemma class_of_less:
  assumes "usable lib enc booster" and "2 \<le> length (ml_classes lib enc)" and "in_float32 r"
  shows "class_of lib booster r < length (ml_classes lib enc)"
proof -
  have "list_all is_finite (clean_values lib r)" using assms(1,3) by (simp add: usable_def finite_values)
  then have "length (row_probabilities lib booster (clean_values lib r)) = length (ml_classes lib enc)"
    using assms(1,2) by (auto simp: usable_def softprob_def dest!: spec [of _ "[clean_values lib r]"])
  with assms(2) argmax_less [of "row_probabilities lib booster (clean_values lib r)"] show ?thesis
    by (cases "row_probabilities lib booster (clean_values lib r)") (auto simp: class_of_def)
qed

lemma outcomes_bounded:
  assumes "usable lib enc booster" and "2 \<le> length (ml_classes lib enc)" and "list_all in_float32 rows"
    and "cl_label ` set rows \<subseteq> set (ml_classes lib enc)"
  shows "set (outcomes lib enc booster rows) \<subseteq> {..<length (ml_classes lib enc)} \<times> {..<length (ml_classes lib enc)}"
  using assms(3,4) class_of_less [OF assms(1,2)] by (fastforce simp: outcomes_def index_of_less list_all_iff)

lemma sum_list_map_real: "sum_list (map real xs) = real (sum_list xs)"
  by (induction xs) simp_all

lemma metrics_of_names:
  assumes "counts_outcomes n ps m" and "length names = n"
  obtains me where "metrics_from_confusion_matrix m names = Inr me" and "me_confusion me = m"
    and "ps \<noteq> [] \<Longrightarrow> me_accuracy me = real (length (filter (\<lambda>p. fst p = snd p) ps)) / real (length ps)"
proof -
  have n: "length m = n" using assms(1) by (simp add: counts_outcomes_def square_def)
  then obtain me where me: "metrics_from_confusion_matrix m names = Inr me"
    using assms(2) by (simp add: metrics_from_confusion_matrix_def Let_def)
  have d: "sum_list (map real (diagonal m)) = real (sum_list (diagonal m))" by (rule sum_list_map_real)
  have "me_confusion me = m" using me by (auto simp: metrics_from_confusion_matrix_def Let_def split: if_splits)
  moreover have "me_accuracy me = real (length (filter (\<lambda>p. fst p = snd p) ps)) / real (length ps)" if "ps \<noteq> []"
    using me that counted_sums(3,4) [OF assms(1)] d
    by (auto simp: metrics_from_confusion_matrix_def Let_def split: if_splits)
  ultimately show ?thesis using me that by blast
qed

text \<open>The accuracy, from the rows.\<close>

definition hits :: "('e, 'm) ml_library \<Rightarrow> 'e \<Rightarrow> 'm \<Rightarrow> clean_row list \<Rightarrow> nat" where
  "hits lib enc booster rows =
     length (filter (\<lambda>r. ml_classes lib enc ! class_of lib booster r = cl_label r) rows)"

lemma hits_outcomes:
  assumes "set (outcomes lib enc booster rows) \<subseteq> {..<length (ml_classes lib enc)} \<times> {..<length (ml_classes lib enc)}"
    and "cl_label ` set rows \<subseteq> set (ml_classes lib enc)" and "distinct (ml_classes lib enc)"
  shows "length (filter (\<lambda>p. fst p = snd p) (outcomes lib enc booster rows)) = hits lib enc booster rows"
proof -
  let ?c = "ml_classes lib enc"
  have "index_of ?c (cl_label r) = class_of lib booster r \<longleftrightarrow> ?c ! class_of lib booster r = cl_label r" if "r \<in> set rows" for r
  proof -
    have "class_of lib booster r < length ?c" "cl_label r \<in> set ?c"
      using assms(1,2) that by (auto simp: outcomes_def)
    with assms(3) show ?thesis by (metis index_of_less nth_eq_iff_index_eq nth_index_of)
  qed
  then show ?thesis by (simp add: outcomes_def hits_def filter_map comp_def cong: filter_cong)
qed

lemma hits_outcomes_row:
  assumes "cl_label ` set rows \<subseteq> set (ml_classes lib enc)" and "l \<in> set (ml_classes lib enc)"
  shows "length (filter (\<lambda>p. fst p = index_of (ml_classes lib enc) l) (outcomes lib enc booster rows)) = labelled l rows"
proof -
  have "index_of (ml_classes lib enc) (cl_label r) = index_of (ml_classes lib enc) l \<longleftrightarrow> cl_label r = l" if "r \<in> set rows" for r
    using assms that by (intro index_of_eq_iff) auto
  then show ?thesis by (simp add: outcomes_def labelled_def filter_map comp_def cong: filter_cong)
qed

lemma streamed:
  assumes "usable lib enc booster" and "2 \<le> length (ml_classes lib enc)" and "clean_chunks co chunks = Inr rows"
    and "cl_label ` set rows \<subseteq> set (ml_classes lib enc)" and "list_all in_float32 rows"
  obtains m where "stream_confusion_matrix lib co enc booster chunks = Inr m"
    and "counts_outcomes (length (ml_classes lib enc)) (outcomes lib enc booster rows) m"
  using outcomes_counted [OF outcomes_bounded [OF assms(1,2,5,4)]] stream_rows [OF assms]
  by (auto simp: stream_confusion_matrix_def)

lemma stream_evaluated:
  assumes "usable lib enc booster" and "2 \<le> length (ml_classes lib enc)" and "clean_chunks co chunks = Inr rows"
    and "list_all in_float32 (known_rows lib enc rows)"
  obtains m where "stream_evaluation_confusion lib co enc booster chunks =
      Inr (m, length (known_rows lib enc rows), length (unknown_rows lib enc rows))"
    and "counts_outcomes (length (ml_classes lib enc)) (outcomes lib enc booster (known_rows lib enc rows)) m"
proof -
  have "cl_label ` set (known_rows lib enc rows) \<subseteq> set (ml_classes lib enc)" by (auto simp: known_rows_def)
  from outcomes_counted [OF outcomes_bounded [OF assms(1,2,4) this]] obtain m where
    "foldE bump (outcomes lib enc booster (known_rows lib enc rows)) (zero_matrix (length (ml_classes lib enc))) = Inr m"
    "counts_outcomes (length (ml_classes lib enc)) (outcomes lib enc booster (known_rows lib enc rows)) m" .
  with that evaluation_rows [OF assms] show ?thesis by (simp add: stream_evaluation_confusion_def)
qed

lemma count_labels_facts:
  shows count_labels_total: "sum_list (map snd (count_labels rows)) = length rows"
    and count_labels_wf: "wf_dict (count_labels rows)"
    and count_labels_keys: "fst ` set (count_labels rows) = cl_label ` set rows"
proof -
  show "sum_list (map snd (count_labels rows)) = length rows" "wf_dict (count_labels rows)"
    using sum_ticks [of "[]" cl_label rows] by (simp_all add: count_labels_def)
  have "fst ` set (fold (\<lambda>r. tick (cl_label r)) rows c) = fst ` set c \<union> cl_label ` set rows" for c
    by (induction rows arbitrary: c) (auto simp: tick_def)
  then show "fst ` set (count_labels rows) = cl_label ` set rows" by (simp add: count_labels_def)
qed

subsection \<open>Training and evaluation\<close>

lemmas file_names = MODEL_FILENAME_def LABEL_ENCODER_FILENAME_def FEATURE_COLUMNS_FILENAME_def
  TRAINING_METADATA_FILENAME_def TRAINING_REPORT_FILENAME_def MANIFEST_FILENAME_def ZIP_FILENAME_def
  BENCHMARK_REPORT_FILENAME_def MARKDOWN_REPORT_FILENAME_def CONFUSION_MATRIX_FILENAME_def

lemma finish_training_keeps:
  "f \<in> {MODEL_FILENAME, LABEL_ENCODER_FILENAME, FEATURE_COLUMNS_FILENAME, TRAINING_REPORT_FILENAME} \<Longrightarrow>
     map_of (snd (finish_training lib now train_csv opts enc dir)) f = map_of dir f"
  by (auto simp: finish_training_def Let_def file_names)

lemma write_evaluation_keeps:
  "f \<notin> {BENCHMARK_REPORT_FILENAME, CONFUSION_MATRIX_FILENAME, MARKDOWN_REPORT_FILENAME} \<Longrightarrow>
     map_of (write_evaluation test_csv b dir) f = map_of dir f"
  by (auto simp: write_evaluation_def Let_def)

lemma write_evaluation_report: "map_of (write_evaluation test_csv b dir) BENCHMARK_REPORT_FILENAME = Some (BenchmarkReport b)"
  by (simp add: write_evaluation_def Let_def file_names)

text \<open>What a run of the trainer leaves in the directory.\<close>

definition trained :: "('e, 'm) ml_library \<Rightarrow> clean_row list \<Rightarrow> ('e, 'm) model_dir \<Rightarrow> 'e \<Rightarrow> 'm \<Rightarrow> metrics \<Rightarrow> bool" where
  "trained lib rows dir enc booster me \<longleftrightarrow>
     saved_columns dir = Inr FEATURE_COLUMNS \<and> saved_model dir = Inr booster \<and> saved_encoder dir = Inr enc \<and>
     map_of dir TRAINING_REPORT_FILENAME = Some (TrainingReport me (length rows) (sorted_counts (count_labels rows))) \<and>
     ml_classes lib enc = sorted_list_of_set (cl_label ` set rows) \<and>
     usable lib enc booster \<and>
     counts_outcomes (length (ml_classes lib enc)) (outcomes lib enc booster rows) (me_confusion me) \<and>
     metrics_from_confusion_matrix (me_confusion me) (ml_classes lib enc) = Inr me"

lemma fit_booster_softprob:
  "booster_law lib opts \<Longrightarrow> fit_booster lib co opts enc file = Inr booster \<Longrightarrow>
     softprob lib booster (length (ml_classes lib enc))"
  by (auto simp: fit_booster_def booster_law_def bindE_Inr_iff)

lemma fit_booster_ok:
  assumes "encoder_law lib" and "float32_law lib" and "booster_law lib opts" and "2 \<le> length (ml_classes lib enc)"
    and "clean_chunks co file = Inr rows" and "cl_label ` set rows \<subseteq> set (ml_classes lib enc)"
    and "list_all in_float32 rows" and "rows \<noteq> []"
  obtains booster where "fit_booster lib co opts enc file = Inr booster" and "usable lib enc booster"
proof -
  obtain bs where bs: "drain lib co enc file (iterator_reset file \<lparr>it_reader = None, it_chunk_counter = 0\<rparr>) = Inr bs"
    "concat (map fst bs) = map (clean_values lib) rows"
    "concat (map snd bs) = map (index_of (ml_classes lib enc) \<circ> cl_label) rows"
    using batches_rows [OF assms(1,5,6)] by (auto simp: drain_batches iterator_reset_def)
  have "list_all (list_all is_finite) (concat (map fst bs))" using bs(2) finite_matrix [OF assms(2,7)] by simp
  moreover have "list_all (\<lambda>l. l < length (ml_classes lib enc)) (concat (map snd bs))"
    unfolding bs(3) using assms(6) by (auto simp: list_all_iff index_of_less)
  moreover have "bs \<noteq> []" using bs(2) assms(8) by auto
  ultimately obtain booster where "ml_train lib opts (length (ml_classes lib enc)) bs = Inr booster"
    using assms(3,4) by (fastforce simp: booster_law_def list_all_iff)
  with bs(1) have fit: "fit_booster lib co opts enc file = Inr booster" by (simp add: fit_booster_def)
  with assms(1,2) fit_booster_softprob [OF assms(3)] show ?thesis by (intro that) (auto simp: usable_def)
qed

lemma train_model_ok:
  assumes law: "encoder_law lib" and float: "float32_law lib" and prob: "booster_law lib opts"
    and csv: "read_csv train_csv = Some chunks" and opts: "0 < to_chunk_size opts" "0 < to_progress_every opts"
    and rows: "clean_chunks co (chunks (to_chunk_size opts)) = Inr rows" "list_all in_float32 rows"
    and two: "2 \<le> card (cl_label ` set rows)"
  obtains arts dir' enc booster me where "train_model lib co now read_csv train_csv opts dir = (Inr arts, dir')"
    and "trained lib rows dir' enc booster me"
proof -
  let ?file = "chunks (to_chunk_size opts)" and ?counts = "count_labels rows"
  define enc where "enc = ml_fit lib (sort (map fst ?counts))"
  have ne: "rows \<noteq> []" using two by auto
  have counts: "count_file_labels co ?file = Inr ?counts" "?counts \<noteq> []"
    using count_file_labels_eq [OF rows(1)] count_labels_total [of rows] ne by auto
  have classes: "ml_classes lib enc = sorted_list_of_set (cl_label ` set rows)"
    using law count_labels_keys [of rows] by (simp add: enc_def encoder_law_def)
  then have sub: "cl_label ` set rows \<subseteq> set (ml_classes lib enc)" and n: "2 \<le> length (ml_classes lib enc)"
    using two by simp_all
  obtain booster where booster: "fit_booster lib co opts enc ?file = Inr booster" "usable lib enc booster"
    by (rule fit_booster_ok [OF law float prob n rows(1) sub rows(2) ne])
  obtain m where m: "stream_confusion_matrix lib co enc booster ?file = Inr m"
    "counts_outcomes (length (ml_classes lib enc)) (outcomes lib enc booster rows) m"
    by (rule streamed [OF booster(2) n rows(1) sub rows(2)])
  obtain me where me: "metrics_from_confusion_matrix m (ml_classes lib enc) = Inr me" "me_confusion me = m"
    by (rule metrics_of_names [OF m(2) refl]) blast
  define dir3 where "dir3 = AList.update FEATURE_COLUMNS_FILENAME (ColumnsJson FEATURE_COLUMNS)
    (AList.update LABEL_ENCODER_FILENAME (EncoderPickle enc) (AList.update MODEL_FILENAME (ModelPickle booster) dir))"
  define dir4 where "dir4 = AList.update TRAINING_REPORT_FILENAME
    (TrainingReport me (length rows) (sorted_counts ?counts)) dir3"
  obtain arts dir' where fin: "finish_training lib now train_csv opts enc dir4 = (arts, dir')" by fastforce
  have "train_model lib co now read_csv train_csv opts dir = (Inr arts, dir')"
    using csv opts counts booster(1) m(1) me(1) fin
    by (simp add: train_model_def Let_def enc_def [symmetric] dir3_def [symmetric] dir4_def [symmetric] count_labels_total)
  moreover have kept: "map_of dir' f = map_of dir4 f"
    if "f \<in> {MODEL_FILENAME, LABEL_ENCODER_FILENAME, FEATURE_COLUMNS_FILENAME, TRAINING_REPORT_FILENAME}" for f
    using finish_training_keeps [OF that, of lib now train_csv opts enc dir4] fin by simp
  have "trained lib rows dir' enc booster me"
    unfolding trained_def saved_columns_def saved_model_def saved_encoder_def
    using booster(2) m(2) me classes by (simp add: kept) (simp add: dir3_def dir4_def file_names)
  ultimately show ?thesis by (rule that)
qed

text \<open>With the rows of a single class, the run stops after the model, the encoder and the columns.\<close>

lemma train_model_single:
  assumes law: "encoder_law lib" and float: "float32_law lib" and prob: "booster_law lib opts"
    and csv: "read_csv train_csv = Some chunks" and opts: "0 < to_chunk_size opts" "0 < to_progress_every opts"
    and rows: "clean_chunks co (chunks (to_chunk_size opts)) = Inr rows" "list_all in_float32 rows"
    and one: "card (cl_label ` set rows) = 1"
  shows "\<exists>e dir'. train_model lib co now read_csv train_csv opts dir = (Inl e, dir') \<and>
    (\<forall>f \<in> {TRAINING_REPORT_FILENAME, TRAINING_METADATA_FILENAME, MANIFEST_FILENAME, ZIP_FILENAME}.
      map_of dir' f = map_of dir f)"
proof -
  let ?file = "chunks (to_chunk_size opts)" and ?counts = "count_labels rows"
  define enc where "enc = ml_fit lib (sort (map fst ?counts))"
  have ne: "rows \<noteq> []" using one by auto
  have counts: "count_file_labels co ?file = Inr ?counts" "?counts \<noteq> []"
    using count_file_labels_eq [OF rows(1)] count_labels_total [of rows] ne by auto
  have classes: "ml_classes lib enc = sorted_list_of_set (cl_label ` set rows)"
    using law count_labels_keys [of rows] by (simp add: enc_def encoder_law_def)
  then have sub: "cl_label ` set rows \<subseteq> set (ml_classes lib enc)" and n: "\<not> 2 \<le> length (ml_classes lib enc)"
    using one by simp_all
  show ?thesis
  proof (cases "fit_booster lib co opts enc ?file")
    case (Inl e)
    with csv opts counts show ?thesis by (simp add: train_model_def Let_def enc_def [symmetric])
  next
    case (Inr booster)
    then have "usable lib enc booster" using law float fit_booster_softprob [OF prob] by (auto simp: usable_def)
    from stream_single [OF this n rows(1) sub rows(2) ne] csv opts counts Inr show ?thesis
      by (auto simp: train_model_def Let_def enc_def [symmetric] stream_confusion_matrix_def file_names)
  qed
qed

text \<open>
  C15: Training on a file whose usable rows have at least two classes completes and leaves a model, an
  encoder and the canonical columns in the directory. The report is exact: the rows, the rows of
  each label, the support of each class, and the share of rows the saved model classifies right as
  accuracy. With the rows of a single class, training raises and writes no report, metadata,
  manifest or archive, whether XGBoost trains on one class or not.
\<close>
theorem training_report_exact:
  assumes "encoder_law lib" and "float32_law lib" and "booster_law lib opts"
    and "read_csv train_csv = Some chunks" and "0 < to_chunk_size opts" and "0 < to_progress_every opts"
    and "clean_chunks co (chunks (to_chunk_size opts)) = Inr rows" and "list_all in_float32 rows" and "rows \<noteq> []"
  shows "if card (cl_label ` set rows) = 1
    then (\<exists>e dir'. train_model lib co now read_csv train_csv opts dir = (Inl e, dir') \<and>
      (\<forall>f \<in> {TRAINING_REPORT_FILENAME, TRAINING_METADATA_FILENAME, MANIFEST_FILENAME, ZIP_FILENAME}.
        map_of dir' f = map_of dir f))
    else (\<exists>arts dir' enc booster me dist. train_model lib co now read_csv train_csv opts dir = (Inr arts, dir') \<and>
      saved_model dir' = Inr booster \<and> saved_encoder dir' = Inr enc \<and> saved_columns dir' = Inr FEATURE_COLUMNS \<and>
      map_of dir' TRAINING_REPORT_FILENAME = Some (TrainingReport me (length rows) dist) \<and>
      (\<forall>l. counted dist l = labelled l rows) \<and>
      ml_classes lib enc = sorted_list_of_set (cl_label ` set rows) \<and>
      (\<forall>l \<in> cl_label ` set rows. row_sums (me_confusion me) ! index_of (ml_classes lib enc) l = labelled l rows) \<and>
      me_accuracy me = real (hits lib enc booster rows) / real (length rows))"
proof (cases "card (cl_label ` set rows) = 1")
  case True
  with train_model_single [where read_csv = read_csv and train_csv = train_csv, OF assms(1-8)] show ?thesis by simp
next
  case False
  have two: "2 \<le> card (cl_label ` set rows)"
    using False assms(9) by (cases "card (cl_label ` set rows)") auto
  obtain arts dir' enc booster me where ok: "train_model lib co now read_csv train_csv opts dir = (Inr arts, dir')"
    "trained lib rows dir' enc booster me"
    by (rule train_model_ok [where read_csv = read_csv and train_csv = train_csv, OF assms(1-8) two])
  let ?c = "ml_classes lib enc"
  have c: "?c = sorted_list_of_set (cl_label ` set rows)" "usable lib enc booster"
    and m: "counts_outcomes (length ?c) (outcomes lib enc booster rows) (me_confusion me)"
    "metrics_from_confusion_matrix (me_confusion me) ?c = Inr me" using ok(2) unfolding trained_def by blast+
  have sub: "cl_label ` set rows \<subseteq> set ?c" "distinct ?c" and n: "2 \<le> length ?c" using two by (simp_all add: c(1))
  have "row_sums (me_confusion me) ! index_of ?c l = labelled l rows" if "l \<in> cl_label ` set rows" for l
  proof -
    have l: "l \<in> set ?c" using that sub by blast
    show ?thesis using counted_sums(1) [OF m(1) index_of_less [OF l]] hits_outcomes_row [OF sub(1) l] by simp
  qed
  moreover have "me_accuracy me = real (hits lib enc booster rows) / real (length rows)"
  proof (rule metrics_of_names [OF m(1) refl])
    fix me' assume "metrics_from_confusion_matrix (me_confusion me) ?c = Inr me'"
      and "outcomes lib enc booster rows \<noteq> [] \<Longrightarrow> me_accuracy me' =
        real (length (filter (\<lambda>p. fst p = snd p) (outcomes lib enc booster rows))) / real (length (outcomes lib enc booster rows))"
    with m(2) assms(9) hits_outcomes [OF outcomes_bounded [OF c(2) n assms(8) sub(1)] sub] show ?thesis
      by (simp add: outcomes_def)
  qed
  moreover have "counted (sorted_counts (count_labels rows)) l = labelled l rows" for l
    by (simp add: counted_sorted counted_labels)
  ultimately show ?thesis using ok c(1) False by (auto simp: trained_def)
qed

lemma length_filter_split:
  "length (filter P xs) = length (filter (\<lambda>x. P x \<and> Q x) xs) + length (filter (\<lambda>x. P x \<and> \<not> Q x) xs)"
  by (induction xs) auto

lemma normal_fpr_outcomes:
  assumes "counts_outcomes (length classes) ps m" and "''Normal Traffic'' \<in> set classes"
  shows "normal_traffic_fpr m classes =
    (let others = filter (\<lambda>p. fst p \<noteq> index_of classes ''Normal Traffic'') ps
     in real (length (filter (\<lambda>p. snd p = index_of classes ''Normal Traffic'') others)) / real (length others))"
proof -
  define i where "i = index_of classes ''Normal Traffic''"
  have i: "i < length classes" using assms(2) by (simp add: i_def index_of_less)
  define others where "others = filter (\<lambda>p. fst p \<noteq> i) ps"
  define fp where "fp = length (filter (\<lambda>p. snd p = i) others)"
  have cell: "m ! i ! i = length (filter (\<lambda>p. snd p = i \<and> fst p = i) ps)"
    using assms(1) i by (simp add: counts_outcomes_def count_list_eq_length_filter)
      (rule arg_cong [of _ _ length], rule filter_cong, auto)
  have "column_sums m ! i = m ! i ! i + fp"
    unfolding counted_sums(2) [OF assms(1) i] cell fp_def others_def
    by (subst length_filter_split [where Q = "\<lambda>p. fst p = i"]) (simp add: conj_commute)
  moreover have "matrix_total m = row_sums m ! i + length others"
    unfolding counted_sums(1) [OF assms(1) i] counted_sums(3) [OF assms(1)] others_def by (simp add: sum_length_filter_compl)
  ultimately have e: "int (column_sums m ! i) - int (m ! i ! i) = int fp"
    "int (matrix_total m) - int (row_sums m ! i) - int fp = int (length others) - int fp" by simp_all
  have "fp \<le> length others" by (simp add: fp_def)
  then show ?thesis
    unfolding normal_traffic_fpr_def Let_def i_def [symmetric] e using assms(2)
    by (simp add: others_def [symmetric] fp_def [symmetric])
qed

lemma counts_outcomes_unique: "counts_outcomes n ps m \<Longrightarrow> counts_outcomes n ps m' \<Longrightarrow> m = m'"
  by (auto simp: counts_outcomes_def square_iff intro!: nth_equalityI)

text \<open>The rows with an attack's label, and those of them that pass as normal.\<close>

definition missed_rate :: "('e, 'm) ml_library \<Rightarrow> 'e \<Rightarrow> 'm \<Rightarrow> clean_row list \<Rightarrow> real" where
  "missed_rate lib enc booster rows =
     (let attacks = filter (\<lambda>r. cl_label r \<noteq> ''Normal Traffic'') rows
      in real (length (filter (\<lambda>r. ml_classes lib enc ! class_of lib booster r = ''Normal Traffic'') attacks))
         / real (length attacks))"

lemma normal_fpr_rows:
  assumes "set (outcomes lib enc booster rows) \<subseteq> {..<length (ml_classes lib enc)} \<times> {..<length (ml_classes lib enc)}"
    and "cl_label ` set rows \<subseteq> set (ml_classes lib enc)" and "distinct (ml_classes lib enc)" and "''Normal Traffic'' \<in> set (ml_classes lib enc)"
    and "counts_outcomes (length (ml_classes lib enc)) (outcomes lib enc booster rows) m"
  shows "normal_traffic_fpr m (ml_classes lib enc) = missed_rate lib enc booster rows"
proof -
  let ?c = "ml_classes lib enc" and ?n = "''Normal Traffic''"
  have label: "index_of ?c (cl_label r) = index_of ?c ?n \<longleftrightarrow> cl_label r = ?n" if "r \<in> set rows" for r
    using assms(2,4) that by (intro index_of_eq_iff) auto
  have pred: "class_of lib booster r = index_of ?c ?n \<longleftrightarrow> ?c ! class_of lib booster r = ?n" if "r \<in> set rows" for r
  proof -
    have "class_of lib booster r < length ?c" using assms(1) that by (auto simp: outcomes_def)
    with assms(3,4) show ?thesis by (metis index_of_less nth_eq_iff_index_eq nth_index_of)
  qed
  show ?thesis
    unfolding normal_fpr_outcomes [OF assms(5,4)] missed_rate_def Let_def outcomes_def
    using label pred by (simp add: filter_map comp_def cong: filter_cong)
qed

text \<open>
  C17: The evaluation accounts for every row of the test file: it is evaluated or left out for a label
  the encoder does not know, and no row left to evaluate is an error, as is a model of one class,
  whose predictions have no axis to take the largest of. The accuracy is the share of hits, and the
  false-positive rate of normal traffic is the share of attack rows that pass as normal.
\<close>
theorem evaluation_exact:
  assumes "encoder_law lib" and "float32_law lib" and "saved_columns dir = Inr FEATURE_COLUMNS" and "saved_model dir = Inr booster"
    and "saved_encoder dir = Inr enc" and "softprob lib booster (length (ml_classes lib enc))" and "distinct (ml_classes lib enc)"
    and "read_csv test_csv = Some chunks" and "0 < chunk_size" and "0 < progress_every"
    and "clean_chunks co (chunks chunk_size) = Inr rows" and "list_all in_float32 (known_rows lib enc rows)"
  shows "case evaluate_model lib co read_csv test_csv chunk_size progress_every dir of
      Inl e \<Rightarrow> known_rows lib enc rows = [] \<or> length (ml_classes lib enc) = 1
    | Inr (arts, dir') \<Rightarrow> known_rows lib enc rows \<noteq> [] \<and> length (ml_classes lib enc) \<noteq> 1 \<and>
        (\<exists>b. dir' = write_evaluation test_csv b dir \<and>
        be_rows_evaluated b = length (known_rows lib enc rows) \<and>
        be_rows_evaluated b + be_unknown_labels_filtered b = length rows \<and>
        me_accuracy (be_metrics b) = real (hits lib enc booster (known_rows lib enc rows)) / real (be_rows_evaluated b) \<and>
        be_normal_traffic_fpr b = (if ''Normal Traffic'' \<in> set (ml_classes lib enc)
          then missed_rate lib enc booster (known_rows lib enc rows) else 0))"
proof -
  let ?k = "known_rows lib enc rows" and ?c = "ml_classes lib enc"
  have use: "usable lib enc booster" using assms(1,2,6) by (simp add: usable_def)
  have sub: "cl_label ` set ?k \<subseteq> set ?c" by (auto simp: known_rows_def)
  have none: "length ?c \<noteq> 1" if "2 \<le> length ?c" using that by simp
  show ?thesis
  proof (cases "2 \<le> length ?c")
    case True
    obtain m where m: "stream_evaluation_confusion lib co enc booster (chunks chunk_size) =
        Inr (m, length ?k, length (unknown_rows lib enc rows))" "counts_outcomes (length ?c) (outcomes lib enc booster ?k) m"
      by (rule stream_evaluated [OF use True assms(11,12)])
    obtain me where me: "metrics_from_confusion_matrix m ?c = Inr me"
      "outcomes lib enc booster ?k \<noteq> [] \<Longrightarrow> me_accuracy me = real (length (filter (\<lambda>p. fst p = snd p) (outcomes lib enc booster ?k)))
         / real (length (outcomes lib enc booster ?k))"
      by (rule metrics_of_names [OF m(2) refl]) blast
    note bounded = outcomes_bounded [OF use True assms(12) sub]
    have "normal_traffic_fpr m ?c = (if ''Normal Traffic'' \<in> set ?c then missed_rate lib enc booster ?k else 0)"
      using normal_fpr_rows [OF bounded sub assms(7) _ m(2)] by (simp add: normal_traffic_fpr_def)
    with assms m(1) me hits_outcomes [OF bounded sub assms(7)] known_unknown [of lib enc rows] True show ?thesis
      by (auto simp: evaluate_model_def evaluation_benchmark_def outcomes_def)
  next
    case False
    have "?k = []" if "length ?c \<noteq> 1"
    proof -
      have "length ?c = 0" using that False by linarith
      then show ?thesis by (simp add: known_rows_def)
    qed
    with assms evaluation_single [OF use False assms(11,12)] show ?thesis
      by (auto simp: evaluate_model_def evaluation_benchmark_def stream_evaluation_confusion_def)
  qed
qed

text \<open>
  C16: Training and evaluation agree: where the training file has usable rows of at least two classes,
  evaluating the directory that training wrote on that file succeeds, leaves no row out and reports
  the metrics of the training report.
\<close>
theorem training_data_evaluates_alike:
  assumes "encoder_law lib" and "float32_law lib" and "booster_law lib opts"
    and "read_csv train_csv = Some chunks" and "0 < to_chunk_size opts" and "0 < to_progress_every opts"
    and "clean_chunks co (chunks (to_chunk_size opts)) = Inr rows" and "list_all in_float32 rows"
    and "2 \<le> card (cl_label ` set rows)"
  shows "\<exists>me b. map_of (snd (train_model lib co now read_csv train_csv opts dir)) TRAINING_REPORT_FILENAME =
      Some (TrainingReport me (length rows) (sorted_counts (count_labels rows))) \<and>
    (case evaluate_model lib co read_csv train_csv (to_chunk_size opts) (to_progress_every opts)
        (snd (train_model lib co now read_csv train_csv opts dir)) of
      Inl e \<Rightarrow> False
    | Inr (arts, dir') \<Rightarrow> map_of dir' BENCHMARK_REPORT_FILENAME = Some (BenchmarkReport b) \<and>
        be_metrics b = me \<and> be_rows_evaluated b = length rows \<and> be_unknown_labels_filtered b = 0)"
proof -
  obtain arts dir' enc booster me where ok: "train_model lib co now read_csv train_csv opts dir = (Inr arts, dir')"
    "trained lib rows dir' enc booster me"
    by (rule train_model_ok [where read_csv = read_csv and train_csv = train_csv, OF assms])
  let ?c = "ml_classes lib enc" and ?file = "chunks (to_chunk_size opts)"
  note t = ok(2) [unfolded trained_def]
  have n: "2 \<le> length ?c" and ne: "rows \<noteq> []" using t assms(9) by auto
  have all: "known_rows lib enc rows = rows" "unknown_rows lib enc rows = []"
    using t by (auto simp: known_rows_def unknown_rows_def filter_empty_conv)
  have "usable lib enc booster" using t by blast
  from stream_evaluated [OF this n assms(7)] assms(8) obtain m where m: "stream_evaluation_confusion lib co enc booster ?file =
      Inr (m, length rows, 0)" "counts_outcomes (length ?c) (outcomes lib enc booster rows) m" by (auto simp: all)
  have "m = me_confusion me" by (rule counts_outcomes_unique [OF m(2)]) (use t in blast)
  then have "metrics_from_confusion_matrix m ?c = Inr me" using t by blast
  moreover have "saved_columns dir' = Inr FEATURE_COLUMNS" "saved_model dir' = Inr booster" "saved_encoder dir' = Inr enc"
    "map_of dir' TRAINING_REPORT_FILENAME = Some (TrainingReport me (length rows) (sorted_counts (count_labels rows)))"
    using t by blast+
  ultimately show ?thesis using ok(1) assms(4-6) ne m(1)
    by (auto simp: evaluate_model_def evaluation_benchmark_def write_evaluation_report)
qed

text \<open>A library that satisfies the laws, and a file with two rows of two classes.\<close>

definition sample_library :: "(string list, nat) ml_library" where
  "sample_library = \<lparr>ml_fit = (\<lambda>ls. sorted_list_of_set (set ls)), ml_classes = (\<lambda>e. e),
     ml_transform = (\<lambda>e. mapE (\<lambda>l. if l \<in> set e then Inr (index_of e l) else Inl BadValue)),
     ml_float32 = (\<lambda>x. if \<bar>x\<bar> < 2 ^ 128 - 2 ^ 103 then Fin x else if 0 < x then PInf else NInf),
     ml_train = (\<lambda>_ n bs. if list_all (list_all (list_all is_finite) \<circ> fst) bs then Inr n else Inl BadValue),
     ml_predict = (\<lambda>n X. if \<not> list_all (list_all is_finite) X then Inl BadValue
       else Inr (if 2 \<le> n then Rows (map (\<lambda>_. replicate n (1 / real n)) X) else Flat (map (\<lambda>_. 1) X)))\<rparr>"

definition sample_file :: "chunk list" where
  "sample_file = [(CANONICAL_COLUMNS, [[(LABEL_COLUMN, Text ''x'')]]), (CANONICAL_COLUMNS, [[(LABEL_COLUMN, Text ''y'')]])]"

definition sample_options :: train_options where
  "sample_options = \<lparr>to_n_estimators = 1, to_max_depth = 1, to_learning_rate = 1, to_subsample = 1,
     to_colsample_bytree = 1, to_n_jobs = 1, to_random_state = 1, to_create_zip = True, to_chunk_size = 1,
     to_max_bin = 2, to_progress_every = 1\<rparr>"

lemma sample_laws: "encoder_law sample_library" "float32_law sample_library" "booster_law sample_library opts"
  "softprob sample_library n n"
proof -
  have c: "ml_classes sample_library = (\<lambda>e. e)" by (simp add: sample_library_def)
  show "encoder_law sample_library" unfolding encoder_law_def c by (simp add: sample_library_def)
  show "float32_law sample_library" by (simp add: float32_law_def sample_library_def is_finite_def)
  have row: "row_probabilities sample_library n x = replicate n (1 / real n)" if "2 \<le> n" "list_all is_finite x" for n x
    using that by (simp add: row_probabilities_def sample_library_def)
  show prob: "softprob sample_library n n" for n
    unfolding softprob_def
  proof (intro allI impI)
    fix X :: "pyfloat list list"
    assume X: "list_all (list_all is_finite) X"
    then have "map (\<lambda>_. replicate n (1 / real n)) X = map (row_probabilities sample_library n) X" if "2 \<le> n"
      using that by (auto simp: row list_all_iff [of _ X])
    with X row show "if 2 \<le> n then ml_predict sample_library n X = Inr (Rows (map (row_probabilities sample_library n) X)) \<and>
        list_all (\<lambda>x. length (row_probabilities sample_library n x) = n) X
      else \<exists>ps. ml_predict sample_library n X = Inr (Flat ps)"
      by (simp add: sample_library_def) (auto simp: list_all_iff [of _ X])
  qed
  have "ml_train sample_library opts n bs = Inr booster \<Longrightarrow> booster = n" for n bs booster
    by (simp add: sample_library_def split: if_splits)
  with prob show "booster_law sample_library opts"
    unfolding booster_law_def by (auto simp: sample_library_def)
qed

lemma sample_rows:
  obtains r1 r2 where "clean_chunks plain_coercion sample_file = Inr [r1, r2]" and "cl_label r1 = ''x''" and "cl_label r2 = ''y''"
    and "list_all in_float32 [r1, r2]" and "cl_label ` set [r1, r2] = {''x'', ''y''}" and "card (cl_label ` set [r1, r2]) = 2"
proof -
  have plain: "strip c = c" if "c \<in> set CANONICAL_COLUMNS" for c
    using that by (auto simp: CANONICAL_COLUMNS_def FEATURE_COLUMNS_def LABEL_COLUMN_def strip_def lstrip_def rstrip_def
        py_space_def)
  then have "map strip CANONICAL_COLUMNS = CANONICAL_COLUMNS" by (rule map_idI)
  then have header: "validate_prepared_header CANONICAL_COLUMNS"
    by (simp add: validate_prepared_header_def list_all_iff)
  have label: "clean_label (co_repr plain_coercion) (cell_of [(LABEL_COLUMN, Text l)] LABEL_COLUMN) = Some l"
    if "l \<in> {''x'', ''y''}" for l
    using that by (auto simp: clean_label_def cell_of_def BAD_LABELS_def strip_def lstrip_def rstrip_def py_space_def
        lower_def lower_char_def)
  have name: "strip LABEL_COLUMN = LABEL_COLUMN" by (rule plain) (simp add: CANONICAL_COLUMNS_def)
  have absent: "cell_of [(LABEL_COLUMN, Text l)] c = Missing" if "c \<in> set FEATURE_COLUMNS" for c l
    using that by (auto simp: cell_of_def LABEL_COLUMN_def FEATURE_COLUMNS_def)
  have zero: "feature_real (clean_value (co_int64 plain_coercion) c 0) = 0" for c
    using round_half_even_of_int [of 0]
    by (simp add: clean_value_def feature_real_def plain_coercion_def Let_def)
  have row: "\<exists>r. sanitize_row plain_coercion [(LABEL_COLUMN, Text l)] = Some r \<and> cl_label r = l \<and> in_float32 r"
    if "l \<in> {''x'', ''y''}" for l
    using label [OF that] absent [of _ l] zero
    by (auto simp: sanitize_row_def in_float32_def list_all_iff clipped_def to_numeric_def)
  obtain a where a: "sanitize_row plain_coercion [(LABEL_COLUMN, Text ''x'')] = Some a" "cl_label a = ''x''" "in_float32 a"
    using row [of "''x''"] by auto
  obtain b where b: "sanitize_row plain_coercion [(LABEL_COLUMN, Text ''y'')] = Some b" "cl_label b = ''y''" "in_float32 b"
    using row [of "''y''"] by auto
  show ?thesis
    by (rule that [of a b])
      (use name header a b in \<open>simp_all add: sample_file_def sanitize_prepared_chunk_def List.map_filter_def\<close>)
qed

theorem iterator_delivers_witness:
  "\<exists>bs. drain sample_library plain_coercion [''x'', ''y''] sample_file \<lparr>it_reader = None, it_chunk_counter = 3\<rparr> = Inr bs \<and>
     concat (map snd bs) = [0, 1]"
proof -
  obtain r1 r2 where row: "clean_chunks plain_coercion sample_file = Inr [r1, r2]" "cl_label r1 = ''x''" "cl_label r2 = ''y''"
    by (rule sample_rows)
  have c: "ml_classes sample_library = (\<lambda>e. e)" by (simp add: sample_library_def)
  have "cl_label ` set [r1, r2] \<subseteq> set (ml_classes sample_library [''x'', ''y''])" using row(2,3) by (simp add: c)
  from iterator_delivers [OF sample_laws(1) row(1) this, of "\<lparr>it_reader = None, it_chunk_counter = 3\<rparr>"] row(2,3)
  show ?thesis by (auto simp: close_reader_def c index_of_def)
qed

theorem training_report_exact_witness:
  "\<exists>arts dir me dist. train_model sample_library plain_coercion 0 [''t'' \<mapsto> (\<lambda>_. sample_file)] ''t'' sample_options [] =
     (Inr arts, dir) \<and> map_of dir TRAINING_REPORT_FILENAME = Some (TrainingReport me 2 dist) \<and>
     counted dist ''x'' = 1 \<and> counted dist ''y'' = 1"
proof -
  obtain r1 r2 where row: "clean_chunks plain_coercion sample_file = Inr [r1, r2]" "cl_label r1 = ''x''" "cl_label r2 = ''y''"
    "list_all in_float32 [r1, r2]" "cl_label ` set [r1, r2] = {''x'', ''y''}" "card (cl_label ` set [r1, r2]) = 2"
    by (rule sample_rows)
  have "0 < to_chunk_size sample_options" "0 < to_progress_every sample_options" by (simp_all add: sample_options_def)
  from training_report_exact [OF sample_laws(1-3), of "[''t'' \<mapsto> (\<lambda>_. sample_file)]" "''t''" "\<lambda>_. sample_file" sample_options
      plain_coercion "[r1, r2]" 0 "[]", OF _ this row(1,4)] row(6)
  obtain arts dir me dist where "train_model sample_library plain_coercion 0 [''t'' \<mapsto> (\<lambda>_. sample_file)] ''t'' sample_options [] =
     (Inr arts, dir)" "map_of dir TRAINING_REPORT_FILENAME = Some (TrainingReport me (length [r1, r2]) dist)"
    "\<forall>l. counted dist l = labelled l [r1, r2]" by auto
  with row(2,3) show ?thesis by (auto simp: labelled_def)
qed

theorem training_data_evaluates_alike_witness:
  "\<exists>arts dir b. evaluate_model sample_library plain_coercion [''t'' \<mapsto> (\<lambda>_. sample_file)] ''t'' 1 1
      (snd (train_model sample_library plain_coercion 0 [''t'' \<mapsto> (\<lambda>_. sample_file)] ''t'' sample_options [])) =
      Inr (arts, dir) \<and> map_of dir BENCHMARK_REPORT_FILENAME = Some (BenchmarkReport b) \<and>
    be_rows_evaluated b = 2 \<and> be_unknown_labels_filtered b = 0"
proof -
  let ?csv = "[''t'' \<mapsto> (\<lambda>_. sample_file)]"
  obtain r1 r2 where row: "clean_chunks plain_coercion sample_file = Inr [r1, r2]" "cl_label r1 = ''x''" "cl_label r2 = ''y''"
    "list_all in_float32 [r1, r2]" "cl_label ` set [r1, r2] = {''x'', ''y''}" "card (cl_label ` set [r1, r2]) = 2"
    by (rule sample_rows)
  have opts: "to_chunk_size sample_options = 1" "to_progress_every sample_options = 1" by (simp_all add: sample_options_def)
  from training_data_evaluates_alike [OF sample_laws(1-3), of ?csv "''t''" "\<lambda>_. sample_file" sample_options
      plain_coercion "[r1, r2]" 0 "[]"] row(1,4,6) opts
  have "\<exists>b. case evaluate_model sample_library plain_coercion ?csv ''t'' 1 1
      (snd (train_model sample_library plain_coercion 0 ?csv ''t'' sample_options [])) of
      Inl e \<Rightarrow> False
    | Inr (arts, dir) \<Rightarrow> map_of dir BENCHMARK_REPORT_FILENAME = Some (BenchmarkReport b) \<and>
        be_rows_evaluated b = 2 \<and> be_unknown_labels_filtered b = 0" by (auto split: sum.splits)
  then show ?thesis by (cases "evaluate_model sample_library plain_coercion ?csv ''t'' 1 1
      (snd (train_model sample_library plain_coercion 0 ?csv ''t'' sample_options []))") auto
qed

definition sample_model_dir :: "(string list, nat) model_dir" where
  "sample_model_dir = [(FEATURE_COLUMNS_FILENAME, ColumnsJson FEATURE_COLUMNS), (MODEL_FILENAME, ModelPickle 2),
     (LABEL_ENCODER_FILENAME, EncoderPickle [''x'', ''z''])]"

theorem evaluation_exact_witness:
  "case evaluate_model sample_library plain_coercion [''t'' \<mapsto> (\<lambda>_. sample_file)] ''t'' 1 1 sample_model_dir of
     Inl e \<Rightarrow> False
   | Inr (arts, dir) \<Rightarrow> (\<exists>b. dir = write_evaluation ''t'' b sample_model_dir \<and> be_rows_evaluated b = 1 \<and>
       be_unknown_labels_filtered b = 1 \<and> me_accuracy (be_metrics b) = 1)"
proof -
  obtain r1 r2 where row: "clean_chunks plain_coercion sample_file = Inr [r1, r2]" "cl_label r1 = ''x''" "cl_label r2 = ''y''"
    "list_all in_float32 [r1, r2]" by (rule sample_rows)
  have c: "ml_classes sample_library = (\<lambda>e. e)" by (simp add: sample_library_def)
  have saved: "saved_columns sample_model_dir = Inr FEATURE_COLUMNS" "saved_model sample_model_dir = Inr 2"
    "saved_encoder sample_model_dir = Inr [''x'', ''z'']"
    by (simp_all add: saved_columns_def saved_model_def saved_encoder_def file_names sample_model_dir_def)
  have known: "known_rows sample_library [''x'', ''z''] [r1, r2] = [r1]" using row by (simp add: known_rows_def c)
  have two: "softprob sample_library 2 (length (ml_classes sample_library [''x'', ''z'']))"
    using sample_laws(4) [of 2] by (simp add: c numeral_2_eq_2)
  have "list_all is_finite (clean_values sample_library r1)" using row(4) by (simp add: finite_values sample_laws(2))
  then have "class_of sample_library 2 r1 = 0"
    by (simp add: class_of_def row_probabilities_def sample_library_def argmax_def numeral_2_eq_2)
  with row known have "hits sample_library [''x'', ''z''] 2 [r1] = 1" by (simp add: hits_def c)
  with evaluation_exact [OF sample_laws(1,2) saved two, of "[''t'' \<mapsto> (\<lambda>_. sample_file)]" "''t''" "\<lambda>_. sample_file" 1 1
      plain_coercion "[r1, r2]"] row known
  show ?thesis by (auto simp: c split: sum.splits)
qed

end
