(* ===== verification/Preparation.thy ===== *)
theory Preparation
  imports Datasets
begin

text \<open>
  The preparation of the raw CIC IDS 2018 files (\<open>ml/datasets/prepare_cicids2018.py\<close>): the choice of
  the source files, the checks, the cleaning of the concatenated frame, the outputs and their
  metadata. Reading and writing files, digests and \<open>train_test_split\<close> are arguments. So is what pandas
  reads of a file that the preparation wrote, with its documented behaviour as \<open>csv_law\<close>.
\<close>

subsection \<open>Source files\<close>

text \<open>\<open>Path.suffix\<close> of a name.\<close>

definition path_suffix :: "string \<Rightarrow> string" where
  "path_suffix name =
     (let ext = rev (takeWhile (\<lambda>c. c \<noteq> CHR ''.'') (rev name))
      in if CHR ''.'' \<in> set name \<and> ext \<noteq> [] \<and> length ext + 1 < length name then CHR ''.'' # ext else [])"

text \<open>A frame is its header and its rows; \<open>so_glob\<close> lists the CSV files of a directory.\<close>

type_synonym frame_rows = "string list \<times> row list"

record source_files =
  so_is_file :: "path \<Rightarrow> bool"
  so_is_dir :: "path \<Rightarrow> bool"
  so_glob :: "path \<Rightarrow> path list"
  so_exists :: "path \<Rightarrow> bool"
  so_read_csv :: "path \<Rightarrow> frame_rows"
  so_sha256 :: "path \<Rightarrow> string"

definition resolve_source_files :: "source_files \<Rightarrow> path \<Rightarrow> dataset_error + path list" where
  "resolve_source_files fs source =
     (if so_is_file fs source then
        if lower (path_suffix (snd source)) \<noteq> ''.csv'' then Inl BadValue else Inr [source]
      else if so_is_dir fs source then
        let csv_files = sort_key snd (so_glob fs source)
        in if csv_files = [] then Inl FileNotFound else Inr csv_files
      else Inl FileNotFound)"

subsection \<open>Frames\<close>

definition RAW_LABEL_COLUMN :: string where "RAW_LABEL_COLUMN = ''Label''"

definition strip_columns :: "frame_rows \<Rightarrow> frame_rows" where
  "strip_columns f = (map strip (fst f), map (map (\<lambda>(c, v). (strip c, v))) (snd f))"

definition first_occurrences :: "'a list \<Rightarrow> 'a list" where
  "first_occurrences xs = rev (remdups (rev xs))"

text \<open>
  \<open>pd.concat\<close>: the columns of all frames in the order they first appear, \<open>NaN\<close> where a frame lacks
  one. \<open>drop_duplicates\<close> keeps the first of equal rows.
\<close>

definition concat_frames :: "frame_rows list \<Rightarrow> frame_rows" where
  "concat_frames frames =
     (let columns = first_occurrences (concat (map fst frames))
      in (columns, map (\<lambda>r. map (\<lambda>c. (c, cell_of r c)) columns) (concat (map snd frames))))"

definition check_header :: "coercion \<Rightarrow> frame_rows \<Rightarrow> dataset_error + unit" where
  "check_header co f =
     (let header = map strip (fst f)
      in if RAW_LABEL_COLUMN \<notin> set header then Inl BadValue
         else bindE (prepare_cicids2018_features co header []) (\<lambda>_. Inr ()))"

subsection \<open>Cleaning\<close>

text \<open>\<open>dropna\<close> on the label, \<open>astype(str).str.strip()\<close>, and no empty label.\<close>

definition raw_label :: "coercion \<Rightarrow> row \<Rightarrow> string option" where
  "raw_label co r =
     (case cell_of r RAW_LABEL_COLUMN of
        Missing \<Rightarrow> None
      | Num f \<Rightarrow> if f = NaN then None else Some (strip (co_repr co f))
      | Text s \<Rightarrow> Some (strip s))"

definition clean_source_row :: "coercion \<Rightarrow> row \<Rightarrow> row option" where
  "clean_source_row co r =
     (case raw_label co r of
        None \<Rightarrow> None
      | Some l \<Rightarrow> if l = [] then None else Some (AList.update RAW_LABEL_COLUMN (Text l) r))"

definition filter_source :: "coercion \<Rightarrow> frame_rows \<Rightarrow> dataset_error + row list" where
  "filter_source co raw =
     (let cleaned = List.map_filter (clean_source_row co) (first_occurrences (snd raw))
      in bindE (coerce_cicids2018_features co (fst raw) cleaned) (\<lambda>features.
        let filtered = map fst (filter (\<lambda>(r, fs). list_all (is_finite \<circ> snd) fs) (zip cleaned features))
        in if filtered = [] then Inl BadValue else Inr filtered))"

record prepared_row =
  pw_features :: "(string \<times> pyfloat) list"
  pw_label :: string

definition label_of :: "row \<Rightarrow> string" where
  "label_of r = (case cell_of r RAW_LABEL_COLUMN of Text s \<Rightarrow> s | _ \<Rightarrow> [])"

definition prepare_rows :: "coercion \<Rightarrow> frame_rows \<Rightarrow> dataset_error + prepared_row list" where
  "prepare_rows co raw =
     bindE (filter_source co raw) (\<lambda>filtered.
       bindE (prepare_cicids2018_features co (fst raw) filtered) (\<lambda>features.
         Inr (map2 (\<lambda>fs r. \<lparr>pw_features = fs, pw_label = normalize_cicids2018_label (label_of r)\<rparr>) features filtered)))"

subsection \<open>Outputs\<close>

record source_metadata =
  sm_path :: path
  sm_rows :: nat
  sm_sha256 :: string

record prepared_metadata =
  pm_source_files :: "source_metadata list"
  pm_feature_columns :: "string list"
  pm_label_column :: string
  pm_raw_label_column :: string
  pm_test_size :: real
  pm_random_seed :: int
  pm_total_rows :: nat
  pm_cleaned_rows :: nat
  pm_train_rows :: nat
  pm_test_rows :: nat
  pm_label_distribution :: counter
  pm_train_label_distribution :: counter
  pm_test_label_distribution :: counter
  pm_outputs :: "(string \<times> path \<times> string) list"

record prepared_dataset =
  pd_cleaned :: "prepared_row list"
  pd_train :: "prepared_row list"
  pd_test :: "prepared_row list"
  pd_metadata :: prepared_metadata

definition label_distribution :: "prepared_row list \<Rightarrow> counter" where
  "label_distribution rows = sorted_counts (fold (\<lambda>r. tick (pw_label r)) rows [])"

definition output_names :: "(string \<times> string) list" where
  "output_names = [(''cleaned'', ''cicids2018_cleaned.csv''), (''train'', ''cicids2018_train.csv''),
     (''test'', ''cicids2018_test.csv''), (''metadata'', ''cicids2018_dataset_metadata.json'')]"

text \<open>\<open>digest\<close> gives the digest of a file written with the rows of a frame.\<close>

definition prepared_of :: "source_files \<Rightarrow> (prepared_row list \<Rightarrow> string) \<Rightarrow> string \<Rightarrow> path list \<Rightarrow> real \<Rightarrow> int \<Rightarrow>
    prepared_row list \<Rightarrow> prepared_row list \<Rightarrow> prepared_row list \<Rightarrow> prepared_dataset" where
  "prepared_of fs digest output_dir source_paths test_size random_seed prepared train test =
     \<lparr>pd_cleaned = prepared, pd_train = train, pd_test = test,
      pd_metadata = \<lparr>pm_source_files = map (\<lambda>p. \<lparr>sm_path = p, sm_rows = length (snd (so_read_csv fs p)),
          sm_sha256 = so_sha256 fs p\<rparr>) source_paths,
        pm_feature_columns = FEATURE_COLUMNS, pm_label_column = LABEL_COLUMN,
        pm_raw_label_column = RAW_LABEL_COLUMN, pm_test_size = test_size, pm_random_seed = random_seed,
        pm_total_rows = length prepared, pm_cleaned_rows = length prepared,
        pm_train_rows = length train, pm_test_rows = length test,
        pm_label_distribution = label_distribution prepared,
        pm_train_label_distribution = label_distribution train,
        pm_test_label_distribution = label_distribution test,
        pm_outputs = [(''cleaned'', (output_dir, ''cicids2018_cleaned.csv''), digest prepared),
          (''train'', (output_dir, ''cicids2018_train.csv''), digest train),
          (''test'', (output_dir, ''cicids2018_test.csv''), digest test)]\<rparr>\<rparr>"

definition prepare_dataset ::
    "source_files \<Rightarrow> coercion \<Rightarrow> (real \<Rightarrow> int \<Rightarrow> prepared_row list \<Rightarrow> dataset_error + prepared_row list \<times> prepared_row list) \<Rightarrow>
     (prepared_row list \<Rightarrow> string) \<Rightarrow> path \<Rightarrow> string \<Rightarrow> real \<Rightarrow> int \<Rightarrow> bool \<Rightarrow> dataset_error + prepared_dataset" where
  "prepare_dataset fs co split digest source output_dir test_size random_seed force =
     bindE (resolve_source_files fs source) (\<lambda>paths.
       if \<not> (0 < test_size \<and> test_size < 1) then Inl BadValue
       else if list_ex (\<lambda>(k, n). so_exists fs (output_dir, n)) output_names \<and> \<not> force then Inl FileExists
       else bindE (mapE (\<lambda>p. check_header co (so_read_csv fs p)) paths) (\<lambda>_.
         let raw = concat_frames (map (strip_columns \<circ> so_read_csv fs) paths) in
         if RAW_LABEL_COLUMN \<notin> set (fst raw) then Inl BadValue
         else bindE (prepare_rows co raw) (\<lambda>prepared.
           bindE (split test_size random_seed prepared) (\<lambda>(train, test).
             Inr (prepared_of fs digest output_dir paths test_size random_seed prepared train test)))))"

subsection \<open>Facts\<close>

lemma set_first_occurrences [simp]: "set (first_occurrences xs) = set xs"
  by (simp add: first_occurrences_def)

lemma distinct_first_occurrences [simp]: "distinct (first_occurrences xs)"
  by (simp add: first_occurrences_def)

definition canonical_header :: "string list \<Rightarrow> bool" where
  "canonical_header columns \<longleftrightarrow> list_all (\<lambda>f. f \<in> set (map (renamed \<circ> strip) columns)) FEATURE_COLUMNS"

lemma coerce_eq: "coerce_cicids2018_features co columns rows =
    (if canonical_header columns then Inr (map (coerce_row co) rows) else Inl BadValue)"
  by (simp add: coerce_cicids2018_features_def canonical_header_def Let_def)

lemma prepare_eq: "prepare_cicids2018_features co columns rows =
    (if canonical_header columns \<and> list_all (list_all (is_finite \<circ> snd)) (map (coerce_row co) rows)
     then Inr (map (coerce_row co) rows) else Inl BadValue)"
  by (simp add: prepare_cicids2018_features_def coerce_eq)

text \<open>The label is no feature, so that writing it changes no feature.\<close>

lemma label_no_feature: "renamed (strip RAW_LABEL_COLUMN) = RAW_LABEL_COLUMN" "RAW_LABEL_COLUMN \<notin> set FEATURE_COLUMNS"
  by (simp_all add: RAW_LABEL_COLUMN_def renamed_def CICIDS2018_TO_INTERNAL_def FEATURE_COLUMNS_def strip_def
      lstrip_def rstrip_def py_space_def)

lemma map_of_mapped_update:
  "c \<noteq> renamed (strip k) \<Longrightarrow>
     map_of (map (\<lambda>(c, v). (renamed (strip c), f c v)) (AList.update k w r)) c =
     map_of (map (\<lambda>(c, v). (renamed (strip c), f c v)) r) c"
  by (induction r) auto

lemma coerce_row_label: "coerce_row co (AList.update RAW_LABEL_COLUMN w r) = coerce_row co r"
proof -
  have "map_of (map (\<lambda>(c, v). (renamed (strip c), coerce_raw_cell co (strip c) v)) (AList.update RAW_LABEL_COLUMN w r)) c =
      map_of (map (\<lambda>(c, v). (renamed (strip c), coerce_raw_cell co (strip c) v)) r) c" if "c \<in> set FEATURE_COLUMNS" for c
    using that label_no_feature by (intro map_of_mapped_update) auto
  then show ?thesis by (simp add: coerce_row_def Let_def)
qed

text \<open>What becomes of one row of the source.\<close>

definition prepare_row :: "coercion \<Rightarrow> row \<Rightarrow> prepared_row option" where
  "prepare_row co r =
     (case raw_label co r of
        None \<Rightarrow> None
      | Some l \<Rightarrow> if l \<noteq> [] \<and> list_all (is_finite \<circ> snd) (coerce_row co r)
          then Some \<lparr>pw_features = coerce_row co r, pw_label = normalize_cicids2018_label l\<rparr> else None)"

lemma prepare_rows_eq:
  assumes "canonical_header (fst raw)"
  shows "prepare_rows co raw =
    (let rows = List.map_filter (prepare_row co) (first_occurrences (snd raw)) in if rows = [] then Inl BadValue else Inr rows)"
proof -
  define cleaned where "cleaned = List.map_filter (clean_source_row co) (first_occurrences (snd raw))"
  define filtered where "filtered = filter (\<lambda>r. list_all (is_finite \<circ> snd) (coerce_row co r)) cleaned"
  have "map fst (filter (\<lambda>(r, fs). list_all (is_finite \<circ> snd) fs) (zip rs (map (coerce_row co) rs))) =
      filter (\<lambda>r. list_all (is_finite \<circ> snd) (coerce_row co r)) rs" for rs
    by (induction rs) auto
  from this [of cleaned] have "filter_source co raw = (if filtered = [] then Inl BadValue else Inr filtered)"
    using assms unfolding filter_source_def Let_def coerce_eq cleaned_def [symmetric] filtered_def [symmetric]
    by (simp only: if_True bindE_simps)
  moreover have "prepare_cicids2018_features co (fst raw) filtered = Inr (map (coerce_row co) filtered)"
    using assms by (auto simp: prepare_eq filtered_def list_all_iff)
  moreover have "map (\<lambda>r. \<lparr>pw_features = coerce_row co r, pw_label = normalize_cicids2018_label (label_of r)\<rparr>)
      (filter (\<lambda>r. list_all (is_finite \<circ> snd) (coerce_row co r)) (List.map_filter (clean_source_row co) rs)) =
      List.map_filter (prepare_row co) rs" for rs
    by (induction rs) (auto simp: map_filter_simps clean_source_row_def prepare_row_def coerce_row_label label_of_def
        cell_of_def comp_def split: option.splits)
  then have "map (\<lambda>r. \<lparr>pw_features = coerce_row co r, pw_label = normalize_cicids2018_label (label_of r)\<rparr>) filtered =
      List.map_filter (prepare_row co) (first_occurrences (snd raw))" by (simp add: filtered_def cleaned_def)
  ultimately show ?thesis
    by (auto simp: prepare_rows_def Let_def zip_map1 zip_same_conv_map comp_def)
qed

text \<open>
  C18: The two passes of the preparation come to one decision per row: of the source rows, each once
  and in the order they first appear, exactly those with a label and finite features are kept, with
  the normalised label; the second pass never fails on what the first one kept, and no row left is
  the only error. Every prepared row has the canonical columns and a label that is normal already.
\<close>
theorem preparation_exact:
  assumes "canonical_header (fst raw)"
  shows "case prepare_rows co raw of
      Inl e \<Rightarrow> e = BadValue \<and> List.map_filter (prepare_row co) (first_occurrences (snd raw)) = []
    | Inr rows \<Rightarrow> rows = List.map_filter (prepare_row co) (first_occurrences (snd raw)) \<and> rows \<noteq> [] \<and>
        (\<forall>r \<in> set rows. map fst (pw_features r) = FEATURE_COLUMNS \<and> list_all (is_finite \<circ> snd) (pw_features r) \<and>
           normalize_cicids2018_label (pw_label r) = pw_label r)"
proof -
  have "map fst (pw_features p) = FEATURE_COLUMNS \<and> list_all (is_finite \<circ> snd) (pw_features p) \<and>
      normalize_cicids2018_label (pw_label p) = pw_label p" if "prepare_row co r = Some p" for r p
    using that by (auto simp: prepare_row_def coerce_row_def Let_def comp_def normalize_label_idempotent
        split: option.splits if_splits)
  then have "\<forall>p \<in> set (List.map_filter (prepare_row co) rs). map fst (pw_features p) = FEATURE_COLUMNS \<and>
      list_all (is_finite \<circ> snd) (pw_features p) \<and> normalize_cicids2018_label (pw_label p) = pw_label p" for rs
    by (auto simp: List.map_filter_def)
  then show ?thesis by (simp add: prepare_rows_eq [OF assms] Let_def)
qed

lemma counted_distribution: "counted (label_distribution rows) l = length (filter (\<lambda>r. pw_label r = l) rows)"
proof -
  have "counted (fold (\<lambda>r. tick (pw_label r)) rows c) l = counted c l + length (filter (\<lambda>r. pw_label r = l) rows)" for c
    by (induction rows arbitrary: c) (auto simp: counted_tick)
  then show ?thesis by (simp add: label_distribution_def) (simp add: counted_def)
qed

text \<open>
  The metadata accounts for every row: a source that yields a data set has canonical headers
  in every file, the train and test rows add up to the prepared rows, in all and for each label,
  and the files listed are those of the source; existing outputs are kept unless forced.
\<close>
theorem prepared_metadata_accounts:
  assumes "\<And>rows train test. split test_size random_seed rows = Inr (train, test) \<Longrightarrow> mset train + mset test = mset rows"
    and "prepare_dataset fs co split digest source output_dir test_size random_seed force = Inr ds"
  shows "pm_train_rows (pd_metadata ds) + pm_test_rows (pd_metadata ds) = pm_total_rows (pd_metadata ds) \<and>
    counted (pm_train_label_distribution (pd_metadata ds)) l + counted (pm_test_label_distribution (pd_metadata ds)) l =
      counted (pm_label_distribution (pd_metadata ds)) l \<and>
    pm_total_rows (pd_metadata ds) = length (pd_cleaned ds) \<and> 0 < pm_total_rows (pd_metadata ds) \<and>
    resolve_source_files fs source = Inr (map sm_path (pm_source_files (pd_metadata ds))) \<and>
    list_all (\<lambda>s. canonical_header (map strip (fst (so_read_csv fs (sm_path s))))) (pm_source_files (pd_metadata ds)) \<and>
    (force \<or> list_all (\<lambda>(k, n). \<not> so_exists fs (output_dir, n)) output_names)"
proof -
  obtain paths where paths: "resolve_source_files fs source = Inr paths"
    and kept: "\<not> (list_ex (\<lambda>(k, n). so_exists fs (output_dir, n)) output_names \<and> \<not> force)"
    using assms(2) by (auto simp: prepare_dataset_def bindE_Inr_iff split: if_splits)
  let ?raw = "concat_frames (map (strip_columns \<circ> so_read_csv fs) paths)"
  from assms(2) paths obtain us prepared train test where
    heads: "mapE (\<lambda>p. check_header co (so_read_csv fs p)) paths = Inr us"
    and prep: "prepare_rows co ?raw = Inr prepared" and spl: "split test_size random_seed prepared = Inr (train, test)"
    and ds: "ds = prepared_of fs digest output_dir paths test_size random_seed prepared train test"
    by (auto simp: prepare_dataset_def bindE_Inr_iff Let_def split: if_splits)
  have m: "mset train + mset test = mset prepared" by (rule assms(1) [OF spl])
  then have len: "length train + length test = length prepared" by (metis size_mset size_union)
  have lab: "length (filter P train) + length (filter P test) = length (filter P prepared)" for P
    using m by (metis mset_filter size_mset size_union filter_union_mset)
  have "prepared \<noteq> []"
    using prep by (auto simp: prepare_rows_def filter_source_def prepare_eq coerce_eq bindE_Inr_iff Let_def split: if_splits)
  moreover have "list_all (\<lambda>p. canonical_header (map strip (fst (so_read_csv fs p)))) paths"
  proof -
    have "check_header co (so_read_csv fs p) = Inr u \<Longrightarrow> canonical_header (map strip (fst (so_read_csv fs p)))" for p u
      by (auto simp: check_header_def Let_def prepare_eq bindE_Inr_iff split: if_splits)
    with heads show ?thesis unfolding mapE_Inr_iff list_all2_conv_all_nth list_all_length by blast
  qed
  ultimately show ?thesis
    using paths kept len lab
    by (auto simp: ds prepared_of_def counted_distribution comp_def list_all_iff list_ex_iff)
qed

text \<open>The raw names start with a capital, the canonical ones do not.\<close>

definition capitals :: string where "capitals = ''DPFTSAURI''"

lemma raw_capital: "list_all (\<lambda>(k, v). hd k \<in> set capitals) CICIDS2018_TO_INTERNAL"
  "list_all (\<lambda>k. hd k \<in> set capitals) RAW_MICROSECOND_COLUMNS"
  by (simp_all add: CICIDS2018_TO_INTERNAL_def RAW_MICROSECOND_COLUMNS_def capitals_def)

lemma feature_lower: "list_all (\<lambda>c. hd c \<notin> set capitals) FEATURE_COLUMNS"
  by (simp add: FEATURE_COLUMNS_def capitals_def)

lemma canonical_strip: "list_all (\<lambda>c. strip c = c) CANONICAL_COLUMNS"
  by (simp add: CANONICAL_COLUMNS_def FEATURE_COLUMNS_def LABEL_COLUMN_def strip_def lstrip_def rstrip_def py_space_def)

lemma canonical_plain: "c \<in> set CANONICAL_COLUMNS \<Longrightarrow> strip c = c"
  using canonical_strip by (simp add: list_all_iff)

lemma feature_plain:
  assumes "c \<in> set FEATURE_COLUMNS"
  shows "strip c = c" and "renamed c = c" and "c \<notin> set RAW_MICROSECOND_COLUMNS"
proof -
  have "hd c \<notin> set capitals" using assms feature_lower by (simp add: list_all_iff)
  moreover have "strip c = c" using assms by (intro canonical_plain) (simp add: CANONICAL_COLUMNS_def)
  ultimately show "strip c = c" "renamed c = c" "c \<notin> set RAW_MICROSECOND_COLUMNS"
    using raw_capital by (auto simp: list_all_iff renamed_def split: option.splits dest!: map_of_SomeD)
qed

lemma canonical_columns_header: "set FEATURE_COLUMNS \<subseteq> set columns \<Longrightarrow> canonical_header columns"
  using feature_plain(1,2) unfolding canonical_header_def list_all_iff set_map comp_def
  by (metis (no_types, lifting) image_eqI subsetD)

lemma strip_normalized: "strip (normalize_cicids2018_label l) = normalize_cicids2018_label l"
proof -
  have "strip ''Normal Traffic'' = ''Normal Traffic''" "strip ''DDoS'' = ''DDoS''" "strip ''DoS'' = ''DoS''"
    "strip ''Brute Force'' = ''Brute Force''" "strip ''Bots'' = ''Bots''" "strip ''Web Attacks'' = ''Web Attacks''"
    "strip ''Infiltration'' = ''Infiltration''" "strip ''Heartbleed'' = ''Heartbleed''"
    by (simp_all add: strip_def lstrip_def rstrip_def py_space_def)
  then show ?thesis by (simp add: normalize_cicids2018_label_def Let_def)
qed

lemma coerce_numbers:
  assumes "map fst fs = FEATURE_COLUMNS"
  shows "coerce_row co (map (\<lambda>(c, f). (c, Num f)) fs @ rest) = fs"
proof -
  have dist: "distinct FEATURE_COLUMNS" by (simp add: FEATURE_COLUMNS_def)
  have keep: "map (\<lambda>(c, v). (renamed (strip c), coerce_raw_cell co (strip c) v)) (map (\<lambda>(c, f). (c, Num f)) fs) = fs"
    if "fst ` set fs \<subseteq> set FEATURE_COLUMNS" for fs
    using that
  proof (induction fs)
    case (Cons p fs)
    then have "fst p \<in> set FEATURE_COLUMNS" by auto
    from feature_plain [OF this] Cons show ?case
      by (cases p) (simp add: coerce_raw_cell_def to_numeric_def)
  qed simp
  have m: "map (\<lambda>(c, v). (renamed (strip c), coerce_raw_cell co (strip c) v)) (map (\<lambda>(c, f). (c, Num f)) fs) = fs"
    by (rule keep) (use arg_cong [OF assms, of set] in simp)
  have "map_of (fs @ rest') c = Some f" if "(c, f) \<in> set fs" for c f rest'
    using that assms dist by (simp add: map_add_def)
  then have "map (\<lambda>c. (c, case map_of (fs @ rest') c of None \<Rightarrow> NaN | Some f \<Rightarrow> f)) (map fst fs) = fs" for rest'
    unfolding map_map by (intro map_idI) auto
  then show ?thesis unfolding coerce_row_def Let_def map_append m assms .
qed

subsection \<open>The files as the training scripts read them\<close>

text \<open>
  What \<open>read_csv\<close> makes of a file that \<open>to_csv\<close> wrote. Its documentation lists the texts it takes for
  missing values. A label that is none of them, no number and no truth value comes back as itself,
  and a number as a number: the same one if it is whole and not large, while the default parser of
  other numbers does not promise the last digit.
\<close>

definition na_markers :: "string list" where
  "na_markers = [[], ''#N/A'', ''#N/A N/A'', ''#NA'', ''-1.#IND'', ''-1.#QNAN'', ''-NaN'', ''-nan'', ''1.#IND'', ''1.#QNAN'',
     ''<NA>'', ''N/A'', ''NA'', ''NULL'', ''NaN'', ''None'', ''n/a'', ''nan'', ''null'']"

definition text_label :: "coercion \<Rightarrow> string \<Rightarrow> bool" where
  "text_label co l \<longleftrightarrow> l \<notin> set na_markers \<and> co_parse co l = None \<and> lower l \<notin> {''true'', ''false''}"

definition read_cells :: "coercion \<Rightarrow> prepared_row \<Rightarrow> row \<Rightarrow> bool" where
  "read_cells co p r \<longleftrightarrow> map fst r = CANONICAL_COLUMNS \<and>
     (\<forall>(c, f) \<in> set (pw_features p). \<exists>f'. cell_of r c = Num f' \<and>
       (\<forall>i. f = Fin (of_int i) \<longrightarrow> \<bar>i\<bar> \<le> 2 ^ 31 \<longrightarrow> f' = f)) \<and>
     (pw_label p \<in> set na_markers \<longrightarrow> cell_of r LABEL_COLUMN = Missing) \<and>
     (text_label co (pw_label p) \<longrightarrow> cell_of r LABEL_COLUMN = Text (pw_label p))"

definition csv_law :: "coercion \<Rightarrow> (prepared_row list \<Rightarrow> row list) \<Rightarrow> bool" where
  "csv_law co read_back \<longleftrightarrow> (\<forall>rows. (\<forall>p \<in> set rows. map fst (pw_features p) = FEATURE_COLUMNS) \<longrightarrow>
     list_all2 (read_cells co) rows (read_back rows))"

text \<open>An integer that the column admits.\<close>

definition admitted :: "string \<Rightarrow> int \<Rightarrow> bool" where
  "admitted c i \<longleftrightarrow> c \<in> set INT_COLUMNS \<and> 0 \<le> i \<and> i \<le> 2 ^ 31 \<and> (c = ''protocol'' \<longrightarrow> i \<in> set VALID_PROTOCOLS) \<and>
     (c = ''dst_port'' \<longrightarrow> i \<le> 65535)"

lemma clean_value_admitted:
  assumes "admitted c i" and "\<And>i. 0 \<le> i \<Longrightarrow> i \<le> 2 ^ 31 \<Longrightarrow> to_int64 i = i"
  shows "clean_value to_int64 c (clipped (Fin (of_int i))) = FInt i"
  using assms by (auto simp: admitted_def clean_value_def clipped_def round_half_even_of_int max_def Let_def)

text \<open>What the cleaning makes of a row read back.\<close>

lemma read_row_sanitized:
  assumes int64: "\<And>i. 0 \<le> i \<Longrightarrow> i \<le> 2 ^ 31 \<Longrightarrow> co_int64 co i = i"
    and row: "read_cells co p r" "map fst (pw_features p) = FEATURE_COLUMNS" "strip (pw_label p) = pw_label p"
    and label: "text_label co (pw_label p) \<or> pw_label p \<in> set na_markers"
  shows "case sanitize_row co (map (\<lambda>(c, v). (strip c, v)) r) of
      None \<Rightarrow> lower (pw_label p) \<in> set BAD_LABELS \<or> pw_label p \<in> set na_markers
    | Some s \<Rightarrow> lower (pw_label p) \<notin> set BAD_LABELS \<and> pw_label p \<notin> set na_markers \<and> cl_label s = pw_label p \<and>
        (\<forall>c i. (c, Fin (of_int i)) \<in> set (pw_features p) \<longrightarrow> admitted c i \<longrightarrow> map_of (cl_features s) c = Some (FInt i))"
proof -
  have "fst ` set r = set CANONICAL_COLUMNS" using arg_cong [OF conjunct1 [OF row(1) [unfolded read_cells_def]], of set] by simp
  then have same: "map (\<lambda>(c, v). (strip c, v)) r = r" using canonical_plain by (intro map_idI) force
  have features: "clean_value (co_int64 co) c (clipped (to_numeric (co_parse co) (cell_of r c))) = FInt i \<and> c \<in> set FEATURE_COLUMNS"
    if "(c, Fin (of_int i)) \<in> set (pw_features p)" "admitted c i" for c i
  proof
    have "\<bar>i\<bar> \<le> 2 ^ 31" using that(2) by (simp add: admitted_def)
    then have "cell_of r c = Num (Fin (of_int i))" using row(1) that(1) by (fastforce simp: read_cells_def)
    with clean_value_admitted [OF that(2) int64]
    show "clean_value (co_int64 co) c (clipped (to_numeric (co_parse co) (cell_of r c))) = FInt i" by (simp add: to_numeric_def)
    show "c \<in> set FEATURE_COLUMNS" using that(1) row(2) by (metis fst_conv image_eqI list.set_map)
  qed
  have cells: "cell_of r LABEL_COLUMN = (if pw_label p \<in> set na_markers then Missing else Text (pw_label p))"
    using row(1) label by (auto simp: read_cells_def text_label_def)
  show ?thesis
    unfolding same using features row(3)
    by (auto simp: sanitize_row_def clean_label_def cells map_of_map_restrict split: option.splits)
qed

text \<open>
  C19: The training scripts can use what the preparation writes, where no label reads as a number or a
  truth value. Whatever the last digits of the numbers come back as, the header passes the scripts'
  check and their cleaning keeps, in order, exactly the rows whose label is no placeholder and
  nothing that \<open>read_csv\<close> takes for a missing value. A row kept has the label that was written, and its
  ports, protocols and counts are those written, where they are whole and in the range of the column.
\<close>
theorem prepared_feeds_training:
  assumes "canonical_header (fst raw)" and "prepare_rows co raw = Inr rows" and "csv_law co read_back"
    and "\<And>i. 0 \<le> i \<Longrightarrow> i \<le> 2 ^ 31 \<Longrightarrow> co_int64 co i = i"
    and "\<forall>p \<in> set rows. text_label co (pw_label p) \<or> pw_label p \<in> set na_markers"
  shows "case sanitize_prepared_chunk co CANONICAL_COLUMNS (read_back rows) of
      Inl e \<Rightarrow> False
    | Inr cleaned \<Rightarrow> list_all2 (\<lambda>p s. cl_label s = pw_label p \<and>
        (\<forall>c i. (c, Fin (of_int i)) \<in> set (pw_features p) \<longrightarrow> admitted c i \<longrightarrow> map_of (cl_features s) c = Some (FInt i)))
      (filter (\<lambda>p. lower (pw_label p) \<notin> set BAD_LABELS \<and> pw_label p \<notin> set na_markers) rows) cleaned"
proof -
  have rows: "\<forall>p \<in> set rows. map fst (pw_features p) = FEATURE_COLUMNS \<and> strip (pw_label p) = pw_label p"
    using prepare_rows_eq [OF assms(1), of co] assms(2)
    by (auto simp: List.map_filter_def prepare_row_def coerce_row_def Let_def comp_def strip_normalized
        split: option.splits if_splits)
  have header: "validate_prepared_header CANONICAL_COLUMNS"
    using canonical_plain by (force simp: validate_prepared_header_def list_all_iff)
  have "list_all2 (read_cells co) rows (read_back rows)" using assms(3) rows by (simp add: csv_law_def)
  then have "list_all2 (\<lambda>p s. cl_label s = pw_label p \<and>
        (\<forall>c i. (c, Fin (of_int i)) \<in> set (pw_features p) \<longrightarrow> admitted c i \<longrightarrow> map_of (cl_features s) c = Some (FInt i)))
      (filter (\<lambda>p. lower (pw_label p) \<notin> set BAD_LABELS \<and> pw_label p \<notin> set na_markers) rows)
      (List.map_filter (\<lambda>r. sanitize_row co (map (\<lambda>(c, v). (strip c, v)) r)) (read_back rows))"
    using rows assms(5)
  proof (induction rule: list_all2_induct)
    case (Cons p ps r rs)
    have "case sanitize_row co (map (\<lambda>(c, v). (strip c, v)) r) of
        None \<Rightarrow> lower (pw_label p) \<in> set BAD_LABELS \<or> pw_label p \<in> set na_markers
      | Some s \<Rightarrow> lower (pw_label p) \<notin> set BAD_LABELS \<and> pw_label p \<notin> set na_markers \<and> cl_label s = pw_label p \<and>
          (\<forall>c i. (c, Fin (of_int i)) \<in> set (pw_features p) \<longrightarrow> admitted c i \<longrightarrow> map_of (cl_features s) c = Some (FInt i))"
      using Cons.prems by (intro read_row_sanitized [OF assms(4) Cons.hyps(1)]) auto
    with Cons.IH Cons.prems show ?case by (auto simp: map_filter_simps split: option.splits)
  qed (simp add: map_filter_simps)
  with header show ?thesis by (simp add: sanitize_prepared_chunk_def)
qed

definition sample_raw :: frame_rows where
  "sample_raw = (FEATURE_COLUMNS @ [RAW_LABEL_COLUMN],
     [map (\<lambda>c. (c, Num (Fin 1))) FEATURE_COLUMNS @ [(RAW_LABEL_COLUMN, Text ''x'')]])"

lemma sample_raw_header: "canonical_header (fst sample_raw)"
  by (rule canonical_columns_header) (auto simp: sample_raw_def)

lemma sample_raw_rows:
  obtains p where "prepare_rows plain_coercion sample_raw = Inr [p]" and "pw_label p = ''x''"
proof -
  let ?fs = "map (\<lambda>c. (c, Fin 1)) FEATURE_COLUMNS"
  let ?r = "map (\<lambda>(c, f). (c, Num f)) ?fs @ [(RAW_LABEL_COLUMN, Text ''x'')]"
  have "map_of (map (\<lambda>(c, f). (c, Num f)) ?fs) RAW_LABEL_COLUMN = None"
    unfolding dget_None_iff using label_no_feature(2) by auto
  then have "raw_label plain_coercion ?r = Some ''x''"
    by (simp add: raw_label_def cell_of_def map_add_def strip_def lstrip_def rstrip_def py_space_def)
  moreover have "coerce_row plain_coercion ?r = ?fs" by (rule coerce_numbers) (simp add: comp_def)
  moreover have "normalize_cicids2018_label ''x'' = ''x''"
    by (simp add: normalize_cicids2018_label_def contains_str_def strip_def lstrip_def rstrip_def py_space_def
        lower_def lower_char_def char_of_def)
  ultimately have "prepare_row plain_coercion ?r = Some \<lparr>pw_features = ?fs, pw_label = ''x''\<rparr>"
    by (simp add: prepare_row_def list_all_iff is_finite_def)
  then have "List.map_filter (prepare_row plain_coercion) (first_occurrences (snd sample_raw)) =
      [\<lparr>pw_features = ?fs, pw_label = ''x''\<rparr>]"
    by (simp add: sample_raw_def first_occurrences_def map_filter_simps comp_def)
  with that prepare_rows_eq [OF sample_raw_header] show ?thesis by (simp add: Let_def)
qed

theorem preparation_exact_witness:
  "\<exists>rows. prepare_rows plain_coercion sample_raw = Inr rows \<and> rows \<noteq> [] \<and>
     (\<forall>r \<in> set rows. normalize_cicids2018_label (pw_label r) = pw_label r)"
proof -
  obtain p where p: "prepare_rows plain_coercion sample_raw = Inr [p]" by (rule sample_raw_rows)
  from preparation_exact [OF sample_raw_header, of plain_coercion]
  have "normalize_cicids2018_label (pw_label p) = pw_label p" unfolding p by simp
  with p show ?thesis by simp
qed

definition sample_read_back :: "prepared_row list \<Rightarrow> row list" where
  "sample_read_back = map (\<lambda>p. map (\<lambda>(c, f). (c, Num f)) (pw_features p) @
     [(LABEL_COLUMN, if pw_label p \<in> set na_markers then Missing else Text (pw_label p))])"

lemma sample_csv_law: "csv_law co sample_read_back"
proof -
  have dist: "distinct FEATURE_COLUMNS" "LABEL_COLUMN \<notin> set FEATURE_COLUMNS"
    by (simp_all add: FEATURE_COLUMNS_def LABEL_COLUMN_def)
  have "read_cells co p r"
    if p: "map fst (pw_features p) = FEATURE_COLUMNS" and r: "r = map (\<lambda>(c, f). (c, Num f)) (pw_features p) @
      [(LABEL_COLUMN, if pw_label p \<in> set na_markers then Missing else Text (pw_label p))]" for p r
  proof -
    have "map fst r = CANONICAL_COLUMNS" using p by (simp add: r CANONICAL_COLUMNS_def comp_def case_prod_unfold)
    moreover have "cell_of r c = Num f" if "(c, f) \<in> set (pw_features p)" for c f
    proof -
      have "map_of (pw_features p) c = Some f" using that p dist(1) by simp
      then show ?thesis by (simp add: r cell_of_def map_add_def map_of_map)
    qed
    moreover have "cell_of r LABEL_COLUMN = (if pw_label p \<in> set na_markers then Missing else Text (pw_label p))"
    proof -
      have "LABEL_COLUMN \<notin> fst ` set (pw_features p)" using p dist(2) by (metis list.set_map)
      then have "map_of (pw_features p) LABEL_COLUMN = None" by (simp only: dget_None_iff not_False_eq_True)
      then show ?thesis by (simp add: r cell_of_def map_add_def map_of_map)
    qed
    ultimately show ?thesis by (auto simp: read_cells_def text_label_def)
  qed
  then show ?thesis by (auto simp: csv_law_def sample_read_back_def list_all2_conv_all_nth)
qed

theorem prepared_feeds_training_witness:
  "\<exists>rows cleaned. prepare_rows plain_coercion sample_raw = Inr rows \<and>
     sanitize_prepared_chunk plain_coercion CANONICAL_COLUMNS (sample_read_back rows) = Inr cleaned \<and>
     map cl_label cleaned = [''x'']"
proof -
  obtain p where p: "prepare_rows plain_coercion sample_raw = Inr [p]" "pw_label p = ''x''" by (rule sample_raw_rows)
  have x: "lower ''x'' \<notin> set BAD_LABELS" "''x'' \<notin> set na_markers" "text_label plain_coercion ''x''"
    by (simp_all add: lower_def lower_char_def BAD_LABELS_def na_markers_def text_label_def plain_coercion_def)
  have "\<forall>p \<in> set [p]. text_label plain_coercion (pw_label p) \<or> pw_label p \<in> set na_markers" using x p(2) by simp
  from prepared_feeds_training [OF sample_raw_header p(1) sample_csv_law _ this] x p show ?thesis
    by (auto simp: plain_coercion_def list_all2_Cons1 split: sum.splits)
qed

definition sample_sources :: source_files where
  "sample_sources = \<lparr>so_is_file = (\<lambda>p. snd p = ''a.csv''), so_is_dir = (\<lambda>_. False), so_glob = (\<lambda>_. []),
     so_exists = (\<lambda>_. False), so_read_csv = (\<lambda>_. sample_raw), so_sha256 = (\<lambda>_. [])\<rparr>"

lemma first_occurrences_distinct: "distinct xs \<Longrightarrow> first_occurrences xs = xs"
  by (simp add: first_occurrences_def distinct_remdups_id)

lemma concat_frames_single:
  assumes "distinct columns" and "map fst r = columns"
  shows "concat_frames [(columns, [r])] = (columns, [r])"
proof -
  have "cell_of r c = v" if "(c, v) \<in> set r" for c v using that assms by (simp add: cell_of_def)
  then have "map (\<lambda>c. (c, cell_of r c)) (map fst r) = r" unfolding map_map by (intro map_idI) auto
  then show ?thesis using assms by (simp add: concat_frames_def first_occurrences_distinct)
qed

lemma sample_raw_frame: "strip_columns sample_raw = sample_raw" "map strip (fst sample_raw) = fst sample_raw"
  "concat_frames [sample_raw] = sample_raw"
proof -
  have label: "strip RAW_LABEL_COLUMN = RAW_LABEL_COLUMN"
    by (simp add: RAW_LABEL_COLUMN_def strip_def lstrip_def rstrip_def py_space_def)
  have "map strip FEATURE_COLUMNS = FEATURE_COLUMNS" using feature_plain(1) by (intro map_idI)
  moreover have "map (\<lambda>c. (strip c, Num (Fin 1))) FEATURE_COLUMNS = map (\<lambda>c. (c, Num (Fin 1))) FEATURE_COLUMNS"
    using feature_plain(1) by (intro map_cong) simp_all
  ultimately show "strip_columns sample_raw = sample_raw" "map strip (fst sample_raw) = fst sample_raw"
    using label by (simp_all add: strip_columns_def sample_raw_def comp_def)
  have "distinct FEATURE_COLUMNS" by (simp add: FEATURE_COLUMNS_def)
  then show "concat_frames [sample_raw] = sample_raw"
    unfolding sample_raw_def using label_no_feature(2) by (intro concat_frames_single) (simp_all add: comp_def)
qed

theorem prepared_metadata_accounts_witness:
  "case prepare_dataset sample_sources plain_coercion (\<lambda>_ _ rows. Inr (rows, [])) (\<lambda>_. []) (''d'', ''a.csv'') ''o'' (1 / 2) 42 False of
     Inl e \<Rightarrow> False
   | Inr ds \<Rightarrow> pm_train_rows (pd_metadata ds) + pm_test_rows (pd_metadata ds) = pm_total_rows (pd_metadata ds) \<and>
       0 < pm_total_rows (pd_metadata ds)"
proof -
  let ?split = "\<lambda>_ _ rows. Inr (rows, [])"
  obtain p where p: "prepare_rows plain_coercion sample_raw = Inr [p]" by (rule sample_raw_rows)
  have resolved: "resolve_source_files sample_sources (''d'', ''a.csv'') = Inr [(''d'', ''a.csv'')]"
    by (simp add: resolve_source_files_def sample_sources_def path_suffix_def lower_def lower_char_def Let_def)
  have "check_header plain_coercion sample_raw = Inr ()"
    using sample_raw_header unfolding check_header_def sample_raw_frame prepare_eq Let_def by (simp add: sample_raw_def)
  moreover have "RAW_LABEL_COLUMN \<in> set (fst sample_raw)" by (simp add: sample_raw_def)
  moreover have "so_read_csv sample_sources = (\<lambda>_. sample_raw)" "so_exists sample_sources = (\<lambda>_. False)"
    by (simp_all add: sample_sources_def)
  ultimately obtain ds where ds: "prepare_dataset sample_sources plain_coercion ?split (\<lambda>_. []) (''d'', ''a.csv'') ''o'' (1 / 2) 42
      False = Inr ds"
    by (simp add: prepare_dataset_def resolved sample_raw_frame p list_ex_iff)
  have "mset train + mset test = mset rows" if "?split (1 / 2 :: real) (42 :: int) rows = Inr (train, test)" for rows train test
    using that by auto
  from prepared_metadata_accounts [OF this ds, of "''x''"] show ?thesis unfolding ds sum.case by blast
qed

end
