(* ===== verification/LiveModel.thy ===== *)
theory LiveModel
  imports Training Preparation
begin

text \<open>
  The live-compatible model (\<open>ml/training/train_cicids2018_live_compatible.py\<close>,
  \<open>ml/evaluation/evaluate_cicids2018.py\<close>, \<open>ml/evaluation/metrics.py\<close>, \<open>ml/models/\<close>): loading the
  prepared files, the label encoder that later trainings keep, the files of the model and its
  evaluation. scikit-learn and XGBoost are arguments.
\<close>

subsection \<open>Model wrappers\<close>

datatype model_config =
  RandomForest nat "nat option" string int int
| HistGradientBoosting real nat int
| XGBClassifier nat nat real real real string string int int string

definition build_sklearn_model :: "string \<Rightarrow> py_error + model_config" where
  "build_sklearn_model model_type =
     (if model_type = ''random_forest'' then Inr (RandomForest 100 None ''balanced'' 42 (-1))
      else if model_type = ''hist_gradient_boosting'' then Inr (HistGradientBoosting (1 / 10) 100 42)
      else Inl ValueError)"

definition xgboost_model :: model_config where
  "xgboost_model = XGBClassifier 200 6 (1 / 10) (8 / 10) (8 / 10) ''binary:logistic'' ''logloss'' 42 (-1) ''hist''"

text \<open>The scikit-learn wrapper checks that the model has the method before it calls it.\<close>

definition sklearn_predict_proba :: "('x \<Rightarrow> 'p) option \<Rightarrow> 'x \<Rightarrow> py_error + 'p" where
  "sklearn_predict_proba method x = (case method of None \<Rightarrow> Inl AttributeError | Some f \<Rightarrow> Inr (f x))"

definition MODEL_TYPE :: string where "MODEL_TYPE = ''xgboost''"
definition TEST_SIZE :: real where "TEST_SIZE = 2 / 10"
definition RANDOM_STATE :: int where "RANDOM_STATE = 42"

definition model_wrapper :: "string \<Rightarrow> py_error + model_config" where
  "model_wrapper model_type = (if model_type = ''xgboost'' then Inr xgboost_model else build_sklearn_model model_type)"

subsection \<open>Scores\<close>

type_synonym feature_row = "(string \<times> pyfloat) list"

text \<open>The scores of scikit-learn, weighted and with \<open>zero_division=0\<close>.\<close>

record scores =
  sc_accuracy :: "nat list \<Rightarrow> nat list \<Rightarrow> real"
  sc_precision :: "nat list \<Rightarrow> nat list \<Rightarrow> real"
  sc_recall :: "nat list \<Rightarrow> nat list \<Rightarrow> real"
  sc_f1 :: "nat list \<Rightarrow> nat list \<Rightarrow> real"
  sc_confusion :: "nat list \<Rightarrow> nat list \<Rightarrow> nat list option \<Rightarrow> matrix"
  sc_report :: "nat list \<Rightarrow> nat list \<Rightarrow> nat list option \<Rightarrow> string list option \<Rightarrow> json"

record evaluation_metrics =
  em_accuracy :: real
  em_precision :: real
  em_recall :: real
  em_f1_score :: real
  em_confusion_matrix :: matrix
  em_classification_report :: json

definition evaluate_metrics :: "scores \<Rightarrow> nat list \<Rightarrow> nat list \<Rightarrow> nat list option \<Rightarrow> string list option \<Rightarrow> evaluation_metrics" where
  "evaluate_metrics sc y_true y_pred labels target_names =
     \<lparr>em_accuracy = sc_accuracy sc y_true y_pred, em_precision = sc_precision sc y_true y_pred,
      em_recall = sc_recall sc y_true y_pred, em_f1_score = sc_f1 sc y_true y_pred,
      em_confusion_matrix = sc_confusion sc y_true y_pred labels,
      em_classification_report = sc_report sc y_true y_pred labels target_names\<rparr>"

subsection \<open>Training\<close>

record ('e, 'm) live_library =
  lv_fit :: "string list \<Rightarrow> 'e"
  lv_classes :: "'e \<Rightarrow> string list"
  lv_transform :: "'e \<Rightarrow> string list \<Rightarrow> dataset_error + nat list"
  lv_split :: "real \<Rightarrow> int \<Rightarrow> (feature_row \<times> nat) list \<Rightarrow> dataset_error + (feature_row \<times> nat) list \<times> (feature_row \<times> nat) list"
  lv_train :: "model_config \<Rightarrow> (feature_row \<times> nat) list \<Rightarrow> 'm"
  lv_predict :: "'m \<Rightarrow> feature_row \<Rightarrow> nat"
  lv_scores :: scores

definition load_dataset :: "source_files \<Rightarrow> path \<Rightarrow> dataset_error + frame_rows" where
  "load_dataset fs p =
     (if \<not> so_exists fs p then Inl FileNotFound
      else if so_is_file fs p then Inr (strip_columns (so_read_csv fs p))
      else let csv_files = sort_key snd (so_glob fs p)
           in if csv_files = [] then Inl FileNotFound
              else Inr (concat_frames (map (strip_columns \<circ> so_read_csv fs) csv_files)))"

text \<open>\<open>str\<close> of a cell.\<close>

definition cell_str :: "coercion \<Rightarrow> cell \<Rightarrow> string" where
  "cell_str co c = (case c of Missing \<Rightarrow> ''nan'' | Num f \<Rightarrow> co_repr co f | Text s \<Rightarrow> s)"

definition raw_labels :: "coercion \<Rightarrow> row list \<Rightarrow> string list" where
  "raw_labels co rows = map (\<lambda>r. normalize_cicids2018_label (cell_str co (cell_of r LABEL_COLUMN))) rows"

definition prepare_live_dataset :: "('e, 'm) live_library \<Rightarrow> coercion \<Rightarrow> 'e option \<Rightarrow> frame_rows \<Rightarrow>
    dataset_error + feature_row list \<times> nat list \<times> 'e" where
  "prepare_live_dataset lib co saved df =
     (if LABEL_COLUMN \<notin> set (fst df) then Inl BadValue
      else bindE (prepare_cicids2018_features co (fst df) (snd df)) (\<lambda>X.
        let y_raw = raw_labels co (snd df) in
        case saved of
          None \<Rightarrow> (let enc = lv_fit lib y_raw in bindE (lv_transform lib enc y_raw) (\<lambda>y. Inr (X, y, enc)))
        | Some enc \<Rightarrow>
            if \<not> set y_raw \<subseteq> set (lv_classes lib enc) then Inl BadValue
            else bindE (lv_transform lib enc y_raw) (\<lambda>y. Inr (X, y, enc))))"

record ('e, 'm) live_dir =
  ld_model :: "'m option"
  ld_encoder :: "'e option"
  ld_columns :: "string list option"
  ld_report :: "evaluation_metrics option"
  ld_metadata :: "((string \<times> string) list \<times> (string \<times> int) list \<times> real) option"

definition live_metadata :: "real \<Rightarrow> (string \<times> string) list \<times> (string \<times> int) list \<times> real" where
  "live_metadata now = ([(''model_file'', ''ml/saved_models/cicids2018_live_compatible_model.pkl''),
      (''label_encoder_file'', ''ml/saved_models/cicids2018_live_compatible_label_encoder.pkl''),
      (''feature_columns_file'', ''ml/saved_models/cicids2018_live_compatible_feature_columns.json'')],
     [(''TCP'', 6), (''UDP'', 17), (''ICMP'', 1), (''UNKNOWN'', 0)], now)"

definition save_live_model :: "'m \<Rightarrow> 'e \<Rightarrow> evaluation_metrics \<Rightarrow> real \<Rightarrow> ('e, 'm) live_dir \<Rightarrow> ('e, 'm) live_dir" where
  "save_live_model model enc metrics now dir =
     dir\<lparr>ld_model := Some model, ld_encoder := Some enc, ld_columns := Some FEATURE_COLUMNS,
       ld_report := Some metrics, ld_metadata := Some (live_metadata now)\<rparr>"

definition train_live :: "('e, 'm) live_library \<Rightarrow> coercion \<Rightarrow> source_files \<Rightarrow> path \<Rightarrow> real \<Rightarrow> ('e, 'm) live_dir \<Rightarrow>
    dataset_error + ('e, 'm) live_dir" where
  "train_live lib co fs dataset now dir =
     bindE (load_dataset fs dataset) (\<lambda>df.
       bindE (prepare_live_dataset lib co (ld_encoder dir) df) (\<lambda>(X, y, enc).
         bindE (lv_split lib TEST_SIZE RANDOM_STATE (zip X y)) (\<lambda>(train, test).
           case model_wrapper MODEL_TYPE of
             Inl e \<Rightarrow> Inl BadValue
           | Inr config \<Rightarrow>
             let model = lv_train lib config train;
                 metrics = evaluate_metrics (lv_scores lib) (map snd test) (map (lv_predict lib model \<circ> fst) test)
                   (Some [0..<length (lv_classes lib enc)]) (Some (lv_classes lib enc))
             in Inr (save_live_model model enc metrics now dir))))"

subsection \<open>Evaluation\<close>

record live_report =
  lr_total_rows :: nat
  lr_label_counts :: counter
  lr_accuracy :: real
  lr_precision :: real
  lr_recall :: real
  lr_f1 :: real
  lr_normal_fpr :: real
  lr_target_names :: "string list"
  lr_confusion :: matrix

definition live_normal_fpr :: "string list \<Rightarrow> (nat \<times> nat) list \<Rightarrow> real" where
  "live_normal_fpr classes ps =
     (if ''Normal Traffic'' \<notin> set classes then 0
      else let i = index_of classes ''Normal Traffic'';
               tn = length (filter (\<lambda>(t, p). t \<noteq> i \<and> p \<noteq> i) ps);
               fp = length (filter (\<lambda>(t, p). t \<noteq> i \<and> p = i) ps)
           in if 0 < fp + tn then real fp / real (fp + tn) else 0)"

definition evaluate_live :: "('e, 'm) live_library \<Rightarrow> coercion \<Rightarrow> frame_rows \<Rightarrow> ('e, 'm) live_dir \<Rightarrow> dataset_error + live_report" where
  "evaluate_live lib co test dir =
     (case (ld_columns dir, ld_model dir, ld_encoder dir) of
        (None, _) \<Rightarrow> Inl FileNotFound
      | (Some columns, saved) \<Rightarrow>
        if columns \<noteq> FEATURE_COLUMNS then Inl BadValue
        else (case saved of
          (Some model, Some enc) \<Rightarrow>
            let df = strip_columns test in
            if LABEL_COLUMN \<notin> set (fst df) then Inl BadValue
            else bindE (prepare_cicids2018_features co (fst df) (snd df)) (\<lambda>X.
              if X = [] then Inl BadValue
              else let classes = lv_classes lib enc;
                       kept = filter (\<lambda>(x, l). l \<in> set classes) (zip X (raw_labels co (snd df)))
                   in if kept = [] then Inl BadValue
                      else bindE (lv_transform lib enc (map snd kept)) (\<lambda>y_test.
                        let y_pred = map (lv_predict lib model \<circ> fst) kept;
                            m = evaluate_metrics (lv_scores lib) y_test y_pred (Some [0..<length classes]) (Some classes)
                        in Inr \<lparr>lr_total_rows = length (snd df), lr_label_counts = fold (\<lambda>(x, l). tick l) kept [],
                             lr_accuracy = em_accuracy m, lr_precision = em_precision m, lr_recall = em_recall m,
                             lr_f1 = em_f1_score m, lr_normal_fpr = live_normal_fpr classes (zip y_test y_pred),
                             lr_target_names = classes, lr_confusion = em_confusion_matrix m\<rparr>))
        | _ \<Rightarrow> Inl FileNotFound))"

subsection \<open>Facts\<close>

definition live_law :: "('e, 'm) live_library \<Rightarrow> bool" where
  "live_law lib \<longleftrightarrow> (\<forall>ls. lv_classes lib (lv_fit lib ls) = sorted_list_of_set (set ls)) \<and>
     (\<forall>e ls. lv_transform lib e ls = mapE (\<lambda>l. if l \<in> set (lv_classes lib e)
        then Inr (index_of (lv_classes lib e) l) else Inl BadValue) ls)"

lemma live_transform:
  assumes "live_law lib" and "set ls \<subseteq> set (lv_classes lib e)"
  shows "lv_transform lib e ls = Inr (map (index_of (lv_classes lib e)) ls)"
proof -
  have "mapE (\<lambda>l. if l \<in> set (lv_classes lib e) then Inr (index_of (lv_classes lib e) l) else Inl BadValue) ls =
      Inr (map (index_of (lv_classes lib e)) ls)"
    using assms(2) by (intro mapE_total) auto
  with assms(1) show ?thesis by (simp add: live_law_def)
qed

text \<open>The encoder that the preparation hands on knows every label of the data.\<close>

lemma prepared_live:
  assumes "live_law lib" and "prepare_live_dataset lib co saved df = Inr (X, y, enc)"
  shows "LABEL_COLUMN \<in> set (fst df)" and "prepare_cicids2018_features co (fst df) (snd df) = Inr X"
    and "set (raw_labels co (snd df)) \<subseteq> set (lv_classes lib enc)"
    and "y = map (index_of (lv_classes lib enc)) (raw_labels co (snd df))"
    and "saved = Some e \<Longrightarrow> enc = e"
    and "saved = None \<Longrightarrow> lv_classes lib enc = sorted_list_of_set (set (raw_labels co (snd df)))"
proof -
  show "LABEL_COLUMN \<in> set (fst df)" and feat: "prepare_cicids2018_features co (fst df) (snd df) = Inr X"
    and same: "saved = Some e \<Longrightarrow> enc = e" for e
    using assms(2) by (auto simp: prepare_live_dataset_def bindE_Inr_iff Let_def split: if_splits option.splits)
  show new: "saved = None \<Longrightarrow> lv_classes lib enc = sorted_list_of_set (set (raw_labels co (snd df)))"
    using assms by (auto simp: prepare_live_dataset_def bindE_Inr_iff Let_def live_law_def split: if_splits)
  show sub: "set (raw_labels co (snd df)) \<subseteq> set (lv_classes lib enc)"
  proof (cases saved)
    case None
    then show ?thesis using new by simp
  next
    case (Some e)
    then show ?thesis using assms(2) by (auto simp: prepare_live_dataset_def bindE_Inr_iff Let_def split: if_splits)
  qed
  have "lv_transform lib enc (raw_labels co (snd df)) = Inr y"
    using assms(2) by (auto simp: prepare_live_dataset_def bindE_Inr_iff Let_def split: if_splits option.splits)
  with live_transform [OF assms(1) sub] show "y = map (index_of (lv_classes lib enc)) (raw_labels co (snd df))" by simp
qed

text \<open>
  A trained live model can be used and trained again. Training leaves a model, the canonical
  columns and an encoder: the one that was there, which then knows every label of the data, or one
  fitted to the data. The evaluation of the training data with it accepts every row, and preparing
  the data again gives the same numbers, codes and encoder.
\<close>
theorem live_training_usable:
  assumes "live_law lib" and "train_live lib co fs dataset now dir = Inr dir'" and "load_dataset fs dataset = Inr df"
    and "strip_columns df = df" and "snd df \<noteq> []"
  shows "\<exists>enc X y report. ld_encoder dir' = Some enc \<and> ld_columns dir' = Some FEATURE_COLUMNS \<and>
    (case ld_encoder dir of
       Some e \<Rightarrow> enc = e
     | None \<Rightarrow> lv_classes lib enc = sorted_list_of_set (set (raw_labels co (snd df)))) \<and>
    set (raw_labels co (snd df)) \<subseteq> set (lv_classes lib enc) \<and>
    prepare_live_dataset lib co (ld_encoder dir) df = Inr (X, y, enc) \<and>
    prepare_live_dataset lib co (ld_encoder dir') df = Inr (X, y, enc) \<and>
    evaluate_live lib co df dir' = Inr report \<and> lr_total_rows report = length (snd df) \<and>
    sum_list (map snd (lr_label_counts report)) = length (snd df)"
proof -
  obtain X y enc model metrics where prep: "prepare_live_dataset lib co (ld_encoder dir) df = Inr (X, y, enc)"
    and dir': "dir' = save_live_model model enc metrics now dir"
    using assms(2,3) by (auto simp: train_live_def bindE_Inr_iff model_wrapper_def MODEL_TYPE_def Let_def)
  note p = prepared_live [OF assms(1) prep]
  have lenr: "length (raw_labels co (snd df)) = length (snd df)" by (simp add: raw_labels_def)
  have len: "length X = length (snd df)" using p(2) by (auto simp: prepare_eq split: if_splits)
  have "raw_labels co (snd df) \<noteq> []" using assms(5) by (simp add: raw_labels_def)
  have kept: "filter (\<lambda>(x, l). l \<in> set (lv_classes lib enc)) (zip X (raw_labels co (snd df))) = zip X (raw_labels co (snd df))"
    using p(3) by (intro filter_True) (auto dest: set_zip_rightD)
  have labels: "map snd (zip X (raw_labels co (snd df))) = raw_labels co (snd df)"
    using len by (simp add: raw_labels_def)
  have "prepare_live_dataset lib co (Some enc) df = Inr (X, y, enc)"
    using p(1-4) live_transform [OF assms(1) p(3)] by (simp add: prepare_live_dataset_def)
  moreover have "\<exists>report. evaluate_live lib co df dir' = Inr report \<and> lr_total_rows report = length (snd df) \<and>
      sum_list (map snd (lr_label_counts report)) = length (snd df)"
  proof -
    have "sum_list (map snd (fold (\<lambda>(x, l). tick l) ps [])) = length ps" for ps :: "(feature_row \<times> string) list"
      using sum_ticks [of "[]" snd ps] by (simp add: split_def)
    with dir' p(1,2) kept labels live_transform [OF assms(1) p(3)] len assms(5) lenr
      \<open>raw_labels co (snd df) \<noteq> []\<close> show ?thesis
      by (auto simp: evaluate_live_def save_live_model_def assms(4) Let_def zip_eq_Nil_iff)
  qed
  moreover have "case ld_encoder dir of Some e \<Rightarrow> enc = e
     | None \<Rightarrow> lv_classes lib enc = sorted_list_of_set (set (raw_labels co (snd df)))"
    using p(5,6) by (simp split: option.split)
  ultimately show ?thesis using prep p(3) dir' by (auto simp: save_live_model_def)
qed

text \<open>
  C34: The two evaluation scripts compute one false-positive rate: what the live evaluation counts from
  the lists of true and predicted classes is what the streaming evaluation reads off its matrix.
\<close>
theorem fpr_agree:
  assumes "counts_outcomes (length classes) ps m"
  shows "live_normal_fpr classes ps = normal_traffic_fpr m classes"
proof (cases "''Normal Traffic'' \<in> set classes")
  case True
  define i where "i = index_of classes ''Normal Traffic''"
  have "length (filter (\<lambda>(t, p). t \<noteq> i \<and> p = i) ps) + length (filter (\<lambda>(t, p). t \<noteq> i \<and> p \<noteq> i) ps) =
      length (filter (\<lambda>p. fst p \<noteq> i) ps)"
    using length_filter_split [of "\<lambda>p. fst p \<noteq> i" ps "\<lambda>p. snd p = i"] by (simp add: split_def)
  then show ?thesis
    unfolding normal_fpr_outcomes [OF assms True] using True
    by (auto simp: live_normal_fpr_def Let_def i_def [symmetric] split_def)
qed (simp add: live_normal_fpr_def normal_traffic_fpr_def)

definition sample_scores :: scores where
  "sample_scores = \<lparr>sc_accuracy = (\<lambda>_ _. 0), sc_precision = (\<lambda>_ _. 0), sc_recall = (\<lambda>_ _. 0), sc_f1 = (\<lambda>_ _. 0),
     sc_confusion = (\<lambda>_ _ _. []), sc_report = (\<lambda>_ _ _ _. JNull)\<rparr>"

definition sample_live_library :: "(string list, unit) live_library" where
  "sample_live_library = \<lparr>lv_fit = (\<lambda>ls. sorted_list_of_set (set ls)), lv_classes = (\<lambda>e. e),
     lv_transform = (\<lambda>e. mapE (\<lambda>l. if l \<in> set e then Inr (index_of e l) else Inl BadValue)),
     lv_split = (\<lambda>_ _ ps. Inr (ps, ps)), lv_train = (\<lambda>_ _. ()), lv_predict = (\<lambda>_ _. 0), lv_scores = sample_scores\<rparr>"

definition live_row :: row where
  "live_row = map (\<lambda>(c, f). (c, Num f)) (map (\<lambda>c. (c, Fin 1)) FEATURE_COLUMNS) @ [(LABEL_COLUMN, Text ''x'')]"

definition sample_frame :: frame_rows where
  "sample_frame = (CANONICAL_COLUMNS, [live_row])"

definition sample_live_sources :: source_files where
  "sample_live_sources = \<lparr>so_is_file = (\<lambda>_. True), so_is_dir = (\<lambda>_. False), so_glob = (\<lambda>_. []),
     so_exists = (\<lambda>_. True), so_read_csv = (\<lambda>_. sample_frame), so_sha256 = (\<lambda>_. [])\<rparr>"

lemma sample_live_law: "live_law sample_live_library"
proof -
  have c: "lv_classes sample_live_library = (\<lambda>e. e)" by (simp add: sample_live_library_def)
  show ?thesis unfolding live_law_def c by (simp add: sample_live_library_def)
qed

lemma sample_frame_facts: "strip_columns sample_frame = sample_frame" "LABEL_COLUMN \<in> set (fst sample_frame)"
  "prepare_cicids2018_features co (fst sample_frame) (snd sample_frame) = Inr [map (\<lambda>c. (c, Fin 1)) FEATURE_COLUMNS]"
proof -
  let ?r = live_row
  have "map strip CANONICAL_COLUMNS = CANONICAL_COLUMNS" using canonical_plain by (intro map_idI)
  moreover have "fst ` set ?r = set CANONICAL_COLUMNS" by (force simp: live_row_def CANONICAL_COLUMNS_def)
  then have "map (\<lambda>(c, v). (strip c, v)) ?r = ?r" using canonical_plain by (intro map_idI) force
  ultimately show "strip_columns sample_frame = sample_frame" by (simp add: strip_columns_def sample_frame_def)
  show "LABEL_COLUMN \<in> set (fst sample_frame)" by (simp add: sample_frame_def CANONICAL_COLUMNS_def)
  have "canonical_header CANONICAL_COLUMNS" by (rule canonical_columns_header) (auto simp: CANONICAL_COLUMNS_def)
  moreover have "coerce_row co ?r = map (\<lambda>c. (c, Fin 1)) FEATURE_COLUMNS"
    unfolding live_row_def by (rule coerce_numbers) (simp add: comp_def)
  ultimately show "prepare_cicids2018_features co (fst sample_frame) (snd sample_frame) = Inr [map (\<lambda>c. (c, Fin 1)) FEATURE_COLUMNS]"
    by (simp add: prepare_eq sample_frame_def list_all_iff is_finite_def)
qed

theorem live_training_usable_witness:
  "\<exists>dir report. train_live sample_live_library plain_coercion sample_live_sources (''d'', ''t'') 0
      \<lparr>ld_model = None, ld_encoder = None, ld_columns = None, ld_report = None, ld_metadata = None\<rparr> = Inr dir \<and>
    evaluate_live sample_live_library plain_coercion sample_frame dir = Inr report \<and> lr_total_rows report = 1"
proof -
  let ?dir = "\<lparr>ld_model = None, ld_encoder = None, ld_columns = None, ld_report = None, ld_metadata = None\<rparr>"
  have load: "load_dataset sample_live_sources (''d'', ''t'') = Inr sample_frame"
    by (simp add: load_dataset_def sample_live_sources_def sample_frame_facts)
  let ?ls = "raw_labels plain_coercion (snd sample_frame)"
  have "set ?ls \<subseteq> set (lv_classes sample_live_library (lv_fit sample_live_library ?ls))"
    using sample_live_law by (simp add: live_law_def)
  from live_transform [OF sample_live_law this] obtain X y enc where
    "prepare_live_dataset sample_live_library plain_coercion None sample_frame = Inr (X, y, enc)"
    by (auto simp: prepare_live_dataset_def sample_frame_facts Let_def)
  then obtain dir where dir: "train_live sample_live_library plain_coercion sample_live_sources (''d'', ''t'') 0 ?dir = Inr dir"
    by (auto simp: train_live_def load model_wrapper_def MODEL_TYPE_def Let_def) (simp add: sample_live_library_def)
  have one: "length (snd sample_frame) = 1" by (simp add: sample_frame_def)
  then have "snd sample_frame \<noteq> []" by auto
  from live_training_usable [OF sample_live_law dir load sample_frame_facts(1) this] dir one show ?thesis by auto
qed

theorem fpr_agree_witness:
  "live_normal_fpr [''Normal Traffic'', ''x''] [(1, 0), (1, 1)] = normal_traffic_fpr [[0, 0], [1, 1]] [''Normal Traffic'', ''x'']"
  by (rule fpr_agree) (auto simp: counts_outcomes_def square_def less_Suc_eq)

end
