(* ===== verification/Artifacts.thy ===== *)
theory Artifacts
  imports ModelRuntime
begin

text \<open>
  The files of the model artifacts: the checksums that \<open>ml/runtime/generate_artifact_checksums.py\<close>
  writes beside them and the runtime verifies, the configuration and metadata of a bundle
  (\<open>model_stack.py\<close>), the aliases under which a pickled tree is loaded
  (\<open>custom_decision_tree_runtime.py\<close>) and the second predictor (\<open>completed_flow_predictor.py\<close>).
  SHA-256 and the JSON parser are arguments.
\<close>

subsection \<open>Checksums\<close>

text \<open>A path relative to the directory of the models is the list of its parts.\<close>

datatype file_node = Directory | File string

type_synonym file_tree = "(string list, file_node) pydict"

definition is_artifact :: "file_tree \<Rightarrow> string list \<Rightarrow> bool" where
  "is_artifact fs p \<longleftrightarrow> p \<noteq> [] \<and> suffix ''.pkl'' (last p) \<and>
     (case map_of fs p of Some (File _) \<Rightarrow> True | _ \<Rightarrow> False)"

definition artifact_paths :: "file_tree \<Rightarrow> string list list" where
  "artifact_paths fs = sort (filter (is_artifact fs) (dkeys fs))"

definition checksum_path :: "string list \<Rightarrow> string list" where
  "checksum_path p = butlast p @ [last p @ ''.sha256'']"

definition file_contents :: "file_tree \<Rightarrow> string list \<Rightarrow> string" where
  "file_contents fs p = (case map_of fs p of Some (File s) \<Rightarrow> s | _ \<Rightarrow> [])"

definition line_feed :: char where "line_feed = CHR 0x0A"

text \<open>Writing over a directory raises; what was written before stays.\<close>

fun write_checksums :: "(string \<Rightarrow> string) \<Rightarrow> string list list \<Rightarrow> file_tree \<Rightarrow> (py_error + string list list) \<times> file_tree" where
  "write_checksums sha256 [] fs = (Inr [], fs)"
| "write_checksums sha256 (p # ps) fs =
     (if map_of fs (checksum_path p) = Some Directory then (Inl OSError, fs)
      else case write_checksums sha256 ps
          (AList.update (checksum_path p) (File (sha256 (file_contents fs p) @ [line_feed])) fs) of
        (r, fs') \<Rightarrow> (bindE r (\<lambda>updated. Inr (p # updated)), fs'))"

definition generate_checksums :: "(string \<Rightarrow> string) \<Rightarrow> file_tree option \<Rightarrow> (py_error + string list list) \<times> file_tree option" where
  "generate_checksums sha256 saved_models =
     (case saved_models of
        None \<Rightarrow> (Inr [], None)
      | Some fs \<Rightarrow> (case write_checksums sha256 (artifact_paths fs) fs of (r, fs') \<Rightarrow> (r, Some fs')))"

definition checksum_file_of :: "file_tree \<Rightarrow> string list \<Rightarrow> checksum_file" where
  "checksum_file_of fs p =
     (case map_of fs (checksum_path p) of
        None \<Rightarrow> NoChecksumFile | Some Directory \<Rightarrow> UnreadableChecksum | Some (File s) \<Rightarrow> ChecksumText s)"

definition verify_artifact :: "(string \<Rightarrow> string) \<Rightarrow> file_tree \<Rightarrow> string list \<Rightarrow> artifact_error option" where
  "verify_artifact sha256 fs p = verify_artifact_checksum (sha256 (file_contents fs p)) (checksum_file_of fs p)"

subsection \<open>Bundles\<close>

record bundle_config =
  rc_model_key :: string
  rc_model_name :: string
  rc_bundle_dir :: string
  rc_model_filename :: string
  rc_encoder_filename :: string
  rc_feature_columns_filename :: string
  rc_metadata_filename :: "string option"

definition completed_primary_config :: bundle_config where
  "completed_primary_config = \<lparr>rc_model_key = ''xgboost'', rc_model_name = ''XGBoost'',
     rc_bundle_dir = ''ml/saved_models/CICIDS_XGBOOSTER'', rc_model_filename = ''cicids2018_xgboost_model.pkl'',
     rc_encoder_filename = ''cicids2018_xgboost_label_encoder.pkl'',
     rc_feature_columns_filename = ''cicids2018_xgboost_feature_columns.json'',
     rc_metadata_filename = Some ''cicids2018_xgboost_training_metadata.json''\<rparr>"

definition completed_secondary_config :: bundle_config where
  "completed_secondary_config = \<lparr>rc_model_key = ''decision_tree'', rc_model_name = ''DecisionTree'',
     rc_bundle_dir = ''ml/saved_models/CICIDS_DecisionTree'', rc_model_filename = ''custom_decision_tree_model.pkl'',
     rc_encoder_filename = ''custom_decision_tree_label_encoder.pkl'',
     rc_feature_columns_filename = ''custom_decision_tree_feature_columns.json'',
     rc_metadata_filename = Some ''custom_decision_tree_metadata.json''\<rparr>"

text \<open>The metadata file: it may be missing, unreadable, no JSON or no object.\<close>

datatype metadata_file = NoMetadata | UnreadableMetadata | MetadataText string

definition load_metadata :: "(string \<Rightarrow> json option) \<Rightarrow> metadata_file \<Rightarrow> (string, json) pydict" where
  "load_metadata parse_json f =
     (case f of
        MetadataText s \<Rightarrow> (case parse_json s of Some (JObj d) \<Rightarrow> d | _ \<Rightarrow> [])
      | _ \<Rightarrow> [])"

subsection \<open>Aliases in \<open>__main__\<close>\<close>

text \<open>The attributes of the main module, if there is one; the body of the \<open>with\<close> may change them.\<close>

type_synonym 'o namespace = "(string, 'o) pydict"

definition restore_attr :: "string \<Rightarrow> 'o option \<Rightarrow> 'o namespace \<Rightarrow> py_error + 'o namespace" where
  "restore_attr name original ns =
     (case original of
        Some v \<Rightarrow> Inr (AList.update name v ns)
      | None \<Rightarrow> if map_of ns name = None then Inl AttributeError else Inr (AList.delete name ns))"

definition with_runtime_aliases :: "'o \<Rightarrow> 'o \<Rightarrow> ('o namespace option \<Rightarrow> 'r \<times> 'o namespace) \<Rightarrow> 'o namespace option \<Rightarrow>
    'r \<times> (py_error + 'o namespace) option" where
  "with_runtime_aliases classifier tree_node body main =
     (case main of
        None \<Rightarrow> (fst (body None), None)
      | Some ns \<Rightarrow>
          let installed = AList.update ''TreeNode'' tree_node (AList.update ''CustomDecisionTreeClassifier'' classifier ns)
          in case body (Some installed) of
            (r, after) \<Rightarrow> (r, Some (bindE (restore_attr ''CustomDecisionTreeClassifier''
                (map_of ns ''CustomDecisionTreeClassifier'') after) (restore_attr ''TreeNode'' (map_of ns ''TreeNode'')))))"

subsection \<open>The predictor of completed flows\<close>

record completed_predictor =
  cf_enabled :: bool
  cf_artifact_error :: "artifact_error option"
  cf_secondary_artifact_error :: "artifact_error option"
  cf_model :: "(loaded_model \<times> label_encoder) option"
  cf_stack :: model_stack
  cf_secondary_publisher :: "(secondary_job, unit) publisher option"

definition completed_positive_int :: "environ \<Rightarrow> int option \<Rightarrow> string \<Rightarrow> int \<Rightarrow> int" where
  "completed_positive_int env v env_name dflt =
     (let parsed = (case v of
          Some n \<Rightarrow> n
        | None \<Rightarrow> (case env env_name of
            None \<Rightarrow> dflt
          | Some s \<Rightarrow> (case py_int_of_str s of None \<Rightarrow> dflt | Some n \<Rightarrow> n)))
      in max 1 parsed)"

definition completed_load_artifacts :: "environ \<Rightarrow> model_stack \<Rightarrow> completed_predictor" where
  "completed_load_artifacts env st =
     (let enabled = ms_enabled st in
      \<lparr>cf_enabled = enabled, cf_artifact_error = mb_artifact_error (ms_primary st),
       cf_secondary_artifact_error = (case ms_secondary st of None \<Rightarrow> None | Some b \<Rightarrow> mb_artifact_error b),
       cf_model = (if enabled then mb_model (ms_primary st) else None), cf_stack = st,
       cf_secondary_publisher =
         (if secondary_enabled st
          then Some (publisher_init (completed_positive_int env None ''SMARTIDS_SECONDARY_MODEL_QUEUE_SIZE'' 256) None ())
          else None)\<rparr>)"

definition completed_predict :: "completed_predictor \<Rightarrow> (string, pyfloat) pydict \<Rightarrow> prediction option" where
  "completed_predict cp features = (if \<not> cf_enabled cp then None else stack_predict (cf_stack cp) features)"

definition completed_predict_primary :: "completed_predictor \<Rightarrow> (string, pyfloat) pydict \<Rightarrow> prediction option" where
  "completed_predict_primary cp features = (if \<not> cf_enabled cp then None else predict_primary (cf_stack cp) features)"

definition completed_submit_frame :: "frame \<Rightarrow> secondary_context \<Rightarrow> completed_predictor \<Rightarrow> bool \<times> completed_predictor" where
  "completed_submit_frame fr cx cp =
     (if \<not> secondary_enabled (cf_stack cp) then (False, cp)
      else case cf_secondary_publisher cp of
             None \<Rightarrow> (False, cp)
           | Some q \<Rightarrow> (case submit (fr, cx) q of (ok, q') \<Rightarrow> (ok, cp\<lparr>cf_secondary_publisher := Some q'\<rparr>)))"

definition completed_submit :: "(string, pyfloat) pydict \<Rightarrow> secondary_context \<Rightarrow> completed_predictor \<Rightarrow> bool \<times> completed_predictor" where
  "completed_submit features cx cp = completed_submit_frame (build_frame features) cx cp"

definition completed_predict_and_submit ::
    "(string, pyfloat) pydict \<Rightarrow> secondary_context \<Rightarrow> completed_predictor \<Rightarrow> prediction option \<times> completed_predictor" where
  "completed_predict_and_submit features cx cp =
     (if \<not> cf_enabled cp then (None, cp)
      else let fr = build_frame features; prediction = predict_primary_from_frame (cf_stack cp) fr
        in (prediction, snd (completed_submit_frame fr cx cp)))"

text \<open>
  The publisher of the results may be missing. Without a secondary model the call raises, which the
  queue that runs it counts as not delivered, as it does \<open>False\<close>.
\<close>

definition completed_run_secondary ::
    "(bundle_prediction \<Rightarrow> secondary_context \<Rightarrow> 'w \<Rightarrow> 'w) option \<Rightarrow> completed_predictor \<Rightarrow> secondary_job \<Rightarrow> 'w \<Rightarrow> bool \<times> 'w" where
  "completed_run_secondary publish cp job w =
     (case ms_secondary (cf_stack cp) of
        None \<Rightarrow> (False, w)
      | Some b \<Rightarrow> (case bundle_predict b (fst job) of
          None \<Rightarrow> (False, w)
        | Some result \<Rightarrow> (True, case publish of None \<Rightarrow> w | Some f \<Rightarrow> f result (snd job) w)))"

subsection \<open>Facts\<close>

lemma checksum_path_inject: "p \<noteq> [] \<Longrightarrow> q \<noteq> [] \<Longrightarrow> checksum_path p = checksum_path q \<longleftrightarrow> p = q"
proof -
  assume "p \<noteq> []" "q \<noteq> []"
  then have "p = butlast p @ [last p]" "q = butlast q @ [last q]" by simp_all
  then show ?thesis by (auto simp: checksum_path_def)
qed

lemma no_artifact_suffix: "\<not> suffix ''.pkl'' (s @ ''.sha256'')"
proof
  assume "suffix ''.pkl'' (s @ ''.sha256'')"
  then obtain z where "s @ ''.sha256'' = z @ ''.pkl''" by (auto simp: suffix_def)
  then have "last (s @ ''.sha256'') = last (z @ ''.pkl'')" by (rule arg_cong)
  then show False by simp
qed

lemma artifact_no_checksum: "is_artifact fs p \<Longrightarrow> p \<noteq> checksum_path q"
  using no_artifact_suffix [of "last q"] by (auto simp: is_artifact_def checksum_path_def)

lemma write_checksums_keep:
  "write_checksums sha256 ps fs = (r, fs') \<Longrightarrow> q \<notin> checksum_path ` set ps \<Longrightarrow> map_of fs' q = map_of fs q"
  by (induction sha256 ps fs arbitrary: r rule: write_checksums.induct) (auto split: if_splits prod.splits)

lemma write_checksums_paths: "write_checksums sha256 ps fs = (Inr us, fs') \<Longrightarrow> us = ps"
  by (induction sha256 ps fs arbitrary: us rule: write_checksums.induct)
    (auto simp: bindE_Inr_iff split: if_splits prod.splits)

lemma write_checksums_files:
  assumes "write_checksums sha256 ps fs = (Inr us, fs')" and "distinct ps"
    and "\<And>p. p \<in> set ps \<Longrightarrow> p \<noteq> [] \<and> (\<forall>q. p \<noteq> checksum_path q)" and "p \<in> set ps"
  shows "map_of fs' (checksum_path p) = Some (File (sha256 (file_contents fs p) @ [line_feed]))"
  using assms
proof (induction sha256 ps fs arbitrary: us rule: write_checksums.induct)
  case (2 sha256 a ps fs)
  let ?fs1 = "AList.update (checksum_path a) (File (sha256 (file_contents fs a) @ [line_feed])) fs"
  from "2.prems"(1) obtain us' where a: "map_of fs (checksum_path a) \<noteq> Some Directory"
    and rest: "write_checksums sha256 ps ?fs1 = (Inr us', fs')"
    by (auto simp: bindE_Inr_iff split: if_splits prod.splits)
  show ?case
  proof (cases "p = a")
    case True
    have "checksum_path a \<notin> checksum_path ` set ps"
      using "2.prems"(2,3) by (auto simp: checksum_path_inject)
    from write_checksums_keep [OF rest this] True show ?thesis by simp
  next
    case False
    with "2.prems"(4) have p: "p \<in> set ps" by simp
    have "file_contents ?fs1 p = file_contents fs p" using "2.prems"(3) [of p] p by (simp add: file_contents_def)
    with "2.IH" [OF a rest] "2.prems"(2,3) p show ?thesis by simp
  qed
qed simp

text \<open>A digest in hexadecimal is one token.\<close>

definition one_token :: "(string \<Rightarrow> string) \<Rightarrow> bool" where
  "one_token sha256 \<longleftrightarrow> (\<forall>s. sha256 s \<noteq> [] \<and> (\<forall>c \<in> set (sha256 s). \<not> py_space c))"

lemma first_token_line: "s \<noteq> [] \<Longrightarrow> \<forall>c \<in> set s. \<not> py_space c \<Longrightarrow> first_token (s @ [line_feed]) = s"
proof -
  assume s: "s \<noteq> []" "\<forall>c \<in> set s. \<not> py_space c"
  have "py_space line_feed" by (simp add: line_feed_def py_space_def)
  then have "rstrip (s @ [line_feed]) = rstrip s" by (simp add: rstrip_def)
  also have "\<dots> = s" using s by (intro rstrip_fix) auto
  finally have r: "rstrip (s @ [line_feed]) = s" .
  have "lstrip (s @ [line_feed]) = s @ [line_feed]" using s by (intro lstrip_fix) (cases s, auto)
  moreover have "lstrip s = s" using s by (intro lstrip_fix) (cases s, auto)
  ultimately have "strip (s @ [line_feed]) = s" using r by (simp add: strip_def)
  with s(2) show ?thesis by (simp add: first_token_def takeWhile_eq_all_conv)
qed

text \<open>
  C35: Checksums round-trip. A run of the generator writes a checksum for exactly the artifacts, changes
  none of them and adds none; every artifact then passes the check of the runtime, and an artifact
  whose contents change to another digest afterwards is refused.
\<close>
theorem checksums_verify:
  assumes "wf_dict fs" and "one_token sha256" and "generate_checksums sha256 (Some fs) = (Inr ps, Some fs')"
  shows "set ps = {p. is_artifact fs p} \<and> (\<forall>p. is_artifact fs' p \<longleftrightarrow> is_artifact fs p) \<and>
    (\<forall>p \<in> set ps. file_contents fs' p = file_contents fs p \<and> verify_artifact sha256 fs' p = None \<and>
      (\<forall>s. lower (sha256 s) \<noteq> lower (sha256 (file_contents fs p)) \<longrightarrow>
         verify_artifact sha256 (AList.update p (File s) fs') p = Some ChecksumMismatch))"
proof -
  have run: "write_checksums sha256 (artifact_paths fs) fs = (Inr ps, fs')"
    using assms(3) by (simp add: generate_checksums_def split: prod.splits)
  have ps: "ps = artifact_paths fs" by (rule write_checksums_paths [OF run])
  have all: "set ps = {p. is_artifact fs p}"
    by (force simp: ps artifact_paths_def is_artifact_def split: option.splits dest: map_of_SomeD)
  have "distinct (artifact_paths fs)" using assms(1) by (simp add: artifact_paths_def)
  note written = write_checksums_files [OF run this]
  have keep: "map_of fs' q = map_of fs q" if "q \<notin> range checksum_path" for q
    using that by (intro write_checksums_keep [OF run]) auto
  have same: "is_artifact fs' p \<longleftrightarrow> is_artifact fs p" for p
    using keep [of p] artifact_no_checksum [of fs p] artifact_no_checksum [of fs' p]
    by (cases "p \<in> range checksum_path") (auto simp: is_artifact_def)
  have "file_contents fs' p = file_contents fs p \<and> verify_artifact sha256 fs' p = None \<and>
      (\<forall>s. lower (sha256 s) \<noteq> lower (sha256 (file_contents fs p)) \<longrightarrow>
         verify_artifact sha256 (AList.update p (File s) fs') p = Some ChecksumMismatch)" if "p \<in> set ps" for p
  proof -
    have p: "is_artifact fs p" "p \<notin> range checksum_path" using that all artifact_no_checksum [of fs p] by auto
    have w: "map_of fs' (checksum_path p) = Some (File (sha256 (file_contents fs p) @ [line_feed]))"
      using that artifact_no_checksum all by (intro written) (auto simp: ps is_artifact_def)
    have t: "first_token (sha256 (file_contents fs p) @ [line_feed]) = sha256 (file_contents fs p)"
      "sha256 (file_contents fs p) \<noteq> []"
      using assms(2) by (auto simp: one_token_def intro!: first_token_line)
    have "file_contents fs' p = file_contents fs p" by (simp add: file_contents_def keep [OF p(2)])
    moreover have "checksum_path p \<noteq> p" using p(2) by (metis rangeI)
    ultimately show ?thesis
      using w t by (auto simp: verify_artifact_def checksum_file_of_def verify_artifact_checksum_def file_contents_def Let_def)
  qed
  with all same show ?thesis by blast
qed

theorem checksums_verify_witness:
  "\<exists>ps fs. generate_checksums (\<lambda>s. CHR ''d'' # filter (\<lambda>c. \<not> py_space c) s) (Some [([''m.pkl''], File ''x'')]) = (Inr ps, Some fs) \<and>
     verify_artifact (\<lambda>s. CHR ''d'' # filter (\<lambda>c. \<not> py_space c) s) fs [''m.pkl''] = None"
proof -
  let ?sha = "\<lambda>s. CHR ''d'' # filter (\<lambda>c. \<not> py_space c) s"
  let ?fs = "[([''m.pkl''], File ''x'')]"
  have sha: "one_token ?sha" by (auto simp: one_token_def py_space_def)
  have "suffix ''.pkl'' ''m.pkl''" by (simp add: suffix_def)
  then have art: "is_artifact ?fs [''m.pkl'']" by (simp add: is_artifact_def)
  then obtain ps fs where g: "generate_checksums ?sha (Some ?fs) = (Inr ps, Some fs)"
    by (auto simp: generate_checksums_def artifact_paths_def checksum_path_def)
  from checksums_verify [OF _ sha g] art g show ?thesis by auto
qed

text \<open>
  Loading a pickled tree leaves no trace, as long as the body deletes no name: the two names the
  pickle needs are those of the runtime while the body runs, and afterwards what they were before, also where they did not exist; the
  rest of the main module is as the body left it.
\<close>
theorem aliases_restored:
  assumes "with_runtime_aliases classifier tree_node body (Some ns) = (r, Some result)"
    and "\<And>ns' k. map_of ns' k \<noteq> None \<Longrightarrow> map_of (snd (body (Some ns'))) k \<noteq> None"
  shows "\<exists>installed after ns'. body (Some installed) = (r, after) \<and> result = Inr ns' \<and>
    map_of installed ''CustomDecisionTreeClassifier'' = Some classifier \<and> map_of installed ''TreeNode'' = Some tree_node \<and>
    (\<forall>k. map_of ns' k = (if k \<in> {''CustomDecisionTreeClassifier'', ''TreeNode''} then map_of ns k else map_of after k))"
proof -
  define installed where "installed = AList.update ''TreeNode'' tree_node (AList.update ''CustomDecisionTreeClassifier'' classifier ns)"
  obtain after where body: "body (Some installed) = (r, after)"
    using assms(1) by (auto simp: with_runtime_aliases_def Let_def installed_def [symmetric] split: prod.splits)
  have had: "map_of after ''CustomDecisionTreeClassifier'' \<noteq> None" "map_of after ''TreeNode'' \<noteq> None"
    using assms(2) [of installed] body by (auto simp: installed_def)
  have "result = bindE (restore_attr ''CustomDecisionTreeClassifier'' (map_of ns ''CustomDecisionTreeClassifier'') after)
      (restore_attr ''TreeNode'' (map_of ns ''TreeNode''))"
    using assms(1) body by (simp add: with_runtime_aliases_def Let_def installed_def [symmetric])
  with had obtain ns' where "result = Inr ns'"
    "\<forall>k. map_of ns' k = (if k \<in> {''CustomDecisionTreeClassifier'', ''TreeNode''} then map_of ns k else map_of after k)"
    by (cases "map_of ns ''CustomDecisionTreeClassifier''"; cases "map_of ns ''TreeNode''")
      (auto simp: restore_attr_def)
  moreover have "map_of installed ''CustomDecisionTreeClassifier'' = Some classifier" "map_of installed ''TreeNode'' = Some tree_node"
    by (simp_all add: installed_def)
  ultimately show ?thesis using body by blast
qed

theorem aliases_restored_witness:
  "\<exists>ns. with_runtime_aliases (1 :: nat) 2 (\<lambda>m. ((), AList.update ''x'' 5 (the m))) (Some [(''TreeNode'', 7)]) = ((), Some (Inr ns)) \<and>
     map_of ns ''TreeNode'' = Some 7 \<and> map_of ns ''CustomDecisionTreeClassifier'' = None \<and> map_of ns ''x'' = Some 5"
proof -
  let ?body = "\<lambda>m. ((), AList.update ''x'' (5 :: nat) (the m))"
  have keeps: "map_of (snd (?body (Some ns'))) k \<noteq> None" if "map_of ns' k \<noteq> None" for ns' k using that by simp
  have run: "with_runtime_aliases 1 2 ?body (Some [(''TreeNode'', 7)]) =
      ((), Some (Inr [(''TreeNode'', 7), (''x'', 5)]))"
    by (simp add: with_runtime_aliases_def restore_attr_def Let_def)
  from aliases_restored [OF run keeps] show ?thesis unfolding run by auto
qed

text \<open>
  The processor models both predictors as a \<^typ>\<open>predictor\<close>: the class for completed flows is a second
  copy of the code, and it behaves the same.
\<close>

definition as_predictor :: "completed_predictor \<Rightarrow> predictor" where
  "as_predictor cp = \<lparr>pd_stack = cf_stack cp, pd_secondary_publisher = cf_secondary_publisher cp\<rparr>"

lemma completed_submit_agrees:
  "map_prod id as_predictor (completed_submit_frame fr cx cp) = submit_secondary_frame fr cx (as_predictor cp)"
  by (simp add: completed_submit_frame_def submit_secondary_frame_def as_predictor_def split: option.split prod.split)

theorem predictors_agree:
  shows "as_predictor (completed_load_artifacts env st) = predictor_init env st"
    and "cf_enabled (completed_load_artifacts env st) = ms_enabled (cf_stack (completed_load_artifacts env st))"
    and "cf_enabled cp = ms_enabled (cf_stack cp) \<Longrightarrow>
      map_prod id as_predictor (completed_predict_and_submit features cx cp) =
      predict_primary_and_submit_secondary features cx (as_predictor cp)"
    and "map_prod id as_predictor (completed_submit features cx cp) = submit_secondary features cx (as_predictor cp)"
    and "run_secondary_prediction (as_predictor cp) job = Some result \<Longrightarrow>
      completed_run_secondary (Some f) cp job w = (True, f result (snd job) w)"
proof -
  show "as_predictor (completed_load_artifacts env st) = predictor_init env st"
    by (simp add: as_predictor_def completed_load_artifacts_def predictor_init_def completed_positive_int_def
        positive_int_def Let_def)
  show "cf_enabled (completed_load_artifacts env st) = ms_enabled (cf_stack (completed_load_artifacts env st))"
    by (simp add: completed_load_artifacts_def Let_def)
  show "map_prod id as_predictor (completed_submit features cx cp) = submit_secondary features cx (as_predictor cp)"
    by (simp add: completed_submit_def submit_secondary_def completed_submit_agrees)
  show "cf_enabled cp = ms_enabled (cf_stack cp) \<Longrightarrow>
      map_prod id as_predictor (completed_predict_and_submit features cx cp) =
      predict_primary_and_submit_secondary features cx (as_predictor cp)"
  proof -
    assume "cf_enabled cp = ms_enabled (cf_stack cp)"
    moreover have "as_predictor (snd (completed_submit_frame fr cx cp)) = snd (submit_secondary_frame fr cx (as_predictor cp))" for fr
      by (simp add: completed_submit_agrees [symmetric])
    moreover have "pd_stack (as_predictor cp) = cf_stack cp" by (simp add: as_predictor_def)
    ultimately show ?thesis
      by (simp add: completed_predict_and_submit_def predict_primary_and_submit_secondary_def Let_def)
  qed
  show "run_secondary_prediction (as_predictor cp) job = Some result \<Longrightarrow>
      completed_run_secondary (Some f) cp job w = (True, f result (snd job) w)"
    by (auto simp: run_secondary_prediction_def completed_run_secondary_def as_predictor_def split: option.splits)
qed

end
