(* ===== verification/Logging.thy ===== *)
theory Logging
  imports Capture
begin

text \<open>
  The logger (\<open>packet_capture/utils/logger.py\<close>): what each of the log files gets of the events the engine
  logs; and two tools of the repository: the check that the feature columns are defined in one
  place (\<open>tools/validate_feature_schema_usage.py\<close>) and the replay of demonstration traffic
  (\<open>tools/demo_replay.py\<close>). Rendering a time and a JSON object are arguments; the rotation of the
  files is that of \<open>RotatingFileHandler\<close> of the standard library.
\<close>

subsection \<open>Log records\<close>

record log_record =
  lo_time :: real
  lo_level :: string
  lo_name :: string
  lo_message :: string
  lo_event_data :: "(string, json) pydict option"

record renderer =
  re_time :: "string option \<Rightarrow> real \<Rightarrow> string"
  re_json :: "(string, json) pydict \<Rightarrow> string option"

text \<open>\<open>payload.update(event_data)\<close>: the event may overwrite the fields of the record.\<close>

definition json_payload :: "renderer \<Rightarrow> log_record \<Rightarrow> (string, json) pydict" where
  "json_payload re r =
     (let payload = [(''timestamp_utc'', JStr (re_time re (Some ''%Y-%m-%dT%H:%M:%SZ'') (lo_time r))),
            (''level'', JStr (lo_level r)), (''logger'', JStr (lo_name r)), (''message'', JStr (lo_message r))]
      in case lo_event_data r of None \<Rightarrow> payload | Some d \<Rightarrow> fold (\<lambda>(k, v). AList.update k v) d payload)"

text \<open>\<open>json.dumps\<close> raises on an event with a value that is no JSON: \<open>None\<close>.\<close>

definition json_format :: "renderer \<Rightarrow> log_record \<Rightarrow> string option" where
  "json_format re r = re_json re (json_payload re r)"

definition console_format :: "renderer \<Rightarrow> log_record \<Rightarrow> string" where
  "console_format re r = ''['' @ re_time re None (lo_time r) @ '']['' @ lo_level r @ ''] '' @ lo_name r @ '' - '' @ lo_message r"

definition keyword_filter :: "string list \<Rightarrow> log_record \<Rightarrow> bool" where
  "keyword_filter keywords r = (let message = lower (lo_message r) in list_ex (\<lambda>k. contains_str k message) keywords)"

subsection \<open>Handlers\<close>

datatype handler = RuntimeLog | AlertsLog | ResponseLog | Console

definition accepts :: "handler \<Rightarrow> log_record \<Rightarrow> bool" where
  "accepts h r =
     (case h of
        AlertsLog \<Rightarrow> keyword_filter [''alert'', ''attack'', ''heuristic''] r
      | ResponseLog \<Rightarrow> keyword_filter [''block'', ''unblock'', ''response''] r
      | _ \<Rightarrow> True)"

definition rendered :: "renderer \<Rightarrow> handler \<Rightarrow> log_record \<Rightarrow> string option" where
  "rendered re h r = (case h of Console \<Rightarrow> Some (console_format re r) | _ \<Rightarrow> json_format re r)"

text \<open>
  A log file and its backups, the newest first, as lines of ASCII text. Before a line that would
  bring a file that is not empty to \<open>maxBytes\<close>, the file becomes the first backup, and of the
  backups only \<open>backupCount\<close> stay.
\<close>

record log_file =
  lf_current :: "string list"
  lf_backups :: "string list list"

definition max_bytes :: nat where "max_bytes = 10 * 1024 * 1024"
definition backup_count :: nat where "backup_count = 5"

definition file_bytes :: "string list \<Rightarrow> nat" where
  "file_bytes ls = sum_list (map (\<lambda>l. length l + 1) ls)"

definition roll_over :: "log_file \<Rightarrow> log_file" where
  "roll_over f = \<lparr>lf_current = [], lf_backups = take backup_count (lf_current f # lf_backups f)\<rparr>"

definition write_line :: "string \<Rightarrow> log_file \<Rightarrow> log_file" where
  "write_line line f =
     (let g = (if lf_current f \<noteq> [] \<and> max_bytes \<le> file_bytes (lf_current f) + (length line + 1) then roll_over f else f)
      in g\<lparr>lf_current := lf_current g @ [line]\<rparr>)"

record logging =
  lg_configured :: bool
  lg_handlers :: "handler list"
  lg_files :: "handler \<Rightarrow> log_file"
  lg_console :: "string list"



definition level_number :: "string \<Rightarrow> nat" where
  "level_number level =
     (if level = ''DEBUG'' then 10 else if level = ''WARNING'' then 30 else if level = ''ERROR'' then 40 else 20)"

text \<open>A handler that cannot render a record reports that to the error stream and writes nothing.\<close>

definition handle_record :: "renderer \<Rightarrow> log_record \<Rightarrow> handler \<Rightarrow> logging \<Rightarrow> logging" where
  "handle_record re r h lg =
     (if \<not> accepts h r then lg
      else case rendered re h r of
        None \<Rightarrow> lg
      | Some line \<Rightarrow>
          if h = Console then lg\<lparr>lg_console := lg_console lg @ [line]\<rparr>
          else lg\<lparr>lg_files := (lg_files lg)(h := write_line line (lg_files lg h))\<rparr>)"

text \<open>The level of the loggers is \<open>INFO\<close>.\<close>

definition emit_record :: "renderer \<Rightarrow> log_record \<Rightarrow> logging \<Rightarrow> logging" where
  "emit_record re r lg =
     (if level_number (lo_level r) < 20 then lg
      else fold (handle_record re r) (lg_handlers lg) lg)"

definition event_record :: "real \<Rightarrow> string \<Rightarrow> string \<Rightarrow> string \<Rightarrow> (string, json) pydict \<Rightarrow> log_record" where
  "event_record now logger level message event_data =
     \<lparr>lo_time = now,
      lo_level = (if level = ''debug'' then ''DEBUG'' else if level = ''warning'' then ''WARNING''
        else if level = ''error'' then ''ERROR'' else ''INFO''),
      lo_name = logger, lo_message = message, lo_event_data = Some event_data\<rparr>"





subsection \<open>The schema check\<close>

definition word_char :: "char \<Rightarrow> bool" where
  "word_char c \<longleftrightarrow> is_digit c \<or> c = CHR ''_'' \<or> (CHR ''a'' \<le> c \<and> c \<le> CHR ''z'') \<or> (CHR ''A'' \<le> c \<and> c \<le> CHR ''Z'') \<or>
     (of_char c :: nat) \<in> {170, 178, 179, 181, 185, 186, 188, 189, 190} \<or>
     192 \<le> (of_char c :: nat) \<and> (of_char c :: nat) \<notin> {215, 247}"

text \<open>What follows the name in \<open>FEATURE_COLUMNS\s*=\s*[\<close>.\<close>

definition assigns_list :: "string \<Rightarrow> bool" where
  "assigns_list s =
     (case dropWhile py_space s of
        c # rest \<Rightarrow> c = CHR ''='' \<and> (case dropWhile py_space rest of d # _ \<Rightarrow> d = CHR ''['' | [] \<Rightarrow> False)
      | [] \<Rightarrow> False)"

fun redefines :: "bool \<Rightarrow> string \<Rightarrow> bool" where
  "redefines inside [] = False"
| "redefines inside (c # s) =
     ((\<not> inside \<and> prefix ''FEATURE_COLUMNS'' (c # s) \<and> assigns_list (drop 15 (c # s))) \<or> redefines (word_char c) s)"

record source_tree =
  st_files :: "(string \<times> string) list"
  st_schema :: string
  st_critical :: "string list"

definition schema_errors :: "source_tree \<Rightarrow> (string \<times> string) list" where
  "schema_errors st =
     map (\<lambda>(p, _). (''FEATURE_COLUMNS redefined'', p)) (filter (\<lambda>(p, text).
       \<not> contains_str ''.venv'' p \<and> p \<noteq> st_schema st \<and> redefines False text) (st_files st)) @
     List.map_filter (\<lambda>p. case map_of (st_files st) p of
         None \<Rightarrow> Some (''Critical file missing'', p)
       | Some text \<Rightarrow> if contains_str ''FEATURE_COLUMNS'' text then None
           else Some (''FEATURE_COLUMNS not referenced'', p)) (st_critical st)"

definition schema_check :: "source_tree \<Rightarrow> int" where
  "schema_check st = (if schema_errors st \<noteq> [] then 1 else 0)"

subsection \<open>Demonstration traffic\<close>

datatype demo_packet =
  DemoTcp (demo_dst: string) (demo_port: int) (demo_flags: string) (demo_size: int)
| DemoUdp (demo_dst: string) (demo_port: int) (demo_size: int)

text \<open>A packet and the delay after it; the source port is random.\<close>

type_synonym demo_traffic = "(demo_packet \<times> real) list"

definition replay_normal :: "string \<Rightarrow> real \<Rightarrow> demo_traffic" where
  "replay_normal dst delay = replicate 15 (DemoTcp dst 443 ''PA'' 120, delay)"

definition replay_port_sweep :: "string \<Rightarrow> real \<Rightarrow> demo_traffic" where
  "replay_port_sweep dst delay = map (\<lambda>port. (DemoTcp dst port ''S'' 0, delay)) [1..119]"

definition replay_bruteforce_like :: "string \<Rightarrow> real \<Rightarrow> int \<Rightarrow> demo_traffic" where
  "replay_bruteforce_like dst delay service_port = replicate 40 (DemoTcp dst service_port ''PA'' 80, delay)"

definition replay_mixed :: "string \<Rightarrow> real \<Rightarrow> demo_traffic" where
  "replay_mixed dst delay = replay_normal dst delay @ replay_port_sweep dst (delay / 2) @
     replay_bruteforce_like dst (delay / 2) 22 @ replicate 10 (DemoUdp dst 53 48, delay)"

definition demo_replay :: "string \<Rightarrow> string \<Rightarrow> real \<Rightarrow> nat \<Rightarrow> int \<Rightarrow> demo_traffic" where
  "demo_replay mode dst delay loops service_port =
     concat (replicate loops
       (if mode = ''normal'' then replay_normal dst delay
        else if mode = ''port_sweep'' then replay_port_sweep dst delay
        else if mode = ''bruteforce'' then replay_bruteforce_like dst delay service_port
        else replay_mixed dst delay))"

subsection \<open>Facts\<close>


lemma file_bytes_append [simp]: "file_bytes (xs @ ys) = file_bytes xs + file_bytes ys"
  by (simp add: file_bytes_def)
















lemma handle_record_frame [simp]:
  "lg_configured (handle_record re r h lg) = lg_configured lg" "lg_handlers (handle_record re r h lg) = lg_handlers lg"
  by (simp_all add: handle_record_def split: option.split)

lemma emit_record_frame [simp]:
  "lg_configured (emit_record re r lg) = lg_configured lg" "lg_handlers (emit_record re r lg) = lg_handlers lg"
proof -
  have "lg_configured (fold (handle_record re r) hs lg) = lg_configured lg \<and>
      lg_handlers (fold (handle_record re r) hs lg) = lg_handlers lg" for hs
    by (induction hs arbitrary: lg) simp_all
  then show "lg_configured (emit_record re r lg) = lg_configured lg" "lg_handlers (emit_record re r lg) = lg_handlers lg"
    by (simp_all add: emit_record_def)
qed






lemma map_of_fold_update:
  "map_of (fold (\<lambda>(k, v). AList.update k v) d payload) k = (case map_of (rev d) k of None \<Rightarrow> map_of payload k | Some v \<Rightarrow> Some v)"
  by (induction d arbitrary: payload) (auto simp: map_add_def split: option.splits)

text \<open>A field of the event wins over a field of the record; the last one of equal keys would.\<close>

theorem payload_fields:
  "map_of (json_payload re (event_record now logger level message data)) k =
     (case map_of (rev data) k of
        Some v \<Rightarrow> Some v
      | None \<Rightarrow> map_of [(''timestamp_utc'', JStr (re_time re (Some ''%Y-%m-%dT%H:%M:%SZ'') now)),
          (''level'', JStr (lo_level (event_record now logger level message data))),
          (''logger'', JStr logger), (''message'', JStr message)] k)"
  unfolding json_payload_def Let_def event_record_def by (simp add: map_of_fold_update split: option.split)

text \<open>The check passes only if no other file defines the columns and every critical file uses them.\<close>

theorem schema_check_passes:
  "schema_check st = 0 \<longleftrightarrow>
     (\<forall>(p, text) \<in> set (st_files st). contains_str ''.venv'' p \<or> p = st_schema st \<or> \<not> redefines False text) \<and>
     (\<forall>p \<in> set (st_critical st). \<exists>text. map_of (st_files st) p = Some text \<and> contains_str ''FEATURE_COLUMNS'' text)"
proof -
  have "List.map_filter f xs = [] \<longleftrightarrow> (\<forall>x \<in> set xs. f x = None)" for f :: "string \<Rightarrow> (string \<times> string) option" and xs
    by (induction xs) (auto simp: map_filter_simps split: option.splits)
  then show ?thesis
    by (auto simp: schema_check_def schema_errors_def filter_empty_conv split: option.splits if_splits) blast+
qed

theorem replay_mixed_shape:
  "length (demo_replay ''mixed'' dst delay loops port) = 184 * loops"
  "map (demo_port \<circ> fst) (replay_port_sweep dst delay) = [1..119]"
proof -
  have "length (replay_mixed dst delay) = 184"
    by (simp add: replay_mixed_def replay_normal_def replay_port_sweep_def replay_bruteforce_like_def)
  then show "length (demo_replay ''mixed'' dst delay loops port) = 184 * loops"
    by (simp add: demo_replay_def length_concat sum_list_replicate)
qed (simp add: replay_port_sweep_def comp_def)

end
