(* ===== verification/Seed.thy ===== *)
theory Seed
  imports Capture
begin

text \<open>
  The demonstration data (\<open>scripts/seed/dataset.py\<close>): the rows of every table as the dictionaries the
  code builds, in its order. An instant is a number of seconds; SHA-256 and the hash functions of
  the backend are arguments.
\<close>

subsection \<open>Rows\<close>

datatype sfield =
  SNone | SBool bool | SInt int | SFloat real | SStr string | STime int
| SList "sfield list" | SObj "(string \<times> sfield) list"

type_synonym seed_row = "(string, sfield) pydict"

definition SEED_NOW :: int where "SEED_NOW = 1784980800"
definition SEED_DOMAIN :: string where "SEED_DOMAIN = ''smartids-demo.dev''"
definition SEED_OWNER_NOTE :: string where "SEED_OWNER_NOTE = ''[seed] smartids demo dataset''"

definition seconds :: "int \<Rightarrow> int" where "seconds n = n"
definition minutes :: "int \<Rightarrow> int" where "minutes n = 60 * n"
definition hours :: "int \<Rightarrow> int" where "hours n = 3600 * n"
definition days :: "int \<Rightarrow> int" where "days n = 86400 * n"

definition opt_str :: "string option \<Rightarrow> sfield" where
  "opt_str v = (case v of None \<Rightarrow> SNone | Some s \<Rightarrow> SStr s)"

definition opt_time :: "int option \<Rightarrow> sfield" where
  "opt_time v = (case v of None \<Rightarrow> SNone | Some t \<Rightarrow> STime t)"

text \<open>The rows built here have the fields that are read from them.\<close>

definition fld :: "seed_row \<Rightarrow> string \<Rightarrow> sfield" where
  "fld r k = (case map_of r k of None \<Rightarrow> SNone | Some v \<Rightarrow> v)"

definition str_fld :: "seed_row \<Rightarrow> string \<Rightarrow> string" where
  "str_fld r k = (case fld r k of SStr s \<Rightarrow> s | _ \<Rightarrow> [])"

definition time_fld :: "seed_row \<Rightarrow> string \<Rightarrow> int" where
  "time_fld r k = (case fld r k of STime t \<Rightarrow> t | _ \<Rightarrow> 0)"

text \<open>A field inside an f-string; the ports put there are integers.\<close>

definition field_str :: "sfield \<Rightarrow> string" where
  "field_str v = (case v of SStr s \<Rightarrow> s | SInt i \<Rightarrow> int_str i | SNone \<Rightarrow> ''None'' | _ \<Rightarrow> [])"

definition float_fld :: "seed_row \<Rightarrow> string \<Rightarrow> real" where
  "float_fld r k = (case fld r k of SFloat x \<Rightarrow> x | _ \<Rightarrow> 0)"

definition setdefault :: "string \<Rightarrow> sfield \<Rightarrow> seed_row \<Rightarrow> seed_row" where
  "setdefault k v r = (if map_of r k = None then AList.update k v r else r)"

definition stamp_row :: "int \<Rightarrow> int option \<Rightarrow> seed_row \<Rightarrow> seed_row" where
  "stamp_row created_at updated_at record =
     setdefault ''updated_at'' (STime (case updated_at of None \<Rightarrow> created_at | Some t \<Rightarrow> t))
       (setdefault ''created_at'' (STime created_at) record)"

text \<open>\<open>f"{n:03d}"\<close>: decimal digits, padded with zeros.\<close>

definition zpad :: "nat \<Rightarrow> nat \<Rightarrow> string" where
  "zpad w n = replicate (w - length (nat_str n)) (CHR ''0'') @ nat_str n"

text \<open>The loop of \<open>_stable_secret\<close>, with the number of rounds as fuel.\<close>

fun extend_digest :: "(string \<Rightarrow> string) \<Rightarrow> nat \<Rightarrow> nat \<Rightarrow> string \<Rightarrow> string option" where
  "extend_digest sha256 n fuel digest =
     (if n \<le> length digest then Some digest
      else case fuel of 0 \<Rightarrow> None | Suc fuel' \<Rightarrow> extend_digest sha256 n fuel' (digest @ sha256 digest))"

definition stable_secret :: "(string \<Rightarrow> string) \<Rightarrow> string \<Rightarrow> nat \<Rightarrow> string option" where
  "stable_secret sha256 label n = map_option (take n) (extend_digest sha256 n n (sha256 label))"

record seed_hashes =
  sh_sha256 :: "string \<Rightarrow> string"
  sh_password :: "string \<Rightarrow> string"
  sh_session_token :: "string \<Rightarrow> string"
  sh_api_secret :: "string \<Rightarrow> string"

subsection \<open>Users\<close>

definition users_spec :: "(string \<times> string \<times> string \<times> string option \<times> bool \<times> int option \<times> string) list" where
  "users_spec = (let verified_at = SEED_NOW - days 45 in [
     (''seed_user_admin'', ''admin@'' @ SEED_DOMAIN, ''Avery Admin'', Some ''AdminPass!123'', True, Some
      verified_at,
      ''Primary demo account. Current app has no role column; use as owner/admin-named account only.''),
     (''seed_user_manager'', ''manager@'' @ SEED_DOMAIN, ''Morgan Manager'', Some ''ManagerPass!123'', True,
      Some (verified_at + days 1), ''Manager-named account. No role/RBAC column exists in schema.''),
     (''seed_user_analyst'', ''analyst@'' @ SEED_DOMAIN, ''Alex Analyst'', Some ''AnalystPass!123'', True, Some
      (verified_at + days 2), ''Recommended login for dashboard/testing.''),
     (''seed_user_operator'', ''operator@'' @ SEED_DOMAIN, ''Olivia Operator'', Some ''OperatorPass!123'', True,
      Some (verified_at + days 3), ''Owns most engine registrations.''),
     (''seed_user_demo'', ''demo@'' @ SEED_DOMAIN, ''Dana Demo'', Some ''DemoPass!123'', True, Some (verified_at
      + days 4), ''General non-empty-state account.''),
     (''seed_user_qa'', ''qa@'' @ SEED_DOMAIN, ''Quinn QA'', Some ''QaPass!12345'', True, Some (verified_at +
      days 5), ''Extra account for pagination/search coverage.''),
     (''seed_user_inactive'', ''inactive@'' @ SEED_DOMAIN, ''Iris Inactive'', Some ''InactivePass!123'', False,
      Some (verified_at + days 6), ''Inactive account. Login should fail.''),
     (''seed_user_pending'', ''pending@'' @ SEED_DOMAIN, ''Parker Pending'', Some ''PendingPass!123'', True,
      None, ''Unverified account. Login should fail until verified.''),
     (''seed_user_oauth_alice'', ''github.alice@'' @ SEED_DOMAIN, ''Alice OAuth'', None, True, Some (verified_at
      + days 7), ''OAuth-only GitHub account. No password hash.''),
     (''seed_user_oauth_bob'', ''github.bob@'' @ SEED_DOMAIN, ''Bob OAuth'', None, True, Some (verified_at +
      days 8), ''OAuth-only GitHub account. No password hash.'')])"

definition user_row :: "seed_hashes \<Rightarrow> nat \<times> string \<times> string \<times> string \<times> string option \<times> bool \<times> int option \<times> string \<Rightarrow> seed_row" where
  "user_row sh = (\<lambda>(index, user_id, email, full_name, password, is_active, email_verified, notes).
     let created_at = SEED_NOW - days (90 - int index * 4) in
     stamp_row created_at (Some (max created_at (case email_verified of None \<Rightarrow> created_at | Some t \<Rightarrow> t)))
       [(''id'', SStr user_id), (''email'', SStr email), (''full_name'', SStr full_name),
        (''password_hash'', opt_str (map_option (sh_password sh) password)),
        (''email_verified'', opt_time email_verified), (''is_active'', SBool is_active)])"

record demo_credential =
  dc_label :: string
  dc_email :: string
  dc_password :: "string option"
  dc_notes :: string

definition oauth_row :: "string \<Rightarrow> int \<Rightarrow> seed_row" where
  "oauth_row name age = stamp_row (SEED_NOW - days age) None
     [(''id'', SStr (''seed_oauth_account_'' @ name)), (''user_id'', SStr (''seed_user_oauth_'' @ name)),
      (''provider'', SStr ''github''), (''provider_user_id'', SStr (''seed-github-'' @ name)),
      (''provider_email'', SStr (''github.'' @ name @ ''@'' @ SEED_DOMAIN))]"

definition build_users :: "seed_hashes \<Rightarrow> seed_row list \<times> seed_row list \<times> demo_credential list" where
  "build_users sh =
     (map (user_row sh) (enumerate 0 users_spec),
      [oauth_row ''alice'' 32, oauth_row ''bob'' 31],
      map (\<lambda>(user_id, email, full_name, password, is_active, email_verified, notes).
        \<lparr>dc_label = full_name, dc_email = email, dc_password = password, dc_notes = notes\<rparr>) users_spec)"

subsection \<open>Sessions of users, API keys, engines\<close>

definition session_specs ::
    "(string \<times> string \<times> string \<times> int \<times> int \<times> int option \<times> string \<times> string \<times> string \<times> string) list" where
  "session_specs = [
     (''seed_auth_session_admin_current'', ''seed_user_admin'', ''admin-current'', 14, 14, None,
      ''Mozilla/5.0 (Windows NT 10.0; Win64; x64) Chrome/126.0.0.0'', ''203.0.113.10'', ''Seattle'', ''US''),
     (''seed_auth_session_admin_old'', ''seed_user_admin'', ''admin-old'', 41, 34, None,
      ''Mozilla/5.0 (Macintosh; Intel Mac OS X 14_5) Safari/617.1.3'', ''203.0.113.11'', ''Portland'', ''US''),
     (''seed_auth_session_manager_current'', ''seed_user_manager'', ''manager-current'', 9, 9, None,
      ''Mozilla/5.0 (X11; Linux x86_64) Firefox/128.0'', ''203.0.113.12'', ''Denver'', ''US''),
     (''seed_auth_session_analyst_current'', ''seed_user_analyst'', ''analyst-current'', 2, 2, None,
      ''Mozilla/5.0 (Windows NT 10.0; Win64; x64) Edge/126.0.0.0'', ''203.0.113.13'', ''Austin'', ''US''),
     (''seed_auth_session_analyst_mobile'', ''seed_user_analyst'', ''analyst-mobile'', 19, 18, None,
      ''Mozilla/5.0 (iPhone; CPU iPhone OS 18_0 like Mac OS X) Safari/604.1'', ''203.0.113.14'', ''Austin'',
      ''US''),
     (''seed_auth_session_operator_current'', ''seed_user_operator'', ''operator-current'', 1, 1, None,
      ''Mozilla/5.0 (Windows NT 10.0; Win64; x64) Chrome/126.0.0.0'', ''203.0.113.15'', ''Dallas'', ''US''),
     (''seed_auth_session_demo_current'', ''seed_user_demo'', ''demo-current'', 4, 4, None,
      ''Mozilla/5.0 (Macintosh; Intel Mac OS X 14_5) Chrome/125.0.0.0'', ''203.0.113.16'', ''Chicago'', ''US''),
     (''seed_auth_session_demo_revoked'', ''seed_user_demo'', ''demo-revoked'', 28, 26, Some (SEED_NOW - days
      22), ''Mozilla/5.0 (Linux; Android 15) Chrome/126.0.0.0'', ''203.0.113.17'', ''Chicago'', ''US''),
     (''seed_auth_session_qa_current'', ''seed_user_qa'', ''qa-current'', 6, 6, None,
      ''Mozilla/5.0 (X11; Linux x86_64) Firefox/127.0'', ''203.0.113.18'', ''Boston'', ''US''),
     (''seed_auth_session_qa_tablet'', ''seed_user_qa'', ''qa-tablet'', 12, 11, None,
      ''Mozilla/5.0 (iPad; CPU OS 17_5 like Mac OS X) Safari/604.1'', ''203.0.113.19'', ''Boston'', ''US''),
     (''seed_auth_session_inactive'', ''seed_user_inactive'', ''inactive-current'', 5, 5, None,
      ''Mozilla/5.0 (Windows NT 10.0; Win64; x64) Chrome/126.0.0.0'', ''203.0.113.20'', ''Phoenix'', ''US''),
     (''seed_auth_session_pending'', ''seed_user_pending'', ''pending-current'', 3, 3, None,
      ''Mozilla/5.0 (Macintosh; Intel Mac OS X 14_5) Safari/617.1.3'', ''203.0.113.21'', ''Miami'', ''US'')]"

definition session_expiry :: "string \<Rightarrow> int \<Rightarrow> int" where
  "session_expiry token_label age_days =
     (let expires_at = SEED_NOW + days (30 - min age_days 20);
          expires_at = (if contains_str ''old'' token_label then SEED_NOW + days 7 else expires_at)
      in if contains_str ''inactive'' token_label \<or> contains_str ''pending'' token_label then SEED_NOW + days 15
         else expires_at)"

type_synonym session_spec =
  "nat \<times> string \<times> string \<times> string \<times> int \<times> int \<times> int option \<times> string \<times> string \<times> string \<times> string"

definition auth_session_row :: "seed_hashes \<Rightarrow> session_spec \<Rightarrow> seed_row" where
  "auth_session_row sh = (\<lambda>(index, session_id, user_id, token_label, age_days, created_days, revoked_at,
       user_agent, ip_address, city, country_code).
     let created_at = SEED_NOW - (days created_days + hours (int index)) in
     stamp_row created_at (Some (case revoked_at of Some t \<Rightarrow> t | None \<Rightarrow> created_at + hours 12))
       [(''id'', SStr session_id), (''user_id'', SStr user_id),
        (''token_hash'', SStr (sh_session_token sh (''seed-session-token::'' @ token_label))),
        (''expires_at'', STime (session_expiry token_label age_days)), (''revoked_at'', opt_time revoked_at),
        (''user_agent'', SStr user_agent), (''ip_address'', SStr ip_address)])"

definition ip_location_row :: "session_spec \<Rightarrow> seed_row option" where
  "ip_location_row = (\<lambda>(index, session_id, user_id, token_label, age_days, created_days, revoked_at,
       user_agent, ip_address, city, country_code).
     let created_at = SEED_NOW - (days created_days + hours (int index)) in
     case revoked_at of
       Some t \<Rightarrow> None
     | None \<Rightarrow> Some (stamp_row (created_at + minutes 5) None
         [(''id'', SStr (''seed_ip_location_'' @ zpad 2 index)), (''user_id'', SStr user_id),
          (''session_id'', SStr session_id), (''ip_address'', SStr ip_address),
          (''country'', SStr ''United States''), (''country_code'', SStr country_code),
          (''state'', SStr ''Seed State''), (''state_code'', SStr ''SS''), (''city'', SStr city),
          (''postal_code'', SStr (nat_str (73000 + index))), (''latitude'', SFloat (30 + real index * (1 / 2))),
          (''longitude'', SFloat (- 97 + real index * (1 / 4))), (''timezone'', SStr ''America/Chicago''),
          (''provider'', SStr ''seed-offline''), (''resolved_at'', STime (created_at + minutes 5))]))"

definition build_auth_sessions :: "seed_hashes \<Rightarrow> seed_row list \<times> seed_row list" where
  "build_auth_sessions sh =
     (map (auth_session_row sh) (enumerate 0 session_specs),
      List.map_filter ip_location_row (enumerate 0 session_specs))"

definition api_key_specs ::
    "(string \<times> string \<times> string \<times> string \<times> string \<times> string \<times> bool \<times> int option) list" where
  "api_key_specs = [
     (''seed_api_key_admin_live'', ''seed_user_admin'', ''Admin Live Key'', ''Backend automation'', ''live'',
      ''v1'', True, None),
     (''seed_api_key_admin_test'', ''seed_user_admin'', ''Admin Test Key'', ''Staging validation'', ''test'',
      ''v1'', True, None),
     (''seed_api_key_manager_live'', ''seed_user_manager'', ''Manager Reports'', ''Exports + reporting'',
      ''live'', ''v1'', True, None),
     (''seed_api_key_analyst_dev'', ''seed_user_analyst'', ''Analyst Dev'', ''Notebook experiments'',
      ''development'', ''v1'', True, None),
     (''seed_api_key_analyst_old'', ''seed_user_analyst'', ''Analyst Retired'', ''Disabled historical key'',
      ''test'', ''v1'', False, Some (SEED_NOW - days 5)),
     (''seed_api_key_operator_live'', ''seed_user_operator'', ''Engine Registration'', ''Engine bootstrap'',
      ''live'', ''v1'', True, None),
     (''seed_api_key_operator_v2'', ''seed_user_operator'', ''Operator V2 Trial'', ''Future key shape trial'',
      ''development'', ''v2'', True, None),
     (''seed_api_key_demo_live'', ''seed_user_demo'', ''Demo Integrations'', ''Shared sandbox integrations'',
      ''live'', ''v1'', True, None),
     (''seed_api_key_demo_test'', ''seed_user_demo'', ''Demo Expiring'', ''Expires soon for UI state'', ''test''
      , ''v1'', True, Some (SEED_NOW + days 3)),
     (''seed_api_key_qa_test'', ''seed_user_qa'', ''QA Regression'', ''Regression suite'', ''test'', ''v1'',
      True, None)]"

definition api_key_row :: "seed_hashes \<Rightarrow>
    nat \<times> string \<times> string \<times> string \<times> string \<times> string \<times> string \<times> bool \<times> int option \<Rightarrow> seed_row option" where
  "api_key_row sh = (\<lambda>(index, row_id, user_id, name, description, environment, version, is_active, expires_at).
     map_option (\<lambda>secret. stamp_row (SEED_NOW - days (50 - int index * 2)) None
       [(''id'', SStr row_id), (''user_id'', SStr user_id), (''name'', SStr name),
        (''description'', SStr description), (''key_id'', SStr (''seedkey'' @ zpad 2 index)),
        (''environment'', SStr environment), (''version'', SStr version),
        (''key_hash'', SStr (sh_api_secret sh secret)), (''is_active'', SBool is_active),
        (''expires_at'', opt_time expires_at)])
       (stable_secret (sh_sha256 sh) (row_id @ ''-secret'') 64))"

definition option_list :: "'a option list \<Rightarrow> 'a list option" where
  "option_list xs = (if None \<in> set xs then None else Some (map the xs))"

definition build_api_keys :: "seed_hashes \<Rightarrow> seed_row list option" where
  "build_api_keys sh = option_list (map (api_key_row sh) (enumerate 0 api_key_specs))"

definition engine_specs ::
    "(string \<times> string \<times> string \<times> string \<times> string \<times> string \<times> string \<times> string \<times> string \<times> int \<times> int option) list" where
  "engine_specs = [
     (''seed_engine_01'', ''seed_user_operator'', ''Warehouse Sensor'', ''seed-engine-warehouse'',
      ''warehouse-host'', ''Linux'', ''1.4.2'', ''198.51.100.10'', ''active'', SEED_NOW - minutes 4, None),
     (''seed_engine_02'', ''seed_user_operator'', ''Branch Sensor'', ''seed-engine-branch'', ''branch-host'',
      ''Windows'', ''1.4.1'', ''198.51.100.11'', ''active'', SEED_NOW - minutes 14, None),
     (''seed_engine_03'', ''seed_user_analyst'', ''Lab Sensor'', ''seed-engine-lab'', ''lab-host'', ''Linux'',
      ''1.3.9'', ''198.51.100.12'', ''active'', SEED_NOW - hours 2, None),
     (''seed_engine_04'', ''seed_user_demo'', ''Retired Demo Sensor'', ''seed-engine-retired'', ''retired-host''
      , ''Linux'', ''1.2.0'', ''198.51.100.13'', ''revoked'', SEED_NOW - days 3, Some (SEED_NOW - days 7))]"

definition engine_row :: "seed_hashes \<Rightarrow> nat \<times> string \<times> string \<times> string \<times> string \<times> string \<times> string \<times> string \<times>
    string \<times> string \<times> int \<times> int option \<Rightarrow> seed_row option" where
  "engine_row sh = (\<lambda>(index, row_id, user_id, name, public_id, hostname, operating_system, version, ip_address,
       status, last_seen, revoked_at).
     let created_at = SEED_NOW - days (70 - int index * 8); third = row_id = ''seed_engine_03'' in
     case (stable_secret (sh_sha256 sh) (row_id @ ''-engine-secret'') 96,
           if third then map_option Some (stable_secret (sh_sha256 sh) (row_id @ ''-previous-secret'') 96) else Some None) of
       (Some secret, Some previous) \<Rightarrow> Some (stamp_row created_at
         (Some (max created_at (case revoked_at of Some t \<Rightarrow> t | None \<Rightarrow> last_seen)))
         [(''id'', SStr row_id), (''user_id'', SStr user_id), (''name'', SStr name),
          (''engine_public_id'', SStr public_id), (''secret'', SStr secret), (''previous_secret'', opt_str previous),
          (''previous_secret_expires_at'', opt_time (if third then Some (SEED_NOW + days 1) else None)),
          (''hostname'', SStr hostname), (''operating_system'', SStr operating_system),
          (''version'', SStr version), (''ip_address'', SStr ip_address), (''status'', SStr status),
          (''last_seen'', STime last_seen), (''revoked_at'', opt_time revoked_at),
          (''heartbeat_interval_seconds'', SInt 30)])
     | _ \<Rightarrow> None)"

definition build_engines :: "seed_hashes \<Rightarrow> seed_row list option" where
  "build_engines sh = option_list (map (engine_row sh) (enumerate 0 engine_specs))"

subsection \<open>Network sessions\<close>

definition attack_types :: "string list" where
  "attack_types = [''DDoS'', ''PortScan'', ''Brute Force'', ''SQL Injection'', ''Bot'', ''DoS'']"

definition destinations :: "(string \<times> int) list" where
  "destinations = [(''10.10.0.10'', 443), (''10.10.0.11'', 80), (''10.10.0.12'', 22), (''10.10.0.13'', 5432),
     (''10.10.0.14'', 3306)]"

definition malicious_ips :: "string list" where
  "malicious_ips = map (\<lambda>index. ''198.51.100.'' @ nat_str (50 + index)) [0..<12]"

definition benign_ips :: "string list" where
  "benign_ips = map (\<lambda>index. ''203.0.113.'' @ nat_str (40 + index)) [0..<20]"

definition is_attack :: "nat \<Rightarrow> bool" where
  "is_attack index = (index mod 5 \<in> {0, 1})"

definition session_start :: "nat \<Rightarrow> int" where
  "session_start index = SEED_NOW - (hours (72 - int index) + minutes (int ((index * 7) mod 60)))"

definition network_session_row :: "nat \<Rightarrow> seed_row" where
  "network_session_row index =
     (let attack = is_attack index;
          start_time = session_start index;
          end_time = (if index < 8 then None else Some (start_time + seconds (45 + int index * 11)));
          last_seen_at = (case end_time of Some t \<Rightarrow> t | None \<Rightarrow> SEED_NOW - minutes (5 + int index));
          protocol = (if index mod 11 = 0 then 1 else if index mod 2 \<noteq> 0 then 17 else 6) :: int;
          source_port = (if protocol = 1 then SNone else SInt (20000 + int index * 17));
          (destination_ip, destination_port) = destinations ! (index mod length destinations);
          prediction = (if attack then attack_types ! (index mod length attack_types) else ''Normal Traffic'');
          risk_score = (if attack then py_round 2 (72 / 100 + real (index mod 6) * (4 / 100))
            else py_round 2 (3 / 100 + real (index mod 4) * (4 / 100)));
          packet_count = 5 + int index * 3;
          state = (if index < 8 then ''active'' else if attack \<and> index mod 3 = 0 then ''blocked'' else ''closed'')
      in stamp_row start_time (Some last_seen_at)
        [(''id'', SStr (''seed_network_session_'' @ zpad 3 index)),
         (''session_id'', SStr (''seed-session-'' @ zpad 3 index)),
         (''start_time'', STime start_time), (''end_time'', opt_time end_time),
         (''last_seen_at'', STime last_seen_at),
         (''source_ip'', SStr (if attack then malicious_ips ! (index mod length malicious_ips)
           else benign_ips ! (index mod length benign_ips))),
         (''destination_ip'', SStr destination_ip), (''source_port'', source_port),
         (''destination_port'', SInt destination_port), (''protocol'', SInt protocol),
         (''packet_count'', SInt packet_count),
         (''byte_count'', SInt (packet_count * (if attack then 420 else 180))),
         (''duration'', SFloat (20 + real index * 6)), (''risk_score'', SFloat risk_score),
         (''ml_prediction'', SStr prediction),
         (''heuristic_result'', if attack \<and> index mod 2 = 0 then SStr ''suspicious''
           else if \<not> attack then SStr ''benign'' else SNone),
         (''state'', SStr state)])"

definition build_network_sessions :: "seed_row list" where
  "build_network_sessions = map network_session_row [0..<60]"

subsection \<open>Events of a session\<close>

definition event_row :: "nat \<Rightarrow> seed_row \<Rightarrow> nat \<Rightarrow> seed_row" where
  "event_row session_index session_row stage =
     (let event_count = 4;
          benign = (lower (str_fld session_row ''ml_prediction'') = ''normal traffic'');
          ts = time_fld session_row ''start_time'' + seconds (int stage * 20 + 5);
          prediction = fld session_row ''ml_prediction'';
          severity = (if benign then ''low'' else if stage < 2 then ''medium'' else if stage = 2 then ''high''
            else ''critical'');
          action = (if benign then ''allow'' else if stage < 2 then ''alert'' else ''block'');
          action_taken = (if benign then ''allowed'' else if stage = 1 then ''watchlist''
            else if 2 \<le> stage then ''block'' else ''alert'');
          confidence = py_round 2 (min (99 / 100) (float_fld session_row ''risk_score'' + real stage * (5 / 100)))
      in stamp_row ts None
        [(''id'', SStr (''seed_ids_event_row_'' @ zpad 3 session_index @ ''_'' @ nat_str stage)),
         (''event_id'', SStr (''seed-event-'' @ zpad 3 session_index @ ''-'' @ nat_str stage)),
         (''schema_version'', SStr ''1.0''), (''ts'', STime ts), (''source'', fld session_row ''source_ip''),
         (''model'', SStr ''xgboost_primary''), (''prediction'', prediction), (''confidence'', SFloat confidence),
         (''severity'', SStr severity), (''action'', SStr action), (''protocol'', fld session_row ''protocol''),
         (''source_ip'', fld session_row ''source_ip''), (''destination_ip'', fld session_row ''destination_ip''),
         (''source_port'', fld session_row ''source_port''),
         (''destination_port'', fld session_row ''destination_port''), (''attack_type'', prediction),
         (''session_id'', fld session_row ''session_id''),
         (''features'', SObj
           [(''seed_owner'', SBool True), (''session_packet_count'', fld session_row ''packet_count''),
            (''session_byte_count'', fld session_row ''byte_count''),
            (''session_duration'', fld session_row ''duration''),
            (''response_history'', SList (if benign then [SStr ''observe''] else [SStr ''observe'', SStr action_taken])),
            (''risk_score'', fld session_row ''risk_score''), (''is_final'', SBool (stage = event_count - 1)),
            (''model_outputs'', SObj
              [(''primary'', SObj [(''prediction'', prediction), (''confidence'', SFloat confidence)]),
               (''secondary'', SObj [(''prediction'', if \<not> benign then prediction else SStr ''Normal Traffic''),
                 (''confidence'', SFloat (py_round 2 (max (confidence - 7 / 100) (1 / 100))))])])])])"

definition build_ids_events :: "seed_row list \<Rightarrow> seed_row list" where
  "build_ids_events network_sessions =
     concat (map (\<lambda>(session_index, session_row). map (event_row session_index session_row) [0..<4])
       (enumerate 0 network_sessions))"

subsection \<open>Alerts\<close>

definition index_by_event_id :: "seed_row list \<Rightarrow> (string, seed_row) pydict" where
  "index_by_event_id ids_events = fold (\<lambda>row. AList.update (str_fld row ''event_id'') row) ids_events []"

definition alert_variants :: "nat \<Rightarrow> (string \<times> string \<times> string) list" where
  "alert_variants session_index =
     [(''watch'', ''watchlist'', ''open''),
      (''block'', ''blocked'', if session_index mod 4 = 0 then ''resolved'' else ''investigating'')]"

definition alert_row :: "nat \<Rightarrow> nat \<Rightarrow> seed_row \<Rightarrow> seed_row \<Rightarrow> string \<times> string \<times> string \<Rightarrow> seed_row" where
  "alert_row alert_index session_index session_row event = (\<lambda>(variant, action_taken, status).
     let prediction = str_fld session_row ''ml_prediction'';
         prediction = (if prediction = [] then ''Normal Traffic'' else prediction);
         event_stage = (if variant = ''watch'' then 1 else 3) :: nat;
         detected_at = time_fld event ''ts'';
         last_seen_at = detected_at +
           minutes (int (session_index mod 5) * 7 + (if variant = ''block'' then 3 else 0));
         destination = str_fld session_row ''destination_ip''
     in stamp_row detected_at (Some last_seen_at)
       [(''id'', SStr (''seed_alert_row_'' @ zpad 3 alert_index)),
        (''dedup_key'', SStr (''seed-alert-'' @ str_fld session_row ''session_id'' @ ''-'' @ variant)),
        (''event_id'', fld event ''event_id''), (''prediction'', SStr prediction),
        (''severity'', SStr (if variant = ''watch'' then ''high'' else ''critical'')),
        (''confidence'', fld event ''confidence''),
        (''action'', SStr (if variant = ''watch'' then ''alert'' else ''block'')), (''source'', SStr ''ids_engine''),
        (''status'', SStr status), (''first_seen_at'', STime detected_at), (''last_seen_at'', STime last_seen_at),
        (''occurrence_count'', SInt (2 + int (session_index mod 5))),
        (''threat_id'', SStr (''seed-threat-'' @ zpad 3 session_index @ ''-'' @ variant)),
        (''detection_method'', SStr ''ml''), (''action_taken'', SStr action_taken),
        (''session_id'', fld session_row ''session_id''), (''source_ip'', fld session_row ''source_ip''),
        (''destination_ip'', fld session_row ''destination_ip''), (''source_port'', fld session_row ''source_port''),
        (''destination_port'', fld session_row ''destination_port''), (''protocol'', fld session_row ''protocol''),
        (''risk_score'', fld session_row ''risk_score''), (''is_final'', SBool (variant = ''block'')),
        (''title'', SStr (prediction @ '' '' @ variant @ '' alert'')),
        (''description'', SStr (prediction @ '' activity detected against '' @ destination @ '':'' @
           field_str (fld session_row ''destination_port'') @ ''.'')),
        (''target_ip'', fld session_row ''destination_ip''), (''port'', fld session_row ''destination_port''),
        (''country'', SStr ''US''), (''attack_type'', SStr prediction),
        (''metadata_json'', SObj
          [(''seed_owner'', SBool True),
           (''engine'', SStr (if session_index mod 2 = 0 then ''seed-engine-warehouse'' else ''seed-engine-branch'')),
           (''event_ids'', SList [SStr (''seed-event-'' @ zpad 3 session_index @ ''-'' @ nat_str event_stage)])]),
        (''detected_at'', STime detected_at),
        (''resolved_at'', if status = ''resolved'' then STime last_seen_at else SNone)])"

text \<open>A missing event is the \<open>KeyError\<close> of the lookup.\<close>

definition alert_step :: "(string, seed_row) pydict \<Rightarrow> nat \<Rightarrow> seed_row \<Rightarrow> string \<times> string \<times> string \<Rightarrow>
    seed_row list \<Rightarrow> string + seed_row list" where
  "alert_step ids_by_event_id session_index session_row variant alerts =
     (let event_stage = (if fst variant = ''watch'' then 1 else 3);
          key = ''seed-event-'' @ zpad 3 session_index @ ''-'' @ nat_str event_stage
      in case map_of ids_by_event_id key of
           None \<Rightarrow> Inl key
         | Some event \<Rightarrow> Inr (alerts @ [alert_row (length alerts) session_index session_row event variant]))"

definition seed_session_alerts :: "(string, seed_row) pydict \<Rightarrow> nat \<times> seed_row \<Rightarrow> seed_row list \<Rightarrow> string + seed_row list" where
  "seed_session_alerts ids_by_event_id = (\<lambda>(session_index, session_row) alerts.
     let prediction = str_fld session_row ''ml_prediction'' in
     if prediction = [] \<or> prediction = ''Normal Traffic'' then Inr alerts
     else foldE (alert_step ids_by_event_id session_index session_row) (alert_variants session_index) alerts)"

definition build_alerts :: "seed_row list \<Rightarrow> seed_row list \<Rightarrow> string + seed_row list" where
  "build_alerts network_sessions ids_events =
     foldE (seed_session_alerts (index_by_event_id ids_events)) (enumerate 0 network_sessions) []"

end
