(* ===== verification/SeedPlan.thy ===== *)
theory SeedPlan
  imports Seed
begin

text \<open>
  The rest of \<open>scripts/seed/dataset.py\<close>: the decisions and commands derived from the seeded sessions,
  the SQL events, the telemetry, and \<open>build_seed_plan\<close>, which puts the tables together. The tables are listed in the
  order in which \<open>scripts/seed/runner.py\<close> writes them.
\<close>

subsection \<open>Decisions, commands and the state of an address\<close>

text \<open>The loop stops at the twelfth session of an attack from an address it has not seen.\<close>

fun targeted_sessions :: "string list \<Rightarrow> seed_row list \<Rightarrow> seed_row list \<Rightarrow> seed_row list" where
  "targeted_sessions seen_ips targeted [] = targeted"
| "targeted_sessions seen_ips targeted (row # rows) =
     (if str_fld row ''ml_prediction'' = ''Normal Traffic'' then targeted_sessions seen_ips targeted rows
      else if str_fld row ''source_ip'' \<in> set seen_ips then targeted_sessions seen_ips targeted rows
      else let targeted = targeted @ [row] in
        if length targeted = 12 then targeted
        else targeted_sessions (str_fld row ''source_ip'' # seen_ips) targeted rows)"

definition block_sequence :: "nat \<Rightarrow> (string \<times> string \<times> string) list" where
  "block_sequence index =
     [(''watchlist'', if index mod 3 = 0 then ''manual'' else ''ml'', ''Queued for observation''),
      (''block'', ''ml'', ''Escalated after repeated detections''),
      (if index mod 4 = 0 then ''unblock'' else ''watchlist'', if index mod 4 = 0 then ''manual'' else ''ml'',
       ''Analyst follow-up''),
      (if index mod 2 = 0 then ''block'' else ''watchlist'', ''ml'', ''Latest confirmed posture'')]"

definition block_event_ts :: "seed_row \<Rightarrow> nat \<Rightarrow> int" where
  "block_event_ts session_row event_offset =
     time_fld session_row ''start_time'' + minutes (int event_offset * 17 + 8)"

definition block_event_row :: "nat \<Rightarrow> seed_row \<Rightarrow> nat \<times> string \<times> string \<times> string \<Rightarrow> seed_row" where
  "block_event_row index session_row = (\<lambda>(event_offset, action_taken, detection_method, reason).
     let ts = block_event_ts session_row event_offset in
     stamp_row ts None
       [(''id'', SStr (''seed_block_event_row_'' @ zpad 2 index @ ''_'' @ nat_str event_offset)),
        (''event_id'', SStr (''seed-block-'' @ zpad 2 index @ ''-'' @ nat_str event_offset)), (''ts'', STime ts),
        (''source_ip'', fld session_row ''source_ip''), (''action_taken'', SStr action_taken),
        (''reason'', SStr reason), (''detection_method'', SStr detection_method),
        (''session_id'', fld session_row ''session_id''), (''source_port'', fld session_row ''source_port''),
        (''destination_ip'', fld session_row ''destination_ip''),
        (''destination_port'', fld session_row ''destination_port''),
        (''protocol'', fld session_row ''protocol'')])"

definition engine_command_row :: "nat \<Rightarrow> seed_row \<Rightarrow> nat \<times> string \<times> string \<times> string \<Rightarrow> seed_row" where
  "engine_command_row index session_row = (\<lambda>(event_offset, action_taken, detection_method, reason).
     let ts = block_event_ts session_row event_offset;
         command_status = (if event_offset < 3 then ''acknowledged'' else if index mod 3 = 0 then ''queued''
           else ''delivered'');
         acknowledged = (command_status = ''acknowledged'');
         delivered_at = (if command_status \<in> {''delivered'', ''acknowledged''} then Some (ts + seconds 20) else None);
         ack_status = (if acknowledged then Some (if action_taken = ''block'' then ''blocked'' else action_taken)
           else None);
         acked_at = (if acknowledged then Some (ts + seconds 45) else None);
         ack_source = (if acknowledged then Some ''seed_runtime'' else None)
     in stamp_row (ts - seconds 30)
         (Some (case acked_at of Some t \<Rightarrow> t | None \<Rightarrow> (case delivered_at of Some t \<Rightarrow> t | None \<Rightarrow> ts)))
       [(''id'', SStr (''seed_engine_command_row_'' @ zpad 2 index @ ''_'' @ nat_str event_offset)),
        (''command_id'', SStr (''seed-cmd-'' @ zpad 2 index @ ''-'' @ nat_str event_offset)),
        (''action'', SStr (if action_taken = ''unblock'' then ''unwatchlist'' else action_taken)),
        (''ip_address'', fld session_row ''source_ip''),
        (''duration_seconds'', SInt (if action_taken = ''block'' then 900 else 300)),
        (''status'', SStr command_status), (''ack_status'', opt_str ack_status),
        (''ack_source'', opt_str ack_source), (''delivered_at'', opt_time delivered_at),
        (''acked_at'', opt_time acked_at)])"

text \<open>\<open>block_events[-4]\<close>, read when the four events of the session have been appended.\<close>

definition ip_control_state_row :: "nat \<Rightarrow> seed_row \<Rightarrow> seed_row list \<Rightarrow> seed_row \<Rightarrow> seed_row \<Rightarrow> seed_row" where
  "ip_control_state_row index session_row block_events latest_event latest_command =
     (let latest_action = str_fld latest_event ''action_taken'';
          ts = time_fld latest_event ''ts'';
          current_status = (if latest_action = ''block'' then ''blocked''
            else if latest_action = ''watchlist'' then ''watchlisted'' else ''unblocked'')
      in stamp_row (time_fld session_row ''start_time'') (Some ts)
        [(''id'', SStr (''seed_ip_control_state_'' @ zpad 2 index)),
         (''ip_address'', fld session_row ''source_ip''), (''current_status'', SStr current_status),
         (''control_source'', SStr ''seed''), (''reason'', fld latest_event ''reason''),
         (''first_blocked_at'', if fst (block_sequence index ! 1) = ''block''
           then fld (block_events ! (length block_events - 4)) ''ts'' else SNone),
         (''last_changed_at'', STime ts),
         (''expires_at'', if current_status = ''blocked'' then STime (ts + minutes 45) else SNone),
         (''last_command_id'', fld latest_command ''command_id''),
         (''last_block_event_id'', fld latest_event ''event_id''),
         (''last_session_id'', fld session_row ''session_id'')])"

type_synonym block_tables = "seed_row list \<times> seed_row list \<times> seed_row list"

definition block_session :: "nat \<times> seed_row \<Rightarrow> block_tables \<Rightarrow> block_tables" where
  "block_session = (\<lambda>(index, session_row) (block_events, engine_commands, ip_control_states).
     let steps = enumerate 0 (block_sequence index);
         block_events = block_events @ map (block_event_row index session_row) steps;
         engine_commands = engine_commands @ map (engine_command_row index session_row) steps
     in (block_events, engine_commands,
         ip_control_states @
           [ip_control_state_row index session_row block_events (last block_events) (last engine_commands)]))"

definition build_block_events_and_state :: "seed_row list \<Rightarrow> block_tables" where
  "build_block_events_and_state network_sessions =
     fold block_session (enumerate 0 (targeted_sessions [] [] network_sessions)) ([], [], [])"

subsection \<open>SQL events\<close>

definition sql_paths :: "string list" where
  "sql_paths = [''/api/search'', ''/api/login'', ''/api/report'', ''/api/export'']"

definition sql_event_row :: "nat \<Rightarrow> seed_row" where
  "sql_event_row index =
     (let detected = (index mod 3 = 0); ts = SEED_NOW - hours (36 - int index) in
      stamp_row ts None
        [(''id'', SStr (''seed_sql_event_row_'' @ zpad 3 index)),
         (''request_id'', SStr (''seed-sql-'' @ zpad 3 index)), (''ts'', STime ts),
         (''source'', SStr (''proxy:'' @ sql_paths ! (index mod length sql_paths))),
         (''query_preview'', SStr (if detected then CHR 0x27 # '' OR '' @ CHR 0x27 # ''1'' @ CHR 0x27 # ''='' @ CHR 0x27 # ''1 --''
           else ''SELECT * FROM audit_log WHERE id = '' @ nat_str (1000 + index))),
         (''detected'', SBool detected), (''confidence'', SFloat (if detected then 94 / 100 else 4 / 100)),
         (''reason'', if detected then SStr ''classic tautology payload'' else SNone),
         (''decision'', SStr (if detected then ''block'' else ''allow'')),
         (''http_status'', SInt (if detected then 400 else 200))])"

definition build_sql_injection_events :: "seed_row list" where
  "build_sql_injection_events = map sql_event_row [0..<24]"

subsection \<open>Telemetry\<close>

definition exchange_of :: "seed_row \<Rightarrow> sfield" where
  "exchange_of session_row = SObj (map (\<lambda>k. (k, fld session_row k))
     [''source_ip'', ''destination_ip'', ''source_port'', ''destination_port'', ''protocol'', ''packet_count'',
      ''byte_count'', ''duration''])"

definition telemetry_row :: "seed_row list \<Rightarrow> nat \<Rightarrow> seed_row" where
  "telemetry_row network_sessions index =
     (let ts = SEED_NOW - hours (72 - int index * 2);
          ml_predictions_per_30s = 26 + int (index mod 8) * 3;
          start = index mod length network_sessions;
          active_exchanges = map exchange_of (take 3 (drop start network_sessions))
      in stamp_row ts None
        [(''id'', SStr (''seed_engine_telemetry_'' @ zpad 3 index)), (''ts'', STime ts),
         (''packets_received_total'', SInt (50000 + int index * 2200)),
         (''packets_received_per_30s'', SInt (1200 + int index * 18)),
         (''packets_processed_total'', SInt (49800 + int index * 2180)),
         (''packets_dropped_total'', SInt (20 + int index)), (''packets_lost_total'', SInt (10 + int (index mod 4))),
         (''packet_loss_detected'', SBool (index mod 10 = 0)),
         (''packet_queue_size'', SInt (18 + int (index mod 11))), (''packet_queue_maxsize'', SInt 128),
         (''packet_queue_usage_percent'', SFloat (py_round 2 (145 / 10 + real (index mod 9) * (62 / 10)))),
         (''active_sessions'', SInt (6 + int (index mod 7))),
         (''ml_predictions_total'', SInt (800 + int index * 33)),
         (''ml_predictions_per_30s'', SInt ml_predictions_per_30s),
         (''ml_processing_rate_per_30s'', SFloat (py_round 2 (of_int ml_predictions_per_30s / 30))),
         (''last_ml_prediction_latency_ms'', SFloat (py_round 2 (24 + real (index mod 5) * (55 / 10)))),
         (''secondary_model_queue_size'', SInt (4 + int (index mod 6))),
         (''secondary_model_queue_maxsize'', SInt 64),
         (''secondary_model_queue_usage_percent'', SFloat (py_round 2 (6 + real (index mod 6) * (35 / 10)))),
         (''secondary_model_predictions_dropped_total'', SInt (int (index div 6))),
         (''secondary_model_predictions_total'', SInt (500 + int index * 19)),
         (''secondary_model_predictions_per_30s'', SInt (14 + int (index mod 4) * 2)),
         (''application_attribution_available'', SBool True),
         (''application_attribution_note'', SStr (SEED_OWNER_NOTE @ '' snapshot '' @ zpad 3 index)),
         (''active_network_exchanges'', SList active_exchanges)])"

text \<open>
  \<open>threat_event_total / network_activity_total\<close> and \<open>index % len(network_sessions)\<close> raise a
  \<open>ZeroDivisionError\<close> where there is no activity and no session: \<open>None\<close>.
\<close>

definition rollup_row :: "nat \<Rightarrow> seed_row option" where
  "rollup_row index =
     (let moment = SEED_NOW - hours (23 - int index);
          bucket_start = moment - moment mod 3600;
          network_activity_total = 9000 + int index * 210;
          threat_event_total = 42 + int (index mod 6) * 5;
          blocked_event_total = 8 + int (index mod 4) * 2;
          benign_event_total = max (network_activity_total - threat_event_total) 0
      in if network_activity_total = 0 then None else Some (stamp_row bucket_start None
        [(''id'', SStr (''seed_network_threat_rollup_'' @ zpad 3 index)), (''bucket_start'', STime bucket_start),
         (''bucket_size'', SStr ''hour''), (''network_activity_total'', SInt network_activity_total),
         (''threat_event_total'', SInt threat_event_total), (''benign_event_total'', SInt benign_event_total),
         (''blocked_event_total'', SInt blocked_event_total), (''telemetry_snapshot_count'', SInt 2),
         (''ml_prediction_total'', SInt (60 + int index * 4)),
         (''active_sessions_peak'', SInt (7 + int (index mod 5))),
         (''packet_loss_event_total'', SInt (if index mod 9 = 0 then 1 else 0)),
         (''threat_rate'', SFloat (py_round 4 (of_int threat_event_total / of_int network_activity_total)))]))"

definition build_engine_telemetry :: "seed_row list \<Rightarrow> (seed_row list \<times> seed_row list) option" where
  "build_engine_telemetry network_sessions =
     (if network_sessions = [] then None
      else map_option (Pair (map (telemetry_row network_sessions) [0..<36])) (option_list (map rollup_row [0..<24])))"

subsection \<open>The plan\<close>

record seed_plan =
  sp_users :: "seed_row list"
  sp_oauth_accounts :: "seed_row list"
  sp_auth_sessions :: "seed_row list"
  sp_ip_locations :: "seed_row list"
  sp_api_keys :: "seed_row list"
  sp_engines :: "seed_row list"
  sp_network_sessions :: "seed_row list"
  sp_ids_events :: "seed_row list"
  sp_alerts :: "seed_row list"
  sp_sql_injection_events :: "seed_row list"
  sp_engine_commands :: "seed_row list"
  sp_block_events :: "seed_row list"
  sp_ip_control_states :: "seed_row list"
  sp_engine_telemetry_snapshots :: "seed_row list"
  sp_network_threat_rollups :: "seed_row list"
  sp_demo_credentials :: "demo_credential list"
  sp_excluded_tables :: "(string \<times> string) list"

definition excluded_tables :: "(string \<times> string) list" where
  "excluded_tables = [(''notifications'',
     ''Model exists but current Alembic migration chain does not create this table; model also points to nonexistent `threats` table.'')]"

definition build_seed_plan :: "seed_hashes \<Rightarrow> seed_plan option" where
  "build_seed_plan sh =
     (let (users, oauth_accounts, demo_credentials) = build_users sh;
          (auth_sessions, ip_locations) = build_auth_sessions sh;
          network_sessions = build_network_sessions;
          ids_events = build_ids_events network_sessions;
          (block_events, engine_commands, ip_control_states) = build_block_events_and_state network_sessions
      in case (build_api_keys sh, build_engines sh, build_alerts network_sessions ids_events,
               build_engine_telemetry network_sessions) of
           (Some api_keys, Some engines, Inr alerts, Some (snapshots, rollups)) \<Rightarrow> Some
             \<lparr>sp_users = users, sp_oauth_accounts = oauth_accounts, sp_auth_sessions = auth_sessions,
              sp_ip_locations = ip_locations, sp_api_keys = api_keys, sp_engines = engines,
              sp_network_sessions = network_sessions, sp_ids_events = ids_events, sp_alerts = alerts,
              sp_sql_injection_events = build_sql_injection_events, sp_engine_commands = engine_commands,
              sp_block_events = block_events, sp_ip_control_states = ip_control_states,
              sp_engine_telemetry_snapshots = snapshots, sp_network_threat_rollups = rollups,
              sp_demo_credentials = demo_credentials,
              sp_excluded_tables = excluded_tables\<rparr>
         | _ \<Rightarrow> None)"

text \<open>The tables in the order the runner writes them.\<close>

definition auth_tables :: "seed_plan \<Rightarrow> (string \<times> seed_row list) list" where
  "auth_tables p =
     [(''users'', sp_users p), (''oauth_accounts'', sp_oauth_accounts p), (''auth_sessions'', sp_auth_sessions p),
      (''ip_locations'', sp_ip_locations p), (''api_keys'', sp_api_keys p), (''engines'', sp_engines p)]"

definition runtime_tables :: "seed_plan \<Rightarrow> (string \<times> seed_row list) list" where
  "runtime_tables p =
     [(''network_sessions'', sp_network_sessions p), (''ids_events'', sp_ids_events p), (''alerts'', sp_alerts p),
      (''sql_injection_events'', sp_sql_injection_events p), (''engine_commands'', sp_engine_commands p),
      (''block_events'', sp_block_events p), (''ip_control_states'', sp_ip_control_states p),
      (''engine_telemetry_snapshots'', sp_engine_telemetry_snapshots p),
      (''network_threat_rollups'', sp_network_threat_rollups p)]"

subsection \<open>Reading rows\<close>

named_theorems seed_rows "rows and their fields"

lemma fld_stamp [simp]:
  "k \<noteq> ''created_at'' \<Longrightarrow> k \<noteq> ''updated_at'' \<Longrightarrow> fld (stamp_row c u r) k = fld r k"
  by (simp add: fld_def stamp_row_def setdefault_def)

lemma str_fld_stamp [simp]:
  "k \<noteq> ''created_at'' \<Longrightarrow> k \<noteq> ''updated_at'' \<Longrightarrow> str_fld (stamp_row c u r) k = str_fld r k"
  by (simp add: str_fld_def)

lemma time_fld_stamp [simp]:
  "k \<noteq> ''created_at'' \<Longrightarrow> k \<noteq> ''updated_at'' \<Longrightarrow> time_fld (stamp_row c u r) k = time_fld r k"
  by (simp add: time_fld_def)

lemma fld_Cons [simp]: "fld ((k, v) # r) k' = (if k = k' then v else fld r k')"
  by (simp add: fld_def)

lemma str_fld_Cons [simp]:
  "str_fld ((k, v) # r) k' = (if k = k' then (case v of SStr s \<Rightarrow> s | _ \<Rightarrow> []) else str_fld r k')"
  by (simp add: str_fld_def)

lemma time_fld_Cons [simp]:
  "time_fld ((k, v) # r) k' = (if k = k' then (case v of STime t \<Rightarrow> t | _ \<Rightarrow> 0) else time_fld r k')"
  by (simp add: time_fld_def)

abbreviation row_id :: "seed_row \<Rightarrow> string" where
  "row_id r \<equiv> str_fld r ''id''"

lemma digits_val_zeros [simp]: "digits_val (replicate k (CHR ''0'') @ s) = digits_val s"
  by (induction k) (simp_all add: digits_val_def digit_val_def)

lemma zpad_inject [simp]: "zpad w a = zpad w b \<longleftrightarrow> a = b"
proof
  assume "zpad w a = zpad w b"
  then have "digits_val (zpad w a) = digits_val (zpad w b)" by simp
  then show "a = b" by (simp add: zpad_def)
qed simp

lemma zpad_digits: "c \<in> set (zpad w n) \<Longrightarrow> is_digit c"
  using nat_str_digits by (auto simp: zpad_def is_digit_def split: if_splits)

lemma zpad_sep_inject:
  assumes "\<not> is_digit c"
  shows "zpad w a @ c # s = zpad w b @ c # s' \<longleftrightarrow> a = b \<and> s = s'"
proof
  assume eq: "zpad w a @ c # s = zpad w b @ c # s'"
  have "takeWhile is_digit (zpad w n @ c # r) = zpad w n" for n r
    using assms zpad_digits by (subst takeWhile_append2) auto
  with eq have "zpad w a = zpad w b" by metis
  with eq show "a = b \<and> s = s'" by simp
qed simp

lemmas zpad_sep_injects [simp] =
  zpad_sep_inject [of "CHR ''-''", simplified is_digit_def, simplified]
  zpad_sep_inject [of "CHR ''_''", simplified is_digit_def, simplified]

subsection \<open>Keys and fields of the derived rows\<close>

lemma network_session_fields [seed_rows]:
  "row_id (network_session_row i) = ''seed_network_session_'' @ zpad 3 i"
  "fld (network_session_row i) ''session_id'' = SStr (''seed-session-'' @ zpad 3 i)"
  "str_fld (network_session_row i) ''session_id'' = ''seed-session-'' @ zpad 3 i"
  "fld (network_session_row i) ''source_ip'' = SStr (if is_attack i then malicious_ips ! (i mod length malicious_ips)
     else benign_ips ! (i mod length benign_ips))"
  "str_fld (network_session_row i) ''source_ip'' = (if is_attack i then malicious_ips ! (i mod length malicious_ips)
     else benign_ips ! (i mod length benign_ips))"
  "str_fld (network_session_row i) ''ml_prediction'' =
     (if is_attack i then attack_types ! (i mod length attack_types) else ''Normal Traffic'')"
  "time_fld (network_session_row i) ''start_time'' = session_start i"
  by (simp_all add: network_session_row_def Let_def case_prod_unfold del: append.simps)

lemma event_fields [seed_rows]:
  "row_id (event_row i r s) = ''seed_ids_event_row_'' @ zpad 3 i @ ''_'' @ nat_str s"
  "fld (event_row i r s) ''event_id'' = SStr (''seed-event-'' @ zpad 3 i @ ''-'' @ nat_str s)"
  "str_fld (event_row i r s) ''event_id'' = ''seed-event-'' @ zpad 3 i @ ''-'' @ nat_str s"
  "fld (event_row i r s) ''session_id'' = fld r ''session_id''"
  by (simp_all add: event_row_def Let_def del: append.simps)

lemma alert_fields [seed_rows]:
  "row_id (alert_row n i r e v) = ''seed_alert_row_'' @ zpad 3 n"
  "fld (alert_row n i r e v) ''event_id'' = fld e ''event_id''"
  "fld (alert_row n i r e v) ''session_id'' = fld r ''session_id''"
  by (simp_all add: alert_row_def Let_def case_prod_unfold del: append.simps)

lemma block_event_fields [seed_rows]:
  "row_id (block_event_row i r v) = ''seed_block_event_row_'' @ zpad 2 i @ ''_'' @ nat_str (fst v)"
  "fld (block_event_row i r v) ''event_id'' = SStr (''seed-block-'' @ zpad 2 i @ ''-'' @ nat_str (fst v))"
  "fld (block_event_row i r v) ''session_id'' = fld r ''session_id''"
  "fld (block_event_row i r v) ''source_ip'' = fld r ''source_ip''"
  "fld (block_event_row i r v) ''ts'' = STime (block_event_ts r (fst v))"
  "time_fld (block_event_row i r v) ''ts'' = block_event_ts r (fst v)"
  "str_fld (block_event_row i r v) ''action_taken'' = fst (snd v)"
  "fld (block_event_row i r v) ''reason'' = SStr (snd (snd (snd v)))"
  by (simp_all add: block_event_row_def Let_def case_prod_unfold del: append.simps)

lemma engine_command_fields [seed_rows]:
  "row_id (engine_command_row i r v) = ''seed_engine_command_row_'' @ zpad 2 i @ ''_'' @ nat_str (fst v)"
  "fld (engine_command_row i r v) ''command_id'' = SStr (''seed-cmd-'' @ zpad 2 i @ ''-'' @ nat_str (fst v))"
  "fld (engine_command_row i r v) ''ip_address'' = fld r ''source_ip''"
  by (simp_all add: engine_command_row_def Let_def case_prod_unfold del: append.simps)

lemma control_state_fields [seed_rows]:
  "row_id (ip_control_state_row i r bs e c) = ''seed_ip_control_state_'' @ zpad 2 i"
  "fld (ip_control_state_row i r bs e c) ''ip_address'' = fld r ''source_ip''"
  "fld (ip_control_state_row i r bs e c) ''last_block_event_id'' = fld e ''event_id''"
  "fld (ip_control_state_row i r bs e c) ''last_command_id'' = fld c ''command_id''"
  "fld (ip_control_state_row i r bs e c) ''last_session_id'' = fld r ''session_id''"
  "fld (ip_control_state_row i r bs e c) ''reason'' = fld e ''reason''"
  "fld (ip_control_state_row i r bs e c) ''last_changed_at'' = STime (time_fld e ''ts'')"
  "fld (ip_control_state_row i r bs e c) ''first_blocked_at'' = fld (bs ! (length bs - 4)) ''ts''"
  "str_fld (ip_control_state_row i r bs e c) ''current_status'' =
     (if str_fld e ''action_taken'' = ''block'' then ''blocked''
      else if str_fld e ''action_taken'' = ''watchlist'' then ''watchlisted'' else ''unblocked'')"
  by (simp_all add: ip_control_state_row_def block_sequence_def Let_def del: append.simps)

end
