(* ===== verification/SeedFacts.thy ===== *)
theory SeedFacts
  imports SeedPlan
begin

text \<open>
  What the demonstration data is: the shape of each table of the plan, its primary keys, the rows
  the others refer to. The claims say that the plan is always built and that its references hold.
\<close>

subsection \<open>The shape of the tables\<close>

lemma map_enumerate_snd: "map (\<lambda>p. f (snd p)) (enumerate n xs) = map f xs"
  by (induction xs arbitrary: n) auto

lemma ids_events_eq:
  "build_ids_events build_network_sessions =
     concat (map (\<lambda>i. map (event_row i (network_session_row i)) [0..<4]) [0..<60])"
proof -
  have "enumerate 0 build_network_sessions = map (\<lambda>i. (i, network_session_row i)) [0..<60]"
    by (rule nth_equalityI) (simp_all add: build_network_sessions_def nth_enumerate_eq)
  then show ?thesis by (simp add: build_ids_events_def comp_def)
qed

lemma sessions_enumerate:
  "enumerate 0 build_network_sessions = map (\<lambda>i. (i, network_session_row i)) [0..<60]"
  by (rule nth_equalityI) (simp_all add: build_network_sessions_def nth_enumerate_eq)

lemma index_fold_update:
  "map_of (fold (\<lambda>r. AList.update (key r) r) rs d) k =
     (case find (\<lambda>r. key r = k) (rev rs) of Some r \<Rightarrow> Some r | None \<Rightarrow> map_of d k)"
proof (induction rs rule: rev_induct)
  case (snoc r rs)
  then show ?case by simp
qed simp

lemma index_by_event_id_get:
  assumes "row \<in> set rows" and "inj_on (\<lambda>r. str_fld r ''event_id'') (set rows)"
  shows "map_of (index_by_event_id rows) (str_fld row ''event_id'') = Some row"
proof (cases "find (\<lambda>r. str_fld r ''event_id'' = str_fld row ''event_id'') (rev rows)")
  case None
  with assms(1) show ?thesis by (auto simp: find_None_iff)
next
  case (Some r)
  then obtain j where j: "j < length (rev rows)" "r = rev rows ! j" "str_fld r ''event_id'' = str_fld row ''event_id''"
    unfolding find_Some_iff by blast
  then have "r \<in> set rows" by (metis nth_mem set_rev)
  with j(3) assms have "r = row" unfolding inj_on_def by blast
  with Some show ?thesis by (simp add: index_by_event_id_def index_fold_update)
qed

lemma in_ids_events:
  "row \<in> set (build_ids_events build_network_sessions) \<longleftrightarrow>
     (\<exists>i < 60. \<exists>s < 4. row = event_row i (network_session_row i) s)"
proof -
  have "set (build_ids_events build_network_sessions) =
      (\<Union>i \<in> {..<60}. event_row i (network_session_row i) ` {..<4})"
    by (simp add: ids_events_eq lessThan_atLeast0)
  then show ?thesis by blast
qed

lemma event_lookup:
  assumes "i < 60" and "s < 4"
  shows "map_of (index_by_event_id (build_ids_events build_network_sessions))
           (''seed-event-'' @ zpad 3 i @ ''-'' @ nat_str s) = Some (event_row i (network_session_row i) s)"
proof -
  have "inj_on (\<lambda>r. str_fld r ''event_id'') (set (build_ids_events build_network_sessions))"
    by (auto simp: inj_on_def in_ids_events seed_rows)
  from index_by_event_id_get [OF _ this, of "event_row i (network_session_row i) s"] assms
  show ?thesis by (auto simp: in_ids_events seed_rows)
qed

text \<open>The alerts, in the order the loop makes them.\<close>

definition alert_of :: "nat \<Rightarrow> nat \<times> string \<times> string \<times> string \<Rightarrow> seed_row" where
  "alert_of n = (\<lambda>(i, v). alert_row n i (network_session_row i)
     (event_row i (network_session_row i) (if fst v = ''watch'' then 1 else 3)) v)"

definition alert_specs :: "nat list \<Rightarrow> (nat \<times> string \<times> string \<times> string) list" where
  "alert_specs xs = concat (map (\<lambda>i. map (Pair i) (alert_variants i)) (filter is_attack xs))"

lemma attack_not_normal: "is_attack i \<Longrightarrow>
  attack_types ! (i mod length attack_types) \<noteq> ''Normal Traffic'' \<and> attack_types ! (i mod length attack_types) \<noteq> []"
proof -
  have "\<forall>t \<in> set attack_types. t \<noteq> ''Normal Traffic'' \<and> t \<noteq> []" by (simp add: attack_types_def)
  moreover have "i mod length attack_types < length attack_types" by (simp add: attack_types_def)
  ultimately show ?thesis using nth_mem by blast
qed

lemma seed_session_alerts_eq:
  assumes "i < 60"
  shows "seed_session_alerts (index_by_event_id (build_ids_events build_network_sessions)) (i, network_session_row i) as =
     Inr (as @ map (case_prod alert_of) (enumerate (length as) (alert_specs [i])))"
  using event_lookup [OF assms, of 1] event_lookup [OF assms, of 3] attack_not_normal [of i]
  by (simp add: seed_session_alerts_def seed_rows alert_variants_def alert_step_def alert_specs_def alert_of_def)

lemma alerts_eq:
  "set xs \<subseteq> {..<60} \<Longrightarrow>
   foldE (seed_session_alerts (index_by_event_id (build_ids_events build_network_sessions)))
     (map (\<lambda>i. (i, network_session_row i)) xs) as =
     Inr (as @ map (case_prod alert_of) (enumerate (length as) (alert_specs xs)))"
proof (induction xs arbitrary: as)
  case Nil
  then show ?case by (simp add: alert_specs_def)
next
  case (Cons x xs)
  have "alert_specs (x # xs) = alert_specs [x] @ alert_specs xs" by (simp add: alert_specs_def)
  with Cons show ?case by (simp add: seed_session_alerts_eq enumerate_append_eq)
qed

lemma build_alerts_eq:
  "build_alerts build_network_sessions (build_ids_events build_network_sessions) =
     Inr (map (case_prod alert_of) (enumerate 0 (alert_specs [0..<60])))"
  unfolding build_alerts_def sessions_enumerate by (subst alerts_eq) auto

text \<open>The decisions: each session adds its own four, and its state reads only those.\<close>

definition block_events_of :: "nat \<times> seed_row \<Rightarrow> seed_row list" where
  "block_events_of = (\<lambda>(i, r). map (block_event_row i r) (enumerate 0 (block_sequence i)))"

definition seed_commands_of :: "nat \<times> seed_row \<Rightarrow> seed_row list" where
  "seed_commands_of = (\<lambda>(i, r). map (engine_command_row i r) (enumerate 0 (block_sequence i)))"

definition control_state_of :: "nat \<times> seed_row \<Rightarrow> seed_row" where
  "control_state_of p = ip_control_state_row (fst p) (snd p) (block_events_of p)
     (last (block_events_of p)) (last (seed_commands_of p))"

lemma length_block_events_of [simp]: "length (block_events_of p) = 4" "length (seed_commands_of p) = 4"
  by (simp_all add: block_events_of_def seed_commands_of_def block_sequence_def case_prod_unfold)

lemma block_events_of_nonempty [simp]: "block_events_of p \<noteq> []" "seed_commands_of p \<noteq> []"
  using length_block_events_of [of p] by (auto simp flip: length_0_conv)

lemma control_state_append:
  "length xs = 4 \<Longrightarrow> ip_control_state_row i r (bs @ xs) e c = ip_control_state_row i r xs e c"
  by (simp add: ip_control_state_row_def nth_append)

lemma block_session_eq:
  "block_session p (bs, cs, st) = (bs @ block_events_of p, cs @ seed_commands_of p, st @ [control_state_of p])"
proof -
  have "block_session p (bs, cs, st) = (bs @ block_events_of p, cs @ seed_commands_of p, st @
      [ip_control_state_row (fst p) (snd p) (bs @ block_events_of p) (last (bs @ block_events_of p))
        (last (cs @ seed_commands_of p))])"
    by (simp only: block_session_def block_events_of_def seed_commands_of_def Let_def prod.case case_prod_unfold fst_conv snd_conv)
  then show ?thesis by (simp add: control_state_of_def control_state_append)
qed

lemma block_fold_eq:
  "fold block_session ps (bs, cs, st) =
     (bs @ concat (map block_events_of ps), cs @ concat (map seed_commands_of ps), st @ map control_state_of ps)"
  by (induction ps arbitrary: bs cs st) (simp_all add: block_session_eq)

lemma targeted_sessions_subset:
  "set (targeted_sessions seen acc rows) \<subseteq> set acc \<union> set rows"
proof (induction rows arbitrary: seen acc)
  case (Cons r rows)
  from Cons [of seen acc] Cons [of "str_fld r ''source_ip'' # seen" "acc @ [r]"] show ?case
    by (auto simp: Let_def)
qed simp

lemma targeted_sessions_distinct:
  "distinct (map (\<lambda>r. str_fld r ''source_ip'') acc) \<Longrightarrow> (\<lambda>r. str_fld r ''source_ip'') ` set acc \<subseteq> set seen \<Longrightarrow>
   distinct (map (\<lambda>r. str_fld r ''source_ip'') (targeted_sessions seen acc rows))"
proof (induction rows arbitrary: seen acc)
  case (Cons r rows)
  from Cons.IH [of acc seen] Cons.IH [of "acc @ [r]" "str_fld r ''source_ip'' # seen"] Cons.prems
  show ?case by (auto simp: Let_def)
qed simp

definition target_rows :: "seed_row list" where
  "target_rows = targeted_sessions [] [] build_network_sessions"

text \<open>The same loop over the indices, to count.\<close>

fun targeted_indices :: "nat list \<Rightarrow> nat list \<Rightarrow> nat list \<Rightarrow> nat list" where
  "targeted_indices seen acc [] = acc"
| "targeted_indices seen acc (i # is) =
     (if \<not> is_attack i \<or> i mod 12 \<in> set seen then targeted_indices seen acc is
      else if length acc = 11 then acc @ [i]
      else targeted_indices (i mod 12 # seen) (acc @ [i]) is)"

lemma malicious_ip: "malicious_ips ! (i mod length malicious_ips) = ''198.51.100.'' @ nat_str (50 + i mod 12)"
  by (simp add: malicious_ips_def)

lemma targeted_indices_eq:
  "targeted_sessions (map (\<lambda>k. ''198.51.100.'' @ nat_str (50 + k)) seen) (map network_session_row acc)
     (map network_session_row is) = map network_session_row (targeted_indices seen acc is)"
proof (induction "is" arbitrary: seen acc)
  case (Cons i "is")
  have "''198.51.100.'' @ nat_str (50 + k) \<in> set (map (\<lambda>k. ''198.51.100.'' @ nat_str (50 + k)) seen)
      \<longleftrightarrow> k \<in> set seen" for k by auto
  with Cons [of seen acc] Cons [of "i mod 12 # seen" "acc @ [i]"] attack_not_normal [of i] show ?case
    by (simp add: seed_rows malicious_ip Let_def del: append.simps)
qed simp

lemma target_rows_eq: "target_rows = map network_session_row [0, 1, 5, 6, 10, 11, 15, 16, 20, 21, 26, 31]"
proof -
  have "targeted_indices [] [] [0..<60] = [0, 1, 5, 6, 10, 11, 15, 16, 20, 21, 26, 31]"
    by (simp add: upt_conv_Cons is_attack_def)
  then show ?thesis
    using targeted_indices_eq [of "[]" "[]" "[0..<60]"] by (simp add: target_rows_def build_network_sessions_def)
qed

lemma blocks_eq:
  "build_block_events_and_state build_network_sessions =
     (concat (map block_events_of (enumerate 0 target_rows)), concat (map seed_commands_of (enumerate 0 target_rows)),
      map control_state_of (enumerate 0 target_rows))"
  by (simp add: build_block_events_and_state_def block_fold_eq target_rows_def)

subsection \<open>Secrets\<close>

lemma extend_digest_enough:
  assumes "\<And>x. sha256 x \<noteq> []"
  shows "n \<le> length digest + fuel \<Longrightarrow> \<exists>d. extend_digest sha256 n fuel digest = Some d \<and> n \<le> length d"
proof (induction fuel arbitrary: digest)
  case (Suc fuel)
  have "n \<le> length (digest @ sha256 digest) + fuel"
    using Suc.prems assms [of digest] by (cases "sha256 digest") auto
  from Suc.IH [OF this] show ?case by (cases "n \<le> length digest") auto
qed simp

lemma stable_secret_total:
  "(\<And>x. sha256 x \<noteq> []) \<Longrightarrow> \<exists>s. stable_secret sha256 label n = Some s \<and> length s = n"
  using extend_digest_enough [of sha256 n "sha256 label" n] by (auto simp: stable_secret_def)

lemma stable_secret_length: "stable_secret sha256 label n = Some s \<Longrightarrow> length s \<le> n"
  by (auto simp: stable_secret_def)

subsection \<open>The tables of the plan\<close>

lemma option_list_Some: "option_list xs = Some ys \<longleftrightarrow> xs = map Some ys"
proof (induction xs arbitrary: ys)
  case Nil
  then show ?case by (auto simp: option_list_def)
next
  case (Cons x xs)
  show ?case
  proof (cases ys)
    case Nil
    then show ?thesis by (auto simp: option_list_def)
  next
    case (Cons y ys')
    with Cons.IH [of ys'] show ?thesis by (cases x) (auto simp: option_list_def split: if_splits)
  qed
qed

lemma option_list_map_Some:
  assumes "option_list (map f xs) = Some ys" and "\<And>x y. f x = Some y \<Longrightarrow> g y = h x"
  shows "map g ys = map h xs"
proof -
  from assms(1) have "map f xs = map Some ys" by (simp add: option_list_Some)
  with assms(2) show ?thesis by (auto simp: list_eq_iff_nth_eq)
qed

lemma option_list_total: "(\<And>x. x \<in> set xs \<Longrightarrow> f x \<noteq> None) \<Longrightarrow> \<exists>ys. option_list (map f xs) = Some ys"
  by (fastforce simp: option_list_def)

lemma api_key_fields:
  "api_key_row sh v = Some row \<Longrightarrow> row_id row = fst (snd v) \<and> str_fld row ''user_id'' = fst (snd (snd v))"
  by (auto simp: api_key_row_def case_prod_unfold)

lemma engine_fields:
  "engine_row sh v = Some row \<Longrightarrow> row_id row = fst (snd v) \<and> str_fld row ''user_id'' = fst (snd (snd v))"
  by (auto simp: engine_row_def Let_def split: prod.splits option.splits)

lemma user_fields:
  "row_id (user_row sh v) = fst (snd v)"
  by (simp add: user_row_def case_prod_unfold Let_def)

lemma auth_session_fields:
  "row_id (auth_session_row sh v) = fst (snd v)"
  "str_fld (auth_session_row sh v) ''user_id'' = fst (snd (snd v))"
  by (simp_all add: auth_session_row_def case_prod_unfold Let_def)

lemma ip_location_fields:
  "ip_location_row v = Some row \<Longrightarrow> row_id row = ''seed_ip_location_'' @ zpad 2 (fst v) \<and>
     str_fld row ''user_id'' = fst (snd (snd v)) \<and> str_fld row ''session_id'' = fst (snd v)"
  by (auto simp: ip_location_row_def case_prod_unfold Let_def split: option.splits simp del: append.simps)

lemma oauth_fields:
  "row_id (oauth_row name age) = ''seed_oauth_account_'' @ name"
  "str_fld (oauth_row name age) ''user_id'' = ''seed_user_oauth_'' @ name"
  by (simp_all add: oauth_row_def del: append.simps)

lemma map_snd_enumerate: "map (\<lambda>v. f (snd v)) (enumerate n xs) = map f xs"
  by (induction xs arbitrary: n) auto

lemma sessions_nonempty [simp]: "build_network_sessions \<noteq> []"
  by (simp add: build_network_sessions_def)

lemma rollups_total: "\<exists>rows. option_list (map rollup_row [0..<24]) = Some rows"
  by (rule option_list_total) (simp add: rollup_row_def Let_def)

lemma plan_fields:
  assumes "build_seed_plan sh = Some p"
  shows "sp_users p = map (user_row sh) (enumerate 0 users_spec)"
    "sp_oauth_accounts p = [oauth_row ''alice'' 32, oauth_row ''bob'' 31]"
    "sp_auth_sessions p = map (auth_session_row sh) (enumerate 0 session_specs)"
    "sp_ip_locations p = List.map_filter ip_location_row (enumerate 0 session_specs)"
    "build_api_keys sh = Some (sp_api_keys p)" "build_engines sh = Some (sp_engines p)"
    "sp_network_sessions p = build_network_sessions"
    "sp_ids_events p = build_ids_events build_network_sessions"
    "sp_alerts p = map (case_prod alert_of) (enumerate 0 (alert_specs [0..<60]))"
    "sp_sql_injection_events p = map sql_event_row [0..<24]"
    "sp_engine_commands p = concat (map seed_commands_of (enumerate 0 target_rows))"
    "sp_block_events p = concat (map block_events_of (enumerate 0 target_rows))"
    "sp_ip_control_states p = map control_state_of (enumerate 0 target_rows)"
    "sp_engine_telemetry_snapshots p = map (telemetry_row build_network_sessions) [0..<36]"
    "option_list (map rollup_row [0..<24]) = Some (sp_network_threat_rollups p)"
proof -
  from assms obtain ks es where k: "build_api_keys sh = Some ks" "build_engines sh = Some es"
    by (simp add: build_seed_plan_def Let_def case_prod_unfold split: option.splits)
  obtain rs where "option_list (map rollup_row [0..<24]) = Some rs" using rollups_total ..
  with assms k show
    "sp_users p = map (user_row sh) (enumerate 0 users_spec)"
    "sp_oauth_accounts p = [oauth_row ''alice'' 32, oauth_row ''bob'' 31]"
    "sp_auth_sessions p = map (auth_session_row sh) (enumerate 0 session_specs)"
    "sp_ip_locations p = List.map_filter ip_location_row (enumerate 0 session_specs)"
    "build_api_keys sh = Some (sp_api_keys p)" "build_engines sh = Some (sp_engines p)"
    "sp_network_sessions p = build_network_sessions"
    "sp_ids_events p = build_ids_events build_network_sessions"
    "sp_alerts p = map (case_prod alert_of) (enumerate 0 (alert_specs [0..<60]))"
    "sp_sql_injection_events p = map sql_event_row [0..<24]"
    "sp_engine_commands p = concat (map seed_commands_of (enumerate 0 target_rows))"
    "sp_block_events p = concat (map block_events_of (enumerate 0 target_rows))"
    "sp_ip_control_states p = map control_state_of (enumerate 0 target_rows)"
    "sp_engine_telemetry_snapshots p = map (telemetry_row build_network_sessions) [0..<36]"
    "option_list (map rollup_row [0..<24]) = Some (sp_network_threat_rollups p)"
    by (auto simp: build_seed_plan_def Let_def build_users_def build_auth_sessions_def blocks_eq
        build_alerts_eq build_engine_telemetry_def build_sql_injection_events_def)
qed

lemma build_seed_plan_total:
  assumes "\<And>x. sh_sha256 sh x \<noteq> []"
  shows "\<exists>p. build_seed_plan sh = Some p"
proof -
  have secret: "\<exists>s. stable_secret (sh_sha256 sh) label n = Some s" for label n
    using stable_secret_total [of "sh_sha256 sh"] assms by blast
  have "api_key_row sh v \<noteq> None" for v
    using secret by (fastforce simp: api_key_row_def case_prod_unfold)
  then obtain ks where ks: "build_api_keys sh = Some ks"
    unfolding build_api_keys_def using option_list_total [of _ "api_key_row sh"] by blast
  have "engine_row sh v \<noteq> None" for v
    using secret [of "fst (snd v) @ ''-engine-secret''" 96] secret [of "fst (snd v) @ ''-previous-secret''" 96]
    by (auto simp: engine_row_def case_prod_unfold Let_def split: option.splits)
  then obtain es where "build_engines sh = Some es"
    unfolding build_engines_def using option_list_total [of _ "engine_row sh"] by blast
  with ks rollups_total show ?thesis
    by (auto simp: build_seed_plan_def build_users_def build_auth_sessions_def blocks_eq build_alerts_eq
        build_engine_telemetry_def Let_def)
qed

subsection \<open>Keys\<close>

lemma distinct_map_upt: "(\<And>i j. f i = f j \<Longrightarrow> i = j) \<Longrightarrow> distinct (map f [a..<b])"
  by (simp add: distinct_map inj_on_def)

lemma map_filter_total: "(\<And>x. x \<in> set xs \<Longrightarrow> f x = Some (g x)) \<Longrightarrow> List.map_filter f xs = map g xs"
  by (induction xs) (auto simp: List.map_filter_simps)

lemma key_ids: "build_api_keys sh = Some ks \<Longrightarrow> map row_id ks = map fst api_key_specs"
  using option_list_map_Some [of "api_key_row sh" "enumerate 0 api_key_specs" ks row_id "\<lambda>v. fst (snd v)"]
  by (auto simp: build_api_keys_def api_key_fields map_snd_enumerate [of fst])

lemma engine_ids: "build_engines sh = Some es \<Longrightarrow> map row_id es = map fst engine_specs"
  using option_list_map_Some [of "engine_row sh" "enumerate 0 engine_specs" es row_id "\<lambda>v. fst (snd v)"]
  by (auto simp: build_engines_def engine_fields map_snd_enumerate [of fst])

lemma spec_ids:
  "distinct (map fst users_spec) \<and> list_all (prefix ''seed_'') (map fst users_spec)"
  "distinct (map fst session_specs) \<and> list_all (prefix ''seed_'') (map fst session_specs)"
  "distinct (map fst api_key_specs) \<and> list_all (prefix ''seed_'') (map fst api_key_specs)"
  "distinct (map fst engine_specs) \<and> list_all (prefix ''seed_'') (map fst engine_specs)"
  by (simp_all add: users_spec_def session_specs_def api_key_specs_def engine_specs_def Let_def)

subsection \<open>Primary keys\<close>

definition seed_keys :: "seed_row list \<Rightarrow> bool" where
  "seed_keys rows = (distinct (map row_id rows) \<and> list_all (prefix ''seed_'') (map row_id rows))"

lemma map_map_filter:
  "(\<And>x y. f x = Some y \<Longrightarrow> g y = h x) \<Longrightarrow>
   map g (List.map_filter f xs) = map h (filter (\<lambda>x. f x \<noteq> None) xs)"
  by (induction xs) (auto simp: List.map_filter_simps split: option.splits)

lemma distinct_grid:
  assumes "\<And>a b a' b'. f a b = f a' b' \<Longrightarrow> a = a' \<and> b = b'" and "distinct ys"
  shows "distinct xs \<Longrightarrow> distinct (concat (map (\<lambda>a. map (f a) ys) xs))"
proof (induction xs)
  case (Cons x xs)
  have "distinct (map (f x) ys)" using assms by (auto simp: distinct_map inj_on_def)
  with Cons show ?case using assms(1) by fastforce
qed simp

lemma seed_keys_map:
  "(\<And>i j. f i = f j \<Longrightarrow> i = j) \<Longrightarrow> (\<And>i. row_id (g i) = f i) \<Longrightarrow> (\<And>i. prefix ''seed_'' (f i)) \<Longrightarrow>
   distinct xs \<Longrightarrow> seed_keys (map g xs)"
  by (auto simp: seed_keys_def comp_def distinct_map inj_on_def list_all_iff simp del: append.simps)

lemma seed_keys_grid:
  assumes "\<And>a b a' b'. f a b = f a' b' \<Longrightarrow> a = a' \<and> b = b'" and "distinct xs" and "distinct ys"
    and "\<And>a b. prefix ''seed_'' (f a b)" and "map row_id rows = concat (map (\<lambda>a. map (f a) ys) xs)"
  shows "seed_keys rows"
  using distinct_grid [of f ys xs] assms by (auto simp: seed_keys_def list_all_iff)

lemma seed_prefix [simp]: "prefix ''seed_'' (''seed_'' @ s)"
  by simp

lemma ids_concat_enumerate:
  assumes "\<And>q. map row_id (g q) = map (f (fst q)) ys"
  shows "map row_id (concat (map g (enumerate 0 T))) = concat (map (\<lambda>i. map (f i) ys) [0..<length T])"
proof -
  have "map row_id (concat (map g qs)) = concat (map (\<lambda>i. map (f i) ys) (map fst qs))" for qs
    using assms by (induction qs) simp_all
  from this [of "enumerate 0 T"] show ?thesis by (simp only: map_fst_enumerate add_0)
qed

lemma ids_map_enumerate:
  assumes "\<And>q. row_id (g q) = f (fst q)"
  shows "map row_id (map g (enumerate 0 T)) = map f [0..<length T]"
proof -
  have "map row_id (map g qs) = map f (map fst qs)" for qs using assms by simp
  from this [of "enumerate 0 T"] show ?thesis by (simp only: map_fst_enumerate add_0)
qed

lemma block_event_ids:
  "map row_id (concat (map block_events_of (enumerate 0 T))) =
     concat (map (\<lambda>i. map (\<lambda>s. ''seed_block_event_row_'' @ zpad 2 i @ ''_'' @ nat_str s) [0..<4]) [0..<length T])"
  by (rule ids_concat_enumerate)
    (simp add: block_events_of_def case_prod_unfold seed_rows block_sequence_def upt_rec del: append.simps)

lemma command_ids:
  "map row_id (concat (map seed_commands_of (enumerate 0 T))) =
     concat (map (\<lambda>i. map (\<lambda>s. ''seed_engine_command_row_'' @ zpad 2 i @ ''_'' @ nat_str s) [0..<4]) [0..<length T])"
  by (rule ids_concat_enumerate)
    (simp add: seed_commands_of_def case_prod_unfold seed_rows block_sequence_def upt_rec del: append.simps)

lemma event_ids:
  "map row_id (build_ids_events build_network_sessions) =
     concat (map (\<lambda>i. map (\<lambda>s. ''seed_ids_event_row_'' @ zpad 3 i @ ''_'' @ nat_str s) [0..<4]) [0..<60])"
  unfolding ids_events_eq map_concat map_map comp_def seed_rows ..

lemma location_revoked: "ip_location_row v \<noteq> None \<longleftrightarrow> fst (snd (snd (snd (snd (snd (snd v)))))) = None"
  by (simp add: ip_location_row_def case_prod_unfold Let_def split: option.splits)

lemma location_ids:
  "map row_id (List.map_filter ip_location_row (enumerate 0 session_specs)) =
     map (\<lambda>i. ''seed_ip_location_'' @ zpad 2 i) [0, 1, 2, 3, 4, 5, 6, 8, 9, 10, 11]"
proof -
  have "map row_id (List.map_filter ip_location_row vs) =
      map (\<lambda>v. ''seed_ip_location_'' @ zpad 2 (fst v)) (filter (\<lambda>v. ip_location_row v \<noteq> None) vs)" for vs
    by (rule map_map_filter) (use ip_location_fields in blast)
  moreover have "map (\<lambda>v. ''seed_ip_location_'' @ zpad 2 (fst v)) (filter (\<lambda>v. ip_location_row v \<noteq> None) vs) = map (\<lambda>i. ''seed_ip_location_'' @ zpad 2 i)
      (map fst (filter (\<lambda>v. fst (snd (snd (snd (snd (snd (snd v)))))) = None) vs))" for vs
    unfolding location_revoked by simp
  moreover have "map fst (filter (\<lambda>v. fst (snd (snd (snd (snd (snd (snd v)))))) = None) (enumerate 0 session_specs)) =
      [0, 1, 2, 3, 4, 5, 6, 8, 9, 10, 11]"
    by (simp add: session_specs_def)
  ultimately show ?thesis by (simp only:)
qed

lemma alert_ids:
  "map row_id (map (case_prod alert_of) (enumerate 0 xs)) = map (\<lambda>n. ''seed_alert_row_'' @ zpad 3 n) [0..<length xs]"
  by (rule ids_map_enumerate) (simp add: alert_of_def case_prod_unfold seed_rows del: append.simps)

lemma state_ids:
  "map row_id (map control_state_of (enumerate 0 T)) = map (\<lambda>i. ''seed_ip_control_state_'' @ zpad 2 i) [0..<length T]"
  by (rule ids_map_enumerate) (simp add: control_state_of_def seed_rows del: append.simps)

lemma sql_row_id: "row_id (sql_event_row i) = ''seed_sql_event_row_'' @ zpad 3 i"
  by (simp add: sql_event_row_def Let_def del: append.simps)

lemma telemetry_row_id: "row_id (telemetry_row ns i) = ''seed_engine_telemetry_'' @ zpad 3 i"
  by (simp add: telemetry_row_def Let_def del: append.simps)

lemma rollup_row_id: "rollup_row i = Some row \<Longrightarrow> row_id row = ''seed_network_threat_rollup_'' @ zpad 3 i"
  by (auto simp: rollup_row_def Let_def simp del: append.simps)

lemma seed_keys_ids: "map row_id rows = map f xs \<Longrightarrow> (\<And>i j. f i = f j \<Longrightarrow> i = j) \<Longrightarrow>
   (\<And>i. prefix ''seed_'' (f i)) \<Longrightarrow> distinct xs \<Longrightarrow> seed_keys rows"
  by (simp add: seed_keys_def distinct_map inj_on_def list_all_iff)

lemma plan_auth_keys:
  assumes "build_seed_plan sh = Some p"
  shows "list_all (\<lambda>(label, rows). seed_keys rows) (auth_tables p)"
proof -
  note f = plan_fields [OF assms]
  have "map row_id (sp_users p) = map fst users_spec" "map row_id (sp_auth_sessions p) = map fst session_specs"
    by (simp_all add: f comp_def user_fields auth_session_fields map_snd_enumerate [of fst])
  moreover have "seed_keys (sp_ip_locations p)"
    by (rule seed_keys_ids [OF location_ids [folded f(4)]]) simp_all
  moreover have "seed_keys (sp_oauth_accounts p)"
    by (simp add: f seed_keys_def oauth_fields)
  ultimately show ?thesis
    using spec_ids key_ids [OF f(5)] engine_ids [OF f(6)] by (simp add: auth_tables_def seed_keys_def)
qed

lemma plan_runtime_keys:
  assumes "build_seed_plan sh = Some p"
  shows "list_all (\<lambda>(label, rows). seed_keys rows) (runtime_tables p)"
proof -
  note f = plan_fields [OF assms]
  have "seed_keys (sp_network_sessions p)" unfolding f build_network_sessions_def
    by (rule seed_keys_map [where f = "\<lambda>i. ''seed_network_session_'' @ zpad 3 i"])
      (simp_all add: seed_rows del: upt_rec_numeral)
  moreover have "seed_keys (sp_ids_events p)" unfolding f
    by (rule seed_keys_grid [OF _ _ _ _ event_ids]) auto
  moreover have "seed_keys (sp_alerts p)" unfolding f
    by (rule seed_keys_ids [OF alert_ids]) (simp_all del: upt_rec_numeral)
  moreover have "seed_keys (sp_sql_injection_events p)" unfolding f
    by (rule seed_keys_map [where f = "\<lambda>i. ''seed_sql_event_row_'' @ zpad 3 i"])
      (simp_all add: sql_row_id del: upt_rec_numeral)
  moreover have "seed_keys (sp_engine_commands p)" unfolding f
    by (rule seed_keys_grid [OF _ _ _ _ command_ids]) auto
  moreover have "seed_keys (sp_block_events p)" unfolding f
    by (rule seed_keys_grid [OF _ _ _ _ block_event_ids]) auto
  moreover have "seed_keys (sp_ip_control_states p)" unfolding f
    by (rule seed_keys_ids [OF state_ids]) (simp_all del: upt_rec_numeral)
  moreover have "seed_keys (sp_engine_telemetry_snapshots p)" unfolding f
    by (rule seed_keys_map [where f = "\<lambda>i. ''seed_engine_telemetry_'' @ zpad 3 i"])
      (simp_all add: telemetry_row_id del: upt_rec_numeral)
  moreover have "seed_keys (sp_network_threat_rollups p)"
    by (rule seed_keys_ids [OF option_list_map_Some [OF f(15), of row_id, OF rollup_row_id]])
      (simp_all del: upt_rec_numeral)
  ultimately show ?thesis by (simp add: runtime_tables_def)
qed

subsection \<open>Claims about the plan\<close>

lemma engine_secret_length:
  assumes "\<And>x. sh_sha256 sh x \<noteq> []" and "build_engines sh = Some es" and "row \<in> set es"
  shows "length (str_fld row ''secret'') = 96"
proof -
  from assms(2) have "map (engine_row sh) (enumerate 0 engine_specs) = map Some es"
    by (simp add: build_engines_def option_list_Some)
  then have "Some row \<in> engine_row sh ` set (enumerate 0 engine_specs)"
    using assms(3) by (metis imageI list.set_map)
  then obtain v where v: "engine_row sh v = Some row" by auto
  obtain s where s: "stable_secret (sh_sha256 sh) (fst (snd v) @ ''-engine-secret'') 96 = Some s" "length s = 96"
    using stable_secret_total [of "sh_sha256 sh"] assms(1) by blast
  with v show ?thesis by (auto simp: engine_row_def case_prod_unfold Let_def split: option.splits)
qed

lemma length_sessions: "length build_network_sessions = 60"
  by (simp add: build_network_sessions_def)

lemma length_ids_events: "length (build_ids_events build_network_sessions) = 240"
  by (simp add: ids_events_eq length_concat comp_def sum_list_triv)

lemma plan_counts:
  assumes "build_seed_plan sh = Some p"
  shows "map (\<lambda>(label, rows). length rows) (auth_tables p @ runtime_tables p) =
    [10, 2, 12, 11, 10, 4, 60, 240, 48, 24, 48, 48, 12, 36, 24]"
proof -
  note f = plan_fields [OF assms]
  have "length (sp_ip_locations p) = 11" using arg_cong [OF location_ids, of length] by (simp add: f(4))
  moreover have "length (sp_api_keys p) = 10"
    using arg_cong [OF key_ids [OF f(5)], of length] by (simp add: api_key_specs_def)
  moreover have "length (sp_engines p) = 4"
    using arg_cong [OF engine_ids [OF f(6)], of length] by (simp add: engine_specs_def)
  moreover have "length (sp_network_threat_rollups p) = 24"
    using f(15) unfolding option_list_Some by (metis diff_zero length_map length_upt)
  moreover have "length (alert_specs [0..<60]) = 48"
    by (simp add: alert_specs_def upt_conv_Cons is_attack_def alert_variants_def)
  ultimately show ?thesis
    by (simp add: auth_tables_def runtime_tables_def f(1-3) f(7-14) users_spec_def session_specs_def Let_def
        length_sessions length_ids_events length_concat comp_def target_rows_eq)
qed

text \<open>
  C37: The demonstration data can always be built, whatever the hash functions return, as long as a
  SHA-256 digest has its 64 hexadecimal digits: the loop that stretches a digest ends, no alert
  looks up an event that does not exist, and neither the rates nor the choice of sessions divide by
  zero. The fifteen tables have the
  listed numbers of rows; in every table the rows have primary keys of their own that begin with
  \<open>seed_\<close>, so that writing them twice updates them and a reset finds them; an engine's secret has
  96 characters.
\<close>

theorem seed_plan_built:
  assumes "\<forall>x. length (sh_sha256 sh x) = 64"
  shows "\<exists>p. build_seed_plan sh = Some p \<and>
    map (\<lambda>(label, rows). length rows) (auth_tables p @ runtime_tables p) =
      [10, 2, 12, 11, 10, 4, 60, 240, 48, 24, 48, 48, 12, 36, 24] \<and>
    list_all (\<lambda>(label, rows). seed_keys rows) (auth_tables p @ runtime_tables p) \<and>
    (\<forall>row \<in> set (sp_engines p). length (str_fld row ''secret'') = 96)"
proof -
  have ne: "sh_sha256 sh x \<noteq> []" for x using assms by (metis list.size(3) zero_neq_numeral)
  then obtain p where p: "build_seed_plan sh = Some p" using build_seed_plan_total by blast
  have "list_all (\<lambda>(label, rows). seed_keys rows) (auth_tables p @ runtime_tables p)"
    using plan_auth_keys [OF p] plan_runtime_keys [OF p] by simp
  then show ?thesis
    using p plan_counts [OF p] engine_secret_length [OF ne plan_fields(6) [OF p]] by (intro exI [of _ p] conjI ballI)
qed

definition plain_hashes :: seed_hashes where
  "plain_hashes = \<lparr>sh_sha256 = \<lambda>_. replicate 64 (CHR ''0''), sh_password = id, sh_session_token = id,
     sh_api_secret = id\<rparr>"

theorem seed_plan_built_witness:
  "\<exists>p. build_seed_plan plain_hashes = Some p \<and> length (sp_users p) = 10 \<and> length (sp_alerts p) = 48"
  using seed_plan_built [of plain_hashes] by (auto simp: plain_hashes_def auth_tables_def runtime_tables_def)

definition fields_of :: "string \<Rightarrow> seed_row list \<Rightarrow> sfield list" where
  "fields_of k rows = map (\<lambda>r. fld r k) rows"

definition links :: "string \<Rightarrow> seed_row list \<Rightarrow> string \<Rightarrow> seed_row list \<Rightarrow> bool" where
  "links k rows k' targets = list_all (\<lambda>r. fld r k \<in> set (fields_of k' targets)) rows"

lemma links_iff: "links k rows k' targets \<longleftrightarrow> (\<forall>r \<in> set rows. \<exists>t \<in> set targets. fld r k = fld t k')"
  by (auto simp: links_def fields_of_def list_all_iff image_iff)

lemma target_rows_sessions: "set target_rows \<subseteq> set build_network_sessions"
  using targeted_sessions_subset [of "[]" "[]" build_network_sessions] by (simp add: target_rows_def)

lemma in_enumerate: "(i, r) \<in> set (enumerate 0 xs) \<Longrightarrow> r \<in> set xs"
  by (auto simp: in_set_enumerate_eq)

lemma in_alerts:
  assumes "r \<in> set (map (case_prod alert_of) (enumerate 0 (alert_specs [0..<60])))"
  obtains n i v s where "i < 60" "s < 4" "r = alert_row n i (network_session_row i) (event_row i (network_session_row i) s) v"
proof -
  from assms obtain n i v where m: "(n, i, v) \<in> set (enumerate 0 (alert_specs [0..<60]))" "r = alert_of n (i, v)"
    by auto
  from in_enumerate [OF m(1)] have "i < 60" by (auto simp: alert_specs_def)
  then show ?thesis
    using that [of i "if fst v = ''watch'' then 1 else 3" n v] m(2) by (simp add: alert_of_def)
qed

lemma event_links:
  assumes "build_seed_plan sh = Some p"
  shows "links ''session_id'' (sp_ids_events p) ''session_id'' (sp_network_sessions p)"
    and "links ''session_id'' (sp_alerts p) ''session_id'' (sp_network_sessions p)"
    and "links ''event_id'' (sp_alerts p) ''event_id'' (sp_ids_events p)"
proof -
  note f = plan_fields [OF assms]
  have session: "network_session_row i \<in> set (sp_network_sessions p)" if "i < 60" for i
    using that by (simp add: f build_network_sessions_def)
  have event: "event_row i (network_session_row i) s \<in> set (sp_ids_events p)" if "i < 60" "s < 4" for i s
    using that by (auto simp: f in_ids_events)
  show "links ''session_id'' (sp_ids_events p) ''session_id'' (sp_network_sessions p)"
    unfolding links_iff f(8) using session by (auto simp only: in_ids_events event_fields) blast
  show "links ''session_id'' (sp_alerts p) ''session_id'' (sp_network_sessions p)"
    unfolding links_iff f(9) using session by (auto simp only: alert_fields intro: bexI elim!: in_alerts)
  show "links ''event_id'' (sp_alerts p) ''event_id'' (sp_ids_events p)"
    unfolding links_iff f(9) using event by (auto simp only: alert_fields intro: bexI elim!: in_alerts)
qed

lemma links_last:
  assumes "\<And>q. g q \<noteq> []" and "\<And>q. fld (h q) k = fld (last (g q)) k'"
  shows "links k (map h qs) k' (concat (map g qs))"
proof -
  have "last (g q) \<in> set (concat (map g qs))" if "q \<in> set qs" for q
    using that last_in_set [OF assms(1) [of q]] by auto
  then show ?thesis unfolding links_iff using assms(2) by fastforce
qed

lemma block_links:
  assumes "build_seed_plan sh = Some p"
  shows "links ''session_id'' (sp_block_events p) ''session_id'' (sp_network_sessions p)"
    and "links ''last_session_id'' (sp_ip_control_states p) ''session_id'' (sp_network_sessions p)"
    and "links ''last_block_event_id'' (sp_ip_control_states p) ''event_id'' (sp_block_events p)"
    and "links ''last_command_id'' (sp_ip_control_states p) ''command_id'' (sp_engine_commands p)"
proof -
  note f = plan_fields [OF assms]
  have target: "snd q \<in> set (sp_network_sessions p)" if "q \<in> set (enumerate 0 target_rows)" for q
    using in_enumerate [of "fst q" "snd q" target_rows] that target_rows_sessions by (auto simp: f)
  have "fld r ''session_id'' = fld (snd q) ''session_id''" if "r \<in> set (block_events_of q)" for r q
    using that by (auto simp: block_events_of_def case_prod_unfold block_event_fields)
  then show "links ''session_id'' (sp_block_events p) ''session_id'' (sp_network_sessions p)"
    using target by (fastforce simp: links_iff f(12))
  show "links ''last_session_id'' (sp_ip_control_states p) ''session_id'' (sp_network_sessions p)"
    using target by (auto simp: links_iff f(13) control_state_of_def control_state_fields)
  show "links ''last_block_event_id'' (sp_ip_control_states p) ''event_id'' (sp_block_events p)"
    unfolding f(12, 13) by (rule links_last) (simp_all add: control_state_of_def control_state_fields)
  show "links ''last_command_id'' (sp_ip_control_states p) ''command_id'' (sp_engine_commands p)"
    unfolding f(11, 13) by (rule links_last) (simp_all add: control_state_of_def control_state_fields)
qed

lemma links_subset: "links k rows k' targets \<longleftrightarrow> set (fields_of k rows) \<subseteq> set (fields_of k' targets)"
  by (auto simp: links_def fields_of_def list_all_iff)

lemma linksI:
  "fields_of k rows = map SStr xs \<Longrightarrow> fields_of k' targets = map SStr ys \<Longrightarrow> set xs \<subseteq> set ys \<Longrightarrow>
   links k rows k' targets"
  by (simp only: links_subset list.set_map image_mono)

lemma owned_rows:
  "fld (user_row sh v) ''id'' = SStr (fst (snd v))"
  "fld (auth_session_row sh u) ''id'' = SStr (fst (snd u))"
  "fld (auth_session_row sh u) ''user_id'' = SStr (fst (snd (snd u)))"
  "fld (oauth_row name age) ''user_id'' = SStr (''seed_user_oauth_'' @ name)"
  by (simp_all add: user_row_def auth_session_row_def oauth_row_def case_prod_unfold Let_def)

lemma owned_api_key: "api_key_row sh w = Some row \<Longrightarrow> fld row ''user_id'' = SStr (fst (snd (snd w)))"
  by (auto simp: api_key_row_def case_prod_unfold)

lemma owned_engine: "engine_row sh x = Some row \<Longrightarrow> fld row ''user_id'' = SStr (fst (snd (snd x)))"
  by (auto simp: engine_row_def Let_def split: prod.splits option.splits)

lemma owned_location:
  "ip_location_row y = Some row \<Longrightarrow>
     fld row ''user_id'' = SStr (fst (snd (snd y))) \<and> fld row ''session_id'' = SStr (fst (snd y))"
  by (auto simp: ip_location_row_def case_prod_unfold Let_def split: option.splits simp del: append.simps)

lemma owned_tables:
  assumes "build_seed_plan sh = Some p"
  shows "fields_of ''id'' (sp_users p) = map SStr (map fst users_spec)"
    and "fields_of ''id'' (sp_auth_sessions p) = map SStr (map fst session_specs)"
    and "fields_of ''user_id'' (sp_auth_sessions p) = map SStr (map (fst \<circ> snd) session_specs)"
    and "fields_of ''user_id'' (sp_api_keys p) = map SStr (map (fst \<circ> snd) api_key_specs)"
    and "fields_of ''user_id'' (sp_engines p) = map SStr (map (fst \<circ> snd) engine_specs)"
proof -
  note f = plan_fields [OF assms]
  show "fields_of ''id'' (sp_users p) = map SStr (map fst users_spec)"
    and "fields_of ''id'' (sp_auth_sessions p) = map SStr (map fst session_specs)"
    and "fields_of ''user_id'' (sp_auth_sessions p) = map SStr (map (fst \<circ> snd) session_specs)"
    by (simp_all add: fields_of_def f(1-3) owned_rows comp_def map_snd_enumerate [of "\<lambda>v. SStr (fst v)"]
        map_snd_enumerate [of "\<lambda>v. SStr (fst (snd v))"])
  show "fields_of ''user_id'' (sp_api_keys p) = map SStr (map (fst \<circ> snd) api_key_specs)"
    using option_list_map_Some [OF f(5) [unfolded build_api_keys_def], of "\<lambda>r. fld r ''user_id''"] owned_api_key
    by (simp add: fields_of_def comp_def map_snd_enumerate [of "\<lambda>v. SStr (fst (snd v))"])
  show "fields_of ''user_id'' (sp_engines p) = map SStr (map (fst \<circ> snd) engine_specs)"
    using option_list_map_Some [OF f(6) [unfolded build_engines_def], of "\<lambda>r. fld r ''user_id''"] owned_engine
    by (simp add: fields_of_def comp_def map_snd_enumerate [of "\<lambda>v. SStr (fst (snd v))"])
qed

lemma spec_users:
  "set (map (fst \<circ> snd) session_specs) \<subseteq> set (map fst users_spec)"
  "set (map (fst \<circ> snd) api_key_specs) \<subseteq> set (map fst users_spec)"
  "set (map (fst \<circ> snd) engine_specs) \<subseteq> set (map fst users_spec)"
  "set [''seed_user_oauth_alice'', ''seed_user_oauth_bob''] \<subseteq> set (map fst users_spec)"
  by (simp_all add: users_spec_def session_specs_def api_key_specs_def engine_specs_def Let_def)

lemma location_links:
  assumes "build_seed_plan sh = Some p"
  shows "links ''session_id'' (sp_ip_locations p) ''id'' (sp_auth_sessions p)"
    and "links ''user_id'' (sp_ip_locations p) ''id'' (sp_users p)"
proof -
  note f = plan_fields [OF assms]
  have row: "\<exists>y \<in> set session_specs. fld r ''session_id'' = SStr (fst y) \<and> fld r ''user_id'' = SStr (fst (snd y))"
    if "r \<in> set (sp_ip_locations p)" for r
  proof -
    from that obtain q where q: "q \<in> set (enumerate 0 session_specs)" "ip_location_row q = Some r"
      unfolding f(4) by (auto simp: List.map_filter_def)
    then show ?thesis
      using owned_location [OF q(2)] in_enumerate [of "fst q" "snd q" session_specs] by auto
  qed
  show "links ''session_id'' (sp_ip_locations p) ''id'' (sp_auth_sessions p)"
    unfolding links_def list_all_iff owned_tables(2) [OF assms] using row by fastforce
  show "links ''user_id'' (sp_ip_locations p) ''id'' (sp_users p)"
    unfolding links_def list_all_iff owned_tables(1) [OF assms]
  proof
    fix r assume "r \<in> set (sp_ip_locations p)"
    from row [OF this] obtain y where y: "y \<in> set session_specs" "fld r ''user_id'' = SStr ((fst \<circ> snd) y)"
      unfolding comp_def by blast
    from y(1) have "(fst \<circ> snd) y \<in> set (map fst users_spec)"
      by (intro subsetD [OF spec_users(1)]) (simp only: list.set_map imageI)
    then show "fld r ''user_id'' \<in> set (map SStr (map fst users_spec))"
      unfolding y(2) by (simp only: list.set_map imageI)
  qed
qed

lemma user_links:
  assumes "build_seed_plan sh = Some p"
  shows "list_all (\<lambda>rows. links ''user_id'' rows ''id'' (sp_users p))
    [sp_oauth_accounts p, sp_auth_sessions p, sp_ip_locations p, sp_api_keys p, sp_engines p]"
proof -
  note o = owned_tables [OF assms]
  have "fields_of ''user_id'' (sp_oauth_accounts p) = map SStr [''seed_user_oauth_alice'', ''seed_user_oauth_bob'']"
    by (simp add: fields_of_def plan_fields(2) [OF assms] owned_rows)
  then show ?thesis
    by (simp only: list.pred_inject simp_thms linksI [OF _ o(1) spec_users(4)] linksI [OF o(3) o(1) spec_users(1)]
        linksI [OF o(4) o(1) spec_users(2)] linksI [OF o(5) o(1) spec_users(3)] location_links(2) [OF assms])
qed

lemma target_addresses: "distinct (map (\<lambda>r. fld r ''source_ip'') target_rows)"
proof -
  have src: "fld r ''source_ip'' = SStr (str_fld r ''source_ip'')" if "r \<in> set build_network_sessions" for r
    using that by (auto simp: build_network_sessions_def network_session_fields simp del: upt_rec_numeral append.simps)
  have "map (\<lambda>r. fld r ''source_ip'') target_rows = map (\<lambda>r. SStr (str_fld r ''source_ip'')) target_rows"
    using src target_rows_sessions by (intro map_cong) auto
  also have "\<dots> = map SStr (map (\<lambda>r. str_fld r ''source_ip'') target_rows)" by simp
  finally show ?thesis
    using targeted_sessions_distinct [of "[]" "[]" build_network_sessions]
    by (simp add: target_rows_def distinct_map inj_on_def)
qed

lemma states_distinct:
  assumes "build_seed_plan sh = Some p"
  shows "distinct (fields_of ''ip_address'' (sp_ip_control_states p))"
proof -
  have "fields_of ''ip_address'' (map control_state_of (enumerate 0 T)) = map (\<lambda>r. fld r ''source_ip'') T" for T
    by (simp add: fields_of_def control_state_of_def control_state_fields comp_def
        map_snd_enumerate [of "\<lambda>r. fld r ''source_ip''"])
  then show ?thesis using target_addresses by (simp add: plan_fields [OF assms])
qed

text \<open>The rows of an address, from the rows of all of them.\<close>

lemma filter_own:
  assumes "distinct (map key qs)" and "q \<in> set qs" and "\<And>q e. e \<in> set (g q) \<Longrightarrow> k e = key q"
  shows "filter (\<lambda>e. k e = key q) (concat (map g qs)) = g q"
proof -
  have none: "filter (\<lambda>e. k e = x) (concat (map g qs)) = []" if "x \<notin> key ` set qs" for x qs
    using assms(3) that by (auto simp: filter_empty_conv)
  from assms(1,2) show ?thesis
  proof (induction qs)
    case (Cons q' qs)
    have own: "filter (\<lambda>e. k e = key q') (g q') = g q'" using assms(3) by (simp add: filter_id_conv)
    show ?case
    proof (cases "q = q'")
      case True
      with Cons.prems(1) own none [of "key q'" qs] show ?thesis by simp
    next
      case False
      with Cons.prems have "q \<in> set qs" by simp
      moreover from this Cons.prems(1) have "key q \<noteq> key q'" by (metis distinct.simps(2) image_eqI list.set_map list.simps(9))
      ultimately have "key q \<noteq> key q'" "q \<in> set qs" by auto
      with Cons assms(3) have "filter (\<lambda>e. k e = key q) (g q') = []" by (auto simp: filter_empty_conv)
      with Cons \<open>q \<in> set qs\<close> show ?thesis by simp
    qed
  qed simp
qed

text \<open>The state of an address is the outcome of the last of its decisions and of its commands.\<close>

definition decisions_of :: "seed_row list \<Rightarrow> sfield \<Rightarrow> seed_row list" where
  "decisions_of block_events ip = filter (\<lambda>e. fld e ''source_ip'' = ip) block_events"

definition state_current :: "seed_plan \<Rightarrow> seed_row \<Rightarrow> bool" where
  "state_current p st \<longleftrightarrow>
     (let es = decisions_of (sp_block_events p) (fld st ''ip_address'');
          cs = filter (\<lambda>c. fld c ''ip_address'' = fld st ''ip_address'') (sp_engine_commands p);
          e = last es; action = str_fld e ''action_taken''
      in es \<noteq> [] \<and> cs \<noteq> [] \<and> list_all (\<lambda>e'. time_fld e' ''ts'' \<le> time_fld e ''ts'') es \<and>
        fld st ''last_block_event_id'' = fld e ''event_id'' \<and> fld st ''last_changed_at'' = fld e ''ts'' \<and>
        fld st ''reason'' = fld e ''reason'' \<and> fld st ''last_session_id'' = fld e ''session_id'' \<and>
        str_fld st ''current_status'' = (if action = ''block'' then ''blocked''
          else if action = ''watchlist'' then ''watchlisted'' else ''unblocked'') \<and>
        fld st ''last_command_id'' = fld (last cs) ''command_id'')"

lemma enumerate_addresses: "distinct (map (\<lambda>q. fld (snd q) ''source_ip'') (enumerate 0 target_rows))"
  using target_addresses by (simp add: map_snd_enumerate [of "\<lambda>r. fld r ''source_ip''"])

lemma states_current:
  assumes "build_seed_plan sh = Some p"
  shows "list_all (state_current p) (sp_ip_control_states p)"
  unfolding list_all_iff
proof
  fix st assume "st \<in> set (sp_ip_control_states p)"
  then obtain q where q: "q \<in> set (enumerate 0 target_rows)" and st: "st = control_state_of q"
    by (auto simp: plan_fields(13) [OF assms])
  have ip: "fld st ''ip_address'' = fld (snd q) ''source_ip''" by (simp add: st control_state_of_def control_state_fields)
  have es: "decisions_of (sp_block_events p) (fld st ''ip_address'') = block_events_of q"
    unfolding decisions_of_def plan_fields(12) [OF assms] ip
    by (rule filter_own [OF enumerate_addresses q])
      (auto simp: block_events_of_def case_prod_unfold block_event_fields)
  have cs: "filter (\<lambda>c. fld c ''ip_address'' = fld st ''ip_address'') (sp_engine_commands p) = seed_commands_of q"
    unfolding plan_fields(11) [OF assms] ip
    by (rule filter_own [OF enumerate_addresses q])
      (auto simp: seed_commands_of_def case_prod_unfold engine_command_fields)
  have ts: "list_all (\<lambda>e'. time_fld e' ''ts'' \<le> time_fld (last (block_events_of q)) ''ts'') (block_events_of q)"
    by (simp add: block_events_of_def block_sequence_def case_prod_unfold block_event_fields block_event_ts_def minutes_def)
  have e: "fld (last (block_events_of q)) ''ts'' = STime (time_fld (last (block_events_of q)) ''ts'')"
    "fld (last (block_events_of q)) ''session_id'' = fld (snd q) ''session_id''"
    by (simp_all add: block_events_of_def block_sequence_def case_prod_unfold block_event_fields)
  show "state_current p st"
    unfolding state_current_def es cs Let_def
    using ts e by (simp add: st control_state_of_def control_state_fields)
qed

lemma state_of_last_decision:
  "str_fld (control_state_of q) ''current_status'' =
     (let a = str_fld (last (block_events_of q)) ''action_taken'' in
      if a = ''block'' then ''blocked'' else if a = ''watchlist'' then ''watchlisted'' else ''unblocked'')"
  by (simp add: control_state_of_def control_state_fields Let_def)

text \<open>\<open>first_blocked_at\<close> is the time of the session's first event, a watchlisting; its first block is
  seventeen minutes later.\<close>

theorem first_blocked_is_watchlist:
  "fld (control_state_of q) ''first_blocked_at'' = STime (block_event_ts (snd q) 0) \<and>
   str_fld (block_events_of q ! 0) ''action_taken'' = ''watchlist'' \<and>
   str_fld (block_events_of q ! 1) ''action_taken'' = ''block'' \<and>
   time_fld (block_events_of q ! 1) ''ts'' = block_event_ts (snd q) 0 + 17 * 60"
  by (simp add: control_state_of_def control_state_fields block_events_of_def block_sequence_def
      case_prod_unfold block_event_fields block_event_ts_def minutes_def)

text \<open>
  C38: The seeded tables refer to one another as the application expects, though most of the references
  are plain strings that no database constraint checks: every event, alert and block event names
  the session it belongs to by the key of a seeded session, every alert an event that was
  seeded, every user-owned row a seeded user, every location its login session. The state of a
  blocked address is that of the last of its decisions, which is also the latest one: it names that
  decision and the last command for the address, and has the decision's status, reason, session and
  time; and there is one state per address.
\<close>

theorem seed_links:
  assumes "build_seed_plan sh = Some p"
  shows "list_all (\<lambda>rows. links ''session_id'' rows ''session_id'' (sp_network_sessions p))
      [sp_ids_events p, sp_alerts p, sp_block_events p] \<and>
    links ''event_id'' (sp_alerts p) ''event_id'' (sp_ids_events p) \<and>
    list_all (\<lambda>rows. links ''user_id'' rows ''id'' (sp_users p))
      [sp_oauth_accounts p, sp_auth_sessions p, sp_ip_locations p, sp_api_keys p, sp_engines p] \<and>
    links ''session_id'' (sp_ip_locations p) ''id'' (sp_auth_sessions p) \<and>
    links ''last_session_id'' (sp_ip_control_states p) ''session_id'' (sp_network_sessions p) \<and>
    links ''last_block_event_id'' (sp_ip_control_states p) ''event_id'' (sp_block_events p) \<and>
    links ''last_command_id'' (sp_ip_control_states p) ''command_id'' (sp_engine_commands p) \<and>
    list_all (state_current p) (sp_ip_control_states p) \<and>
    distinct (fields_of ''ip_address'' (sp_ip_control_states p))"
  using user_links [OF assms] location_links [OF assms] event_links [OF assms] block_links [OF assms]
    states_distinct [OF assms] states_current [OF assms]
  by (simp only: list.pred_inject simp_thms)

theorem seed_links_witness:
  "\<exists>p. build_seed_plan plain_hashes = Some p \<and> links ''event_id'' (sp_alerts p) ''event_id'' (sp_ids_events p) \<and>
     list_all (state_current p) (sp_ip_control_states p)"
proof -
  obtain p where "build_seed_plan plain_hashes = Some p"
    using build_seed_plan_total [of plain_hashes] by (auto simp: plain_hashes_def)
  with seed_links [OF this] show ?thesis by blast
qed

end
