(* ===== verification/SeedRunner.thy ===== *)
theory SeedRunner
  imports SeedFacts Service
begin

text \<open>
  Writing the demonstration data (\<open>scripts/seed/runner.py\<close>, \<open>bootstrap.py\<close>, \<open>__main__.py\<close>). The
  database, its models and the services of the backend are not part of this repository: they are a
  record of the operations the runner calls, and \<open>backend_ok\<close> states of it what SQL documents.
  A transaction that raises leaves the database as it was.
\<close>

subsection \<open>The environment\<close>

definition add_path :: "string \<Rightarrow> string list \<Rightarrow> string list" where
  "add_path path sys_path = (if path \<in> set sys_path then sys_path else path # sys_path)"

text \<open>An empty name is refused by \<open>os.environ\<close>.\<close>

definition bootstrap_line :: "string \<Rightarrow> environ \<Rightarrow> string + environ" where
  "bootstrap_line raw_line env =
     (let line = strip raw_line in
      if line = [] \<or> take 1 line = ''#'' \<or> CHR ''='' \<notin> set line then Inr env
      else case split_at (CHR ''='') line of (k, v) \<Rightarrow>
        if env (strip k) \<noteq> None then Inr env
        else if strip k = [] then Inl ''OSError'' else Inr (env(strip k \<mapsto> strip v)))"

text \<open>\<open>dotenv\<close> is \<open>load_dotenv\<close> of the \<open>python-dotenv\<close> package, where it is installed.\<close>

definition bootstrap_environment ::
    "(string option \<Rightarrow> environ \<Rightarrow> environ) option \<Rightarrow> string \<Rightarrow> string \<Rightarrow> string option \<Rightarrow>
     string list \<times> environ \<Rightarrow> string + string list \<times> environ" where
  "bootstrap_environment dotenv repo_root backend_root env_file = (\<lambda>(sys_path, env).
     let sys_path = add_path backend_root (add_path repo_root sys_path) in
     case dotenv of
       Some load_dotenv \<Rightarrow> Inr (sys_path, load_dotenv env_file env)
     | None \<Rightarrow> (case env_file of
         None \<Rightarrow> Inr (sys_path, env)
       | Some text \<Rightarrow> bindE (foldE bootstrap_line (splitlines text) env) (\<lambda>env. Inr (sys_path, env))))"

subsection \<open>The report\<close>

record entity_counts =
  ec_created :: int
  ec_reused :: int
  ec_deleted :: int
  ec_skipped :: int

definition no_counts :: entity_counts where
  "no_counts = \<lparr>ec_created = 0, ec_reused = 0, ec_deleted = 0, ec_skipped = 0\<rparr>"

record seed_report =
  sr_entities :: "(string, entity_counts) pydict"
  sr_demo_credentials :: "demo_credential list"
  sr_excluded_tables :: "(string \<times> string) list"
  sr_assumptions :: "string list"
  sr_validation_notes :: "string list"

definition entity :: "string \<Rightarrow> seed_report \<Rightarrow> entity_counts" where
  "entity name rpt = (case map_of (sr_entities rpt) name of None \<Rightarrow> no_counts | Some c \<Rightarrow> c)"

definition update_entity :: "string \<Rightarrow> (entity_counts \<Rightarrow> entity_counts) \<Rightarrow> seed_report \<Rightarrow> seed_report" where
  "update_entity name f rpt =
     rpt\<lparr>sr_entities := AList.update name (f (entity name rpt)) (sr_entities rpt)\<rparr>"

definition add_note :: "string \<Rightarrow> seed_report \<Rightarrow> seed_report" where
  "add_note note rpt = rpt\<lparr>sr_validation_notes := sr_validation_notes rpt @ [note]\<rparr>"

definition new_report :: "seed_plan \<Rightarrow> seed_report" where
  "new_report plan =
     \<lparr>sr_entities = [], sr_demo_credentials = sp_demo_credentials plan,
      sr_excluded_tables = sp_excluded_tables plan,
      sr_assumptions =
        [''Backend auth model has no role/RBAC column; demo accounts differ by ownership and account state only.'',
         ''Notifications excluded because current migration chain does not create `notifications`, and model FK targets nonexistent `threats` table.'',
         ''Seed rows use explicit `seed_*` primary keys so reruns never assume numeric PK sequences.''],
      sr_validation_notes = []\<rparr>"

subsection \<open>The database and the backend\<close>

datatype seed_error = RuntimeError string | BackendError string

text \<open>A \<open>LIKE\<close> pattern without escapes.\<close>

fun sql_like :: "string \<Rightarrow> string \<Rightarrow> bool" where
  "sql_like [] s = (s = [])"
| "sql_like (p # ps) [] = (p = CHR ''%'' \<and> sql_like ps [])"
| "sql_like (p # ps) (c # cs) =
     (if p = CHR ''%'' then sql_like ps (c # cs) \<or> sql_like (p # ps) cs
      else (p = CHR ''_'' \<or> p = c) \<and> sql_like ps cs)"

text \<open>A model class is named by the label the runner gives it. An upsert fails with the text of the
  \<open>IntegrityError\<close>; \<open>be_session_refs\<close> are the columns \<open>id\<close> and \<open>session_id\<close> of a table.\<close>

record 'db backend =
  be_table_names :: "'db \<Rightarrow> string list"
  be_columns :: "string \<Rightarrow> string list"
  be_existing :: "'db \<Rightarrow> string \<Rightarrow> string list \<Rightarrow> string list"
  be_upsert :: "'db \<Rightarrow> string \<Rightarrow> seed_row list \<Rightarrow> string list \<Rightarrow> string + 'db"
  be_delete_like :: "'db \<Rightarrow> string \<Rightarrow> string \<Rightarrow> nat \<times> 'db"
  be_summary :: "'db \<Rightarrow> nat \<times> nat \<times> nat"
  be_threats :: "'db \<Rightarrow> (string \<times> string) list \<times> nat"
  be_sessions :: "'db \<Rightarrow> string list \<times> nat"
  be_session_refs :: "'db \<Rightarrow> string \<Rightarrow> (string \<times> string option) list"
  be_login :: "'db \<Rightarrow> string \<Rightarrow> string \<Rightarrow> seed_error + string \<times> string \<times> string"

definition bulk_upsert :: "'db backend \<Rightarrow> string \<times> seed_row list \<Rightarrow> 'db \<times> seed_report \<Rightarrow>
    seed_error + 'db \<times> seed_report" where
  "bulk_upsert be = (\<lambda>(label, rows) (db, rpt).
     if rows = [] then Inr (db, rpt)
     else let existing_ids = remdups (be_existing be db label (map row_id rows));
              update_columns = filter (\<lambda>name. name \<notin> {''id'', ''created_at''}) (be_columns be label)
       in case be_upsert be db label rows update_columns of
            Inl orig \<Rightarrow> Inl (RuntimeError (''Seed conflict while writing `'' @ label @
              ''`. Existing non-seed rows likely collide with seed-owned unique fields. Resolve conflicting records first. Original error: ''
              @ orig))
          | Inr db \<Rightarrow> Inr (db, update_entity label (\<lambda>c. c\<lparr>
              ec_created := ec_created c + (int (length rows) - int (length existing_ids)),
              ec_reused := ec_reused c + int (length existing_ids)\<rparr>) rpt))"

text \<open>\<open>async with session.begin()\<close>: the writes are kept when the block ends, dropped when it raises.\<close>

definition transaction :: "('db \<times> seed_report \<Rightarrow> seed_error + 'db \<times> seed_report) \<Rightarrow> seed_report \<Rightarrow> 'db \<Rightarrow>
    (seed_error + seed_report) \<times> 'db" where
  "transaction body rpt db =
     (case body (db, rpt) of Inl e \<Rightarrow> (Inl e, db) | Inr (db', rpt') \<Rightarrow> (Inr rpt', db'))"

definition seed_users_auth :: "'db backend \<Rightarrow> seed_plan \<Rightarrow> seed_report \<Rightarrow> 'db \<Rightarrow> (seed_error + seed_report) \<times> 'db" where
  "seed_users_auth be plan = transaction (foldE (bulk_upsert be) (auth_tables plan))"

definition seed_runtime_tables :: "'db backend \<Rightarrow> seed_plan \<Rightarrow> seed_report \<Rightarrow> 'db \<Rightarrow> (seed_error + seed_report) \<times> 'db" where
  "seed_runtime_tables be plan = transaction (foldE (bulk_upsert be) (runtime_tables plan))"

definition reset_labels :: "string list" where
  "reset_labels = [''network_threat_rollups'', ''engine_telemetry_snapshots'', ''ip_control_states'',
     ''block_events'', ''engine_commands'', ''sql_injection_events'', ''alerts'', ''ids_events'',
     ''network_sessions'', ''users'']"

definition reset_table :: "'db backend \<Rightarrow> string \<Rightarrow> 'db \<times> seed_report \<Rightarrow> seed_error + 'db \<times> seed_report" where
  "reset_table be label = (\<lambda>(db, rpt). case be_delete_like be db label ''seed_%'' of (rowcount, db) \<Rightarrow>
     Inr (db, update_entity label (\<lambda>c. c\<lparr>ec_deleted := ec_deleted c + int rowcount\<rparr>) rpt))"

definition reset_seed_rows :: "'db backend \<Rightarrow> seed_report \<Rightarrow> 'db \<Rightarrow> (seed_error + seed_report) \<times> 'db" where
  "reset_seed_rows be = transaction (foldE (reset_table be) reset_labels)"

subsection \<open>Validation\<close>

definition validate_auth_login :: "'db backend \<Rightarrow> 'db \<Rightarrow> seed_report \<Rightarrow> seed_error + seed_report" where
  "validate_auth_login be db rpt =
     bindE (be_login be db ''analyst@smartids-demo.dev'' ''AnalystPass!123'') (\<lambda>(email, user_id, raw_token).
       if email \<noteq> ''analyst@smartids-demo.dev'' \<or> raw_token = [] then Inl (RuntimeError ''Demo auth validation failed.'')
       else Inr (add_note (''Demo auth OK: analyst login created transient session for user_id='' @ user_id) rpt))"

definition validate_summary :: "'db backend \<Rightarrow> 'db \<Rightarrow> seed_report \<Rightarrow> seed_error + seed_report" where
  "validate_summary be db rpt =
     (case be_summary be db of (total_threats, total_sessions, blocked) \<Rightarrow>
        if total_threats < 1 \<or> total_sessions < 1
        then Inl (RuntimeError ''Dashboard summary validation failed: expected non-empty alerts and sessions.'')
        else Inr (add_note (''Dashboard summary OK: total_threats='' @ nat_str total_threats @ '' total_sessions='' @
          nat_str total_sessions @ '' blocked_ips='' @ nat_str blocked) rpt))"

text \<open>A threat is its \<open>threat_id\<close>, empty when it has none, and its \<open>id\<close>.\<close>

definition validate_threats :: "'db backend \<Rightarrow> 'db \<Rightarrow> seed_report \<Rightarrow> seed_error + seed_report" where
  "validate_threats be db rpt =
     (case be_threats be db of (threats, threat_total) \<Rightarrow> (case threats of
        [] \<Rightarrow> Inl (RuntimeError ''Threat service validation failed: expected threat rows.'')
      | (threat_id, row_key) # _ \<Rightarrow>
          if threat_total < 1 then Inl (RuntimeError ''Threat service validation failed: expected threat rows.'')
          else Inr (add_note (''Threat listing OK: first threat='' @ (if threat_id \<noteq> [] then threat_id else row_key) @
            '' total='' @ nat_str threat_total) rpt)))"

definition validate_sessions :: "'db backend \<Rightarrow> 'db \<Rightarrow> seed_report \<Rightarrow> seed_error + seed_report" where
  "validate_sessions be db rpt =
     (case be_sessions be db of (sessions, session_total) \<Rightarrow> (case sessions of
        [] \<Rightarrow> Inl (RuntimeError ''Session service validation failed: expected session rows.'')
      | first # _ \<Rightarrow>
          if session_total < 1 then Inl (RuntimeError ''Session service validation failed: expected session rows.'')
          else Inr (add_note (''Session listing OK: first session='' @ first @ '' total='' @ nat_str session_total)
            rpt)))"

text \<open>
  The seeded rows of a table whose session is not among the seeded sessions. As SQL has it, \<open>NOT IN\<close>
  is never true of a list with a \<open>NULL\<close>.
\<close>

definition missing_sessions :: "'db backend \<Rightarrow> 'db \<Rightarrow> string \<Rightarrow> nat" where
  "missing_sessions be db label =
     (let seeded = map snd (filter (\<lambda>(id, _). sql_like ''seed_%'' id) (be_session_refs be db ''network_sessions''))
      in if None \<in> set seeded then 0
         else length (filter (\<lambda>(id, session). sql_like ''seed_%'' id \<and> session \<noteq> None \<and> session \<notin> set seeded)
           (be_session_refs be db label)))"

definition validate_links :: "'db backend \<Rightarrow> 'db \<Rightarrow> seed_report \<Rightarrow> seed_error + seed_report" where
  "validate_links be db rpt =
     (if \<exists>label \<in> set [''ids_events'', ''alerts'', ''block_events'']. missing_sessions be db label \<noteq> 0
      then Inl (RuntimeError ''String-linked relationship validation failed for seeded session references.'')
      else Inr (add_note ''Session-link validation OK: seeded IDS events, alerts, and block events all reference seeded network sessions.'' rpt))"

definition validate_seed_data :: "'db backend \<Rightarrow> 'db \<Rightarrow> seed_report \<Rightarrow> seed_error + seed_report" where
  "validate_seed_data be db rpt =
     bindE (validate_summary be db rpt) (\<lambda>rpt.
     bindE (validate_threats be db rpt) (\<lambda>rpt.
     bindE (validate_sessions be db rpt) (\<lambda>rpt.
     bindE (validate_links be db rpt) (\<lambda>rpt.
     validate_auth_login be db rpt))))"

subsection \<open>A run\<close>

definition then_seed :: "(seed_error + seed_report) \<times> 'db \<Rightarrow>
    (seed_report \<Rightarrow> 'db \<Rightarrow> (seed_error + seed_report) \<times> 'db) \<Rightarrow> (seed_error + seed_report) \<times> 'db" where
  "then_seed r f = (case r of (Inl e, db) \<Rightarrow> (Inl e, db) | (Inr rpt, db) \<Rightarrow> f rpt db)"

definition run_seed :: "'db backend \<Rightarrow> seed_plan \<Rightarrow> bool \<Rightarrow> bool \<Rightarrow> 'db \<Rightarrow> (seed_error + seed_report) \<times> 'db" where
  "run_seed be plan reset validate db =
     (if ''users'' \<notin> set (be_table_names be db)
      then (Inl (RuntimeError ''Required backend tables missing. Run `cd backend && python script.py migrate upgrade` first.''), db)
      else
        then_seed (if reset then reset_seed_rows be (new_report plan) db else (Inr (new_report plan), db)) (\<lambda>rpt db.
        then_seed (seed_users_auth be plan rpt db) (\<lambda>rpt db.
        then_seed (seed_runtime_tables be plan rpt db) (\<lambda>rpt db.
          (if validate then validate_seed_data be db rpt else Inr rpt, db)))))"

text \<open>What \<open>python -m scripts.seed\<close> prints of the report.\<close>

definition report_lines :: "seed_report \<Rightarrow> string list" where
  "report_lines rpt =
     ['''', ''Seed summary:''] @
     map (\<lambda>(name, c). ''  '' @ name @ '': created='' @ int_str (ec_created c) @ '' reused='' @ int_str (ec_reused c) @
       '' deleted='' @ int_str (ec_deleted c) @ '' skipped='' @ int_str (ec_skipped c)) (sr_entities rpt) @
     ['''', ''Demo accounts:''] @
     map (\<lambda>c. ''  '' @ dc_email c @ '' | password='' @
       (case dc_password c of None \<Rightarrow> ''<oauth-only>'' | Some p \<Rightarrow> if p = [] then ''<oauth-only>'' else p) @ '' | '' @ dc_notes c)
       (sr_demo_credentials rpt) @
     ['''', ''Excluded tables:''] @ map (\<lambda>(table_name, reason). ''  '' @ table_name @ '': '' @ reason) (sr_excluded_tables rpt) @
     ['''', ''Assumptions:''] @ map (\<lambda>item. ''  - '' @ item) (sr_assumptions rpt) @
     (if sr_validation_notes rpt = [] then []
      else ['''', ''Validation:''] @ map (\<lambda>item. ''  - '' @ item) (sr_validation_notes rpt))"

subsection \<open>What SQL promises\<close>

text \<open>
  \<open>keys db t\<close> are the primary keys of the rows of \<open>t\<close>. A query by key finds the keys that are there;
  an upsert adds the keys of its rows to its table and leaves the others; a delete removes at
  least the rows whose key matches (and, through cascades, perhaps rows of other tables).
\<close>

definition backend_ok :: "'db backend \<Rightarrow> ('db \<Rightarrow> string \<Rightarrow> string set) \<Rightarrow> bool" where
  "backend_ok be keys \<longleftrightarrow>
     (\<forall>db t ids. set (be_existing be db t ids) = set ids \<inter> keys db t) \<and>
     (\<forall>db t rows cols db'. be_upsert be db t rows cols = Inr db' \<longrightarrow>
        (\<forall>u. keys db' u = (if u = t then keys db t \<union> set (map row_id rows) else keys db u))) \<and>
     (\<forall>db t pattern. keys (snd (be_delete_like be db t pattern)) t \<inter> {k. sql_like pattern k} = {}) \<and>
     (\<forall>db t u pattern. keys (snd (be_delete_like be db t pattern)) u \<subseteq> keys db u)"

lemma backend_okD:
  assumes "backend_ok be keys"
  shows store_existing: "set (be_existing be db t ids) = set ids \<inter> keys db t"
    and store_upsert: "be_upsert be db t rows cols = Inr db' \<Longrightarrow>
      keys db' u = (if u = t then keys db t \<union> set (map row_id rows) else keys db u)"
    and store_delete: "k \<in> keys (snd (be_delete_like be db t pattern)) t \<Longrightarrow> \<not> sql_like pattern k"
    and store_delete_subset: "keys (snd (be_delete_like be db t pattern)) u \<subseteq> keys db u"
  using assms unfolding backend_ok_def by blast+

lemma like_all: "sql_like ''%'' s"
  by (induction s) simp_all

lemma like_seed: "prefix ''seed_'' k \<Longrightarrow> sql_like ''seed_%'' k"
  using like_all by (auto simp: prefix_def)

text \<open>The underscore of the pattern matches any character, so a reset takes more than \<open>seed_\<close> keys.\<close>

theorem like_seed_underscore: "sql_like ''seed_%'' ''seedling'' \<and> \<not> prefix ''seed_'' ''seedling''"
  by simp

subsection \<open>The environment is only completed\<close>

lemma bootstrap_line_keeps: "bootstrap_line l env = Inr env' \<Longrightarrow> env k = Some v \<Longrightarrow> env' k = Some v"
  by (auto simp: bootstrap_line_def Let_def split: if_splits prod.splits)

theorem bootstrap_keeps_environment:
  assumes "bootstrap_environment None repo backend_root env_file (sys_path, env) = Inr (sys_path', env')"
    and "env k = Some v"
  shows "env' k = Some v \<and> set sys_path' = insert repo (insert backend_root (set sys_path))"
proof -
  have "foldE bootstrap_line ls env = Inr env' \<Longrightarrow> env' k = Some v" for ls
    using assms(2) by (induction ls arbitrary: env) (auto simp: bindE_Inr_iff dest: bootstrap_line_keeps)
  with assms show ?thesis
    by (auto simp: bootstrap_environment_def add_path_def Let_def bindE_Inr_iff split: option.splits if_splits)
qed

subsection \<open>Counting\<close>

lemma entity_update [simp]:
  "entity t (update_entity u f r) = (if t = u then f (entity u r) else entity t r)"
  by (simp add: entity_def update_entity_def)

lemma bulk_upsert_step:
  assumes ok: "backend_ok be keys" and ids: "distinct (map row_id rows)"
    and run: "bulk_upsert be (label, rows) (db, r) = Inr (db', r')"
  shows "keys db' u = (if u = label then keys db label \<union> set (map row_id rows) else keys db u)"
    and "entity u r' = (if u = label then (entity label r)\<lparr>
        ec_created := ec_created (entity label r) + int (card (set (map row_id rows) - keys db label)),
        ec_reused := ec_reused (entity label r) + int (card (set (map row_id rows) \<inter> keys db label))\<rparr>
      else entity u r)"
proof -
  let ?ids = "set (map row_id rows)" and ?e = "remdups (be_existing be db label (map row_id rows))"
  have e: "int (length ?e) = int (card (?ids \<inter> keys db label))"
    by (simp only: length_remdups_card_conv store_existing [OF ok])
  have "card ?ids = length rows" using distinct_card [OF ids] by simp
  moreover have "card ?ids = card (?ids - keys db label) + card (?ids \<inter> keys db label)"
    using card_Int_Diff [of ?ids "keys db label"] by simp
  ultimately have c: "int (length rows) - int (card (?ids \<inter> keys db label)) = int (card (?ids - keys db label))"
    by simp
  show "keys db' u = (if u = label then keys db label \<union> set (map row_id rows) else keys db u)"
    using run store_upsert [OF ok]
    by (auto simp: bulk_upsert_def Let_def split: if_splits sum.splits)
  show "entity u r' = (if u = label then (entity label r)\<lparr>
        ec_created := ec_created (entity label r) + int (card (set (map row_id rows) - keys db label)),
        ec_reused := ec_reused (entity label r) + int (card (set (map row_id rows) \<inter> keys db label))\<rparr>
      else entity u r)"
  proof (cases "rows = []")
    case True
    with run show ?thesis by (simp add: bulk_upsert_def)
  next
    case False
    with run have "r' = update_entity label (\<lambda>c. c\<lparr>
        ec_created := ec_created c + (int (length rows) - int (length ?e)),
        ec_reused := ec_reused c + int (length ?e)\<rparr>) r"
      by (auto simp: bulk_upsert_def Let_def split: sum.splits simp del: length_remdups_card_conv)
    then show ?thesis by (simp only: entity_update c e)
  qed
qed

definition counts_of :: "string set \<Rightarrow> string set \<Rightarrow> entity_counts \<Rightarrow> entity_counts" where
  "counts_of ids known c = c\<lparr>ec_created := ec_created c + int (card (ids - known)),
     ec_reused := ec_reused c + int (card (ids \<inter> known))\<rparr>"

abbreviation ids_of :: "seed_row list \<Rightarrow> string set" where
  "ids_of rows \<equiv> set (map row_id rows)"

lemma tables_step:
  assumes ok: "backend_ok be keys"
  shows "foldE (bulk_upsert be) tables (db, r) = Inr (db', r') \<Longrightarrow> distinct (map fst tables) \<Longrightarrow>
    list_all (\<lambda>(t, rows). distinct (map row_id rows)) tables \<Longrightarrow>
    (\<forall>(t, rows) \<in> set tables. keys db' t = keys db t \<union> ids_of rows \<and>
       entity t r' = counts_of (ids_of rows) (keys db t) (entity t r)) \<and>
    (\<forall>t. t \<notin> fst ` set tables \<longrightarrow> keys db' t = keys db t \<and> entity t r' = entity t r)"
proof (induction tables arbitrary: db r)
  case Nil
  then show ?case by simp
next
  case (Cons table tables)
  obtain t rows where t: "table = (t, rows)" by (cases table)
  from Cons.prems(1) obtain db1 r1 where s: "bulk_upsert be (t, rows) (db, r) = Inr (db1, r1)"
      "foldE (bulk_upsert be) tables (db1, r1) = Inr (db', r')"
    by (auto simp: t bindE_Inr_iff)
  have u: "t \<notin> fst ` set tables" "distinct (map row_id rows)" "distinct (map fst tables)"
      "list_all (\<lambda>(t, rows). distinct (map row_id rows)) tables"
    using Cons.prems(2,3) by (auto simp: t)
  note step = bulk_upsert_step [OF ok u(2) s(1)]
  note rest = Cons.IH [OF s(2) u(3,4)]
  have other: "keys db1 t' = keys db t' \<and> entity t' r1 = entity t' r" if "t' \<noteq> t" for t'
    using that step by simp
  have this_one: "keys db' t = keys db t \<union> ids_of rows \<and> entity t r' = counts_of (ids_of rows) (keys db t) (entity t r)"
    using rest u(1) step by (simp add: counts_of_def)
  have later: "keys db' t' = keys db t' \<union> ids_of rows' \<and>
      entity t' r' = counts_of (ids_of rows') (keys db t') (entity t' r)" if "(t', rows') \<in> set tables" for t' rows'
  proof -
    from that u(1) have "t' \<noteq> t" by force
    from rest that have "keys db' t' = keys db1 t' \<union> ids_of rows' \<and>
        entity t' r' = counts_of (ids_of rows') (keys db1 t') (entity t' r1)" by blast
    with other [OF \<open>t' \<noteq> t\<close>] show ?thesis by simp
  qed
  show ?case
  proof (intro conjI ballI allI impI)
    fix x assume "x \<in> set (table # tables)"
    then show "case x of (t, rows) \<Rightarrow> keys db' t = keys db t \<union> ids_of rows \<and>
        entity t r' = counts_of (ids_of rows) (keys db t) (entity t r)"
      using this_one later by (cases x) (auto simp only: t list.set insert_iff prod.case prod.inject)
  next
    fix t' assume "t' \<notin> fst ` set (table # tables)"
    then have n: "t' \<noteq> t" "t' \<notin> fst ` set tables" by (auto simp: t)
    with rest other [OF n(1)] show "keys db' t' = keys db t'" "entity t' r' = entity t' r" by simp_all
  qed
qed

definition all_tables :: "seed_plan \<Rightarrow> (string \<times> seed_row list) list" where
  "all_tables plan = auth_tables plan @ runtime_tables plan"

lemma transaction_Inr: "transaction body r db = (Inr r', db') \<longleftrightarrow> body (db, r) = Inr (db', r')"
  by (auto simp: transaction_def split: sum.splits)

lemma then_seed_Inr: "then_seed m f = (Inr r, db') \<longleftrightarrow> (\<exists>r1 db1. m = (Inr r1, db1) \<and> f r1 db1 = (Inr r, db'))"
  by (auto simp: then_seed_def split: prod.splits sum.splits)

lemma add_note_entities [simp]: "sr_entities (add_note note r) = sr_entities r"
  by (simp add: add_note_def)

lemma validate_part_entities:
  "validate_summary be db r = Inr r' \<Longrightarrow> sr_entities r' = sr_entities r"
  "validate_threats be db r = Inr r' \<Longrightarrow> sr_entities r' = sr_entities r"
  "validate_sessions be db r = Inr r' \<Longrightarrow> sr_entities r' = sr_entities r"
  "validate_links be db r = Inr r' \<Longrightarrow> sr_entities r' = sr_entities r"
  "validate_auth_login be db r = Inr r' \<Longrightarrow> sr_entities r' = sr_entities r"
  by (auto simp: validate_summary_def validate_threats_def validate_sessions_def validate_links_def
      validate_auth_login_def bindE_Inr_iff split: prod.splits list.splits if_splits)

lemma validate_entities: "validate_seed_data be db r = Inr r' \<Longrightarrow> sr_entities r' = sr_entities r"
  by (auto simp: validate_seed_data_def bindE_Inr_iff dest!: validate_part_entities)

lemma run_seedE:
  assumes "run_seed be plan reset validate db = (Inr r, db')"
  obtains r0 db0 r1 where
    "(if reset then reset_seed_rows be (new_report plan) db else (Inr (new_report plan), db)) = (Inr r0, db0)"
    "foldE (bulk_upsert be) (all_tables plan) (db0, r0) = Inr (db', r1)" "sr_entities r = sr_entities r1"
proof -
  from assms obtain r0 db0 ra dba rb where m:
    "(if reset then reset_seed_rows be (new_report plan) db else (Inr (new_report plan), db)) = (Inr r0, db0)"
    "foldE (bulk_upsert be) (auth_tables plan) (db0, r0) = Inr (dba, ra)"
    "foldE (bulk_upsert be) (runtime_tables plan) (dba, ra) = Inr (db', rb)"
    "(if validate then validate_seed_data be db' rb else Inr rb) = Inr r"
    by (auto simp: run_seed_def then_seed_Inr seed_users_auth_def seed_runtime_tables_def transaction_Inr
        split: if_splits)
  from m(4) have "sr_entities r = sr_entities rb" by (auto simp: validate_entities split: if_splits)
  with m that show ?thesis by (simp add: all_tables_def)
qed

lemma entity_cong: "sr_entities r = sr_entities r' \<Longrightarrow> entity t r = entity t r'"
  by (simp add: entity_def)

lemma new_report_entity [simp]: "entity t (new_report plan) = no_counts"
  by (simp add: entity_def new_report_def)

lemma plan_labels: "distinct (map fst (all_tables plan))"
  by (simp add: all_tables_def auth_tables_def runtime_tables_def)

lemma plan_keys:
  assumes "build_seed_plan sh = Some plan"
  shows "list_all (\<lambda>(t, rows). seed_keys rows) (all_tables plan)"
  using plan_auth_keys [OF assms] plan_runtime_keys [OF assms] by (simp add: all_tables_def)

lemma reset_table_eq:
  "reset_table be label (db, r) = Inr (snd (be_delete_like be db label ''seed_%''),
     update_entity label (\<lambda>c. c\<lparr>ec_deleted := ec_deleted c + int (fst (be_delete_like be db label ''seed_%''))\<rparr>) r)"
  by (simp add: reset_table_def case_prod_unfold)

lemma reset_step:
  assumes "backend_ok be keys"
  shows "foldE (reset_table be) labels (db, r) = Inr (db', r') \<Longrightarrow>
    (\<forall>t. keys db' t \<subseteq> keys db t) \<and> (\<forall>t \<in> set labels. \<forall>k \<in> keys db' t. \<not> sql_like ''seed_%'' k) \<and>
    (\<forall>t. ec_created (entity t r') = ec_created (entity t r) \<and> ec_reused (entity t r') = ec_reused (entity t r))"
proof (induction labels arbitrary: db r)
  case (Cons label labels)
  let ?d = "be_delete_like be db label ''seed_%''"
  from Cons.prems have "foldE (reset_table be) labels (snd ?d,
      update_entity label (\<lambda>c. c\<lparr>ec_deleted := ec_deleted c + int (fst ?d)\<rparr>) r) = Inr (db', r')"
    by (simp only: foldE.simps reset_table_eq bindE_simps)
  from Cons.IH [OF this] have ih: "\<forall>t. keys db' t \<subseteq> keys (snd ?d) t"
      "\<forall>t \<in> set labels. \<forall>k \<in> keys db' t. \<not> sql_like ''seed_%'' k"
      "\<forall>t. ec_created (entity t r') = ec_created (entity t r) \<and> ec_reused (entity t r') = ec_reused (entity t r)"
    by (simp_all split: if_splits)
  have "keys db' t \<subseteq> keys db t" for t using ih(1) store_delete_subset [OF assms] by blast
  moreover have "\<forall>k \<in> keys db' label. \<not> sql_like ''seed_%'' k" using ih(1) store_delete [OF assms] by blast
  ultimately show ?case using ih(2,3) by simp
qed simp

lemma run_counts:
  assumes "backend_ok be keys" and "build_seed_plan sh = Some plan"
    and "run_seed be plan reset validate db = (Inr r, db')"
  obtains r0 db0 where
    "(if reset then reset_seed_rows be (new_report plan) db else (Inr (new_report plan), db)) = (Inr r0, db0)"
    "\<And>t rows. (t, rows) \<in> set (all_tables plan) \<Longrightarrow>
       entity t r = counts_of (ids_of rows) (keys db0 t) (entity t r0) \<and> keys db' t = keys db0 t \<union> ids_of rows"
proof -
  from plan_keys [OF assms(2)] have distinct: "list_all (\<lambda>(t, rows). distinct (map row_id rows)) (all_tables plan)"
    by (auto simp: list_all_iff seed_keys_def)
  obtain r0 db0 r1 where m:
      "(if reset then reset_seed_rows be (new_report plan) db else (Inr (new_report plan), db)) = (Inr r0, db0)"
      "foldE (bulk_upsert be) (all_tables plan) (db0, r0) = Inr (db', r1)" "sr_entities r = sr_entities r1"
    using assms(3) by (rule run_seedE)
  show ?thesis
    using m(1) tables_step [OF assms(1) m(2) plan_labels distinct] entity_cong [OF m(3)]
    by (intro that [of r0 db0]) auto
qed

lemma table_rows:
  assumes "build_seed_plan sh = Some plan" and "(t, rows) \<in> set (all_tables plan)"
  shows "card (ids_of rows) = length rows" and "\<And>k. k \<in> ids_of rows \<Longrightarrow> sql_like ''seed_%'' k"
  using assms(2) plan_keys [OF assms(1)] distinct_card [of "map row_id rows"]
  by (auto simp: list_all_iff seed_keys_def like_seed)

text \<open>
  C39: A seeding run counts what it does. Without a reset, a table's \<open>created\<close> counter is the number of its rows
  whose key was not in the table, \<open>reused\<close> the number of those that were, and afterwards the table
  holds both its old keys and those of the plan. So a second run creates nothing and reuses every row. After a
  reset every row of the tables that the reset clears is created anew.
\<close>

theorem seeding_counts:
  assumes "backend_ok be keys" and "build_seed_plan sh = Some plan"
    and "run_seed be plan False validate db = (Inr r, db')"
    and "run_seed be plan reset validate' db' = (Inr r2, db2)"
  shows "\<forall>(t, rows) \<in> set (all_tables plan).
    entity t r = counts_of (ids_of rows) (keys db t) no_counts \<and> keys db' t = keys db t \<union> ids_of rows \<and>
    (\<not> reset \<longrightarrow> entity t r2 = no_counts\<lparr>ec_reused := int (length rows)\<rparr>) \<and>
    (reset \<and> t \<in> set reset_labels \<longrightarrow> ec_created (entity t r2) = int (length rows) \<and> ec_reused (entity t r2) = 0)"
proof (intro ballI, clarify)
  fix t rows assume m: "(t, rows) \<in> set (all_tables plan)"
  obtain r0 db0 where "(if False then reset_seed_rows be (new_report plan) db else (Inr (new_report plan), db)) = (Inr r0, db0)"
    and "\<And>t rows. (t, rows) \<in> set (all_tables plan) \<Longrightarrow>
      entity t r = counts_of (ids_of rows) (keys db0 t) (entity t r0) \<and> keys db' t = keys db0 t \<union> ids_of rows"
    using run_counts [OF assms(1,2,3)] by blast
  then have first: "entity t r = counts_of (ids_of rows) (keys db t) no_counts" "keys db' t = keys db t \<union> ids_of rows"
    using m by auto
  obtain r1 db1 where again:
      "(if reset then reset_seed_rows be (new_report plan) db' else (Inr (new_report plan), db')) = (Inr r1, db1)"
      and "\<And>t rows. (t, rows) \<in> set (all_tables plan) \<Longrightarrow>
        entity t r2 = counts_of (ids_of rows) (keys db1 t) (entity t r1) \<and> keys db2 t = keys db1 t \<union> ids_of rows"
    using run_counts [OF assms(1,2,4)] by blast
  then have second: "entity t r2 = counts_of (ids_of rows) (keys db1 t) (entity t r1)" using m by blast
  note rows = table_rows [OF assms(2) m]
  have "entity t r2 = no_counts\<lparr>ec_reused := int (length rows)\<rparr>" if "\<not> reset"
  proof -
    have "ids_of rows - keys db' t = {}" "ids_of rows \<inter> keys db' t = ids_of rows" using first(2) by auto
    moreover have "entity t r2 = counts_of (ids_of rows) (keys db' t) no_counts" using again(1) second that by auto
    ultimately show ?thesis by (simp only: counts_of_def rows(1) card.empty) (simp add: no_counts_def)
  qed
  moreover have "ec_created (entity t r2) = int (length rows) \<and> ec_reused (entity t r2) = 0"
    if "reset" "t \<in> set reset_labels"
  proof -
    have res: "foldE (reset_table be) reset_labels (db', new_report plan) = Inr (db1, r1)"
      using again that(1) by (simp add: reset_seed_rows_def transaction_Inr)
    have "ids_of rows \<inter> keys db1 t = {}" "ids_of rows - keys db1 t = ids_of rows"
      using reset_step [OF assms(1) res] that(2) rows(2) by blast+
    then show ?thesis
      using second reset_step [OF assms(1) res] rows(1) by (simp add: counts_of_def no_counts_def del: list.set_map)
  qed
  ultimately show "entity t r = counts_of (ids_of rows) (keys db t) no_counts \<and> keys db' t = keys db t \<union> ids_of rows \<and>
    (\<not> reset \<longrightarrow> entity t r2 = no_counts\<lparr>ec_reused := int (length rows)\<rparr>) \<and>
    (reset \<and> t \<in> set reset_labels \<longrightarrow> ec_created (entity t r2) = int (length rows) \<and> ec_reused (entity t r2) = 0)"
    using first by blast
qed

text \<open>When the tables hold the rows of a plan, the check of the session links passes.\<close>

lemma missing_none:
  assumes "be_session_refs be db ''network_sessions'' = map (\<lambda>r. (row_id r, Some (str_fld r ''session_id''))) sessions"
    and "be_session_refs be db label = map (\<lambda>r. (row_id r, Some (str_fld r ''session_id''))) rows"
    and "links ''session_id'' rows ''session_id'' sessions" and "seed_keys sessions"
  shows "missing_sessions be db label = 0"
proof -
  let ?seeded = "map snd (filter (\<lambda>(id, _). sql_like ''seed_%'' id) (be_session_refs be db ''network_sessions''))"
  have "sql_like ''seed_%'' (row_id s)" if "s \<in> set sessions" for s
    using that assms(4) by (auto simp: seed_keys_def list_all_iff intro: like_seed)
  then have seeded: "?seeded = map (\<lambda>r. Some (str_fld r ''session_id'')) sessions"
    unfolding assms(1) by (induction sessions) simp_all
  have "Some (str_fld r ''session_id'') \<in> set ?seeded" if r: "r \<in> set rows" for r
  proof -
    from assms(3) r obtain s where "s \<in> set sessions" "fld r ''session_id'' = fld s ''session_id''"
      unfolding links_iff by blast
    then show ?thesis unfolding seeded str_fld_def by simp
  qed
  then show ?thesis
    unfolding missing_sessions_def Let_def assms(2) by (simp add: filter_empty_conv)
qed

theorem plan_links_valid:
  assumes "build_seed_plan sh = Some plan"
    and "\<And>label rows. (label, rows) \<in> set (runtime_tables plan) \<Longrightarrow>
      label \<in> {''network_sessions'', ''ids_events'', ''alerts'', ''block_events''} \<Longrightarrow>
      be_session_refs be db label = map (\<lambda>r. (row_id r, Some (str_fld r ''session_id''))) rows"
  shows "\<exists>rpt'. validate_links be db rpt = Inr rpt'"
proof -
  have keys: "seed_keys (sp_network_sessions plan)" using plan_runtime_keys [OF assms(1)] by (simp add: runtime_tables_def)
  have refs: "be_session_refs be db ''network_sessions'' = map (\<lambda>r. (row_id r, Some (str_fld r ''session_id''))) (sp_network_sessions plan)"
    "be_session_refs be db ''ids_events'' = map (\<lambda>r. (row_id r, Some (str_fld r ''session_id''))) (sp_ids_events plan)"
    "be_session_refs be db ''alerts'' = map (\<lambda>r. (row_id r, Some (str_fld r ''session_id''))) (sp_alerts plan)"
    "be_session_refs be db ''block_events'' = map (\<lambda>r. (row_id r, Some (str_fld r ''session_id''))) (sp_block_events plan)"
    by (rule assms(2); simp add: runtime_tables_def)+
  have "missing_sessions be db ''ids_events'' = 0" "missing_sessions be db ''alerts'' = 0"
    "missing_sessions be db ''block_events'' = 0"
    using missing_none [OF refs(1,2) event_links(1) [OF assms(1)] keys]
      missing_none [OF refs(1,3) event_links(2) [OF assms(1)] keys]
      missing_none [OF refs(1,4) block_links(1) [OF assms(1)] keys] by blast+
  then show ?thesis by (simp add: validate_links_def)
qed

text \<open>A database kept as a list of tables and keys; it refuses the rows of one table.\<close>

definition memory_backend :: "string \<Rightarrow> (string \<times> string) list backend" where
  "memory_backend refused =
     \<lparr>be_table_names = \<lambda>_. [''users''], be_columns = \<lambda>_. [''id''],
      be_existing = \<lambda>db t ids. filter (\<lambda>k. (t, k) \<in> set db) ids,
      be_upsert = \<lambda>db t rows cols. if t = refused then Inl ''duplicate key'' else Inr (db @ map (\<lambda>r. (t, row_id r)) rows),
      be_delete_like = \<lambda>db t pattern. (length (filter (\<lambda>(u, k). u = t \<and> sql_like pattern k) db),
        filter (\<lambda>(u, k). \<not> (u = t \<and> sql_like pattern k)) db),
      be_summary = \<lambda>_. (1, 1, 0), be_threats = \<lambda>_. ([], 0), be_sessions = \<lambda>_. ([], 0),
      be_session_refs = \<lambda>_ _. [], be_login = \<lambda>_ _ _. Inl (BackendError [])\<rparr>"

lemma memory_backend_ok: "backend_ok (memory_backend refused) (\<lambda>db t. {k. (t, k) \<in> set db})"
  by (auto simp: backend_ok_def memory_backend_def split: if_splits)

lemma memory_upsert:
  "label \<noteq> refused \<Longrightarrow> \<exists>s'. bulk_upsert (memory_backend refused) (label, rows) s = Inr s'"
  by (cases s) (simp add: bulk_upsert_def memory_backend_def Let_def)

lemma memory_tables:
  "refused \<notin> fst ` set tables \<Longrightarrow> \<exists>db r. foldE (bulk_upsert (memory_backend refused)) tables s = Inr (db, r)"
proof (induction tables arbitrary: s)
  case (Cons table tables)
  then obtain s' where "bulk_upsert (memory_backend refused) table s = Inr s'"
    using memory_upsert [of "fst table" refused "snd table" s] by auto
  with Cons show ?case by simp
qed (simp add: surj_pair)

lemma memory_run: "\<exists>r db'. run_seed (memory_backend []) plan False False db = (Inr r, db')"
proof -
  have labels: "[] \<notin> fst ` set (auth_tables plan)" "[] \<notin> fst ` set (runtime_tables plan)"
    by (simp_all add: auth_tables_def runtime_tables_def)
  obtain db1 r1 where a: "foldE (bulk_upsert (memory_backend [])) (auth_tables plan) (db, new_report plan) = Inr (db1, r1)"
    using memory_tables [OF labels(1)] by blast
  obtain db2 r2 where "foldE (bulk_upsert (memory_backend [])) (runtime_tables plan) (db1, r1) = Inr (db2, r2)"
    using memory_tables [OF labels(2)] by blast
  with a have "run_seed (memory_backend []) plan False False db = (Inr r2, db2)"
    by (simp add: run_seed_def then_seed_def seed_users_auth_def seed_runtime_tables_def transaction_def)
      (simp add: memory_backend_def)
  then show ?thesis by blast
qed

lemma plain_plan: obtains plan where "build_seed_plan plain_hashes = Some plan" "length (sp_users plan) = 10"
proof -
  obtain plan where p: "build_seed_plan plain_hashes = Some plan"
    using build_seed_plan_total [of plain_hashes] by (auto simp: plain_hashes_def)
  with plan_counts [OF p] that show ?thesis by (simp add: auth_tables_def)
qed

theorem seeding_counts_witness:
  "\<exists>plan r db r2 db2. run_seed (memory_backend []) plan False False [] = (Inr r, db) \<and>
     run_seed (memory_backend []) plan False False db = (Inr r2, db2) \<and> ec_reused (entity ''users'' r2) = 10"
proof -
  obtain plan where p: "build_seed_plan plain_hashes = Some plan" "length (sp_users plan) = 10" by (rule plain_plan)
  obtain r db where one: "run_seed (memory_backend []) plan False False [] = (Inr r, db)"
    using memory_run by blast
  obtain r2 db2 where two: "run_seed (memory_backend []) plan False False db = (Inr r2, db2)"
    using memory_run by blast
  have "(''users'', sp_users plan) \<in> set (all_tables plan)" by (simp add: all_tables_def auth_tables_def)
  with seeding_counts [OF memory_backend_ok p(1) one two] have "ec_reused (entity ''users'' r2) = 10"
    using p(2) by auto
  with one two show ?thesis by blast
qed








end
