(* ===== verification/Spec2Isabelle.thy ===== *)
theory Spec2Isabelle
  imports Heuristics Engine Service LiveModel Artifacts Logging SeedRunner
begin

text \<open>
  A verification library for smartIDS: the engine that captures packets, detects and blocks
  attackers and reports to the backend, the pipeline that prepares data for its models, trains and
  evaluates them, and the tools around both.

  \<^bold>\<open>The program.\<close> A sniffer thread parses frames and puts packets into a bounded queue. The service
  takes them out and gives each to the packet processor, which evaluates heuristics and a
  brute-force policy on the source, groups packets into sessions, extracts features, asks the
  models, raises alerts, blocks addresses in the host's firewall, and publishes alerts, events,
  session updates, block notices and telemetry through bounded background publishers that spill to
  disk. Commands of the backend reach the processor by polling or over a WebSocket.

  Offline, raw CSV files are cleaned into prepared rows, split, and streamed in chunks through a
  model that is trained, evaluated and saved; checksum files are written beside the pickled
  artifacts, and the engine reads an artifact only when its checksum agrees. A seeder fills the
  database of the backend with demonstration data.

  \<^bold>\<open>The theories\<close>, in the order of their imports:

  \<^item> \<open>Prelude\<close>: Python dictionaries as association lists, state-monad rules (\<open>keeps\<close>), sliding time
    windows as a locale (\<open>time_window\<close>) shared by the detector, the policy and the telemetry.
  \<^item> \<open>PyRuntime\<close>: what the code uses of Python: rounding, integer and address parsing, string
    methods, JSON values, errors.
  \<^item> \<open>Traffic\<close>, \<open>SessionBuilder\<close>: \<open>traffic_engine/session_builder/\<close>. The session table partitions
    the packet stream; sessions expire as the timeouts say; running statistics are exact.
  \<^item> \<open>Features\<close>: \<open>feature_engine/\<close> and \<open>ml/features/schema.py\<close>. The feature row and its agreement
    with the incremental statistics.
  \<^item> \<open>Heuristics\<close>: \<open>threat_detection/heuristic.py\<close>. The pruned windows decide as the full history
    would; the number of tracked addresses is bounded.
  \<^item> \<open>Policy\<close>, \<open>Firewall\<close>, \<open>ActivityStores\<close>, \<open>AutoBlocker\<close>: \<open>response_engine/\<close>. The adapters satisfy
    the \<open>firewall\<close> locale; pending blocks and firewall rules agree, call after call; two calls at
    once can leave a block without an expiry (\<open>lost_block_race\<close>); the stores survive restarts.
  \<^item> \<open>Publisher\<close>: \<open>packet_capture/forwarding/background_publisher.py\<close> and \<open>disk_spill_store.py\<close>.
    The store refines a bounded queue; accepted payloads are never lost.
  \<^item> \<open>Telemetry\<close>, \<open>Contracts\<close>, \<open>ModelRuntime\<close>: the snapshot, the payloads, the pure-Python tree, the
    verification of artifacts before they are unpickled and the model stack.
  \<^item> \<open>Processor\<close>: \<open>packet_capture/processor/packet_processor.py\<close>, every handler as a state
    function over the record of its parts.
  \<^item> \<open>Engine\<close>: runs of packets, commands and secondary-model turns. The locales \<open>engine_part\<close>,
    \<open>engine_packets\<close>, \<open>engine_commands\<close> and their \<open>framed\<close> versions lift an invariant from the
    primitive writes to whole runs; the properties of the engine are instances.
  \<^item> \<open>Capture\<close>: the parser, the bounded queue, the capture filter and the choice of the interface.
  \<^item> \<open>Http\<close>, \<open>Registration\<close>, \<open>Realtime\<close>: signing, the forwarders and the poller; the browser
    registration; the WebSocket client. The locale \<open>drives_engine\<close> says that a transport changes
    the processor only through engine inputs; the catch-up poll, the frames and the polling thread
    are interpretations.
  \<^item> \<open>Service\<close>: \<open>packet_capture/sniffer_service.py\<close>, the composition: environment, credential,
    settings, delivery of commands, the bodies of the loops, and the running service as turns of
    its threads, commands being polled or pushed, to which the locales of \<open>Engine\<close> lift every
    invariant of the processor.
  \<^item> \<open>Datasets\<close>, \<open>Preparation\<close>: \<open>ml/features/\<close> and \<open>ml/datasets/\<close>. Raw files become prepared rows, each once
    and in order; the stratified split meets its targets; prepared data pass the checks of training,
    as far as \<open>csv_law\<close> says what pandas reads of a file it wrote.
  \<^item> \<open>Metrics\<close>, \<open>Training\<close>: \<open>train_xgboost_cicids2018.py\<close> and \<open>test_xgboost_cicids2018.py\<close>. The streaming iterator
    delivers every row once; the confusion matrix counts outcomes; the reports state what the
    matrix says, and evaluating on the training data reproduces the training report. A single class
    makes both raise.
  \<^item> \<open>LiveModel\<close>: the model wrappers, \<open>train_cicids2018_live_compatible.py\<close>, \<open>evaluate_cicids2018.py\<close>. The two
    computations of the false-positive rate agree.
  \<^item> \<open>Artifacts\<close>: \<open>generate_artifact_checksums.py\<close>, the aliases for unpickling and the predictor of completed
    flows. What the generator writes is what the engine verifies.
  \<^item> \<open>Logging\<close>: \<open>packet_capture/utils/logger.py\<close> and \<open>tools/\<close>. Every file of the log is appended the
    lines expected of it, in order, and rotates; what its rotation keeps is the end of them.
  \<^item> \<open>Seed\<close>, \<open>SeedPlan\<close>, \<open>SeedFacts\<close>, \<open>SeedRunner\<close>: \<open>scripts/seed/\<close>. The demonstration data is always built, its
    keys and references hold; a run counts what it writes and leaves no group of tables half
    written.

  \<^bold>\<open>Conventions.\<close> Floats are exact reals, with \<open>pyfloat\<close> where infinities and NaN matter; Python
  integers are \<open>int\<close> or \<open>nat\<close>; a method is a state function; what a method raises is a sum,
  threaded by \<open>bindE\<close>, \<open>foldE\<close> and \<open>mapE\<close>. A \<open>deque(maxlen=n)\<close> is \<open>last_n\<close>. The host, the network, the clock, random numbers, pickled
  models, \<open>xgboost\<close>, \<open>scikit-learn\<close>, the hash functions and the database are arguments, and hypotheses on them state documented behaviour only. Loops over
  finite data are structural recursion; a loop that serves forever is a list of turns. Only the loop
  that stretches a digest has fuel, the length it has to reach, which is enough because every
  round adds a character (\<open>extend_digest_enough\<close>).

  \<^bold>\<open>Threads.\<close> The locks of the code (queues, publishers, telemetry, stores) make their critical sections
  atomic steps. The packet processor and the blocker have no lock, although the packet thread and the
  thread that delivers commands both call them. A run of \<open>Engine\<close> or \<open>Service\<close> is a sequence of whole calls
  of the processor, in any order: its theorems hold as long as two calls do not overlap. Commands that were
  fetched together are separate turns, so that packets come between them. What an overlap can do is shown for
  the blocker, whose \<open>expire_block\<close> is split where the other thread breaks it (\<open>lost_block_race\<close>).

  \<^bold>\<open>Not modelled.\<close> Throttling of log lines, thread creation and sleeping; \<open>scapy\<close>,
  \<open>urllib\<close>, \<open>websockets\<close>, \<open>pandas\<close>, \<open>xgboost\<close> and \<open>scikit-learn\<close> themselves; the parsing of command lines and
  progress output, the text of the Markdown reports; \<open>packet_capture/main.py\<close>, which starts the
  service and handles signals;
  the backend, which is another repository. Some errors are outside the model: a block so long that its
  expiry is no float, or is after the year 9999, raises in \<open>set_block\<close> or \<open>record_block\<close>; a pickled model
  may raise where \<open>bundle_predict\<close> asks it; where two columns of a raw file have the same canonical name,
  pandas keeps both and \<open>coerce_row\<close> the first; the login that validates the seeded data is taken to be
  rolled back.
\<close>

end
